(* ===== verification/Prelude.thy ===== *)
theory Prelude
  imports Main "HOL-Library.Word" "HOL-Library.State_Monad"
begin

text \<open>
  The prelude of the development: names for the fixed-width integers of the C sources, the
  bit fields of the register unions, little-endian byte access, and the generic lemmas on
  words and lists that the component theories share.
\<close>

unbundle bit_operations_syntax

type_synonym u8 = "8 word"
type_synonym u16 = "16 word"
type_synonym u32 = "32 word"
type_synonym u64 = "64 word"

named_theorems reg_defs \<open>definitions of the register fields and register constants\<close>
named_theorems cmd_defs \<open>definitions of the command builders\<close>
named_theorems queue_defs \<open>definitions of the queue operations\<close>
named_theorems host_defs \<open>definitions of the host-side primitives\<close>

section \<open>Bit fields\<close>

text \<open>A C bit field: the position of its least significant bit and its width.\<close>

datatype bitfield = Bitfield (fld_off: nat) (fld_len: nat)

definition fld_get :: "bitfield \<Rightarrow> 'a::len word \<Rightarrow> 'a word" where
  "fld_get f w = take_bit (fld_len f) (drop_bit (fld_off f) w)"

definition fld_set :: "bitfield \<Rightarrow> 'a::len word \<Rightarrow> 'a word \<Rightarrow> 'a word" where
  "fld_set f v w = (w AND NOT (push_bit (fld_off f) (mask (fld_len f))))
                    OR push_bit (fld_off f) (take_bit (fld_len f) v)"

definition fld_disjoint :: "bitfield \<Rightarrow> bitfield \<Rightarrow> bool" where
  "fld_disjoint f g \<longleftrightarrow>
     fld_off f + fld_len f \<le> fld_off g \<or> fld_off g + fld_len g \<le> fld_off f"

text \<open>The layout the compiler gives to consecutive bit fields: each starts where the one
  before it ends.\<close>

fun layout_from :: "nat \<Rightarrow> nat list \<Rightarrow> bitfield list" where
  "layout_from n [] = []"
| "layout_from n (k # ks) = Bitfield n k # layout_from (n + k) ks"

lemma bit_fld_get:
  "bit (fld_get f (w :: 'a::len word)) n \<longleftrightarrow> n < fld_len f \<and> bit w (fld_off f + n)"
  by (auto simp: fld_get_def bit_take_bit_iff bit_drop_bit_eq)

lemma bit_fld_set:
  "bit (fld_set f v (w :: 'a::len word)) n \<longleftrightarrow>
     (if fld_off f \<le> n \<and> n < fld_off f + fld_len f
      then n < LENGTH('a) \<and> bit v (n - fld_off f) else bit w n)"
  by (auto simp: fld_set_def bit_or_iff bit_and_iff bit_not_iff bit_push_bit_iff
      bit_mask_iff bit_take_bit_iff possible_bit_def dest: bit_imp_le_length)

lemma fld_get_set_same:
  "fld_off f + fld_len f \<le> LENGTH('a) \<Longrightarrow>
   fld_get f (fld_set f v (w :: 'a::len word)) = take_bit (fld_len f) v"
  by (rule bit_eqI) (auto simp: bit_fld_get bit_fld_set bit_take_bit_iff)

lemma fld_get_set_other:
  "fld_disjoint f g \<Longrightarrow> fld_get f (fld_set g v w) = fld_get f w"
  by (rule bit_eqI) (auto simp: bit_fld_get bit_fld_set fld_disjoint_def)

lemma fld_set_get_id: "fld_set f (fld_get f w) w = w"
  by (rule bit_eqI) (auto simp: bit_fld_get bit_fld_set dest: bit_imp_le_length)

lemma fld_set_commute:
  "fld_disjoint f g \<Longrightarrow> fld_set f v (fld_set g u w) = fld_set g u (fld_set f v w)"
  by (rule bit_eqI) (auto simp: bit_fld_set fld_disjoint_def)

lemma fld_get_bound:
  "fld_len f < LENGTH('a) \<Longrightarrow> unat (fld_get f (w :: 'a::len word)) < 2 ^ fld_len f"
  by (simp add: fld_get_def unsigned_take_bit_eq)

section \<open>Words\<close>

lemma unat_bound: "unat (w :: 'a::len word) < 2 ^ LENGTH('a)"
  by (rule unsigned_less)

lemma word_add_le_nat:
  "unat a + unat b < 2 ^ LENGTH('a) \<Longrightarrow> unat (a + b :: 'a::len word) = unat a + unat b"
  by (simp add: unat_word_ariths)

lemma unat_succ_lt:
  "unat a < k \<Longrightarrow> k < 2 ^ LENGTH('a) \<Longrightarrow> unat (a + 1 :: 'a::len word) = Suc (unat a)"
  by (simp add: unat_word_ariths)

lemma unat_ucast_up:
  "LENGTH('a) \<le> LENGTH('b) \<Longrightarrow> unat (ucast (w :: 'a::len word) :: 'b::len word) = unat w"
  by (simp add: unsigned_ucast_eq take_bit_nat_eq_self_iff)
    (meson order_less_le_trans one_le_numeral power_increasing unsigned_less)

lemma ucast_u16_u32_unat [simp]: "unat (ucast (w :: u16) :: u32) = unat w"
  by (simp add: unat_ucast_up)

lemma ucast_u32_u64_unat [simp]: "unat (ucast (w :: u32) :: u64) = unat w"
  by (simp add: unat_ucast_up)

lemma ucast_u16_u64_unat [simp]: "unat (ucast (w :: u16) :: u64) = unat w"
  by (simp add: unat_ucast_up)

lemma ucast_u32_u16_u32 [simp]: "(ucast (ucast (w :: u16) :: u32) :: u16) = w"
  by (rule bit_eqI) (auto simp: bit_simps)


section \<open>Bytes and byte memories\<close>

text \<open>Little-endian bytes of a word and back, as \<^verbatim>\<open>memcpy\<close> between a word and a byte buffer moves
  them.\<close>

definition u32_bytes :: "u32 \<Rightarrow> u8 list" where
  "u32_bytes w = [ucast w, ucast (drop_bit 8 w), ucast (drop_bit 16 w), ucast (drop_bit 24 w)]"

definition u64_bytes :: "u64 \<Rightarrow> u8 list" where
  "u64_bytes w = u32_bytes (ucast w) @ u32_bytes (ucast (drop_bit 32 w))"

definition bytes_u32 :: "u8 list \<Rightarrow> nat \<Rightarrow> u32" where
  "bytes_u32 bs i = ucast (bs ! i) OR push_bit 8 (ucast (bs ! (i + 1)))
     OR push_bit 16 (ucast (bs ! (i + 2))) OR push_bit 24 (ucast (bs ! (i + 3)))"

definition bytes_u64 :: "u8 list \<Rightarrow> nat \<Rightarrow> u64" where
  "bytes_u64 bs i = ucast (bytes_u32 bs i) OR push_bit 32 (ucast (bytes_u32 bs (i + 4)))"

definition put_bytes :: "nat \<Rightarrow> 'a list \<Rightarrow> 'a list \<Rightarrow> 'a list" where
  "put_bytes i bs xs = take i xs @ bs @ drop (i + length bs) xs"

definition mem_store :: "(u64 \<Rightarrow> u8) \<Rightarrow> u64 \<Rightarrow> u8 list \<Rightarrow> (u64 \<Rightarrow> u8)" where
  "mem_store m base bs = (\<lambda>a. if unat (a - base) < length bs then bs ! unat (a - base) else m a)"

definition mem_load :: "(u64 \<Rightarrow> u8) \<Rightarrow> u64 \<Rightarrow> nat \<Rightarrow> u8 list" where
  "mem_load m base n = map (\<lambda>i. m (base + of_nat i)) [0..<n]"

lemma length_u32_bytes [simp]: "length (u32_bytes w) = 4"
  by (simp add: u32_bytes_def)

lemma length_u64_bytes [simp]: "length (u64_bytes w) = 8"
  by (simp add: u64_bytes_def)

lemma length_put_bytes [simp]: "i + length bs \<le> length xs \<Longrightarrow> length (put_bytes i bs xs) = length xs"
  by (simp add: put_bytes_def)

lemma nth_put_bytes:
  "i + length bs \<le> length xs \<Longrightarrow>
   put_bytes i bs xs ! j =
     (if i \<le> j \<and> j < i + length bs then bs ! (j - i) else xs ! j)"
  by (auto simp: put_bytes_def nth_append)

lemma length_mem_load [simp]: "length (mem_load m a n) = n"
  by (simp add: mem_load_def)

lemma mem_load_nth [simp]: "i < n \<Longrightarrow> mem_load m a n ! i = m (a + of_nat i)"
  by (simp add: mem_load_def)

lemma mem_load_store_same:
  assumes "length bs < 2 ^ 64"
  shows "mem_load (mem_store m a bs) a (length bs) = bs"
proof (rule nth_equalityI)
  fix i assume "i < length (mem_load (mem_store m a bs) a (length bs))"
  then have i: "i < length bs" by simp
  then have "unat (of_nat i :: u64) = i" using assms by (simp add: unat_of_nat)
  then show "mem_load (mem_store m a bs) a (length bs) ! i = bs ! i"
    using i by (simp add: mem_store_def)
qed simp

text \<open>Byte ranges of an address space that do not wrap past its end.\<close>

lemma mem_load_store_other:
  assumes "\<And>i. i < n \<Longrightarrow> length bs \<le> unat (a + of_nat i - b)"
  shows "mem_load (mem_store m b bs) a n = mem_load m a n"
  by (rule nth_equalityI) (auto simp: mem_store_def dest!: assms)

lemma mem_load_append: "mem_load m a (n + k) = mem_load m a n @ mem_load m (a + of_nat n) k"
  by (rule nth_equalityI) (auto simp: nth_append add.assoc simp flip: of_nat_add)

lemma u32_of_bytes:
  "ucast (ucast w :: u8) OR push_bit 8 (ucast (ucast (drop_bit 8 w) :: u8))
     OR push_bit 16 (ucast (ucast (drop_bit 16 w) :: u8))
     OR push_bit 24 (ucast (ucast (drop_bit 24 w) :: u8)) = (w :: u32)"
proof (rule bit_eqI)
  fix n assume "possible_bit TYPE(u32) n"
  then have "n < 32" by (simp add: possible_bit_def)
  then consider "n < 8" | "8 \<le> n" "n < 16" | "16 \<le> n" "n < 24" | "24 \<le> n" "n < 32" by linarith
  then show "bit (ucast (ucast w :: u8) OR push_bit 8 (ucast (ucast (drop_bit 8 w) :: u8))
     OR push_bit 16 (ucast (ucast (drop_bit 16 w) :: u8))
     OR push_bit 24 (ucast (ucast (drop_bit 24 w) :: u8)) :: u32) n = bit w n"
    by cases (auto simp: bit_simps possible_bit_def less_diff_conv2)
qed

lemma u32_bytes_nth:
  "u32_bytes w ! 0 = ucast w" "u32_bytes w ! Suc 0 = ucast (drop_bit 8 w)"
  "u32_bytes w ! 2 = ucast (drop_bit 16 w)" "u32_bytes w ! 3 = ucast (drop_bit 24 w)"
  by (simp_all add: u32_bytes_def)

lemma bytes_u32_put_same:
  assumes "i + 4 \<le> length xs"
  shows "bytes_u32 (put_bytes i (u32_bytes w) xs) i = w"
  using assms u32_of_bytes[of w] by (simp add: bytes_u32_def nth_put_bytes u32_bytes_nth)

lemma bytes_u32_put_other:
  assumes "i + length bs \<le> length xs" and "j + 4 \<le> i \<or> i + length bs \<le> j"
  shows "bytes_u32 (put_bytes i bs xs) j = bytes_u32 xs j"
  using assms by (auto simp: bytes_u32_def nth_put_bytes)

lemma bytes_u64_put_same:
  assumes "i + 8 \<le> length xs"
  shows "bytes_u64 (put_bytes i (u64_bytes w) xs) i = w"
proof -
  have 1: "bytes_u32 (put_bytes i (u64_bytes w) xs) i = ucast w"
    using assms u32_of_bytes[of "ucast w"]
    by (simp add: bytes_u32_def nth_put_bytes u64_bytes_def nth_append u32_bytes_nth)
  have 2: "bytes_u32 (put_bytes i (u64_bytes w) xs) (i + 4) = ucast (drop_bit 32 w)"
    using assms u32_of_bytes[of "ucast (drop_bit 32 w)"]
    by (simp add: bytes_u32_def nth_put_bytes u64_bytes_def nth_append u32_bytes_nth)
  have "ucast (ucast w :: u32) OR push_bit 32 (ucast (ucast (drop_bit 32 w) :: u32)) = (w :: u64)"
  proof (rule bit_eqI)
    fix n assume "possible_bit TYPE(u64) n"
    then show "bit (ucast (ucast w :: u32) OR
        push_bit 32 (ucast (ucast (drop_bit 32 w) :: u32)) :: u64) n = bit w n"
      by (cases "n < 32") (auto simp: bit_simps possible_bit_def less_diff_conv2)
  qed
  then show ?thesis by (simp add: bytes_u64_def 1 2)
qed

lemma mem_store_Nil [simp]: "mem_store m a [] = m"
  by (simp add: mem_store_def)

text \<open>Two adjacent stores are one.\<close>

lemma mem_store_append:
  assumes "length xs + length ys \<le> 2 ^ 64"
  shows "mem_store (mem_store m p xs) (p + of_nat (length xs)) ys = mem_store m p (xs @ ys)"
proof
  fix a
  let ?n = "length xs" and ?i = "unat (a - p)"
  show "mem_store (mem_store m p xs) (p + of_nat ?n) ys a = mem_store m p (xs @ ys) a"
  proof (cases "ys = []")
    case False
    then have n: "?n < 2 ^ 64" using assms by (cases ys) auto
    then have un: "unat (of_nat ?n :: u64) = ?n" by (simp add: unat_of_nat)
    have d: "a - (p + of_nat ?n) = (a - p) - of_nat ?n" by simp
    have "unat (a - (p + of_nat ?n)) = (if ?n \<le> ?i then ?i - ?n else ?i + 2 ^ 64 - ?n)"
      unfolding d using un by (subst unat_sub_if') simp
    then show ?thesis
      using assms n by (auto simp: mem_store_def nth_append)
  qed simp
qed

lemma put_bytes_append:
  assumes "i + length xs + length ys \<le> length l"
  shows "put_bytes (i + length xs) ys (put_bytes i xs l) = put_bytes i (xs @ ys) l"
  using assms by (intro nth_equalityI) (auto simp: nth_put_bytes nth_append)

lemma put_bytes_Nil [simp]: "put_bytes i [] l = l"
  by (simp add: put_bytes_def)

lemma take_drop_append:
  "take n (drop i l) @ take k (drop (i + n) l) = take (n + k) (drop i l)"
  by (simp add: take_add add.commute[of n i])

lemma mem_store_slices:
  assumes "i + (n + k) \<le> length l" and "length l < 2 ^ 64"
  shows "mem_store (mem_store m p (take n (drop i l))) (p + of_nat n) (take k (drop (i + n) l)) =
    mem_store m p (take (n + k) (drop i l))"
proof -
  have "length (take n (drop i l)) = n" using assms by simp
  then show ?thesis
    using mem_store_append[of "take n (drop i l)" "take k (drop (i + n) l)" m p] assms
    by (simp add: take_drop_append)
qed

lemma unat_minus_of_nat:
  "0 < n \<Longrightarrow> n < 2 ^ 64 \<Longrightarrow> unat (- of_nat n :: u64) = 2 ^ 64 - n"
  using unat_sub_if'[of "0 :: u64" "of_nat n"] by (simp add: unat_of_nat)

section \<open>Cutting a range into pieces\<close>

definition ceil_div :: "nat \<Rightarrow> nat \<Rightarrow> nat" where
  "ceil_div x b = (x + b - 1) div b"

lemma ceil_div_le_iff: "0 < b \<Longrightarrow> ceil_div x b \<le> m \<longleftrightarrow> x \<le> m * b"
proof -
  assume b: "0 < b"
  have "ceil_div x b \<le> m \<longleftrightarrow> x + b - 1 < Suc m * b"
    unfolding ceil_div_def using div_less_iff_less_mult[OF b, of "x + b - 1" "Suc m"] by linarith
  also have "\<dots> \<longleftrightarrow> x \<le> m * b" using b by simp linarith
  finally show ?thesis .
qed

lemma less_ceil_div_iff: "0 < b \<Longrightarrow> i < ceil_div x b \<longleftrightarrow> i * b < x"
  using ceil_div_le_iff[of b x i] by linarith

lemma ceil_div_mult [simp]: "0 < b \<Longrightarrow> ceil_div (q * b) b = q"
  by (meson ceil_div_le_iff mult_le_cancel2 order_antisym order_refl)

lemma ceil_div_diff: "0 < b \<Longrightarrow> ceil_div (x - k * b) b = ceil_div x b - k"
proof -
  assume b: "0 < b"
  have "ceil_div (x - k * b) b \<le> m \<longleftrightarrow> ceil_div x b - k \<le> m" for m
    using b by (simp add: ceil_div_le_iff le_diff_conv add_mult_distrib)
  then show ?thesis by (meson order_antisym order_refl)
qed

lemma ceil_div_min: "0 < b \<Longrightarrow> ceil_div (min x y) b = min (ceil_div x b) (ceil_div y b)"
proof -
  assume b: "0 < b"
  have "ceil_div (min x y) b \<le> m \<longleftrightarrow> min (ceil_div x b) (ceil_div y b) \<le> m" for m
    using b by (simp add: ceil_div_le_iff min_le_iff_disj)
  then show ?thesis by (meson order_antisym order_refl)
qed

text \<open>Consecutive pieces of size \<open>b\<close>, the last one cut off at \<open>t\<close>, make up the whole range.\<close>

lemma concat_pieces: "concat (map (\<lambda>i. [i * b..<min (i * b + b) t]) [0..<n]) = [0..<min (n * b) t]"
proof (induction n)
  case (Suc n)
  have "[0..<min (n * b) t] @ [n * b..<min (n * b + b) t] = [0..<min (Suc n * b) t]"
    using upt_add_eq_append[of 0 "n * b" "min (n * b + b) t - n * b"]
    by (cases "n * b \<le> t") (auto simp: min_def add.commute)
  then show ?case using Suc by simp
qed simp

lemma concat_shifted:
  "t \<le> n * b \<Longrightarrow> concat (map (\<lambda>i. map (\<lambda>k. f (i * b + k)) [0..<min (t - i * b) b]) [0..<n]) = map f [0..<t]"
proof -
  assume n: "t \<le> n * b"
  have piece: "map (\<lambda>k. f (a + k)) [0..<min (t - a) b] = map f [a..<min (a + b) t]" for a
    by (rule nth_equalityI) auto
  have "concat (map (\<lambda>i. map f [i * b..<min (i * b + b) t]) [0..<n])
      = map f (concat (map (\<lambda>i. [i * b..<min (i * b + b) t]) [0..<n]))"
    by (simp add: map_concat comp_def)
  then show ?thesis
    unfolding piece using n by (simp add: concat_pieces min_absorb2)
qed

text \<open>Pages of a piece of blocks, when a full piece is a whole number of pages.\<close>

lemma pieces_in_pages:
  assumes "0 < ps" and "b * bs = q * ps"
  shows "ceil_div (min (t - i * b) b * bs) ps = min (ceil_div (t * bs) ps - i * q) q"
proof -
  have "min (t - i * b) b * bs = min (t * bs - i * q * ps) (q * ps)"
    using assms(2) by (simp add: nat_mult_min_left diff_mult_distrib mult.assoc)
  then show ?thesis using assms(1) by (simp add: ceil_div_min ceil_div_diff)
qed

end
