(* ===== verification/Nvme_Regs.thy ===== *)
theory Nvme_Regs
  imports Prelude
begin

text \<open>
  The register layer of \<^verbatim>\<open>include/gpunvme/nvme_regs.h\<close> and the error codes of
  \<^verbatim>\<open>include/gpunvme/error.h\<close>: BAR0 offsets, the bit fields of the register unions, the
  submission and completion queue entries, the CQE status macros and the doorbell offsets.
  The interface \<open>reg_layout\<close> states what a register union promises to the code that reads and
  writes its fields; every union of the header is an interpretation of it.
\<close>

section \<open>BAR0 register offsets\<close>

definition NVME_REG_CAP :: u32 where [reg_defs]: "NVME_REG_CAP = 0x00"
definition NVME_REG_VS :: u32 where [reg_defs]: "NVME_REG_VS = 0x08"
definition NVME_REG_INTMS :: u32 where [reg_defs]: "NVME_REG_INTMS = 0x0C"
definition NVME_REG_INTMC :: u32 where [reg_defs]: "NVME_REG_INTMC = 0x10"
definition NVME_REG_CC :: u32 where [reg_defs]: "NVME_REG_CC = 0x14"
definition NVME_REG_CSTS :: u32 where [reg_defs]: "NVME_REG_CSTS = 0x1C"
definition NVME_REG_NSSR :: u32 where [reg_defs]: "NVME_REG_NSSR = 0x20"
definition NVME_REG_AQA :: u32 where [reg_defs]: "NVME_REG_AQA = 0x24"
definition NVME_REG_ASQ :: u32 where [reg_defs]: "NVME_REG_ASQ = 0x28"
definition NVME_REG_ACQ :: u32 where [reg_defs]: "NVME_REG_ACQ = 0x30"
definition NVME_REG_DOORBELL_BASE :: u32 where [reg_defs]: "NVME_REG_DOORBELL_BASE = 0x1000"

section \<open>The register unions\<close>

text \<open>A union of a raw word and a struct of bit fields is the raw word; a member of the struct
  is a bit field of it. The members of each struct are listed in the order of the header.\<close>

definition nvme_cap_t :: "bitfield list" where
  "nvme_cap_t = layout_from 0 [16, 1, 2, 5, 8, 4, 1, 8, 1, 2, 4, 4, 1, 1, 6]"

definition cap_mqes :: bitfield where [reg_defs]: "cap_mqes = Bitfield 0 16"
definition cap_cqr :: bitfield where [reg_defs]: "cap_cqr = Bitfield 16 1"
definition cap_ams :: bitfield where [reg_defs]: "cap_ams = Bitfield 17 2"
definition cap_to :: bitfield where [reg_defs]: "cap_to = Bitfield 24 8"
definition cap_dstrd :: bitfield where [reg_defs]: "cap_dstrd = Bitfield 32 4"
definition cap_nssrs :: bitfield where [reg_defs]: "cap_nssrs = Bitfield 36 1"
definition cap_css :: bitfield where [reg_defs]: "cap_css = Bitfield 37 8"
definition cap_mpsmin :: bitfield where [reg_defs]: "cap_mpsmin = Bitfield 48 4"
definition cap_mpsmax :: bitfield where [reg_defs]: "cap_mpsmax = Bitfield 52 4"

definition nvme_vs_t :: "bitfield list" where
  "nvme_vs_t = layout_from 0 [8, 8, 16]"

definition vs_ter :: bitfield where [reg_defs]: "vs_ter = Bitfield 0 8"
definition vs_mnr :: bitfield where [reg_defs]: "vs_mnr = Bitfield 8 8"
definition vs_mjr :: bitfield where [reg_defs]: "vs_mjr = Bitfield 16 16"

definition nvme_cc_t :: "bitfield list" where
  "nvme_cc_t = layout_from 0 [1, 3, 3, 4, 3, 2, 4, 4, 8]"

definition cc_en :: bitfield where [reg_defs]: "cc_en = Bitfield 0 1"
definition cc_css :: bitfield where [reg_defs]: "cc_css = Bitfield 4 3"
definition cc_mps :: bitfield where [reg_defs]: "cc_mps = Bitfield 7 4"
definition cc_ams :: bitfield where [reg_defs]: "cc_ams = Bitfield 11 3"
definition cc_shn :: bitfield where [reg_defs]: "cc_shn = Bitfield 14 2"
definition cc_iosqes :: bitfield where [reg_defs]: "cc_iosqes = Bitfield 16 4"
definition cc_iocqes :: bitfield where [reg_defs]: "cc_iocqes = Bitfield 20 4"

definition NVME_CC_SHN_NONE :: u32 where [reg_defs]: "NVME_CC_SHN_NONE = 0"
definition NVME_CC_SHN_NORMAL :: u32 where [reg_defs]: "NVME_CC_SHN_NORMAL = 1"
definition NVME_CC_SHN_ABRUPT :: u32 where [reg_defs]: "NVME_CC_SHN_ABRUPT = 2"

definition nvme_csts_t :: "bitfield list" where
  "nvme_csts_t = layout_from 0 [1, 1, 2, 1, 1, 26]"

definition csts_rdy :: bitfield where [reg_defs]: "csts_rdy = Bitfield 0 1"
definition csts_cfs :: bitfield where [reg_defs]: "csts_cfs = Bitfield 1 1"
definition csts_shst :: bitfield where [reg_defs]: "csts_shst = Bitfield 2 2"
definition csts_nssro :: bitfield where [reg_defs]: "csts_nssro = Bitfield 4 1"
definition csts_pp :: bitfield where [reg_defs]: "csts_pp = Bitfield 5 1"

definition NVME_CSTS_SHST_NONE :: u32 where [reg_defs]: "NVME_CSTS_SHST_NONE = 0"
definition NVME_CSTS_SHST_OCCURRING :: u32 where [reg_defs]: "NVME_CSTS_SHST_OCCURRING = 1"
definition NVME_CSTS_SHST_COMPLETE :: u32 where [reg_defs]: "NVME_CSTS_SHST_COMPLETE = 2"

definition nvme_aqa_t :: "bitfield list" where
  "nvme_aqa_t = layout_from 0 [12, 4, 12, 4]"

definition aqa_asqs :: bitfield where [reg_defs]: "aqa_asqs = Bitfield 0 12"
definition aqa_acqs :: bitfield where [reg_defs]: "aqa_acqs = Bitfield 16 12"

section \<open>Queue entries\<close>

text \<open>The 64-byte submission queue entry. Command dword 0 is one 32-bit word with five bit
  fields, since the device code also stores it as a whole.\<close>

record nvme_sq_entry =
  sqe_cdw0 :: u32
  sqe_nsid :: u32
  sqe_cdw2 :: u32
  sqe_cdw3 :: u32
  sqe_mptr :: u64
  sqe_prp1 :: u64
  sqe_prp2 :: u64
  sqe_cdw10 :: u32
  sqe_cdw11 :: u32
  sqe_cdw12 :: u32
  sqe_cdw13 :: u32
  sqe_cdw14 :: u32
  sqe_cdw15 :: u32

definition nvme_sqe_cdw0_t :: "bitfield list" where
  "nvme_sqe_cdw0_t = layout_from 0 [8, 2, 4, 2, 16]"

definition sqe_opc_f :: bitfield where [reg_defs]: "sqe_opc_f = Bitfield 0 8"
definition sqe_fuse_f :: bitfield where [reg_defs]: "sqe_fuse_f = Bitfield 8 2"
definition sqe_rsvd0_f :: bitfield where [reg_defs]: "sqe_rsvd0_f = Bitfield 10 4"
definition sqe_psdt_f :: bitfield where [reg_defs]: "sqe_psdt_f = Bitfield 14 2"
definition sqe_cid_f :: bitfield where [reg_defs]: "sqe_cid_f = Bitfield 16 16"

definition sqe_opc :: "nvme_sq_entry \<Rightarrow> u8" where
  "sqe_opc e = ucast (fld_get sqe_opc_f (sqe_cdw0 e))"

definition sqe_cid :: "nvme_sq_entry \<Rightarrow> u16" where
  "sqe_cid e = ucast (fld_get sqe_cid_f (sqe_cdw0 e))"

text \<open>The 16-byte completion queue entry, and its view as four little-endian dwords.\<close>

record nvme_cq_entry =
  cqe_cdw0 :: u32
  cqe_cdw1 :: u32
  cqe_sqhd :: u16
  cqe_sqid :: u16
  cqe_cid :: u16
  cqe_status_phase :: u16

fun cqe_dword :: "nvme_cq_entry \<Rightarrow> nat \<Rightarrow> u32" where
  "cqe_dword e 0 = cqe_cdw0 e"
| "cqe_dword e (Suc 0) = cqe_cdw1 e"
| "cqe_dword e (Suc (Suc 0)) = push_bit 16 (ucast (cqe_sqid e)) OR ucast (cqe_sqhd e)"
| "cqe_dword e _ = push_bit 16 (ucast (cqe_status_phase e)) OR ucast (cqe_cid e)"

text \<open>The all-zero entries that \<^verbatim>\<open>memset\<close> leaves.\<close>

definition sqe_zero :: nvme_sq_entry where
  "sqe_zero = \<lparr>sqe_cdw0 = 0, sqe_nsid = 0, sqe_cdw2 = 0, sqe_cdw3 = 0, sqe_mptr = 0,
     sqe_prp1 = 0, sqe_prp2 = 0, sqe_cdw10 = 0, sqe_cdw11 = 0, sqe_cdw12 = 0,
     sqe_cdw13 = 0, sqe_cdw14 = 0, sqe_cdw15 = 0\<rparr>"

definition cqe_zero :: nvme_cq_entry where
  "cqe_zero = \<lparr>cqe_cdw0 = 0, cqe_cdw1 = 0, cqe_sqhd = 0, cqe_sqid = 0, cqe_cid = 0,
     cqe_status_phase = 0\<rparr>"

section \<open>Status field macros\<close>

definition NVME_CQE_PHASE :: "u16 \<Rightarrow> u16" where "NVME_CQE_PHASE sp = sp AND 0x1"
definition NVME_CQE_STATUS :: "u16 \<Rightarrow> u16" where "NVME_CQE_STATUS sp = drop_bit 1 sp AND 0x7FFF"
definition NVME_CQE_SC :: "u16 \<Rightarrow> u16" where "NVME_CQE_SC sp = drop_bit 1 sp AND 0xFF"
definition NVME_CQE_SCT :: "u16 \<Rightarrow> u16" where "NVME_CQE_SCT sp = drop_bit 9 sp AND 0x7"
definition NVME_CQE_MORE :: "u16 \<Rightarrow> u16" where "NVME_CQE_MORE sp = drop_bit 14 sp AND 0x1"
definition NVME_CQE_DNR :: "u16 \<Rightarrow> u16" where "NVME_CQE_DNR sp = drop_bit 15 sp AND 0x1"

section \<open>Doorbell offsets\<close>

definition nvme_sq_doorbell_offset :: "u16 \<Rightarrow> u8 \<Rightarrow> u32" where
  "nvme_sq_doorbell_offset qid dstrd =
     NVME_REG_DOORBELL_BASE + (2 * ucast qid) * push_bit (unat dstrd) 4"

definition nvme_cq_doorbell_offset :: "u16 \<Rightarrow> u8 \<Rightarrow> u32" where
  "nvme_cq_doorbell_offset qid dstrd =
     NVME_REG_DOORBELL_BASE + ((2 * ucast qid) + 1) * push_bit (unat dstrd) 4"

definition nvme_reg_ptr :: "u64 \<Rightarrow> u32 \<Rightarrow> u64" where
  "nvme_reg_ptr bar0 offset = bar0 + ucast offset"

section \<open>Error codes (error.h)\<close>

datatype gpunvme_err =
    GPUNVME_OK
  | GPUNVME_ERR_NOMEM
  | GPUNVME_ERR_TIMEOUT
  | GPUNVME_ERR_NVME_STATUS
  | GPUNVME_ERR_CTRL_FATAL
  | GPUNVME_ERR_BAR_MAP
  | GPUNVME_ERR_CUDA
  | GPUNVME_ERR_PCI
  | GPUNVME_ERR_INVALID_PARAM
  | GPUNVME_ERR_NOT_READY
  | GPUNVME_ERR_QUEUE_FULL
  | GPUNVME_ERR_DMA
  | GPUNVME_ERR_P2P
  | GPUNVME_ERR_IO
  | GPUNVME_ERR_NOT_SUPPORTED

fun gpunvme_err_code :: "gpunvme_err \<Rightarrow> int" where
  "gpunvme_err_code GPUNVME_OK = 0"
| "gpunvme_err_code GPUNVME_ERR_NOMEM = -1"
| "gpunvme_err_code GPUNVME_ERR_TIMEOUT = -2"
| "gpunvme_err_code GPUNVME_ERR_NVME_STATUS = -3"
| "gpunvme_err_code GPUNVME_ERR_CTRL_FATAL = -4"
| "gpunvme_err_code GPUNVME_ERR_BAR_MAP = -5"
| "gpunvme_err_code GPUNVME_ERR_CUDA = -6"
| "gpunvme_err_code GPUNVME_ERR_PCI = -7"
| "gpunvme_err_code GPUNVME_ERR_INVALID_PARAM = -8"
| "gpunvme_err_code GPUNVME_ERR_NOT_READY = -9"
| "gpunvme_err_code GPUNVME_ERR_QUEUE_FULL = -10"
| "gpunvme_err_code GPUNVME_ERR_DMA = -11"
| "gpunvme_err_code GPUNVME_ERR_P2P = -12"
| "gpunvme_err_code GPUNVME_ERR_IO = -13"
| "gpunvme_err_code GPUNVME_ERR_NOT_SUPPORTED = -14"

text \<open>The argument of the C function is an enum and may hold any integer, hence the default.\<close>

definition gpunvme_err_str :: "int \<Rightarrow> string" where
  "gpunvme_err_str err =
    (if err = 0 then ''success''
     else if err = -1 then ''out of memory''
     else if err = -2 then ''timeout''
     else if err = -3 then ''NVMe error status''
     else if err = -4 then ''controller fatal status''
     else if err = -5 then ''BAR mapping failed''
     else if err = -6 then ''CUDA error''
     else if err = -7 then ''PCI error''
     else if err = -8 then ''invalid parameter''
     else if err = -9 then ''not ready''
     else if err = -10 then ''queue full''
     else if err = -11 then ''DMA error''
     else if err = -12 then ''P2P not available''
     else if err = -13 then ''I/O error''
     else if err = -14 then ''not supported''
     else ''unknown error'')"

definition NVME_SC_SUCCESS :: u16 where "NVME_SC_SUCCESS = 0x00"
definition NVME_SC_INVALID_OPCODE :: u16 where "NVME_SC_INVALID_OPCODE = 0x01"
definition NVME_SC_INVALID_FIELD :: u16 where "NVME_SC_INVALID_FIELD = 0x02"

section \<open>What a register layout promises\<close>

locale reg_layout =
  fixes fields :: "bitfield list" and width :: nat
  assumes contiguous: "fields = layout_from 0 (map fld_len fields)"
    and total: "sum_list (map fld_len fields) = width"

lemma length_layout_from [simp]: "length (layout_from n ks) = length ks"
  by (induction ks arbitrary: n) auto

lemma map_fld_len_layout_from [simp]: "map fld_len (layout_from n ks) = ks"
  by (induction ks arbitrary: n) auto

lemma layout_from_nth:
  "i < length ks \<Longrightarrow> layout_from n ks ! i = Bitfield (n + sum_list (take i ks)) (ks ! i)"
proof (induction ks arbitrary: n i)
  case Nil
  then show ?case by simp
next
  case (Cons k ks)
  then show ?case by (cases i) (auto simp: add.assoc)
qed

lemma sum_list_take_le: "j \<le> i \<Longrightarrow> sum_list (take j ks) \<le> sum_list (take i (ks :: nat list))"
proof -
  assume "j \<le> i"
  then have "take i ks = take j ks @ take (i - j) (drop j ks)"
    by (metis le_add_diff_inverse take_add)
  then show ?thesis by simp
qed

lemma sum_list_take_Suc:
  "i < length ks \<Longrightarrow> sum_list (take (Suc i) ks) = sum_list (take i ks) + ks ! (i :: nat)"
  by (simp add: take_Suc_conv_app_nth)

text \<open>Every bit position below the total width lies in exactly one of the fields.\<close>

lemma layout_covers:
  "b < sum_list ks \<Longrightarrow> \<exists>i < length ks. n + sum_list (take i ks) \<le> n + b
     \<and> n + b < n + sum_list (take i ks) + ks ! i" for b n :: nat and ks :: "nat list"
proof (induction ks arbitrary: b n)
  case Nil
  then show ?case by simp
next
  case (Cons k ks)
  show ?case
  proof (cases "b < k")
    case True
    then show ?thesis by (intro exI[of _ 0]) simp
  next
    case False
    with Cons.prems have "b - k < sum_list ks" by simp
    then obtain i where "i < length ks" and "sum_list (take i ks) \<le> b - k"
      and "b - k < sum_list (take i ks) + ks ! i"
      using Cons.IH[of "b - k" 0] by auto
    with False show ?thesis by (intro exI[of _ "Suc i"]) auto
  qed
qed

text \<open>The fields of a register are independent, and together they determine it.\<close>

definition fields_independent :: "bitfield list \<Rightarrow> 'a::len word itself \<Rightarrow> bool" where
  "fields_independent fs T \<longleftrightarrow>
     (\<forall>i j v (w :: 'a word). i < length fs \<longrightarrow> j < length fs \<longrightarrow>
        fld_get (fs ! i) (fld_set (fs ! j) v w) =
          (if i = j then take_bit (fld_len (fs ! i)) v else fld_get (fs ! i) w))
   \<and> (\<forall>w w' :: 'a word. list_all (\<lambda>f. fld_get f w = fld_get f w') fs \<longrightarrow> w = w')"

context reg_layout
begin

lemma nth_field:
  "i < length fields \<Longrightarrow>
   fields ! i = Bitfield (sum_list (take i (map fld_len fields))) (fld_len (fields ! i))"
  using layout_from_nth[of i "map fld_len fields" 0] contiguous by simp

lemma field_within: "f \<in> set fields \<Longrightarrow> fld_off f + fld_len f \<le> width"
proof -
  assume "f \<in> set fields"
  then obtain i where i: "i < length fields" and f: "f = fields ! i"
    by (auto simp: in_set_conv_nth)
  have "sum_list (take (Suc i) (map fld_len fields)) \<le> sum_list (map fld_len fields)"
    using sum_list_take_le[of "Suc i" "length fields" "map fld_len fields"] i by simp
  then show ?thesis
    using nth_field[OF i] i f total by (metis bitfield.sel(1) length_map nth_map sum_list_take_Suc)
qed

lemma fields_disjoint_lt: "i < j \<Longrightarrow> j < length fields \<Longrightarrow> fld_disjoint (fields ! i) (fields ! j)"
proof -
  assume ij: "i < j" and j: "j < length fields"
  let ?ks = "map fld_len fields"
  have "sum_list (take (Suc i) ?ks) \<le> sum_list (take j ?ks)"
    using ij by (intro sum_list_take_le) simp
  then have "fld_off (fields ! i) + fld_len (fields ! i) \<le> fld_off (fields ! j)"
    using nth_field[of i] nth_field[of j] ij j
    by (metis bitfield.sel(1) length_map nth_map order.strict_trans sum_list_take_Suc)
  then show ?thesis by (simp add: fld_disjoint_def)
qed

lemma fields_disjoint:
  "i < length fields \<Longrightarrow> j < length fields \<Longrightarrow> i \<noteq> j \<Longrightarrow> fld_disjoint (fields ! i) (fields ! j)"
  using fields_disjoint_lt[of i j] fields_disjoint_lt[of j i]
  by (metis fld_disjoint_def nat_neq_iff)

lemma get_set:
  assumes "i < length fields" and "j < length fields" and "width = LENGTH('a)"
  shows "fld_get (fields ! i) (fld_set (fields ! j) v (w :: 'a::len word)) =
     (if i = j then take_bit (fld_len (fields ! i)) v else fld_get (fields ! i) w)"
  using assms fields_disjoint[of i j] field_within[of "fields ! i"]
  by (auto simp: fld_get_set_same fld_get_set_other)

lemma raw_determined:
  assumes "width = LENGTH('a)"
    and "\<And>f. f \<in> set fields \<Longrightarrow> fld_get f w = fld_get f (w' :: 'a::len word)"
  shows "w = w'"
proof (rule bit_eqI)
  fix b assume "possible_bit TYPE('a word) b"
  then have "b < sum_list (map fld_len fields)"
    using total assms(1) by (simp add: possible_bit_def)
  then obtain i where i: "i < length fields"
    and lo: "sum_list (take i (map fld_len fields)) \<le> b"
    and hi: "b < sum_list (take i (map fld_len fields)) + fld_len (fields ! i)"
    using layout_covers[of b "map fld_len fields" 0] by auto
  have "bit (fld_get (fields ! i) w) (b - fld_off (fields ! i)) =
        bit (fld_get (fields ! i) w') (b - fld_off (fields ! i))"
    using assms(2) i by simp
  moreover have "fld_off (fields ! i) = sum_list (take i (map fld_len fields))"
    using nth_field[OF i] by (metis bitfield.sel(1))
  ultimately show "bit w b = bit w' b" using lo hi by (auto simp: bit_fld_get)
qed

lemma independent: "width = LENGTH('a) \<Longrightarrow> fields_independent fields TYPE('a::len word)"
  unfolding fields_independent_def list_all_iff using get_set raw_determined by blast

end

interpretation cap: reg_layout nvme_cap_t 64
  by unfold_locales (simp_all add: nvme_cap_t_def)

interpretation vs: reg_layout nvme_vs_t 32
  by unfold_locales (simp_all add: nvme_vs_t_def)

interpretation cc: reg_layout nvme_cc_t 32
  by unfold_locales (simp_all add: nvme_cc_t_def)

interpretation csts: reg_layout nvme_csts_t 32
  by unfold_locales (simp_all add: nvme_csts_t_def)

interpretation aqa: reg_layout nvme_aqa_t 32
  by unfold_locales (simp_all add: nvme_aqa_t_def)

interpretation sqe_cdw0: reg_layout nvme_sqe_cdw0_t 32
  by unfold_locales (simp_all add: nvme_sqe_cdw0_t_def)


section \<open>The named fields\<close>

lemma named_fields_in_layout:
  "{cap_mqes, cap_cqr, cap_ams, cap_to, cap_dstrd, cap_nssrs, cap_css, cap_mpsmin, cap_mpsmax}
     \<subseteq> set nvme_cap_t"
  "set nvme_vs_t = {vs_ter, vs_mnr, vs_mjr}"
  "{cc_en, cc_css, cc_mps, cc_ams, cc_shn, cc_iosqes, cc_iocqes} \<subseteq> set nvme_cc_t"
  "{csts_rdy, csts_cfs, csts_shst, csts_nssro, csts_pp} \<subseteq> set nvme_csts_t"
  "{aqa_asqs, aqa_acqs} \<subseteq> set nvme_aqa_t"
  "set nvme_sqe_cdw0_t = {sqe_opc_f, sqe_fuse_f, sqe_rsvd0_f, sqe_psdt_f, sqe_cid_f}"
  by (simp_all add: nvme_cap_t_def nvme_vs_t_def nvme_cc_t_def nvme_csts_t_def nvme_aqa_t_def
      nvme_sqe_cdw0_t_def reg_defs insert_commute)

section \<open>Status macros\<close>

lemma u16_masks:
  "(0x7FFF :: u16) = mask 15" "(0xFF :: u16) = mask 8" "(0x7 :: u16) = mask 3" "(0x1 :: u16) = mask 1"
  by (simp_all add: mask_eq_exp_minus_1)

lemma cqe_macro_bits:
  "bit (NVME_CQE_PHASE sp) n \<longleftrightarrow> n = 0 \<and> bit sp 0"
  "bit (NVME_CQE_STATUS sp) n \<longleftrightarrow> n < 15 \<and> bit sp (Suc n)"
  "bit (NVME_CQE_SC sp) n \<longleftrightarrow> n < 8 \<and> bit sp (Suc n)"
  "bit (NVME_CQE_SCT sp) n \<longleftrightarrow> n < 3 \<and> bit sp (9 + n)"
  "bit (NVME_CQE_MORE sp) n \<longleftrightarrow> n = 0 \<and> bit sp 14"
  "bit (NVME_CQE_DNR sp) n \<longleftrightarrow> n = 0 \<and> bit sp 15"
  unfolding NVME_CQE_PHASE_def NVME_CQE_STATUS_def NVME_CQE_SC_def NVME_CQE_SCT_def
    NVME_CQE_MORE_def NVME_CQE_DNR_def u16_masks
  by (auto simp: bit_and_iff bit_mask_iff bit_drop_bit_eq possible_bit_def bit_1_iff
      dest: bit_imp_le_length)

lemma status_phase_split: "sp = push_bit 1 (NVME_CQE_STATUS sp) OR NVME_CQE_PHASE sp"
proof (rule bit_eqI)
  fix n assume "possible_bit TYPE(u16) n"
  then show "bit sp n = bit (push_bit 1 (NVME_CQE_STATUS sp) OR NVME_CQE_PHASE sp) n"
    unfolding bit_or_iff bit_push_bit_iff cqe_macro_bits
    by (cases n) (auto simp: possible_bit_def dest: bit_imp_le_length)
qed

lemma phase_cases: "NVME_CQE_PHASE sp = 0 \<or> NVME_CQE_PHASE sp = 1"
proof -
  have "NVME_CQE_PHASE sp = (if bit sp 0 then 1 else 0)"
    by (rule bit_eqI) (auto simp: cqe_macro_bits bit_1_iff)
  then show ?thesis by simp
qed

text \<open>A status code of zero does not make the status zero: the status code type and the upper
  bits are part of it.\<close>

lemma status_zero_iff:
  "NVME_CQE_STATUS sp = 0 \<longleftrightarrow>
     NVME_CQE_SC sp = 0 \<and> NVME_CQE_SCT sp = 0 \<and> drop_bit 12 sp = 0"
proof
  assume "NVME_CQE_STATUS sp = 0"
  then have z: "\<not> bit sp (Suc n)" if "n < 15" for n
    using that cqe_macro_bits(2)[of sp n] by simp
  have "NVME_CQE_SC sp = 0"
    using z by (intro bit_eqI) (auto simp: cqe_macro_bits)
  moreover have "NVME_CQE_SCT sp = 0"
  proof (rule bit_eqI)
    fix n
    show "bit (NVME_CQE_SCT sp) n = bit 0 n"
      using z[of "8 + n"] by (auto simp: cqe_macro_bits)
  qed
  moreover have "drop_bit 12 sp = 0"
  proof (rule bit_eqI)
    fix n
    show "bit (drop_bit 12 sp) n = bit 0 n"
      using z[of "11 + n"] bit_imp_le_length[of sp "12 + n"] by (auto simp: bit_drop_bit_eq)
  qed
  ultimately show "NVME_CQE_SC sp = 0 \<and> NVME_CQE_SCT sp = 0 \<and> drop_bit 12 sp = 0" by simp
next
  assume z: "NVME_CQE_SC sp = 0 \<and> NVME_CQE_SCT sp = 0 \<and> drop_bit 12 sp = 0"
  have "\<not> bit sp (Suc n)" if "n < 15" for n
  proof -
    consider "n < 8" | "8 \<le> n" "n < 11" | "11 \<le> n" by linarith
    then show ?thesis
    proof cases
      case 1
      then show ?thesis using z cqe_macro_bits(3)[of sp n] by simp
    next
      case 2
      then show ?thesis using z cqe_macro_bits(4)[of sp "n - 8"] by simp
    next
      case 3
      then show ?thesis using z bit_drop_bit_eq[of 12 sp, THEN fun_cong, of "n - 11"] by simp
    qed
  qed
  then show "NVME_CQE_STATUS sp = 0" by (intro bit_eqI) (auto simp: cqe_macro_bits)
qed

section \<open>Doorbells\<close>

lemma unat_stride: "dstrd \<le> 13 \<Longrightarrow> unat (push_bit (unat (dstrd :: u8)) (4 :: u32)) = 4 * 2 ^ unat dstrd"
proof -
  assume "dstrd \<le> 13"
  then have d: "unat dstrd \<le> 13" by (simp add: word_le_nat_alt)
  then have "(2::nat) ^ unat dstrd \<le> 2 ^ 13" by (intro power_increasing) auto
  then show ?thesis
    unfolding unsigned_push_bit_eq by (simp add: push_bit_eq_mult take_bit_nat_eq_self_iff mult.commute)
qed

lemma unat_doorbell_offsets:
  assumes "dstrd \<le> 13"
  shows "unat (nvme_sq_doorbell_offset q dstrd) = 0x1000 + (2 * unat q) * (4 * 2 ^ unat dstrd)"
    and "unat (nvme_cq_doorbell_offset q dstrd) = 0x1000 + (2 * unat q + 1) * (4 * 2 ^ unat dstrd)"
proof -
  let ?s = "push_bit (unat dstrd) (4 :: u32)"
  have s: "unat ?s = 4 * 2 ^ unat dstrd" using assms by (rule unat_stride)
  have "unat dstrd \<le> 13" using assms by (simp add: word_le_nat_alt)
  then have "(2::nat) ^ unat dstrd \<le> 2 ^ 13" by (intro power_increasing) auto
  then have sb: "unat ?s \<le> 32768" using s by simp
  have q: "unat q < 65536" using unsigned_less[of q] by simp
  have q2: "unat (2 * ucast q :: u32) = 2 * unat q" using q by (simp add: unat_word_ariths)
  have q3: "unat (2 * ucast q + 1 :: u32) = 2 * unat q + 1"
    using q by (simp add: unat_word_ariths)
  have b: "(2 * unat q + 1) * unat ?s \<le> 131071 * 32768"
    using q sb by (intro mult_le_mono) auto
  then have "(2 * unat q) * unat ?s \<le> 131071 * 32768" by (simp add: add_mult_distrib)
  then show "unat (nvme_sq_doorbell_offset q dstrd) = 0x1000 + (2 * unat q) * (4 * 2 ^ unat dstrd)"
    using q2 s by (simp add: nvme_sq_doorbell_offset_def NVME_REG_DOORBELL_BASE_def unat_word_ariths)
  show "unat (nvme_cq_doorbell_offset q dstrd) = 0x1000 + (2 * unat q + 1) * (4 * 2 ^ unat dstrd)"
    using b q3 s by (simp add: nvme_cq_doorbell_offset_def NVME_REG_DOORBELL_BASE_def unat_word_ariths)
qed

section \<open>Properties of the register layouts\<close>


text \<open>Doorbell registers of different queues never overlap: for every stride up to the 13 that
  the 32-bit computation supports, the 4-byte registers of any two queue identifiers, submission or
  completion, are disjoint, and they lie at or above offset 0x1000.\<close>

theorem doorbells_disjoint:
  assumes "dstrd \<le> 13"
  shows "0x1000 \<le> unat (nvme_sq_doorbell_offset q dstrd)
    \<and> unat (nvme_sq_doorbell_offset q dstrd) + 4 \<le> unat (nvme_cq_doorbell_offset q dstrd)
    \<and> (q < q' \<longrightarrow> unat (nvme_cq_doorbell_offset q dstrd) + 4 \<le> unat (nvme_sq_doorbell_offset q' dstrd))"
proof -
  define k where "k = 4 * (2 :: nat) ^ unat dstrd"
  have k: "4 \<le> k" by (simp add: k_def)
  note off = unat_doorbell_offsets[OF assms, folded k_def]
  have "(2 * unat q + 2) * k \<le> 2 * unat q' * k" if "q < q'"
    using that by (intro mult_le_mono1) (simp add: word_less_nat_alt)
  with k show ?thesis by (auto simp: off algebra_simps)
qed

theorem doorbells_disjoint_witness:
  "unat (nvme_cq_doorbell_offset 1 2) + 4 \<le> unat (nvme_sq_doorbell_offset 2 2)"
  using doorbells_disjoint[of 2 1 2] by simp

text \<open>The status word of a completion is its status and its phase, and the status is zero only
  if both the status code and the status code type are: a status code of zero alone is no success.\<close>

theorem cqe_status_fields:
  "sp = push_bit 1 (NVME_CQE_STATUS sp) OR NVME_CQE_PHASE sp
   \<and> (NVME_CQE_STATUS sp = 0 \<longleftrightarrow> NVME_CQE_SC sp = 0 \<and> NVME_CQE_SCT sp = 0 \<and> drop_bit 12 sp = 0)
   \<and> NVME_CQE_STATUS (push_bit 9 1) \<noteq> 0 \<and> NVME_CQE_SC (push_bit 9 1) = 0"
  using status_phase_split[of sp] status_zero_iff[of sp]
  by (simp add: NVME_CQE_STATUS_def NVME_CQE_SC_def)

end
