(* ===== verification/Nvme_Cmds.thy ===== *)
theory Nvme_Cmds
  imports Nvme_Regs
begin

text \<open>
  The opcodes and the command builders of \<^verbatim>\<open>include/gpunvme/nvme_cmds.h\<close>. A builder takes the
  entry it overwrites as its first argument, as the C function takes a pointer to it. The second
  half decodes the built entries the way a controller does and shows that every argument of a
  builder can be read back.
\<close>

section \<open>Opcodes and flags\<close>

definition NVME_ADMIN_OPC_DELETE_IO_SQ :: u8 where [cmd_defs]: "NVME_ADMIN_OPC_DELETE_IO_SQ = 0x00"
definition NVME_ADMIN_OPC_CREATE_IO_SQ :: u8 where [cmd_defs]: "NVME_ADMIN_OPC_CREATE_IO_SQ = 0x01"
definition NVME_ADMIN_OPC_DELETE_IO_CQ :: u8 where [cmd_defs]: "NVME_ADMIN_OPC_DELETE_IO_CQ = 0x04"
definition NVME_ADMIN_OPC_CREATE_IO_CQ :: u8 where [cmd_defs]: "NVME_ADMIN_OPC_CREATE_IO_CQ = 0x05"
definition NVME_ADMIN_OPC_IDENTIFY :: u8 where [cmd_defs]: "NVME_ADMIN_OPC_IDENTIFY = 0x06"

definition NVME_IO_OPC_FLUSH :: u8 where [cmd_defs]: "NVME_IO_OPC_FLUSH = 0x00"
definition NVME_IO_OPC_WRITE :: u8 where [cmd_defs]: "NVME_IO_OPC_WRITE = 0x01"
definition NVME_IO_OPC_READ :: u8 where [cmd_defs]: "NVME_IO_OPC_READ = 0x02"

definition NVME_IDENTIFY_CNS_NAMESPACE :: u32 where [cmd_defs]: "NVME_IDENTIFY_CNS_NAMESPACE = 0x00"
definition NVME_IDENTIFY_CNS_CONTROLLER :: u32 where [cmd_defs]: "NVME_IDENTIFY_CNS_CONTROLLER = 0x01"

definition NVME_CQ_PC :: u32 where [cmd_defs]: "NVME_CQ_PC = push_bit 0 1"
definition NVME_CQ_IEN :: u32 where [cmd_defs]: "NVME_CQ_IEN = push_bit 1 1"
definition NVME_SQ_PC :: u32 where [cmd_defs]: "NVME_SQ_PC = push_bit 0 1"

section \<open>Builders\<close>

text \<open>Assignments to the bit fields of command dword 0.\<close>

definition sqe_set_opc :: "u8 \<Rightarrow> nvme_sq_entry \<Rightarrow> nvme_sq_entry" where
  "sqe_set_opc v e = e\<lparr>sqe_cdw0 := fld_set sqe_opc_f (ucast v) (sqe_cdw0 e)\<rparr>"

definition sqe_set_cid :: "u16 \<Rightarrow> nvme_sq_entry \<Rightarrow> nvme_sq_entry" where
  "sqe_set_cid v e = e\<lparr>sqe_cdw0 := fld_set sqe_cid_f (ucast v) (sqe_cdw0 e)\<rparr>"

definition nvme_cmd_init :: "nvme_sq_entry \<Rightarrow> nvme_sq_entry" where
  "nvme_cmd_init cmd = sqe_zero"

definition nvme_cmd_identify_controller :: "nvme_sq_entry \<Rightarrow> u16 \<Rightarrow> u64 \<Rightarrow> nvme_sq_entry" where
  "nvme_cmd_identify_controller cmd cid prp1_phys =
    (let cmd = nvme_cmd_init cmd;
         cmd = sqe_set_opc NVME_ADMIN_OPC_IDENTIFY cmd;
         cmd = sqe_set_cid cid cmd;
         cmd = cmd\<lparr>sqe_nsid := 0\<rparr>;
         cmd = cmd\<lparr>sqe_prp1 := prp1_phys\<rparr>
     in cmd\<lparr>sqe_cdw10 := NVME_IDENTIFY_CNS_CONTROLLER\<rparr>)"

definition nvme_cmd_identify_namespace ::
    "nvme_sq_entry \<Rightarrow> u16 \<Rightarrow> u32 \<Rightarrow> u64 \<Rightarrow> nvme_sq_entry" where
  "nvme_cmd_identify_namespace cmd cid nsid prp1_phys =
    (let cmd = nvme_cmd_init cmd;
         cmd = sqe_set_opc NVME_ADMIN_OPC_IDENTIFY cmd;
         cmd = sqe_set_cid cid cmd;
         cmd = cmd\<lparr>sqe_nsid := nsid\<rparr>;
         cmd = cmd\<lparr>sqe_prp1 := prp1_phys\<rparr>
     in cmd\<lparr>sqe_cdw10 := NVME_IDENTIFY_CNS_NAMESPACE\<rparr>)"

definition nvme_cmd_create_io_cq ::
    "nvme_sq_entry \<Rightarrow> u16 \<Rightarrow> u16 \<Rightarrow> u16 \<Rightarrow> u64 \<Rightarrow> u16 \<Rightarrow> nvme_sq_entry" where
  "nvme_cmd_create_io_cq cmd cid qid qsize_0based cq_phys iv =
    (let cmd = nvme_cmd_init cmd;
         cmd = sqe_set_opc NVME_ADMIN_OPC_CREATE_IO_CQ cmd;
         cmd = sqe_set_cid cid cmd;
         cmd = cmd\<lparr>sqe_prp1 := cq_phys\<rparr>;
         cmd = cmd\<lparr>sqe_cdw10 := push_bit 16 (ucast qsize_0based) OR ucast qid\<rparr>
     in cmd\<lparr>sqe_cdw11 := NVME_CQ_PC OR push_bit 16 (ucast iv)\<rparr>)"

definition nvme_cmd_create_io_sq ::
    "nvme_sq_entry \<Rightarrow> u16 \<Rightarrow> u16 \<Rightarrow> u16 \<Rightarrow> u64 \<Rightarrow> u16 \<Rightarrow> nvme_sq_entry" where
  "nvme_cmd_create_io_sq cmd cid qid qsize_0based sq_phys cqid =
    (let cmd = nvme_cmd_init cmd;
         cmd = sqe_set_opc NVME_ADMIN_OPC_CREATE_IO_SQ cmd;
         cmd = sqe_set_cid cid cmd;
         cmd = cmd\<lparr>sqe_prp1 := sq_phys\<rparr>;
         cmd = cmd\<lparr>sqe_cdw10 := push_bit 16 (ucast qsize_0based) OR ucast qid\<rparr>
     in cmd\<lparr>sqe_cdw11 := NVME_SQ_PC OR push_bit 16 (ucast cqid)\<rparr>)"

definition nvme_cmd_read ::
    "nvme_sq_entry \<Rightarrow> u16 \<Rightarrow> u32 \<Rightarrow> u64 \<Rightarrow> u64 \<Rightarrow> u64 \<Rightarrow> u16 \<Rightarrow> nvme_sq_entry" where
  "nvme_cmd_read cmd cid nsid prp1_phys prp2_phys slba nlb_0based =
    (let cmd = nvme_cmd_init cmd;
         cmd = sqe_set_opc NVME_IO_OPC_READ cmd;
         cmd = sqe_set_cid cid cmd;
         cmd = cmd\<lparr>sqe_nsid := nsid\<rparr>;
         cmd = cmd\<lparr>sqe_prp1 := prp1_phys\<rparr>;
         cmd = cmd\<lparr>sqe_prp2 := prp2_phys\<rparr>;
         cmd = cmd\<lparr>sqe_cdw10 := ucast (slba AND 0xFFFFFFFF)\<rparr>;
         cmd = cmd\<lparr>sqe_cdw11 := ucast (drop_bit 32 slba)\<rparr>
     in cmd\<lparr>sqe_cdw12 := ucast nlb_0based\<rparr>)"

definition nvme_cmd_write ::
    "nvme_sq_entry \<Rightarrow> u16 \<Rightarrow> u32 \<Rightarrow> u64 \<Rightarrow> u64 \<Rightarrow> u64 \<Rightarrow> u16 \<Rightarrow> nvme_sq_entry" where
  "nvme_cmd_write cmd cid nsid prp1_phys prp2_phys slba nlb_0based =
    (let cmd = nvme_cmd_init cmd;
         cmd = sqe_set_opc NVME_IO_OPC_WRITE cmd;
         cmd = sqe_set_cid cid cmd;
         cmd = cmd\<lparr>sqe_nsid := nsid\<rparr>;
         cmd = cmd\<lparr>sqe_prp1 := prp1_phys\<rparr>;
         cmd = cmd\<lparr>sqe_prp2 := prp2_phys\<rparr>;
         cmd = cmd\<lparr>sqe_cdw10 := ucast (slba AND 0xFFFFFFFF)\<rparr>;
         cmd = cmd\<lparr>sqe_cdw11 := ucast (drop_bit 32 slba)\<rparr>
     in cmd\<lparr>sqe_cdw12 := ucast nlb_0based\<rparr>)"

definition nvme_cmd_flush :: "nvme_sq_entry \<Rightarrow> u16 \<Rightarrow> u32 \<Rightarrow> nvme_sq_entry" where
  "nvme_cmd_flush cmd cid nsid =
    (let cmd = nvme_cmd_init cmd;
         cmd = sqe_set_opc NVME_IO_OPC_FLUSH cmd;
         cmd = sqe_set_cid cid cmd
     in cmd\<lparr>sqe_nsid := nsid\<rparr>)"

definition nvme_cmd_delete_io_sq :: "nvme_sq_entry \<Rightarrow> u16 \<Rightarrow> u16 \<Rightarrow> nvme_sq_entry" where
  "nvme_cmd_delete_io_sq cmd cid qid =
    (let cmd = nvme_cmd_init cmd;
         cmd = sqe_set_opc NVME_ADMIN_OPC_DELETE_IO_SQ cmd;
         cmd = sqe_set_cid cid cmd
     in cmd\<lparr>sqe_cdw10 := ucast qid\<rparr>)"

definition nvme_cmd_delete_io_cq :: "nvme_sq_entry \<Rightarrow> u16 \<Rightarrow> u16 \<Rightarrow> nvme_sq_entry" where
  "nvme_cmd_delete_io_cq cmd cid qid =
    (let cmd = nvme_cmd_init cmd;
         cmd = sqe_set_opc NVME_ADMIN_OPC_DELETE_IO_CQ cmd;
         cmd = sqe_set_cid cid cmd
     in cmd\<lparr>sqe_cdw10 := ucast qid\<rparr>)"

section \<open>Decoding\<close>

text \<open>How a controller reads the fields of a read or write command back; the simulator's
  \<^verbatim>\<open>sim_process_read\<close> and \<^verbatim>\<open>sim_process_write\<close> use exactly these expressions.\<close>

definition cmd_slba :: "nvme_sq_entry \<Rightarrow> u64" where
  "cmd_slba e = push_bit 32 (ucast (sqe_cdw11 e)) OR ucast (sqe_cdw10 e)"

definition cmd_nlb :: "nvme_sq_entry \<Rightarrow> u32" where
  "cmd_nlb e = (sqe_cdw12 e AND 0xFFFF) + 1"

definition cmd_lo16 :: "u32 \<Rightarrow> u16" where "cmd_lo16 w = ucast w"
definition cmd_hi16 :: "u32 \<Rightarrow> u16" where "cmd_hi16 w = ucast (drop_bit 16 w)"

lemma u32_ffff: "(0xFFFF :: u32) = mask 16"
  by (simp add: mask_eq_exp_minus_1)

lemma u64_ffffffff: "(0xFFFFFFFF :: u64) = mask 32"
  by (simp add: mask_eq_exp_minus_1)

lemma slba_split:
  "push_bit 32 (ucast (ucast (drop_bit 32 (s :: u64)) :: u32)) OR
     (ucast (ucast (s AND 0xFFFFFFFF) :: u32) :: u64) = s"
  unfolding u64_ffffffff
proof (rule bit_eqI)
  fix n assume "possible_bit TYPE(u64) n"
  then show "bit (push_bit 32 (ucast (ucast (drop_bit 32 s) :: u32)) OR
     (ucast (ucast (s AND mask 32) :: u32) :: u64)) n = bit s n"
    by (cases "n < 32") (auto simp: bit_simps possible_bit_def)
qed

lemma u16_pair_lo [simp]: "(ucast (push_bit 16 (ucast (hi :: u16)) OR ucast (lo :: u16) :: u32) :: u16) = lo"
  by (rule bit_eqI) (auto simp: bit_simps possible_bit_def)

lemma u16_pair_hi:
  "(ucast (drop_bit 16 (push_bit 16 (ucast (hi :: u16)) OR ucast (lo :: u16) :: u32)) :: u16) = hi"
  by (rule bit_eqI) (auto simp: bit_simps possible_bit_def dest: bit_imp_le_length)

lemma cmd_pair [simp]:
  "cmd_lo16 (push_bit 16 (ucast hi) OR ucast lo) = lo"
  "cmd_hi16 (push_bit 16 (ucast hi) OR ucast lo) = hi"
  unfolding cmd_lo16_def cmd_hi16_def by (rule u16_pair_lo u16_pair_hi)+

lemma cmd_nlb_of_u16: "ucast (nlb :: u16) AND (0xFFFF :: u32) = ucast nlb"
  unfolding u32_ffff by (rule bit_eqI) (auto simp: bit_simps dest: bit_imp_le_length)

text \<open>Command dword 0 as the builders leave it: the opcode in the low byte, the command
  identifier in the high half, everything between zero.\<close>

definition cdw0_of :: "u8 \<Rightarrow> u16 \<Rightarrow> u32" where
  "cdw0_of opc cid = ucast opc OR push_bit 16 (ucast cid)"

lemma builder_cdw0:
  "fld_set sqe_cid_f (ucast (cid :: u16)) (fld_set sqe_opc_f (ucast (opc :: u8)) 0) = cdw0_of opc cid"
  by (rule bit_eqI)
    (auto simp: bit_fld_set cdw0_of_def reg_defs bit_simps possible_bit_def dest: bit_imp_le_length)

lemma cdw0_of_fields:
  "fld_get sqe_opc_f (cdw0_of opc cid) = ucast opc"
  "fld_get sqe_cid_f (cdw0_of opc cid) = ucast cid"
  by (rule bit_eqI; auto simp: bit_fld_get cdw0_of_def reg_defs bit_simps possible_bit_def
      dest: bit_imp_le_length)+

lemma ucast_u8_u32_u8 [simp]: "(ucast (ucast (w :: u8) :: u32) :: u8) = w"
  by (rule bit_eqI) (auto simp: bit_simps)

lemma sqe_of_cdw0 [simp]:
  "sqe_cdw0 e = cdw0_of opc cid \<Longrightarrow> sqe_opc e = opc"
  "sqe_cdw0 e = cdw0_of opc cid \<Longrightarrow> sqe_cid e = cid"
  by (simp_all add: sqe_opc_def sqe_cid_def cdw0_of_fields)

lemmas builder_simps = Let_def nvme_cmd_init_def sqe_zero_def sqe_set_opc_def sqe_set_cid_def
  builder_cdw0

text \<open>The read and write builders in closed form.\<close>

definition io_command :: "u8 \<Rightarrow> u16 \<Rightarrow> u32 \<Rightarrow> u64 \<Rightarrow> u64 \<Rightarrow> u64 \<Rightarrow> u16 \<Rightarrow> nvme_sq_entry" where
  "io_command opc cid nsid prp1 prp2 slba nlb =
    \<lparr>sqe_cdw0 = cdw0_of opc cid, sqe_nsid = nsid, sqe_cdw2 = 0, sqe_cdw3 = 0, sqe_mptr = 0,
     sqe_prp1 = prp1, sqe_prp2 = prp2, sqe_cdw10 = ucast (slba AND 0xFFFFFFFF),
     sqe_cdw11 = ucast (drop_bit 32 slba), sqe_cdw12 = ucast nlb, sqe_cdw13 = 0, sqe_cdw14 = 0,
     sqe_cdw15 = 0\<rparr>"

lemma nvme_cmd_read_closed:
  "nvme_cmd_read cmd cid nsid prp1 prp2 slba nlb =
     io_command NVME_IO_OPC_READ cid nsid prp1 prp2 slba nlb"
  by (simp add: nvme_cmd_read_def io_command_def builder_simps)

lemma nvme_cmd_write_closed:
  "nvme_cmd_write cmd cid nsid prp1 prp2 slba nlb =
     io_command NVME_IO_OPC_WRITE cid nsid prp1 prp2 slba nlb"
  by (simp add: nvme_cmd_write_def io_command_def builder_simps)

lemma io_command_decode [simp]:
  "sqe_opc (io_command opc cid nsid prp1 prp2 slba nlb) = opc"
  "sqe_cid (io_command opc cid nsid prp1 prp2 slba nlb) = cid"
  "cmd_slba (io_command opc cid nsid prp1 prp2 slba nlb) = slba"
  "cmd_nlb (io_command opc cid nsid prp1 prp2 slba nlb) = ucast nlb + 1"
  "sqe_prp1 (io_command opc cid nsid prp1 prp2 slba nlb) = prp1"
  "sqe_prp2 (io_command opc cid nsid prp1 prp2 slba nlb) = prp2"
  "sqe_nsid (io_command opc cid nsid prp1 prp2 slba nlb) = nsid"
  by (simp_all add: io_command_def sqe_opc_def sqe_cid_def cdw0_of_fields cmd_slba_def slba_split
      cmd_nlb_def cmd_nlb_of_u16)

lemma unat_nlb_succ [simp]: "unat (ucast (nlb :: u16) + 1 :: u32) = Suc (unat nlb)"
  using unat_bound[of nlb] by (simp add: unat_word_ariths)

section \<open>Properties of the builders\<close>

text \<open>A read or write command that a builder makes decodes to its arguments: opcode, command
  identifier, namespace, both PRPs, the 64-bit starting block and the block count, whatever the
  entry held before; so does a queue creation command, with the physically contiguous flag set and
  interrupts disabled.\<close>

theorem builders_roundtrip:
  "sqe_opc (nvme_cmd_read e cid nsid p1 p2 slba nlb) = NVME_IO_OPC_READ
   \<and> sqe_opc (nvme_cmd_write e cid nsid p1 p2 slba nlb) = NVME_IO_OPC_WRITE
   \<and> list_all (\<lambda>c. sqe_cid c = cid \<and> sqe_nsid c = nsid \<and> sqe_prp1 c = p1 \<and> sqe_prp2 c = p2
        \<and> cmd_slba c = slba \<and> unat (cmd_nlb c) = unat nlb + 1)
      [nvme_cmd_read e cid nsid p1 p2 slba nlb, nvme_cmd_write e cid nsid p1 p2 slba nlb]
   \<and> (let c = nvme_cmd_create_io_cq e cid qid qsize p1 iv
      in sqe_opc c = NVME_ADMIN_OPC_CREATE_IO_CQ \<and> sqe_cid c = cid \<and> sqe_prp1 c = p1
       \<and> cmd_lo16 (sqe_cdw10 c) = qid \<and> cmd_hi16 (sqe_cdw10 c) = qsize
       \<and> cmd_hi16 (sqe_cdw11 c) = iv \<and> cmd_lo16 (sqe_cdw11 c) = 1)
   \<and> (let c = nvme_cmd_create_io_sq e cid qid qsize p1 cqid
      in sqe_opc c = NVME_ADMIN_OPC_CREATE_IO_SQ \<and> sqe_cid c = cid \<and> sqe_prp1 c = p1
       \<and> cmd_lo16 (sqe_cdw10 c) = qid \<and> cmd_hi16 (sqe_cdw10 c) = qsize
       \<and> cmd_hi16 (sqe_cdw11 c) = cqid \<and> cmd_lo16 (sqe_cdw11 c) = 1)"
proof -
  have pc: "cmd_lo16 (NVME_CQ_PC OR push_bit 16 (ucast (h :: u16))) = 1"
      "cmd_hi16 (NVME_CQ_PC OR push_bit 16 (ucast (h :: u16))) = h" for h
    using cmd_pair[of h 1] by (simp_all add: NVME_CQ_PC_def or.commute)
  then show ?thesis
    by (simp add: nvme_cmd_read_closed nvme_cmd_write_closed nvme_cmd_create_io_cq_def
        nvme_cmd_create_io_sq_def builder_simps NVME_SQ_PC_def NVME_CQ_PC_def)
qed

end
