(* ===== verification/Gpu_Queue.thy ===== *)
theory Gpu_Queue
  imports Nvme_Cmds
begin

text \<open>
  The device side of \<^verbatim>\<open>src/device\<close>: the queue state that a kernel owns (queue_state.cuh), the
  MMIO accesses (mmio_ops.cuh), the doorbell writes (doorbell.cuh), command submission
  (sq_submit.cuh) and completion polling (cq_poll.cuh).

  The memory a queue pair shares with the controller is the record \<open>qmem\<close>; the pointers of the
  C struct \<^verbatim>\<open>gpu_nvme_queue\<close> lead to its fields. It is extensible: the simulator's own state is
  an extension of it, and any other controller can be one. What happens outside the kernel
  between two of its accesses (the controller, the clock) is the parameter \<open>gpu_env\<close>.
\<close>

section \<open>State\<close>

datatype gpu_event =
    GSqStore nat
  | GFence
  | GFlushRead
  | GSqDoorbell u32
  | GCqDoorbell u32

record qmem =
  m_sq :: "nvme_sq_entry list"
  m_cq :: "nvme_cq_entry list"
  m_sq_db :: u32
  m_cq_db :: u32
  m_data :: "u64 \<Rightarrow> u8"
  m_flush_reg :: u32
  m_sim_build :: bool  \<comment> \<open>compiled with \<^verbatim>\<open>GPUNVME_USE_SIM\<close>\<close>
  m_events :: "gpu_event list"  \<comment> \<open>the kernel's stores, fences and doorbells, newest first\<close>

record gpu_nvme_queue =
  q_data_buf_phys :: u64
  q_sq_size :: u16
  q_cq_size :: u16
  q_sq_tail :: u16
  q_cq_head :: u16
  q_qid :: u16
  q_cq_phase :: u8
  q_cid_counter :: u16
  q_nsid :: u32
  q_block_size :: u32
  q_pcie_flush :: bool  \<comment> \<open>\<^verbatim>\<open>pcie_flush_addr != NULL\<close>\<close>
  q_poll_timeout_cycles :: u64

section \<open>queue_state.cuh\<close>

definition gpu_nvme_advance_sq_tail :: "gpu_nvme_queue \<Rightarrow> u16 \<times> gpu_nvme_queue" where
  "gpu_nvme_advance_sq_tail q =
    (let cur = q_sq_tail q
     in (cur, q\<lparr>q_sq_tail := ucast ((ucast cur + 1 :: u32) mod ucast (q_sq_size q))\<rparr>))"

definition gpu_nvme_advance_cq_head :: "gpu_nvme_queue \<Rightarrow> gpu_nvme_queue" where
  "gpu_nvme_advance_cq_head q =
    (let q = q\<lparr>q_cq_head := q_cq_head q + 1\<rparr>
     in if q_cq_head q \<ge> q_cq_size q
        then q\<lparr>q_cq_head := 0, q_cq_phase := q_cq_phase q XOR 1\<rparr> else q)"

definition gpu_nvme_next_cid :: "gpu_nvme_queue \<Rightarrow> u16 \<times> gpu_nvme_queue" where
  "gpu_nvme_next_cid q = (q_cid_counter q, q\<lparr>q_cid_counter := q_cid_counter q + 1\<rparr>)"

definition gpu_nvme_sq_has_room :: "gpu_nvme_queue \<Rightarrow> u16 \<Rightarrow> bool" where
  "gpu_nvme_sq_has_room q sq_head_from_cq =
    (let next = (ucast ((ucast (q_sq_tail q) + 1 :: u32) mod ucast (q_sq_size q)) :: u16)
     in next \<noteq> sq_head_from_cq)"

section \<open>mmio_ops.cuh and doorbell.cuh\<close>

text \<open>The targets of the 32-bit MMIO accesses: the two doorbells, a dword of a completion queue
  entry and the flush register.\<close>

datatype mmio_loc = SqDoorbell | CqDoorbell | CqDword nat nat | FlushAddr

definition threadfence_system :: "'x qmem_scheme \<Rightarrow> 'x qmem_scheme" where
  "threadfence_system m = m\<lparr>m_events := GFence # m_events m\<rparr>"

fun mmio_store :: "mmio_loc \<Rightarrow> u32 \<Rightarrow> 'x qmem_scheme \<Rightarrow> 'x qmem_scheme" where
  "mmio_store SqDoorbell v m = m\<lparr>m_sq_db := v, m_events := GSqDoorbell v # m_events m\<rparr>"
| "mmio_store CqDoorbell v m = m\<lparr>m_cq_db := v, m_events := GCqDoorbell v # m_events m\<rparr>"
| "mmio_store _ v m = m"

fun mmio_load :: "mmio_loc \<Rightarrow> 'x qmem_scheme \<Rightarrow> u32 \<times> 'x qmem_scheme" where
  "mmio_load SqDoorbell m = (m_sq_db m, m)"
| "mmio_load CqDoorbell m = (m_cq_db m, m)"
| "mmio_load (CqDword slot i) m = (cqe_dword (m_cq m ! slot) i, m)"
| "mmio_load FlushAddr m = (m_flush_reg m, m\<lparr>m_events := GFlushRead # m_events m\<rparr>)"

text \<open>The simulator build wraps a volatile access into two fences; the hardware build is one
  \<^verbatim>\<open>st.mmio.sys\<close> or \<^verbatim>\<open>ld.mmio.sys\<close> instruction.\<close>

definition mmio_write32 :: "mmio_loc \<Rightarrow> u32 \<Rightarrow> 'x qmem_scheme \<Rightarrow> 'x qmem_scheme" where
  "mmio_write32 addr val m =
    (if m_sim_build m
     then threadfence_system (mmio_store addr val (threadfence_system m))
     else mmio_store addr val m)"

definition mmio_read32 :: "mmio_loc \<Rightarrow> 'x qmem_scheme \<Rightarrow> u32 \<times> 'x qmem_scheme" where
  "mmio_read32 addr m =
    (if m_sim_build m
     then (let (val, m) = mmio_load addr (threadfence_system m) in (val, threadfence_system m))
     else mmio_load addr m)"

definition doorbell_write_sq_tail :: "u16 \<Rightarrow> 'x qmem_scheme \<Rightarrow> 'x qmem_scheme" where
  "doorbell_write_sq_tail tail m = mmio_write32 SqDoorbell (ucast tail) m"

definition doorbell_write_cq_head :: "u16 \<Rightarrow> 'x qmem_scheme \<Rightarrow> 'x qmem_scheme" where
  "doorbell_write_cq_head head m = mmio_write32 CqDoorbell (ucast head) m"

section \<open>sq_submit.cuh\<close>

text \<open>One store to a field of the submission queue entry at \<open>slot\<close>.\<close>

definition sqe_store ::
    "u16 \<Rightarrow> (nvme_sq_entry \<Rightarrow> nvme_sq_entry) \<Rightarrow> 'x qmem_scheme \<Rightarrow> 'x qmem_scheme" where
  "sqe_store slot f m =
     m\<lparr>m_sq := (m_sq m)[unat slot := f (m_sq m ! unat slot)],
       m_events := GSqStore (unat slot) # m_events m\<rparr>"

text \<open>The part that follows the stores in both submit functions: fence, optional PCIe flush,
  doorbell, fence.\<close>

definition sq_ring :: "gpu_nvme_queue \<Rightarrow> 'x qmem_scheme \<Rightarrow> 'x qmem_scheme" where
  "sq_ring q m =
    (let m = threadfence_system m;
         m = (if q_pcie_flush q then snd (mmio_read32 FlushAddr m) else m);
         m = doorbell_write_sq_tail (q_sq_tail q) m
     in threadfence_system m)"

definition sq_submit_read ::
    "gpu_nvme_queue \<Rightarrow> u64 \<Rightarrow> u16 \<Rightarrow> u64 \<Rightarrow> u64 \<Rightarrow> 'x qmem_scheme \<Rightarrow>
     u16 \<times> gpu_nvme_queue \<times> 'x qmem_scheme" where
  "sq_submit_read q slba nlb_0based prp1 prp2 m =
    (let (cid, q) = gpu_nvme_next_cid q;
         (slot, q) = gpu_nvme_advance_sq_tail q;
         cdw0 = 0x02 OR push_bit 16 (ucast cid);
         m = sqe_store slot (\<lambda>e. e\<lparr>sqe_cdw0 := fld_set sqe_opc_f 0x02 (sqe_cdw0 e)\<rparr>) m;
         m = sqe_store slot (\<lambda>e. e\<lparr>sqe_cdw0 := fld_set sqe_fuse_f 0 (sqe_cdw0 e)\<rparr>) m;
         m = sqe_store slot (\<lambda>e. e\<lparr>sqe_cdw0 := fld_set sqe_rsvd0_f 0 (sqe_cdw0 e)\<rparr>) m;
         m = sqe_store slot (\<lambda>e. e\<lparr>sqe_cdw0 := fld_set sqe_psdt_f 0 (sqe_cdw0 e)\<rparr>) m;
         m = sqe_store slot (\<lambda>e. e\<lparr>sqe_cdw0 := fld_set sqe_cid_f (ucast cid) (sqe_cdw0 e)\<rparr>) m;
         m = sqe_store slot (\<lambda>e. e\<lparr>sqe_cdw0 := cdw0\<rparr>) m;
         m = sqe_store slot (\<lambda>e. e\<lparr>sqe_nsid := q_nsid q\<rparr>) m;
         m = sqe_store slot (\<lambda>e. e\<lparr>sqe_cdw2 := 0\<rparr>) m;
         m = sqe_store slot (\<lambda>e. e\<lparr>sqe_cdw3 := 0\<rparr>) m;
         m = sqe_store slot (\<lambda>e. e\<lparr>sqe_mptr := 0\<rparr>) m;
         m = sqe_store slot (\<lambda>e. e\<lparr>sqe_prp1 := prp1\<rparr>) m;
         m = sqe_store slot (\<lambda>e. e\<lparr>sqe_prp2 := prp2\<rparr>) m;
         m = sqe_store slot (\<lambda>e. e\<lparr>sqe_cdw10 := ucast (slba AND 0xFFFFFFFF)\<rparr>) m;
         m = sqe_store slot (\<lambda>e. e\<lparr>sqe_cdw11 := ucast (drop_bit 32 slba)\<rparr>) m;
         m = sqe_store slot (\<lambda>e. e\<lparr>sqe_cdw12 := ucast nlb_0based\<rparr>) m;
         m = sqe_store slot (\<lambda>e. e\<lparr>sqe_cdw13 := 0\<rparr>) m;
         m = sqe_store slot (\<lambda>e. e\<lparr>sqe_cdw14 := 0\<rparr>) m;
         m = sqe_store slot (\<lambda>e. e\<lparr>sqe_cdw15 := 0\<rparr>) m
     in (cid, q, sq_ring q m))"

definition sq_submit_write ::
    "gpu_nvme_queue \<Rightarrow> u64 \<Rightarrow> u16 \<Rightarrow> u64 \<Rightarrow> u64 \<Rightarrow> 'x qmem_scheme \<Rightarrow>
     u16 \<times> gpu_nvme_queue \<times> 'x qmem_scheme" where
  "sq_submit_write q slba nlb_0based prp1 prp2 m =
    (let (cid, q) = gpu_nvme_next_cid q;
         (slot, q) = gpu_nvme_advance_sq_tail q;
         cdw0 = 0x01 OR push_bit 16 (ucast cid);
         m = sqe_store slot (\<lambda>e. e\<lparr>sqe_cdw0 := cdw0\<rparr>) m;
         m = sqe_store slot (\<lambda>e. e\<lparr>sqe_nsid := q_nsid q\<rparr>) m;
         m = sqe_store slot (\<lambda>e. e\<lparr>sqe_cdw2 := 0\<rparr>) m;
         m = sqe_store slot (\<lambda>e. e\<lparr>sqe_cdw3 := 0\<rparr>) m;
         m = sqe_store slot (\<lambda>e. e\<lparr>sqe_mptr := 0\<rparr>) m;
         m = sqe_store slot (\<lambda>e. e\<lparr>sqe_prp1 := prp1\<rparr>) m;
         m = sqe_store slot (\<lambda>e. e\<lparr>sqe_prp2 := prp2\<rparr>) m;
         m = sqe_store slot (\<lambda>e. e\<lparr>sqe_cdw10 := ucast (slba AND 0xFFFFFFFF)\<rparr>) m;
         m = sqe_store slot (\<lambda>e. e\<lparr>sqe_cdw11 := ucast (drop_bit 32 slba)\<rparr>) m;
         m = sqe_store slot (\<lambda>e. e\<lparr>sqe_cdw12 := ucast nlb_0based\<rparr>) m;
         m = sqe_store slot (\<lambda>e. e\<lparr>sqe_cdw13 := 0\<rparr>) m;
         m = sqe_store slot (\<lambda>e. e\<lparr>sqe_cdw14 := 0\<rparr>) m;
         m = sqe_store slot (\<lambda>e. e\<lparr>sqe_cdw15 := 0\<rparr>) m
     in (cid, q, sq_ring q m))"

section \<open>cq_poll.cuh\<close>

record cq_poll_result =
  r_cdw0 :: u32
  r_sqhd :: u16
  r_status :: u16
  r_cid :: u16
  r_success :: bool
  r_timed_out :: bool

text \<open>The world between two accesses of the kernel: at tick \<open>t\<close> the controller turns the shared
  memory into \<open>ge_step t\<close> of it, and \<^verbatim>\<open>clock64()\<close> reads \<open>ge_clock t\<close>. A tick passes at every
  poll of the completion queue and at every clock read. \<open>ge_uninit\<close> is what an uninitialised
  local of type \<^verbatim>\<open>cq_poll_result\<close> holds.\<close>

record 'm gpu_env =
  ge_step :: "nat \<Rightarrow> 'm \<Rightarrow> 'm"
  ge_clock :: "nat \<Rightarrow> u64"
  ge_uninit :: cq_poll_result

definition cq_poll_result_init :: cq_poll_result where
  "cq_poll_result_init = \<lparr>r_cdw0 = 0, r_sqhd = 0, r_status = 0, r_cid = 0, r_success = False,
     r_timed_out = False\<rparr>"

text \<open>One pass through the body of the polling loop up to the timeout check: \<open>Some\<close> result when
  the phase bit of the entry at the head matches.\<close>

definition cq_poll_try ::
    "gpu_nvme_queue \<Rightarrow> 'x qmem_scheme \<Rightarrow>
     cq_poll_result option \<times> gpu_nvme_queue \<times> 'x qmem_scheme" where
  "cq_poll_try q m =
    (let (dw3, m) = mmio_read32 (CqDword (unat (q_cq_head q)) 3) m;
         sp = (ucast (drop_bit 16 dw3) :: u16);
         phase = (ucast (sp AND 1) :: u8)
     in if phase = q_cq_phase q
        then (let (cdw0, m) = mmio_read32 (CqDword (unat (q_cq_head q)) 0) m;
                  (dw2, m) = mmio_read32 (CqDword (unat (q_cq_head q)) 2) m;
                  status = drop_bit 1 sp AND 0x7FFF;
                  result = \<lparr>r_cdw0 = cdw0, r_sqhd = ucast (dw2 AND 0xFFFF), r_status = status,
                    r_cid = ucast (dw3 AND 0xFFFF), r_success = (status = 0), r_timed_out = False\<rparr>;
                  q = gpu_nvme_advance_cq_head q;
                  m = doorbell_write_cq_head (q_cq_head q) m
              in (Some result, q, m))
        else (None, q, m))"

text \<open>The loops run until a completion or a timeout, which may never come: \<open>fuel\<close> bounds the
  number of passes and \<open>None\<close> means that it ran out.\<close>

fun cq_poll_loop ::
    "nat \<Rightarrow> ('x qmem_scheme) gpu_env \<Rightarrow> u64 \<Rightarrow> u64 \<Rightarrow> gpu_nvme_queue \<Rightarrow> 'x qmem_scheme \<Rightarrow> nat \<Rightarrow>
     (cq_poll_result \<times> gpu_nvme_queue \<times> 'x qmem_scheme \<times> nat) option" where
  "cq_poll_loop 0 E timeout_cycles start q m t = None"
| "cq_poll_loop (Suc fuel) E timeout_cycles start q m t =
    (case cq_poll_try q (ge_step E t m) of
       (Some result, q, m) \<Rightarrow> Some (result, q, m, Suc t)
     | (None, q, m) \<Rightarrow>
         if timeout_cycles > 0
         then (let elapsed = ge_clock E (Suc t) - start
               in if elapsed > timeout_cycles
                  then Some (cq_poll_result_init\<lparr>r_timed_out := True\<rparr>, q, m, Suc (Suc t))
                  else cq_poll_loop fuel E timeout_cycles start q m (Suc (Suc t)))
         else cq_poll_loop fuel E timeout_cycles start q m (Suc t))"

definition cq_poll_completion ::
    "nat \<Rightarrow> ('x qmem_scheme) gpu_env \<Rightarrow> gpu_nvme_queue \<Rightarrow> u64 \<Rightarrow> 'x qmem_scheme \<Rightarrow> nat \<Rightarrow>
     (cq_poll_result \<times> gpu_nvme_queue \<times> 'x qmem_scheme \<times> nat) option" where
  "cq_poll_completion fuel E q timeout_cycles m t =
     cq_poll_loop fuel E timeout_cycles (ge_clock E t) q m (Suc t)"

fun cq_poll_for_cid_loop ::
    "nat \<Rightarrow> nat \<Rightarrow> ('x qmem_scheme) gpu_env \<Rightarrow> u16 \<Rightarrow> u64 \<Rightarrow> u64 \<Rightarrow> gpu_nvme_queue \<Rightarrow>
     'x qmem_scheme \<Rightarrow> nat \<Rightarrow>
     (cq_poll_result \<times> gpu_nvme_queue \<times> 'x qmem_scheme \<times> nat) option" where
  "cq_poll_for_cid_loop fuel 0 E target_cid timeout_cycles start q m t = None"
| "cq_poll_for_cid_loop fuel (Suc n) E target_cid timeout_cycles start q m t =
    (let elapsed = ge_clock E t - start;
         t = (if timeout_cycles > 0 then Suc t else t);
         remaining = (if timeout_cycles > 0 then timeout_cycles - elapsed else 0)
     in if timeout_cycles > 0 \<and> elapsed > timeout_cycles
        then Some ((ge_uninit E)\<lparr>r_timed_out := True, r_success := False\<rparr>, q, m, t)
        else (case cq_poll_completion fuel E q remaining m t of
                None \<Rightarrow> None
              | Some (r, q, m, t) \<Rightarrow>
                  if r_timed_out r then Some (r, q, m, t)
                  else if r_cid r = target_cid then Some (r, q, m, t)
                  else cq_poll_for_cid_loop fuel n E target_cid timeout_cycles start q m t))"

definition cq_poll_for_cid ::
    "nat \<Rightarrow> ('x qmem_scheme) gpu_env \<Rightarrow> gpu_nvme_queue \<Rightarrow> u16 \<Rightarrow> u64 \<Rightarrow> 'x qmem_scheme \<Rightarrow> nat \<Rightarrow>
     (cq_poll_result \<times> gpu_nvme_queue \<times> 'x qmem_scheme \<times> nat) option" where
  "cq_poll_for_cid fuel E q target_cid timeout_cycles m t =
     cq_poll_for_cid_loop fuel fuel E target_cid timeout_cycles (ge_clock E t) q m (Suc t)"


section \<open>Submission\<close>

lemma replicate_numeral: "replicate (numeral k) x = x # replicate (pred_numeral k) x"
  by (simp add: numeral_eq_Suc)

lemma unat_u32_succ_mod:
  "unat (ucast ((ucast (cur :: u16) + 1 :: u32) mod ucast (n :: u16)) :: u16)
     = (if n = 0 then unat (cur + 1) else (unat cur + 1) mod unat n)"
proof -
  have c: "unat cur < 65536" using unsigned_less[of cur] by simp
  have n: "unat n < 65536" using unsigned_less[of n] by simp
  have "unat (ucast cur + 1 :: u32) = unat cur + 1"
    using c by (simp add: unat_word_ariths)
  then have m: "unat ((ucast cur + 1 :: u32) mod ucast n) = (unat cur + 1) mod unat n"
    by (simp add: unat_mod)
  show ?thesis
  proof (cases "n = 0")
    case True
    then show ?thesis using m by (simp add: unsigned_ucast_eq unat_word_ariths take_bit_eq_mod)
  next
    case False
    then have "(unat cur + 1) mod unat n < 65536"
      using n by (metis mod_less_divisor order.strict_trans unat_gt_0)
    with False m show ?thesis by (simp add: unsigned_ucast_eq take_bit_eq_mod)
  qed
qed

lemma advance_sq_tail_unat:
  "q_sq_size q \<noteq> 0 \<Longrightarrow>
   unat (q_sq_tail (snd (gpu_nvme_advance_sq_tail q))) = (unat (q_sq_tail q) + 1) mod unat (q_sq_size q)"
  by (simp add: gpu_nvme_advance_sq_tail_def Let_def unat_u32_succ_mod)

text \<open>The events of one submission after its \<open>k\<close> stores, newest first.\<close>

definition ring_events :: "bool \<Rightarrow> bool \<Rightarrow> u32 \<Rightarrow> gpu_event list" where
  "ring_events sim flush v =
    [GFence] @ (if sim then [GFence, GSqDoorbell v, GFence] else [GSqDoorbell v])
    @ (if flush then (if sim then [GFence, GFlushRead, GFence] else [GFlushRead]) else [])
    @ [GFence]"

lemma sq_ring_closed:
  "sq_ring q m = m\<lparr>m_sq_db := ucast (q_sq_tail q),
     m_events := ring_events (m_sim_build m) (q_pcie_flush q) (ucast (q_sq_tail q)) @ m_events m\<rparr>"
  by (cases m) (simp add: sq_ring_def Let_def threadfence_system_def mmio_read32_def
      doorbell_write_sq_tail_def mmio_write32_def ring_events_def)

lemma sqe_store_twice:
  "unat slot < length (m_sq m) \<Longrightarrow>
   sqe_store slot g (sqe_store slot f m) =
     m\<lparr>m_sq := (m_sq m)[unat slot := g (f (m_sq m ! unat slot))],
       m_events := GSqStore (unat slot) # GSqStore (unat slot) # m_events m\<rparr>"
  by (cases m) (simp add: sqe_store_def)

lemma cdw0_of_read: "(0x02 :: u32) OR push_bit 16 (ucast cid) = cdw0_of NVME_IO_OPC_READ cid"
  by (simp add: cdw0_of_def NVME_IO_OPC_READ_def)

lemma cdw0_of_write: "(0x01 :: u32) OR push_bit 16 (ucast cid) = cdw0_of NVME_IO_OPC_WRITE cid"
  by (simp add: cdw0_of_def NVME_IO_OPC_WRITE_def)

definition queue_submitted :: "gpu_nvme_queue \<Rightarrow> gpu_nvme_queue" where
  "queue_submitted q = snd (gpu_nvme_advance_sq_tail (snd (gpu_nvme_next_cid q)))"

lemma queue_submitted_simps [simp]:
  "q_sq_size (queue_submitted q) = q_sq_size q"
  "q_cq_size (queue_submitted q) = q_cq_size q"
  "q_cq_head (queue_submitted q) = q_cq_head q"
  "q_cq_phase (queue_submitted q) = q_cq_phase q"
  "q_nsid (queue_submitted q) = q_nsid q"
  "q_block_size (queue_submitted q) = q_block_size q"
  "q_poll_timeout_cycles (queue_submitted q) = q_poll_timeout_cycles q"
  "q_cid_counter (queue_submitted q) = q_cid_counter q + 1"
  "q_pcie_flush (queue_submitted q) = q_pcie_flush q"
  by (simp_all add: queue_submitted_def gpu_nvme_advance_sq_tail_def gpu_nvme_next_cid_def Let_def)

lemma queue_submitted_tail:
  "q_sq_size q \<noteq> 0 \<Longrightarrow>
   unat (q_sq_tail (queue_submitted q)) = (unat (q_sq_tail q) + 1) mod unat (q_sq_size q)"
  by (simp add: queue_submitted_def advance_sq_tail_unat gpu_nvme_next_cid_def)

text \<open>The effect of a submission in closed form: one slot of the queue holds the command, the
  doorbell holds the new tail, nothing else of the memory changes.\<close>

definition mem_submitted ::
    "u8 \<Rightarrow> nat \<Rightarrow> gpu_nvme_queue \<Rightarrow> u64 \<Rightarrow> u16 \<Rightarrow> u64 \<Rightarrow> u64 \<Rightarrow> 'x qmem_scheme \<Rightarrow> 'x qmem_scheme" where
  "mem_submitted opc k q slba nlb prp1 prp2 m =
     m\<lparr>m_sq := (m_sq m)[unat (q_sq_tail q) :=
          io_command opc (q_cid_counter q) (q_nsid q) prp1 prp2 slba nlb],
       m_sq_db := ucast (q_sq_tail (queue_submitted q)),
       m_events := ring_events (m_sim_build m) (q_pcie_flush q) (ucast (q_sq_tail (queue_submitted q)))
         @ replicate k (GSqStore (unat (q_sq_tail q))) @ m_events m\<rparr>"

text \<open>The stores of a submission cover every field of the entry, so nothing of its previous
  contents is left.\<close>

lemma io_command_overwrite:
  "e\<lparr>sqe_cdw0 := cdw0_of opc cid, sqe_nsid := nsid, sqe_cdw2 := 0, sqe_cdw3 := 0, sqe_mptr := 0,
     sqe_prp1 := prp1, sqe_prp2 := prp2, sqe_cdw10 := ucast (slba AND 0xFFFFFFFF),
     sqe_cdw11 := ucast (drop_bit 32 slba), sqe_cdw12 := ucast nlb, sqe_cdw13 := 0, sqe_cdw14 := 0,
     sqe_cdw15 := 0\<rparr> = io_command opc cid nsid prp1 prp2 slba nlb"
  by (cases e) (simp add: io_command_def)

lemma sq_submit_read_closed:
  "unat (q_sq_tail q) < length (m_sq m) \<Longrightarrow>
   sq_submit_read q slba nlb prp1 prp2 m =
     (q_cid_counter q, queue_submitted q, mem_submitted NVME_IO_OPC_READ 18 q slba nlb prp1 prp2 m)"
  by (cases m) (simp add: sq_submit_read_def mem_submitted_def Let_def gpu_nvme_next_cid_def
      gpu_nvme_advance_sq_tail_def queue_submitted_def sqe_store_def sq_ring_closed
      cdw0_of_read io_command_overwrite replicate_numeral split_def)

lemma sq_submit_write_closed:
  "unat (q_sq_tail q) < length (m_sq m) \<Longrightarrow>
   sq_submit_write q slba nlb prp1 prp2 m =
     (q_cid_counter q, queue_submitted q, mem_submitted NVME_IO_OPC_WRITE 13 q slba nlb prp1 prp2 m)"
  by (cases m) (simp add: sq_submit_write_def mem_submitted_def Let_def gpu_nvme_next_cid_def
      gpu_nvme_advance_sq_tail_def queue_submitted_def sqe_store_def sq_ring_closed
      cdw0_of_write io_command_overwrite replicate_numeral split_def)


section \<open>Phase rings\<close>

text \<open>Seen as an infinite sequence, the \<open>k\<close>-th completion goes to slot \<open>k mod n\<close> of a ring of \<open>n\<close>
  entries and carries phase 1 in the first round, 0 in the second, and so on. An index that a
  component keeps together with a phase bit stands for such a \<open>k\<close>.\<close>

definition phase_of :: "nat \<Rightarrow> nat \<Rightarrow> u8" where
  "phase_of n k = (if even (k div n) then 1 else 0)"

definition ring_at :: "nat \<Rightarrow> nat \<Rightarrow> u8 \<Rightarrow> nat \<Rightarrow> bool" where
  "ring_at n i p k \<longleftrightarrow> 0 < n \<and> i = k mod n \<and> p = phase_of n k"

lemma phase_of_Suc:
  assumes "0 < n"
  shows "phase_of n (Suc k) = (if Suc (k mod n) = n then phase_of n k XOR 1 else phase_of n k)"
proof -
  have "Suc k div n = (if Suc (k mod n) = n then Suc (k div n) else k div n)"
    using assms by (simp add: div_Suc mod_Suc)
  then show ?thesis by (simp add: phase_of_def)
qed

lemma phase_of_next_round: "0 < n \<Longrightarrow> phase_of n (k + n) \<noteq> phase_of n k"
  by (simp add: phase_of_def div_add_self2)

lemma phase_of_ne_0_1: "phase_of n k = 0 \<or> phase_of n k = 1"
  by (simp add: phase_of_def)

text \<open>What a component promises of an index with a phase bit: advancing it is counting.\<close>

locale phase_ring =
  fixes size :: "'s \<Rightarrow> nat" and idx :: "'s \<Rightarrow> nat" and phase :: "'s \<Rightarrow> u8" and adv :: "'s \<Rightarrow> 's"
  assumes adv_size: "size (adv s) = size s"
    and adv_idx: "idx s < size s \<Longrightarrow> idx (adv s) = (if Suc (idx s) = size s then 0 else Suc (idx s))"
    and adv_phase: "idx s < size s \<Longrightarrow>
      phase (adv s) = (if Suc (idx s) = size s then phase s XOR 1 else phase s)"
begin

lemma ring_at_adv:
  assumes "ring_at (size s) (idx s) (phase s) k"
  shows "ring_at (size (adv s)) (idx (adv s)) (phase (adv s)) (Suc k)"
proof -
  let ?n = "size s"
  from assms have n: "0 < ?n" and i: "idx s = k mod ?n" and p: "phase s = phase_of ?n k"
    by (auto simp: ring_at_def)
  have "idx s < ?n" using n i by simp
  then show ?thesis
    using n i p by (auto simp: ring_at_def adv_size adv_idx adv_phase phase_of_Suc mod_Suc)
qed

lemma ring_at_funpow:
  "ring_at (size s) (idx s) (phase s) k \<Longrightarrow>
   ring_at (size ((adv ^^ j) s)) (idx ((adv ^^ j) s)) (phase ((adv ^^ j) s)) (k + j)"
  by (induction j) (auto dest: ring_at_adv)

end

interpretation gpu_cq: phase_ring "\<lambda>q. unat (q_cq_size q)" "\<lambda>q. unat (q_cq_head q)" q_cq_phase
  gpu_nvme_advance_cq_head
proof
  fix s :: gpu_nvme_queue
  show "unat (q_cq_size (gpu_nvme_advance_cq_head s)) = unat (q_cq_size s)"
    by (simp add: gpu_nvme_advance_cq_head_def Let_def)
  assume lt: "unat (q_cq_head s) < unat (q_cq_size s)"
  then have "unat (q_cq_head s + 1) = Suc (unat (q_cq_head s))"
    using unsigned_less[of "q_cq_size s"] by (intro unat_succ_lt) auto
  then have "q_cq_head s + 1 \<ge> q_cq_size s \<longleftrightarrow> Suc (unat (q_cq_head s)) = unat (q_cq_size s)"
    using lt by (auto simp: word_le_nat_alt)
  then show "unat (q_cq_head (gpu_nvme_advance_cq_head s)) =
      (if Suc (unat (q_cq_head s)) = unat (q_cq_size s) then 0 else Suc (unat (q_cq_head s)))"
    and "q_cq_phase (gpu_nvme_advance_cq_head s) =
      (if Suc (unat (q_cq_head s)) = unat (q_cq_size s) then q_cq_phase s XOR 1 else q_cq_phase s)"
    using \<open>unat (q_cq_head s + 1) = _\<close> by (auto simp: gpu_nvme_advance_cq_head_def Let_def)
qed

lemma advance_cq_head_simps [simp]:
  "q_sq_size (gpu_nvme_advance_cq_head q) = q_sq_size q"
  "q_cq_size (gpu_nvme_advance_cq_head q) = q_cq_size q"
  "q_sq_tail (gpu_nvme_advance_cq_head q) = q_sq_tail q"
  "q_cid_counter (gpu_nvme_advance_cq_head q) = q_cid_counter q"
  "q_nsid (gpu_nvme_advance_cq_head q) = q_nsid q"
  "q_block_size (gpu_nvme_advance_cq_head q) = q_block_size q"
  "q_poll_timeout_cycles (gpu_nvme_advance_cq_head q) = q_poll_timeout_cycles q"
  by (simp_all add: gpu_nvme_advance_cq_head_def Let_def)

section \<open>Polling\<close>

definition poll_result_of :: "nvme_cq_entry \<Rightarrow> cq_poll_result" where
  "poll_result_of e = \<lparr>r_cdw0 = cqe_cdw0 e, r_sqhd = cqe_sqhd e,
     r_status = NVME_CQE_STATUS (cqe_status_phase e), r_cid = cqe_cid e,
     r_success = (NVME_CQE_STATUS (cqe_status_phase e) = 0), r_timed_out = False\<rparr>"

definition cqe_phase8 :: "nvme_cq_entry \<Rightarrow> u8" where
  "cqe_phase8 e = ucast (NVME_CQE_PHASE (cqe_status_phase e))"

lemma dword_halves:
  "(ucast (drop_bit 16 (cqe_dword e 3)) :: u16) = cqe_status_phase e"
  "(ucast (cqe_dword e 3 AND 0xFFFF) :: u16) = cqe_cid e"
  "(ucast (cqe_dword e 2 AND 0xFFFF) :: u16) = cqe_sqhd e"
  unfolding u32_ffff
  by (rule bit_eqI; auto simp: numeral_2_eq_2 numeral_3_eq_3 bit_simps possible_bit_def
      dest: bit_imp_le_length)+

lemma cq_poll_try_cases:
  obtains (hit) ev where "cqe_phase8 (m_cq m ! unat (q_cq_head q)) = q_cq_phase q"
      and "cq_poll_try q m = (Some (poll_result_of (m_cq m ! unat (q_cq_head q))),
        gpu_nvme_advance_cq_head q,
        m\<lparr>m_cq_db := ucast (q_cq_head (gpu_nvme_advance_cq_head q)), m_events := ev\<rparr>)"
    | (miss) ev where "cqe_phase8 (m_cq m ! unat (q_cq_head q)) \<noteq> q_cq_phase q"
      and "cq_poll_try q m = (None, q, m\<lparr>m_events := ev\<rparr>)"
proof -
  let ?e = "m_cq m ! unat (q_cq_head q)"
  show thesis
  proof (cases "cqe_phase8 ?e = q_cq_phase q")
    case True
    then have "\<exists>ev. cq_poll_try q m = (Some (poll_result_of ?e), gpu_nvme_advance_cq_head q,
        m\<lparr>m_cq_db := ucast (q_cq_head (gpu_nvme_advance_cq_head q)), m_events := ev\<rparr>)"
      by (cases m) (auto simp: cq_poll_try_def Let_def mmio_read32_def threadfence_system_def
        dword_halves cqe_phase8_def NVME_CQE_PHASE_def poll_result_of_def NVME_CQE_STATUS_def
        doorbell_write_cq_head_def mmio_write32_def split_def)
    then show thesis using hit True by blast
  next
    case False
    then have "\<exists>ev. cq_poll_try q m = (None, q, m\<lparr>m_events := ev\<rparr>)"
      by (cases m) (auto simp: cq_poll_try_def Let_def mmio_read32_def threadfence_system_def
        dword_halves cqe_phase8_def NVME_CQE_PHASE_def split_def)
    then show thesis using miss False by blast
  qed
qed


text \<open>A pass that finds nothing and no timeout goes on with the memory as the controller left
  it.\<close>

lemma cq_poll_loop_returns_by_clock:
  assumes "0 < timeout" and "i < fuel"
    and "ge_clock E (t + 2 * i + 1) - start > timeout"
  shows "cq_poll_loop fuel E timeout start q m t \<noteq> None"
  using assms(2,3)
proof (induction fuel arbitrary: i q m t)
  case 0
  then show ?case by simp
next
  case (Suc fuel)
  show ?case
  proof (cases rule: cq_poll_try_cases[of "ge_step E t m" q])
    case (hit ev)
    then show ?thesis by simp
  next
    case (miss ev)
    show ?thesis
    proof (cases "ge_clock E (Suc t) - start > timeout")
      case True
      then show ?thesis using miss assms(1) by (simp add: Let_def)
    next
      case False
      then obtain j where j: "i = Suc j" using Suc.prems(2) by (cases i) auto
      have "cq_poll_loop fuel E timeout start q ((ge_step E t m)\<lparr>m_events := ev\<rparr>) (Suc (Suc t)) \<noteq> None"
        using Suc.prems j by (intro Suc.IH[of j]) auto
      then show ?thesis using miss False assms(1) by (simp add: Let_def)
    qed
  qed
qed

text \<open>With a clock that advances at every tick, the number of cycles of the timeout bounds the
  number of passes.\<close>

definition clock_advances :: "('x qmem_scheme) gpu_env \<Rightarrow> nat \<Rightarrow> nat \<Rightarrow> bool" where
  "clock_advances E t n \<longleftrightarrow>
     (\<forall>i < n. unat (ge_clock E (t + i) - ge_clock E t) < unat (ge_clock E (t + Suc i) - ge_clock E t))"

lemma clock_advances_ge:
  "clock_advances E t n \<Longrightarrow> i \<le> n \<Longrightarrow> i \<le> unat (ge_clock E (t + i) - ge_clock E t)"
proof (induction i)
  case 0
  then show ?case by simp
next
  case (Suc i)
  then have "unat (ge_clock E (t + i) - ge_clock E t) < unat (ge_clock E (t + Suc i) - ge_clock E t)"
    by (simp add: clock_advances_def)
  with Suc show ?case by simp
qed

lemma cq_poll_loop_spins:
  assumes "\<And>t' m'. m_cq m' = cqs \<Longrightarrow> m_cq (ge_step E t' m') = cqs"
    and "cqe_phase8 (cqs ! unat (q_cq_head q)) \<noteq> q_cq_phase q"
    and "m_cq m = cqs"
  shows "cq_poll_loop fuel E 0 start q m t = None"
  using assms(3)
proof (induction fuel arbitrary: m t)
  case 0
  then show ?case by simp
next
  case (Suc fuel)
  have cq: "m_cq (ge_step E t m) = cqs" using assms(1) Suc.prems by blast
  show ?case
  proof (cases rule: cq_poll_try_cases[of "ge_step E t m" q])
    case (hit ev)
    then show ?thesis using cq assms(2) by simp
  next
    case (miss ev)
    then show ?thesis using Suc.IH[of "(ge_step E t m)\<lparr>m_events := ev\<rparr>" "Suc t"] cq by simp
  qed
qed

section \<open>Properties of submission and polling\<close>

text \<open>C12. A submission from the GPU leaves in the queue slot exactly the entry that the host-side
  builder makes for the same command, whatever the slot held before, in no other slot anything, and
  the doorbell holds the advanced tail.\<close>

theorem sq_submit_matches_builder:
  assumes "unat (q_sq_tail q) < length (m_sq m)"
  shows "(case sq_submit_read q slba nlb p1 p2 m of (cid, q', m') \<Rightarrow>
      cid = q_cid_counter q \<and> q' = queue_submitted q
    \<and> m_sq m' = (m_sq m)[unat (q_sq_tail q) := nvme_cmd_read e cid (q_nsid q) p1 p2 slba nlb]
    \<and> m_sq_db m' = ucast (q_sq_tail q') \<and> m_cq m' = m_cq m \<and> m_data m' = m_data m)
   \<and> (case sq_submit_write q slba nlb p1 p2 m of (cid, q', m') \<Rightarrow>
      cid = q_cid_counter q \<and> q' = queue_submitted q
    \<and> m_sq m' = (m_sq m)[unat (q_sq_tail q) := nvme_cmd_write e cid (q_nsid q) p1 p2 slba nlb]
    \<and> m_sq_db m' = ucast (q_sq_tail q') \<and> m_cq m' = m_cq m \<and> m_data m' = m_data m)"
  using sq_submit_read_closed[OF assms] sq_submit_write_closed[OF assms]
  by (simp add: mem_submitted_def nvme_cmd_read_closed nvme_cmd_write_closed)

definition example_qmem :: qmem where
  "example_qmem = \<lparr>m_sq = replicate 4 sqe_zero, m_cq = replicate 4 cqe_zero, m_sq_db = 0, m_cq_db = 0,
     m_data = (\<lambda>_. 0), m_flush_reg = 0, m_sim_build = False, m_events = []\<rparr>"

definition example_gpu_queue :: gpu_nvme_queue where
  "example_gpu_queue = \<lparr>q_data_buf_phys = 0, q_sq_size = 4, q_cq_size = 4, q_sq_tail = 3,
     q_cq_head = 0, q_qid = 1, q_cq_phase = 1, q_cid_counter = 7, q_nsid = 1, q_block_size = 512,
     q_pcie_flush = True, q_poll_timeout_cycles = 100\<rparr>"

theorem sq_submit_matches_builder_witness:
  "m_sq (snd (snd (sq_submit_read example_gpu_queue 5 0 0x1000 0 example_qmem))) ! 3
     = nvme_cmd_read sqe_zero 7 1 0x1000 0 5 0
   \<and> m_sq_db (snd (snd (sq_submit_read example_gpu_queue 5 0 0x1000 0 example_qmem))) = 0"
proof -
  have "unat (q_sq_tail example_gpu_queue) < length (m_sq example_qmem)"
    by (simp add: example_gpu_queue_def example_qmem_def)
  from sq_submit_matches_builder[OF this, of sqe_zero "0x1000" 0 5 0] show ?thesis
    by (auto simp: split_def example_gpu_queue_def example_qmem_def queue_submitted_def
        gpu_nvme_advance_sq_tail_def gpu_nvme_next_cid_def Let_def)
qed

text \<open>The doorbell writes of a trace of events (newest first), each with a system fence between it
  and the last store to the queue entry before it.\<close>

fun fence_since_store :: "gpu_event list \<Rightarrow> bool" where
  "fence_since_store [] = True"
| "fence_since_store (GFence # es) = True"
| "fence_since_store (GSqStore _ # es) = False"
| "fence_since_store (_ # es) = fence_since_store es"

fun doorbells_fenced :: "gpu_event list \<Rightarrow> bool" where
  "doorbells_fenced [] = True"
| "doorbells_fenced (GSqDoorbell v # es) = (fence_since_store es \<and> doorbells_fenced es)"
| "doorbells_fenced (_ # es) = doorbells_fenced es"

lemma doorbells_fenced_stores [simp]:
  "doorbells_fenced (replicate k (GSqStore i) @ es) = doorbells_fenced es"
  by (induction k) auto

text \<open>C11. A doorbell never overtakes the entry it announces: in the kernel's stream of accesses,
  every submission doorbell write comes after a system-wide fence that follows all stores to the
  submission queue entry, in the simulator and in the hardware build, with and without the PCIe
  flush read; and a fence follows the doorbell.\<close>

theorem submission_order:
  assumes "unat (q_sq_tail q) < length (m_sq m)" and "doorbells_fenced (m_events m)"
  shows "(case sq_submit_read q slba nlb p1 p2 m of (cid, q', m') \<Rightarrow>
      doorbells_fenced (m_events m') \<and> hd (m_events m') = GFence)
   \<and> (case sq_submit_write q slba nlb p1 p2 m of (cid, q', m') \<Rightarrow>
      doorbells_fenced (m_events m') \<and> hd (m_events m') = GFence)"
  using assms sq_submit_read_closed[OF assms(1)] sq_submit_write_closed[OF assms(1)]
  by (simp add: mem_submitted_def ring_events_def)

theorem submission_order_witness:
  "doorbells_fenced (m_events (snd (snd (sq_submit_read example_gpu_queue 5 0 0x1000 0 example_qmem))))"
  using submission_order[of example_gpu_queue example_qmem 5 0 "0x1000" 0]
  by (auto simp: split_def example_gpu_queue_def example_qmem_def)

text \<open>C13. Polling with a timeout always returns: with a clock that advances at every tick, the
  polling loop ends after at most timeout + 1 passes, whatever the controller does or does not do.\<close>

theorem cq_poll_completion_returns:
  assumes "0 < timeout" and "unat timeout < fuel" and "clock_advances E t (2 * fuel + 2)"
  shows "cq_poll_completion fuel E q timeout m t \<noteq> None"
proof -
  let ?i = "unat timeout"
  have "2 * ?i + 2 \<le> unat (ge_clock E (t + (2 * ?i + 2)) - ge_clock E t)"
    using assms by (intro clock_advances_ge) auto
  then have "ge_clock E (Suc t + 2 * ?i + 1) - ge_clock E t > timeout"
    by (simp add: word_less_nat_alt)
  then show ?thesis
    unfolding cq_poll_completion_def using assms by (intro cq_poll_loop_returns_by_clock[of _ ?i]) auto
qed

definition example_dead_env :: "qmem gpu_env" where
  "example_dead_env = \<lparr>ge_step = (\<lambda>t m. m), ge_clock = of_nat, ge_uninit = cq_poll_result_init\<rparr>"

lemma example_dead_clock: "n < 1000 \<Longrightarrow> clock_advances example_dead_env 0 n"
  by (simp add: clock_advances_def example_dead_env_def unat_of_nat del: of_nat_Suc)

theorem cq_poll_completion_returns_witness:
  "cq_poll_completion 101 example_dead_env example_gpu_queue 100 example_qmem 0 \<noteq> None"
  using cq_poll_completion_returns[of 100 101 example_dead_env 0] example_dead_clock by simp

text \<open>The documented bound on every polling loop fails for \<^verbatim>\<open>cq_poll_for_cid\<close>: when the elapsed
  time equals the timeout exactly at its check, the remaining time it passes on is zero, which means
  no timeout, and with a controller that never completes the command it never returns.\<close>

theorem cq_poll_for_cid_tie_spins:
  assumes "ge_clock E (Suc t) - ge_clock E t = timeout"
    and "\<And>t' m'. m_cq (ge_step E t' m') = m_cq m'"
    and "cqe_phase8 (m_cq m ! unat (q_cq_head q)) \<noteq> q_cq_phase q"
  shows "cq_poll_for_cid fuel E q cid timeout m t = None"
proof -
  have "cq_poll_loop fuel E 0 st q m u = None" for st u
    using assms(2,3) by (intro cq_poll_loop_spins) auto
  then have "cq_poll_for_cid_loop fuel n E cid timeout (ge_clock E t) q m (Suc t) = None" for n
    using assms(1) by (cases n) (simp_all add: Let_def cq_poll_completion_def)
  then show ?thesis by (simp add: cq_poll_for_cid_def)
qed

theorem cq_poll_for_cid_tie_spins_witness:
  "\<forall>fuel. cq_poll_for_cid fuel (example_dead_env\<lparr>ge_clock := (\<lambda>t. 100 * of_nat t)\<rparr>) example_gpu_queue 7 100
     example_qmem 0 = None"
  by (intro allI cq_poll_for_cid_tie_spins)
    (simp_all add: example_dead_env_def example_qmem_def example_gpu_queue_def cqe_phase8_def
      cqe_zero_def NVME_CQE_PHASE_def)

end
