(* ===== verification/Nvme_Sim.thy ===== *)
theory Nvme_Sim
  imports Gpu_Queue
begin

text \<open>
  The software controller of \<^verbatim>\<open>src/sim/nvme_sim.c\<close>: its state extends the shared queue memory with
  the virtual device and the controller's own indices, and one pass of the poller thread's loop is
  one step. A memory access outside an array is a crash of the process; the field \<open>s_fault\<close> records
  it and a crashed simulator takes no further step. Latency is not modelled: sleeping changes no
  state.
\<close>

section \<open>State\<close>

record nvme_sim_config =
  cfg_num_blocks :: u32
  cfg_block_size :: u32
  cfg_sq_size :: u16
  cfg_cq_size :: u16
  cfg_latency_us :: u32

record nvme_sim = qmem +
  s_cfg :: nvme_sim_config
  s_vdev :: "u8 list"
  s_vdev_size :: u64
  s_data_buf :: u64
  s_data_buf_size :: u64
  s_bar0 :: "u8 list"
  s_sq_head :: u16
  s_cq_tail :: u16
  s_cq_phase :: u8
  s_running :: bool
  s_fault :: bool

section \<open>The simulated BAR0\<close>

definition SIM_BAR0_SIZE :: nat where "SIM_BAR0_SIZE = 8192"

definition sim_init_bar0 :: "nvme_sim \<Rightarrow> nvme_sim" where
  "sim_init_bar0 sim =
    (let bar0 = replicate SIM_BAR0_SIZE 0;
         cap = (0 :: u64);
         cap = fld_set cap_mqes (ucast (cfg_sq_size (s_cfg sim) - 1)) cap;
         cap = fld_set cap_cqr 1 cap;
         cap = fld_set cap_to 10 cap;
         cap = fld_set cap_dstrd 0 cap;
         cap = fld_set cap_mpsmin 0 cap;
         cap = fld_set cap_mpsmax 0 cap;
         cap = fld_set cap_css 1 cap;
         bar0 = put_bytes (unat NVME_REG_CAP) (u64_bytes cap) bar0;
         vs = (0 :: u32);
         vs = fld_set vs_mjr 1 vs;
         vs = fld_set vs_mnr 4 vs;
         vs = fld_set vs_ter 0 vs;
         bar0 = put_bytes (unat NVME_REG_VS) (u32_bytes vs) bar0;
         csts = (0 :: u32);
         csts = fld_set csts_rdy 1 csts;
         bar0 = put_bytes (unat NVME_REG_CSTS) (u32_bytes csts) bar0;
         cc = (0 :: u32);
         cc = fld_set cc_en 1 cc;
         cc = fld_set cc_iosqes 6 cc;
         cc = fld_set cc_iocqes 4 cc;
         bar0 = put_bytes (unat NVME_REG_CC) (u32_bytes cc) bar0
     in sim\<lparr>s_bar0 := bar0\<rparr>)"

section \<open>Commands\<close>

text \<open>The six stores to the completion queue entry at the tail.\<close>

definition sim_put_cqe :: "nvme_sim \<Rightarrow> u16 \<Rightarrow> u16 \<Rightarrow> nvme_sim" where
  "sim_put_cqe sim cid status_phase =
    (if unat (s_cq_tail sim) < length (m_cq sim)
     then sim\<lparr>m_cq := (m_cq sim)[unat (s_cq_tail sim) :=
            \<lparr>cqe_cdw0 = 0, cqe_cdw1 = 0, cqe_sqhd = s_sq_head sim, cqe_sqid = 1, cqe_cid = cid,
             cqe_status_phase = status_phase\<rparr>]\<rparr>
     else sim\<lparr>s_fault := True\<rparr>)"

definition sim_process_read :: "nvme_sim \<Rightarrow> nvme_sq_entry \<Rightarrow> nvme_sim" where
  "sim_process_read sim cmd =
    (let slba = cmd_slba cmd;
         nlb = cmd_nlb cmd;
         prp1 = sqe_prp1 cmd
     in if slba + ucast nlb > ucast (cfg_num_blocks (s_cfg sim))
        then sim_put_cqe sim (sqe_cid cmd) (push_bit 1 0x02 OR ucast (s_cq_phase sim))
        else (let byte_offset = slba * ucast (cfg_block_size (s_cfg sim));
                  byte_count = ucast nlb * ucast (cfg_block_size (s_cfg sim)) :: u64
              in if unat byte_offset + unat byte_count \<le> length (s_vdev sim)
                 then sim_put_cqe
                    (sim\<lparr>m_data := mem_store (m_data sim) prp1
                        (take (unat byte_count) (drop (unat byte_offset) (s_vdev sim)))\<rparr>)
                    (sqe_cid cmd) (ucast (s_cq_phase sim))
                 else sim\<lparr>s_fault := True\<rparr>))"

definition sim_process_write :: "nvme_sim \<Rightarrow> nvme_sq_entry \<Rightarrow> nvme_sim" where
  "sim_process_write sim cmd =
    (let slba = cmd_slba cmd;
         nlb = cmd_nlb cmd;
         prp1 = sqe_prp1 cmd
     in if slba + ucast nlb > ucast (cfg_num_blocks (s_cfg sim))
        then sim_put_cqe sim (sqe_cid cmd) (push_bit 1 0x02 OR ucast (s_cq_phase sim))
        else (let byte_offset = slba * ucast (cfg_block_size (s_cfg sim));
                  byte_count = ucast nlb * ucast (cfg_block_size (s_cfg sim)) :: u64
              in if unat byte_offset + unat byte_count \<le> length (s_vdev sim)
                 then sim_put_cqe
                    (sim\<lparr>s_vdev := put_bytes (unat byte_offset)
                        (mem_load (m_data sim) prp1 (unat byte_count)) (s_vdev sim)\<rparr>)
                    (sqe_cid cmd) (ucast (s_cq_phase sim))
                 else sim\<lparr>s_fault := True\<rparr>))"

definition sim_advance_cq_tail :: "nvme_sim \<Rightarrow> nvme_sim" where
  "sim_advance_cq_tail sim =
    (let sim = sim\<lparr>s_cq_tail := s_cq_tail sim + 1\<rparr>
     in if s_cq_tail sim \<ge> cfg_cq_size (s_cfg sim)
        then sim\<lparr>s_cq_tail := 0, s_cq_phase := s_cq_phase sim XOR 1\<rparr> else sim)"

definition sim_dispatch :: "nvme_sim \<Rightarrow> nvme_sq_entry \<Rightarrow> nvme_sim" where
  "sim_dispatch sim cmd =
    (let opcode = sqe_opc cmd
     in if opcode = NVME_IO_OPC_READ then sim_process_read sim cmd
        else if opcode = NVME_IO_OPC_WRITE then sim_process_write sim cmd
        else if opcode = NVME_IO_OPC_FLUSH
        then sim_put_cqe sim (sqe_cid cmd) (ucast (s_cq_phase sim))
        else sim_put_cqe sim (sqe_cid cmd)
               (push_bit 1 NVME_SC_INVALID_OPCODE OR ucast (s_cq_phase sim)))"

text \<open>One pass of the poller thread's \<^verbatim>\<open>while (sim->running)\<close> loop.\<close>

definition sim_poller_step :: "nvme_sim \<Rightarrow> nvme_sim" where
  "sim_poller_step sim =
    (if s_fault sim \<or> \<not> s_running sim then sim
     else let sq_tail = m_sq_db sim
          in if ucast (s_sq_head sim) \<noteq> sq_tail
             then (if unat (s_sq_head sim) < length (m_sq sim)
                   then (let cmd = m_sq sim ! unat (s_sq_head sim);
                             sim = sim_dispatch sim cmd
                         in if s_fault sim then sim
                            else (let sim = sim_advance_cq_tail sim
                                  in sim\<lparr>s_sq_head := ucast ((ucast (s_sq_head sim) + 1 :: u32)
                                       mod ucast (cfg_sq_size (s_cfg sim)))\<rparr>))
                   else sim\<lparr>s_fault := True\<rparr>)
             else sim)"

section \<open>Creation and destruction\<close>

text \<open>What the allocators and \<^verbatim>\<open>pthread_create\<close> answer, and the contents of the fresh host
  memory.\<close>

record sim_alloc_env =
  sa_calloc_sim :: bool
  sa_calloc_vdev :: bool
  sa_sq :: bool
  sa_cq :: bool
  sa_doorbells :: bool
  sa_data_buf :: "u64 option"
  sa_bar0 :: bool
  sa_pthread :: bool
  sa_memory :: "u64 \<Rightarrow> u8"
  sa_sim_build :: bool

datatype sim_resource = RSim | RVdev | RSq | RCq | RDoorbells | RDataBuf | RBar0 | RThread

text \<open>The resources of a handle after \<^verbatim>\<open>nvme_sim_destroy\<close>: every one that is held is released.\<close>

definition nvme_sim_destroy :: "sim_resource list \<Rightarrow> sim_resource list" where
  "nvme_sim_destroy held =
    (let held = removeAll RThread held;
         held = removeAll RBar0 held;
         held = removeAll RDataBuf held;
         held = removeAll RDoorbells held;
         held = removeAll RCq held;
         held = removeAll RSq held;
         held = removeAll RVdev held
     in removeAll RSim held)"

definition sim_data_buf_size :: "nvme_sim_config \<Rightarrow> u64" where
  "sim_data_buf_size cfg =
    (let vdev_size = ucast (cfg_num_blocks cfg) * ucast (cfg_block_size cfg);
         size = (if vdev_size > 64 * 1024 * 1024 then 64 * 1024 * 1024 else vdev_size)
     in if size < ucast (cfg_block_size cfg) * 256 then ucast (cfg_block_size cfg) * 256 else size)"

text \<open>Returns the handle, if any, and the resources that are held afterwards.\<close>

definition nvme_sim_create ::
    "sim_alloc_env \<Rightarrow> nvme_sim_config \<Rightarrow> nvme_sim option \<times> sim_resource list" where
  "nvme_sim_create A cfg =
    (let vdev_size = ucast (cfg_num_blocks cfg) * ucast (cfg_block_size cfg) :: u64
     in if \<not> sa_calloc_sim A then (None, [])
        else if \<not> sa_calloc_vdev A then (None, nvme_sim_destroy [RSim])
        else if \<not> sa_sq A then (None, nvme_sim_destroy [RSim, RVdev])
        else if \<not> sa_cq A then (None, nvme_sim_destroy [RSim, RVdev, RSq])
        else if \<not> sa_doorbells A then (None, nvme_sim_destroy [RSim, RVdev, RSq, RCq])
        else (case sa_data_buf A of
            None \<Rightarrow> (None, nvme_sim_destroy [RSim, RVdev, RSq, RCq, RDoorbells])
          | Some buf \<Rightarrow>
             if \<not> sa_bar0 A
             then (None, nvme_sim_destroy [RSim, RVdev, RSq, RCq, RDoorbells, RDataBuf])
             else if \<not> sa_pthread A
             then (None, nvme_sim_destroy [RSim, RVdev, RSq, RCq, RDoorbells, RDataBuf, RBar0])
             else (Some (sim_init_bar0
                 \<lparr>m_sq = replicate (unat (cfg_sq_size cfg)) sqe_zero,
                  m_cq = replicate (unat (cfg_cq_size cfg)) cqe_zero,
                  m_sq_db = 0, m_cq_db = 0,
                  m_data = mem_store (sa_memory A) buf
                    (replicate (unat (sim_data_buf_size cfg)) 0),
                  m_flush_reg = 0, m_sim_build = sa_sim_build A, m_events = [],
                  s_cfg = cfg, s_vdev = replicate (unat vdev_size) 0, s_vdev_size = vdev_size,
                  s_data_buf = buf, s_data_buf_size = sim_data_buf_size cfg, s_bar0 = [],
                  s_sq_head = 0, s_cq_tail = 0, s_cq_phase = 1, s_running = True,
                  s_fault = False\<rparr>),
               [RSim, RVdev, RSq, RCq, RDoorbells, RDataBuf, RBar0, RThread])))"

section \<open>Accessors and test helpers\<close>

definition nvme_sim_get_data_buf_phys :: "nvme_sim \<Rightarrow> u64" where
  "nvme_sim_get_data_buf_phys sim = s_data_buf sim"

definition nvme_sim_get_sq_size :: "nvme_sim \<Rightarrow> u16" where
  "nvme_sim_get_sq_size sim = cfg_sq_size (s_cfg sim)"

definition nvme_sim_get_cq_size :: "nvme_sim \<Rightarrow> u16" where
  "nvme_sim_get_cq_size sim = cfg_cq_size (s_cfg sim)"

text \<open>\<^verbatim>\<open>nvme_sim_fill_blocks\<close> from iteration \<open>i\<close> on, with \<open>n\<close> iterations left; the callback returns
  the bytes of one block.\<close>

fun fill_blocks_from ::
    "nat \<Rightarrow> nvme_sim \<Rightarrow> u32 \<Rightarrow> u32 \<Rightarrow> (u32 \<Rightarrow> u8 list \<Rightarrow> u32 \<Rightarrow> u8 list) \<Rightarrow> nvme_sim" where
  "fill_blocks_from 0 sim start_lba i pattern_fn = sim"
| "fill_blocks_from (Suc n) sim start_lba i pattern_fn =
    (let lba = start_lba + i
     in if lba \<ge> cfg_num_blocks (s_cfg sim) then sim
        else (let off = unat (ucast lba * ucast (cfg_block_size (s_cfg sim)) :: u64);
                  bs = unat (cfg_block_size (s_cfg sim));
                  block = take bs (drop off (s_vdev sim));
                  sim = sim\<lparr>s_vdev := put_bytes off
                     (pattern_fn lba block (cfg_block_size (s_cfg sim))) (s_vdev sim)\<rparr>
              in fill_blocks_from n sim start_lba (i + 1) pattern_fn))"

definition nvme_sim_fill_blocks ::
    "nvme_sim \<Rightarrow> u32 \<Rightarrow> u32 \<Rightarrow> (u32 \<Rightarrow> u8 list \<Rightarrow> u32 \<Rightarrow> u8 list) \<Rightarrow> nvme_sim" where
  "nvme_sim_fill_blocks sim start_lba count pattern_fn =
     fill_blocks_from (unat count) sim start_lba 0 pattern_fn"

text \<open>The bytes that \<^verbatim>\<open>nvme_sim_direct_read\<close> copies out; \<open>None\<close> is its return value -1, and the
  inner \<open>None\<close> a copy that leaves the virtual device.\<close>

definition nvme_sim_direct_read :: "nvme_sim \<Rightarrow> u32 \<Rightarrow> u32 \<Rightarrow> u8 list option option" where
  "nvme_sim_direct_read sim lba count =
    (if lba + count > cfg_num_blocks (s_cfg sim) then None
     else (let offset = unat (ucast lba * ucast (cfg_block_size (s_cfg sim)) :: u64);
               size = unat (ucast count * ucast (cfg_block_size (s_cfg sim)) :: u64)
           in Some (if offset + size \<le> length (s_vdev sim)
                    then Some (take size (drop offset (s_vdev sim))) else None)))"


section \<open>Well-formed simulators\<close>

definition sim_wf :: "nvme_sim \<Rightarrow> bool" where
  "sim_wf s \<longleftrightarrow>
     cfg_sq_size (s_cfg s) \<noteq> 0 \<and> cfg_cq_size (s_cfg s) \<noteq> 0
   \<and> length (m_sq s) = unat (cfg_sq_size (s_cfg s))
   \<and> length (m_cq s) = unat (cfg_cq_size (s_cfg s))
   \<and> length (s_vdev s) = unat (cfg_num_blocks (s_cfg s)) * unat (cfg_block_size (s_cfg s))
   \<and> s_sq_head s < cfg_sq_size (s_cfg s)
   \<and> s_cq_tail s < cfg_cq_size (s_cfg s)
   \<and> (s_cq_phase s = 0 \<or> s_cq_phase s = 1)"

text \<open>The first and the last block of a command as natural numbers: the range check of the code
  is exact for commands whose range does not wrap around in 64 bits.\<close>

definition cmd_nowrap :: "nvme_sq_entry \<Rightarrow> bool" where
  "cmd_nowrap e \<longleftrightarrow> unat (cmd_slba e) + unat (cmd_nlb e) < 2 ^ 64"

definition cmd_in_range :: "nvme_sim_config \<Rightarrow> nvme_sq_entry \<Rightarrow> bool" where
  "cmd_in_range cfg e \<longleftrightarrow> unat (cmd_slba e) + unat (cmd_nlb e) \<le> unat (cfg_num_blocks cfg)"

definition is_data_cmd :: "nvme_sq_entry \<Rightarrow> bool" where
  "is_data_cmd e \<longleftrightarrow> sqe_opc e = NVME_IO_OPC_READ \<or> sqe_opc e = NVME_IO_OPC_WRITE"

definition sim_status :: "nvme_sim_config \<Rightarrow> nvme_sq_entry \<Rightarrow> u16" where
  "sim_status cfg e =
    (if is_data_cmd e then (if cmd_in_range cfg e then NVME_SC_SUCCESS else NVME_SC_INVALID_FIELD)
     else if sqe_opc e = NVME_IO_OPC_FLUSH then NVME_SC_SUCCESS else NVME_SC_INVALID_OPCODE)"

definition block_bytes :: "nvme_sim \<Rightarrow> nat \<Rightarrow> nat \<Rightarrow> u8 list" where
  "block_bytes s lba n =
     take (n * unat (cfg_block_size (s_cfg s))) (drop (lba * unat (cfg_block_size (s_cfg s))) (s_vdev s))"

text \<open>The effect of a command on the data memory and on the virtual device.\<close>

definition sim_effect :: "nvme_sim \<Rightarrow> nvme_sq_entry \<Rightarrow> nvme_sim" where
  "sim_effect s e =
    (if is_data_cmd e \<and> cmd_in_range (s_cfg s) e
     then (if sqe_opc e = NVME_IO_OPC_READ
           then s\<lparr>m_data := mem_store (m_data s) (sqe_prp1 e)
                    (block_bytes s (unat (cmd_slba e)) (unat (cmd_nlb e)))\<rparr>
           else s\<lparr>s_vdev := put_bytes (unat (cmd_slba e) * unat (cfg_block_size (s_cfg s)))
                    (mem_load (m_data s) (sqe_prp1 e)
                      (unat (cmd_nlb e) * unat (cfg_block_size (s_cfg s)))) (s_vdev s)\<rparr>)
     else s)"

lemma u32_mult_lt_u64: "unat (a :: u32) * unat (b :: u32) < 2 ^ 64"
proof -
  have "unat a \<le> 4294967295" "unat b \<le> 4294967295"
    using unat_bound[of a] unat_bound[of b] by simp_all
  then have "unat a * unat b \<le> 4294967295 * 4294967295"
    by (rule mult_le_mono)
  then show ?thesis by simp
qed

lemma range_check_exact:
  assumes "cmd_nowrap e"
  shows "cmd_slba e + ucast (cmd_nlb e) > ucast (cfg_num_blocks cfg) \<longleftrightarrow> \<not> cmd_in_range cfg e"
  using assms by (simp add: cmd_nowrap_def cmd_in_range_def word_less_nat_alt word_add_le_nat not_le)

lemma in_range_bytes:
  assumes "cmd_in_range (s_cfg s) e" and "sim_wf s"
  defines "bs \<equiv> unat (cfg_block_size (s_cfg s))"
  shows "unat (cmd_slba e * ucast (cfg_block_size (s_cfg s))) = unat (cmd_slba e) * bs"
    and "unat (ucast (cmd_nlb e) * ucast (cfg_block_size (s_cfg s)) :: u64) = unat (cmd_nlb e) * bs"
    and "unat (cmd_slba e) * bs + unat (cmd_nlb e) * bs \<le> length (s_vdev s)"
proof -
  let ?nb = "unat (cfg_num_blocks (s_cfg s))"
  have le: "(unat (cmd_slba e) + unat (cmd_nlb e)) * bs \<le> ?nb * bs"
    using assms(1) by (intro mult_le_mono1) (simp add: cmd_in_range_def)
  then show "unat (cmd_slba e) * bs + unat (cmd_nlb e) * bs \<le> length (s_vdev s)"
    using assms(2) by (simp add: sim_wf_def bs_def add_mult_distrib)
  have lt: "?nb * bs < 2 ^ 64" unfolding bs_def by (rule u32_mult_lt_u64)
  show "unat (cmd_slba e * ucast (cfg_block_size (s_cfg s))) = unat (cmd_slba e) * bs"
    and "unat (ucast (cmd_nlb e) * ucast (cfg_block_size (s_cfg s)) :: u64) = unat (cmd_nlb e) * bs"
    using le lt by (simp_all add: unat_word_ariths bs_def add_mult_distrib)
qed

lemma sim_dispatch_closed:
  assumes wf: "sim_wf s" and nw: "is_data_cmd e \<Longrightarrow> cmd_nowrap e"
  shows "sim_dispatch s e =
    sim_put_cqe (sim_effect s e) (sqe_cid e) (push_bit 1 (sim_status (s_cfg s) e) OR ucast (s_cq_phase s))"
proof (cases "is_data_cmd e")
  case True
  then have rc: "cmd_slba e + ucast (cmd_nlb e) > ucast (cfg_num_blocks (s_cfg s))
      \<longleftrightarrow> \<not> cmd_in_range (s_cfg s) e"
    using nw by (intro range_check_exact) simp
  show ?thesis
  proof (cases "cmd_in_range (s_cfg s) e")
    case in_range: True
    note b = in_range_bytes[OF in_range wf]
    have "NVME_IO_OPC_READ \<noteq> NVME_IO_OPC_WRITE" by (simp add: cmd_defs)
    then show ?thesis
      using True in_range rc b
      by (auto simp: is_data_cmd_def sim_dispatch_def Let_def sim_process_read_def
          sim_process_write_def sim_effect_def sim_status_def NVME_SC_SUCCESS_def block_bytes_def)
  next
    case False
    then show ?thesis
      using True rc by (auto simp: is_data_cmd_def sim_dispatch_def Let_def sim_process_read_def
          sim_process_write_def sim_effect_def sim_status_def NVME_SC_INVALID_FIELD_def)
  qed
next
  case False
  then show ?thesis
    by (auto simp: is_data_cmd_def sim_dispatch_def Let_def sim_effect_def sim_status_def
        NVME_SC_SUCCESS_def)
qed

lemma sim_effect_simps [simp]:
  "s_cfg (sim_effect s e) = s_cfg s" "m_sq (sim_effect s e) = m_sq s"
  "m_cq (sim_effect s e) = m_cq s" "m_sq_db (sim_effect s e) = m_sq_db s"
  "s_sq_head (sim_effect s e) = s_sq_head s" "s_cq_tail (sim_effect s e) = s_cq_tail s"
  "s_cq_phase (sim_effect s e) = s_cq_phase s" "s_fault (sim_effect s e) = s_fault s"
  "s_running (sim_effect s e) = s_running s"
  by (simp_all add: sim_effect_def)

lemma length_vdev_sim_effect [simp]:
  "sim_wf s \<Longrightarrow> length (s_vdev (sim_effect s e)) = length (s_vdev s)"
  using in_range_bytes(3)[of s e] by (auto simp: sim_effect_def)

interpretation sim_cq: phase_ring "\<lambda>s. unat (cfg_cq_size (s_cfg s))" "\<lambda>s. unat (s_cq_tail s)"
  s_cq_phase sim_advance_cq_tail
proof
  fix s :: nvme_sim
  show "unat (cfg_cq_size (s_cfg (sim_advance_cq_tail s))) = unat (cfg_cq_size (s_cfg s))"
    by (simp add: sim_advance_cq_tail_def Let_def)
  assume lt: "unat (s_cq_tail s) < unat (cfg_cq_size (s_cfg s))"
  then have "unat (s_cq_tail s + 1) = Suc (unat (s_cq_tail s))"
    using unsigned_less[of "cfg_cq_size (s_cfg s)"] by (intro unat_succ_lt) auto
  then have "s_cq_tail s + 1 \<ge> cfg_cq_size (s_cfg s)
      \<longleftrightarrow> Suc (unat (s_cq_tail s)) = unat (cfg_cq_size (s_cfg s))"
    using lt by (auto simp: word_le_nat_alt)
  then show "unat (s_cq_tail (sim_advance_cq_tail s)) =
      (if Suc (unat (s_cq_tail s)) = unat (cfg_cq_size (s_cfg s)) then 0 else Suc (unat (s_cq_tail s)))"
    and "s_cq_phase (sim_advance_cq_tail s) =
      (if Suc (unat (s_cq_tail s)) = unat (cfg_cq_size (s_cfg s)) then s_cq_phase s XOR 1
       else s_cq_phase s)"
    using \<open>unat (s_cq_tail s + 1) = _\<close> by (auto simp: sim_advance_cq_tail_def Let_def)
qed

lemma sim_advance_simps [simp]:
  "s_cfg (sim_advance_cq_tail s) = s_cfg s" "m_sq (sim_advance_cq_tail s) = m_sq s"
  "m_cq (sim_advance_cq_tail s) = m_cq s" "m_sq_db (sim_advance_cq_tail s) = m_sq_db s"
  "m_data (sim_advance_cq_tail s) = m_data s" "s_vdev (sim_advance_cq_tail s) = s_vdev s"
  "s_sq_head (sim_advance_cq_tail s) = s_sq_head s" "s_fault (sim_advance_cq_tail s) = s_fault s"
  "s_running (sim_advance_cq_tail s) = s_running s"
  by (simp_all add: sim_advance_cq_tail_def Let_def)

text \<open>The entry that the simulator posts for a command.\<close>

definition sim_cqe :: "nvme_sim \<Rightarrow> nvme_sq_entry \<Rightarrow> nvme_cq_entry" where
  "sim_cqe s e = \<lparr>cqe_cdw0 = 0, cqe_cdw1 = 0, cqe_sqhd = s_sq_head s, cqe_sqid = 1,
     cqe_cid = sqe_cid e,
     cqe_status_phase = push_bit 1 (sim_status (s_cfg s) e) OR ucast (s_cq_phase s)\<rparr>"

text \<open>A step with a pending command, in closed form.\<close>

lemma sim_poller_step_pending:
  assumes wf: "sim_wf s" and "\<not> s_fault s" and "s_running s"
    and pending: "ucast (s_sq_head s) \<noteq> m_sq_db s"
    and cmd: "cmd = m_sq s ! unat (s_sq_head s)" and nw: "is_data_cmd cmd \<Longrightarrow> cmd_nowrap cmd"
  shows "sim_poller_step s =
    (sim_advance_cq_tail ((sim_effect s cmd)\<lparr>m_cq := (m_cq s)[unat (s_cq_tail s) := sim_cqe s cmd]\<rparr>))
      \<lparr>s_sq_head := ucast ((ucast (s_sq_head s) + 1 :: u32) mod ucast (cfg_sq_size (s_cfg s)))\<rparr>"
proof -
  have h: "unat (s_sq_head s) < length (m_sq s)" and t: "unat (s_cq_tail s) < length (m_cq s)"
    using wf by (auto simp: sim_wf_def word_less_nat_alt)
  have "sim_dispatch s cmd =
      (sim_effect s cmd)\<lparr>m_cq := (m_cq s)[unat (s_cq_tail s) := sim_cqe s cmd]\<rparr>"
    using sim_dispatch_closed[OF wf nw] t by (simp add: sim_put_cqe_def sim_cqe_def)
  then show ?thesis
    using assms h by (simp add: sim_poller_step_def Let_def)
qed

lemma sim_poller_step_idle:
  "ucast (s_sq_head s) = m_sq_db s \<Longrightarrow> sim_poller_step s = s"
  by (simp add: sim_poller_step_def)

text \<open>A simulator that \<^verbatim>\<open>nvme_sim_create\<close> returns.\<close>

lemma nvme_sim_create_state:
  assumes "nvme_sim_create A cfg = (Some s, held)"
  shows "s_cfg s = cfg" "m_sq s = replicate (unat (cfg_sq_size cfg)) sqe_zero"
    "m_cq s = replicate (unat (cfg_cq_size cfg)) cqe_zero" "m_sq_db s = 0"
    "s_vdev s = replicate (unat (cfg_num_blocks cfg) * unat (cfg_block_size cfg)) 0"
    "s_sq_head s = 0" "s_cq_tail s = 0" "s_cq_phase s = 1" "s_running s" "\<not> s_fault s"
proof -
  have sz: "unat (ucast (cfg_num_blocks cfg) * ucast (cfg_block_size cfg) :: u64)
      = unat (cfg_num_blocks cfg) * unat (cfg_block_size cfg)"
    using u32_mult_lt_u64[of "cfg_num_blocks cfg" "cfg_block_size cfg"]
    by (simp add: unat_word_ariths)
  show "s_cfg s = cfg" "m_sq s = replicate (unat (cfg_sq_size cfg)) sqe_zero"
    "m_cq s = replicate (unat (cfg_cq_size cfg)) cqe_zero" "m_sq_db s = 0"
    "s_vdev s = replicate (unat (cfg_num_blocks cfg) * unat (cfg_block_size cfg)) 0"
    "s_sq_head s = 0" "s_cq_tail s = 0" "s_cq_phase s = 1" "s_running s" "\<not> s_fault s"
    using assms
    by (auto simp: nvme_sim_create_def Let_def sim_init_bar0_def sz split: if_splits option.splits)
qed

section \<open>Properties of the simulator\<close>

text \<open>The registers of a BAR image.\<close>

definition bar_cap :: "u8 list \<Rightarrow> u64" where "bar_cap b = bytes_u64 b (unat NVME_REG_CAP)"
definition bar_vs :: "u8 list \<Rightarrow> u32" where "bar_vs b = bytes_u32 b (unat NVME_REG_VS)"
definition bar_cc :: "u8 list \<Rightarrow> u32" where "bar_cc b = bytes_u32 b (unat NVME_REG_CC)"
definition bar_csts :: "u8 list \<Rightarrow> u32" where "bar_csts b = bytes_u32 b (unat NVME_REG_CSTS)"

lemma bytes_u64_put_other:
  assumes "i + length bs \<le> length xs" and "j + 8 \<le> i \<or> i + length bs \<le> j"
  shows "bytes_u64 (put_bytes i bs xs) j = bytes_u64 xs j"
  using assms bytes_u32_put_other[of i bs xs] by (auto simp: bytes_u64_def)

lemma sim_bar0_words:
  defines "b s \<equiv> s_bar0 (sim_init_bar0 s)"
  shows "bar_cap (b s) = fld_set cap_css 1 (fld_set cap_mpsmax 0 (fld_set cap_mpsmin 0
      (fld_set cap_dstrd 0 (fld_set cap_to 10 (fld_set cap_cqr 1
        (fld_set cap_mqes (ucast (cfg_sq_size (s_cfg s) - 1)) 0))))))"
    and "bar_vs (b s) = fld_set vs_ter 0 (fld_set vs_mnr 4 (fld_set vs_mjr 1 0))"
    and "bar_csts (b s) = fld_set csts_rdy 1 0"
    and "bar_cc (b s) = fld_set cc_iocqes 4 (fld_set cc_iosqes 6 (fld_set cc_en 1 0))"
  by (simp_all add: b_def sim_init_bar0_def Let_def bar_cap_def bar_vs_def bar_csts_def bar_cc_def
      SIM_BAR0_SIZE_def NVME_REG_CAP_def NVME_REG_VS_def NVME_REG_CSTS_def NVME_REG_CC_def
      bytes_u64_put_other bytes_u64_put_same bytes_u32_put_other bytes_u32_put_same)

text \<open>The BAR image of a simulator shows an enabled, ready controller: the capabilities give
  the submission queue size minus one, contiguous queues, a 5 s timeout, stride 0, 4 KiB pages and
  the NVM command set; version 1.4; enabled with 64-byte and 16-byte queue entries; ready and not
  in fatal state.\<close>

theorem sim_bar0_registers:
  "let b = s_bar0 (sim_init_bar0 s) in
     fld_get cap_mqes (bar_cap b) = ucast (cfg_sq_size (s_cfg s) - 1)
   \<and> fld_get cap_cqr (bar_cap b) = 1 \<and> fld_get cap_to (bar_cap b) = 10
   \<and> fld_get cap_dstrd (bar_cap b) = 0 \<and> fld_get cap_mpsmin (bar_cap b) = 0
   \<and> fld_get cap_css (bar_cap b) = 1
   \<and> fld_get vs_mjr (bar_vs b) = 1 \<and> fld_get vs_mnr (bar_vs b) = 4 \<and> fld_get vs_ter (bar_vs b) = 0
   \<and> fld_get cc_en (bar_cc b) = 1 \<and> fld_get cc_iosqes (bar_cc b) = 6 \<and> fld_get cc_iocqes (bar_cc b) = 4
   \<and> fld_get csts_rdy (bar_csts b) = 1 \<and> fld_get csts_cfs (bar_csts b) = 0"
proof -
  have mq: "take_bit 16 (ucast (w :: u16) :: u64) = ucast w" for w
    by (rule bit_eqI) (auto simp: bit_simps dest: bit_imp_le_length)
  show ?thesis
    unfolding Let_def sim_bar0_words
    by (simp add: fld_get_set_same fld_get_set_other fld_disjoint_def reg_defs mq) (simp add: fld_get_def)
qed

text \<open>Creating a simulator leaks nothing: when any allocation or the thread creation fails, no
  resource is held afterwards, and destroying a created simulator releases every resource.\<close>

theorem sim_create_destroy_leak_free:
  "case nvme_sim_create A cfg of
     (None, held) \<Rightarrow> held = []
   | (Some s, held) \<Rightarrow> set held = UNIV \<and> nvme_sim_destroy held = []"
proof -
  have "r \<in> set [RSim, RVdev, RSq, RCq, RDoorbells, RDataBuf, RBar0, RThread]" for r
    by (cases r) auto
  then show ?thesis
    by (auto simp: nvme_sim_create_def Let_def nvme_sim_destroy_def split: option.splits)
qed

text \<open>The range check of the simulator adds the starting block and the count in 64 bits, so a
  command whose range passes the end of the 64-bit block space wraps around to a small number and is
  accepted: its copy leaves the virtual device and the simulator crashes.\<close>

theorem sim_range_check_wraps:
  assumes "sim_wf s" and "\<not> s_fault s" and "s_running s" and "ucast (s_sq_head s) \<noteq> m_sq_db s"
    and "e = m_sq s ! unat (s_sq_head s)" and "is_data_cmd e" and "0 < cfg_block_size (s_cfg s)"
    and "2 ^ 64 \<le> unat (cmd_slba e) + unat (cmd_nlb e)"
    and "unat (cmd_slba e) + unat (cmd_nlb e) - 2 ^ 64 \<le> unat (cfg_num_blocks (s_cfg s))"
    and "unat (cmd_nlb e) \<le> 65536"
  shows "s_fault (sim_poller_step s)"
proof -
  let ?bs = "cfg_block_size (s_cfg s)"
  define k where "k = 2 ^ 64 - unat (cmd_slba e)"
  have k: "0 < k" "k \<le> 65536" "k \<le> unat (cmd_nlb e)"
    using assms(8,10) unat_bound[of "cmd_slba e"] by (auto simp: k_def)
  have "(of_nat k :: u64) = of_nat (2 ^ 64) - of_nat (unat (cmd_slba e))"
    unfolding k_def using unat_bound[of "cmd_slba e"] by (intro of_nat_diff) simp
  then have slba: "cmd_slba e = - of_nat k" by simp
  have kb: "k * unat ?bs < 2 ^ 64" "unat (cmd_nlb e) * unat ?bs < 2 ^ 64" "0 < k * unat ?bs"
  proof -
    have "unat ?bs \<le> 2 ^ 32" using unat_bound[of ?bs] by simp
    then have le: "n * unat ?bs \<le> 65536 * 2 ^ 32" if "n \<le> 65536" for n
      using that by (intro mult_le_mono)
    show "k * unat ?bs < 2 ^ 64" using le[OF k(2)] by (rule le_less_trans) simp
    show "unat (cmd_nlb e) * unat ?bs < 2 ^ 64" using le[OF assms(10)] by (rule le_less_trans) simp
    show "0 < k * unat ?bs" using k(1) assms(7) by (simp add: unat_gt_0 word_gt_0)
  qed
  have "cmd_slba e * ucast ?bs = - of_nat (k * unat ?bs)" by (simp add: slba)
  then have off: "unat (cmd_slba e * ucast ?bs) = 2 ^ 64 - k * unat ?bs"
    using unat_minus_of_nat[OF kb(3,1)] by simp
  have cnt: "unat (ucast (cmd_nlb e) * ucast ?bs :: u64) = unat (cmd_nlb e) * unat ?bs"
    using kb(2) by (simp add: unat_word_ariths)
  have "k * unat ?bs \<le> unat (cmd_nlb e) * unat ?bs" using k(3) by (rule mult_le_mono1)
  moreover have len: "length (s_vdev s) = unat (cfg_num_blocks (s_cfg s)) * unat ?bs"
    using assms(1) by (simp add: sim_wf_def)
  ultimately have out: "length (s_vdev s) < unat (cmd_slba e * ucast ?bs) + unat (ucast (cmd_nlb e) * ucast ?bs :: u64)"
    using kb(1) len u32_mult_lt_u64[of "cfg_num_blocks (s_cfg s)" ?bs]
    unfolding off cnt by linarith
  have acc: "\<not> cmd_slba e + ucast (cmd_nlb e) > ucast (cfg_num_blocks (s_cfg s))"
    using assms(8,9) unat_bound[of "cmd_slba e"] unat_bound[of "cmd_nlb e"]
    by (simp add: word_less_nat_alt unat_word_ariths mod_if)
  have "s_fault (sim_dispatch s e)"
    using assms(6) out acc
    by (auto simp: sim_dispatch_def Let_def is_data_cmd_def sim_process_read_def sim_process_write_def)
  moreover have "unat (s_sq_head s) < length (m_sq s)"
    using assms(1) by (simp add: sim_wf_def word_less_nat_alt)
  ultimately show ?thesis
    using assms(2-5) by (simp add: sim_poller_step_def Let_def)
qed

text \<open>A simulator with four blocks of 512 bytes and queues of four entries, for the examples.\<close>

definition example_cfg :: nvme_sim_config where
  "example_cfg = \<lparr>cfg_num_blocks = 4, cfg_block_size = 512, cfg_sq_size = 4, cfg_cq_size = 4,
     cfg_latency_us = 0\<rparr>"

definition example_alloc :: sim_alloc_env where
  "example_alloc = \<lparr>sa_calloc_sim = True, sa_calloc_vdev = True, sa_sq = True, sa_cq = True,
     sa_doorbells = True, sa_data_buf = Some 0x10000, sa_bar0 = True, sa_pthread = True,
     sa_memory = (\<lambda>_. 0), sa_sim_build = True\<rparr>"

definition example_sim :: nvme_sim where
  "example_sim = the (fst (nvme_sim_create example_alloc example_cfg))"

lemma example_create: "\<exists>held. nvme_sim_create example_alloc example_cfg = (Some example_sim, held)"
  by (simp add: example_sim_def nvme_sim_create_def example_alloc_def Let_def)

text \<open>Its state when the kernel has submitted a read of the last two blocks of the 64-bit block
  space.\<close>

definition example_wrap_sim :: nvme_sim where
  "example_wrap_sim = example_sim\<lparr>m_sq := (m_sq example_sim)[0 :=
     io_command NVME_IO_OPC_READ 0 1 0x10000 0 0xFFFFFFFFFFFFFFFF 1], m_sq_db := 1\<rparr>"

theorem sim_range_check_wraps_witness: "s_fault (sim_poller_step example_wrap_sim)"
proof -
  obtain held where c: "nvme_sim_create example_alloc example_cfg = (Some example_sim, held)"
    using example_create by blast
  note st = nvme_sim_create_state[OF c]
  show ?thesis
    by (rule sim_range_check_wraps[where e = "io_command NVME_IO_OPC_READ 0 1 0x10000 0 0xFFFFFFFFFFFFFFFF 1"])
      (simp_all add: example_wrap_sim_def sim_wf_def st example_cfg_def is_data_cmd_def)
qed

section \<open>The test helpers\<close>

text \<open>The bytes that the callback makes of block \<open>i\<close> of a range.\<close>

definition pattern_block :: "nvme_sim \<Rightarrow> (u32 \<Rightarrow> u8 list \<Rightarrow> u32 \<Rightarrow> u8 list) \<Rightarrow> nat \<Rightarrow> u8 list" where
  "pattern_block s f lba = f (of_nat lba) (block_bytes s lba 1) (cfg_block_size (s_cfg s))"

lemma block_bytes_put_before:
  assumes "off + length bs \<le> length (s_vdev s)" and "off + length bs \<le> lba * unat (cfg_block_size (s_cfg s))"
  shows "block_bytes (s\<lparr>s_vdev := put_bytes off bs (s_vdev s)\<rparr>) lba n = block_bytes s lba n"
  using assms by (simp add: block_bytes_def put_bytes_def)

lemma fill_blocks_from_closed:
  assumes "\<And>lba b. length (f lba b (cfg_block_size (s_cfg s))) = unat (cfg_block_size (s_cfg s))"
    and "length (s_vdev s) = unat (cfg_num_blocks (s_cfg s)) * unat (cfg_block_size (s_cfg s))"
    and "lba = unat start + unat i" and "lba + n \<le> unat (cfg_num_blocks (s_cfg s))"
  shows "fill_blocks_from n s start i f = s\<lparr>s_vdev := put_bytes (lba * unat (cfg_block_size (s_cfg s)))
    (concat (map (pattern_block s f) [lba..<lba + n])) (s_vdev s)\<rparr>"
  using assms
proof (induction n arbitrary: s i lba)
  case 0
  then show ?case by simp
next
  case (Suc n)
  let ?bs = "unat (cfg_block_size (s_cfg s))" and ?nb = "unat (cfg_num_blocks (s_cfg s))"
  let ?p = "pattern_block s f lba"
  define s1 where "s1 = s\<lparr>s_vdev := put_bytes (lba * ?bs) ?p (s_vdev s)\<rparr>"
  have lt: "lba < ?nb" "?nb < 2 ^ 32" using Suc.prems(4) unat_bound[of "cfg_num_blocks (s_cfg s)"] by auto
  have li: "unat (start + i) = lba" using lt Suc.prems(3) by (simp add: unat_word_ariths)
  then have lw: "start + i = of_nat lba" by (metis of_nat_unat ucast_id)
  have si: "unat (i + 1) = unat i + 1" using lt Suc.prems(3) by (simp add: unat_word_ariths)
  have off: "unat (ucast (start + i) * ucast (cfg_block_size (s_cfg s)) :: u64) = lba * ?bs"
    using u32_mult_lt_u64[of "start + i" "cfg_block_size (s_cfg s)"] li by (simp add: unat_word_ariths)
  have lp: "length ?p = ?bs" using Suc.prems(1) by (simp add: pattern_block_def)
  have "(lba + 1 + n) * ?bs \<le> ?nb * ?bs" using Suc.prems(4) by (intro mult_le_mono1) simp
  then have fit: "lba * ?bs + ?bs + n * ?bs \<le> length (s_vdev s)"
    using Suc.prems(2) by (simp add: algebra_simps)
  have pat: "pattern_block s1 f k = pattern_block s f k" if "lba + 1 \<le> k" for k
  proof -
    have "(lba + 1) * ?bs \<le> k * ?bs" using that by (rule mult_le_mono1)
    then show ?thesis
      using fit lp by (simp add: pattern_block_def s1_def block_bytes_put_before algebra_simps)
  qed
  have "fill_blocks_from (Suc n) s start i f = fill_blocks_from n s1 start (i + 1) f"
    using lt li off lw by (simp add: s1_def pattern_block_def block_bytes_def Let_def word_le_nat_alt)
  also have "\<dots> = s1\<lparr>s_vdev := put_bytes ((lba + 1) * ?bs)
      (concat (map (pattern_block s1 f) [lba + 1..<lba + 1 + n])) (s_vdev s1)\<rparr>"
    using Suc.IH[of s1 "lba + 1" "i + 1"] Suc.prems si fit lp by (simp add: s1_def)
  also have "map (pattern_block s1 f) [lba + 1..<lba + 1 + n] = map (pattern_block s f) [lba + 1..<lba + 1 + n]"
    using pat by (intro map_cong) auto
  also have "put_bytes ((lba + 1) * ?bs) (concat \<dots>) (s_vdev s1) = put_bytes (lba * ?bs)
      (?p @ concat (map (pattern_block s f) [lba + 1..<lba + 1 + n])) (s_vdev s)"
  proof -
    have "length (concat (map (pattern_block s f) [lba + 1..<lba + 1 + n])) = n * ?bs"
      using Suc.prems(1) by (simp add: length_concat pattern_block_def comp_def sum_list_triv)
    then show ?thesis
      using put_bytes_append[of "lba * ?bs" ?p _ "s_vdev s"] fit lp
      by (simp add: s1_def algebra_simps)
  qed
  also have "?p @ concat (map (pattern_block s f) [lba + 1..<lba + 1 + n]) =
      concat (map (pattern_block s f) [lba..<lba + Suc n])"
    by (subst (2) upt_conv_Cons) simp_all
  finally show ?case by (simp add: s1_def del: fill_blocks_from.simps)
qed

text \<open>The test helpers are consistent: reading a range of blocks directly after filling it
  returns, block for block, what the callback produced, and the fill touches nothing outside the
  range.\<close>

theorem fill_direct_read_roundtrip:
  assumes "\<And>lba b. length (f lba b (cfg_block_size (s_cfg s))) = unat (cfg_block_size (s_cfg s))"
    and "length (s_vdev s) = unat (cfg_num_blocks (s_cfg s)) * unat (cfg_block_size (s_cfg s))"
    and "unat start + unat count \<le> unat (cfg_num_blocks (s_cfg s))"
  shows "nvme_sim_direct_read (nvme_sim_fill_blocks s start count f) start count =
      Some (Some (concat (map (pattern_block s f) [unat start..<unat start + unat count])))
    \<and> take (unat start * unat (cfg_block_size (s_cfg s))) (s_vdev (nvme_sim_fill_blocks s start count f)) =
      take (unat start * unat (cfg_block_size (s_cfg s))) (s_vdev s)
    \<and> drop ((unat start + unat count) * unat (cfg_block_size (s_cfg s)))
        (s_vdev (nvme_sim_fill_blocks s start count f)) =
      drop ((unat start + unat count) * unat (cfg_block_size (s_cfg s))) (s_vdev s)"
proof -
  let ?bs = "unat (cfg_block_size (s_cfg s))" and ?lba = "unat start" and ?n = "unat count"
  let ?c = "concat (map (pattern_block s f) [?lba..<?lba + ?n])"
  have fill: "nvme_sim_fill_blocks s start count f = s\<lparr>s_vdev := put_bytes (?lba * ?bs) ?c (s_vdev s)\<rparr>"
    unfolding nvme_sim_fill_blocks_def using assms by (intro fill_blocks_from_closed) auto
  have len: "length ?c = ?n * ?bs"
    using assms(1) by (simp add: length_concat pattern_block_def comp_def sum_list_triv)
  have "(?lba + ?n) * ?bs \<le> length (s_vdev s)"
    unfolding assms(2) using assms(3) by (rule mult_le_mono1)
  then have fit: "?lba * ?bs + ?n * ?bs \<le> length (s_vdev s)" by (simp add: add_mult_distrib)
  have rng: "\<not> start + count > cfg_num_blocks (s_cfg s)"
    using assms(3) unat_bound[of "cfg_num_blocks (s_cfg s)"] by (simp add: word_less_nat_alt unat_word_ariths)
  have "unat (ucast start * ucast (cfg_block_size (s_cfg s)) :: u64) = ?lba * ?bs"
    "unat (ucast count * ucast (cfg_block_size (s_cfg s)) :: u64) = ?n * ?bs"
    using u32_mult_lt_u64[of start "cfg_block_size (s_cfg s)"] u32_mult_lt_u64[of count "cfg_block_size (s_cfg s)"]
    by (simp_all add: unat_word_ariths)
  then show ?thesis
    using fit len rng
    by (simp add: fill nvme_sim_direct_read_def Let_def) (simp add: put_bytes_def add_mult_distrib)
qed

theorem fill_direct_read_roundtrip_witness:
  "nvme_sim_direct_read (nvme_sim_fill_blocks example_sim 1 2 (\<lambda>lba b n. replicate 512 (ucast lba))) 1 2 =
     Some (Some (replicate 512 1 @ replicate 512 2))"
proof -
  obtain held where c: "nvme_sim_create example_alloc example_cfg = (Some example_sim, held)"
    using example_create by blast
  note st = nvme_sim_create_state[OF c]
  have "[Suc 0..<3] = [1, 2]" by (simp add: upt_rec)
  then show ?thesis
    using fill_direct_read_roundtrip[of "\<lambda>lba b n. replicate 512 (ucast lba)" example_sim 1 2]
    by (simp add: st example_cfg_def pattern_block_def)
qed

end
