(* ===== verification/Controller_Contract.thy ===== *)
theory Controller_Contract
  imports Gpu_Queue
begin

text \<open>
  What a kernel may rely on of the controller behind its queue pair. \<open>inv cmds P C q m\<close> says that
  in memory \<open>m\<close> the commands \<open>cmds\<close> have been submitted through \<open>q\<close>, the controller has processed
  the first \<open>P\<close> of them and the kernel has consumed the completions of the first \<open>C\<close>; \<open>view\<close> is the
  part of the memory that commands act on, \<open>eff\<close> the effect of a command and \<open>stat\<close> its status.
  The lemmas of the block show that the polling loops of \<^verbatim>\<open>cq_poll.cuh\<close> find the completion of a
  single outstanding command, however the controller's steps are scheduled between the polls.
\<close>

locale nvme_controller =
  fixes inv :: "nvme_sq_entry list \<Rightarrow> nat \<Rightarrow> nat \<Rightarrow> gpu_nvme_queue \<Rightarrow> 'x qmem_scheme \<Rightarrow> bool"
    and step :: "'x qmem_scheme \<Rightarrow> 'x qmem_scheme"
    and view :: "'x qmem_scheme \<Rightarrow> 'v"
    and eff :: "nvme_sq_entry \<Rightarrow> 'v \<Rightarrow> 'v"
    and stat :: "'v \<Rightarrow> nvme_sq_entry \<Rightarrow> u16"
    and ok :: "nvme_sq_entry \<Rightarrow> bool"
  assumes inv_bounds: "inv cmds P C q m \<Longrightarrow> C \<le> P \<and> P \<le> length cmds"
    and inv_slot: "inv cmds P C q m \<Longrightarrow> unat (q_sq_tail q) < length (m_sq m)"
    and inv_cid: "inv cmds P C q m \<Longrightarrow>
        q_cid_counter q = of_nat (length cmds) \<and> (\<forall>i < length cmds. sqe_cid (cmds ! i) = of_nat i)"
    and submit: "\<lbrakk>inv cmds P C q m; Suc (length cmds) < C + unat (q_sq_size q);
        length cmds < C + unat (q_cq_size q);
        ok (io_command opc (q_cid_counter q) (q_nsid q) prp1 prp2 slba nlb)\<rbrakk> \<Longrightarrow>
        inv (cmds @ [io_command opc (q_cid_counter q) (q_nsid q) prp1 prp2 slba nlb]) P C
          (queue_submitted q) (mem_submitted opc k q slba nlb prp1 prp2 m)"
    and submit_view: "view (mem_submitted opc k q slba nlb prp1 prp2 m) = view m"
    and step_work: "\<lbrakk>inv cmds P C q m; P < length cmds\<rbrakk> \<Longrightarrow>
        inv cmds (Suc P) C q (step m) \<and> view (step m) = eff (cmds ! P) (view m)"
    and step_idle: "inv cmds (length cmds) C q m \<Longrightarrow> step m = m"
    and poll_none: "inv cmds P P q m \<Longrightarrow>
        cqe_phase8 (m_cq m ! unat (q_cq_head q)) \<noteq> q_cq_phase q"
    and poll_some: "\<lbrakk>inv cmds P C q m; C < P; e = m_cq m ! unat (q_cq_head q)\<rbrakk> \<Longrightarrow>
        cqe_phase8 e = q_cq_phase q \<and> cqe_cid e = sqe_cid (cmds ! C)
      \<and> NVME_CQE_STATUS (cqe_status_phase e) = stat (view m) (cmds ! C)
      \<and> inv cmds P (Suc C) (gpu_nvme_advance_cq_head q) m"
    and frame: "inv cmds P C q (m\<lparr>m_cq_db := v, m_events := ev\<rparr>) = inv cmds P C q m"
    and frame_events: "inv cmds P C q (m\<lparr>m_events := ev\<rparr>) = inv cmds P C q m"
    and view_frame: "view (m\<lparr>m_cq_db := v, m_events := ev\<rparr>) = view m"
    and view_events: "view (m\<lparr>m_events := ev\<rparr>) = view m"
    and stat_eff: "stat (eff cmd w) = stat w"

text \<open>A schedule: at tick \<open>t\<close> the controller makes \<open>sched t\<close> steps.\<close>

definition runs_on ::
    "('x qmem_scheme) gpu_env \<Rightarrow> ('x qmem_scheme \<Rightarrow> 'x qmem_scheme) \<Rightarrow> (nat \<Rightarrow> nat) \<Rightarrow> bool" where
  "runs_on E step sched \<longleftrightarrow> (\<forall>t m. ge_step E t m = (step ^^ sched t) m)"

text \<open>A fair schedule: of any \<open>B\<close> polls in a row, the controller makes a step at one, and the ticks
  of that many polls take less than half of the timeout.\<close>

definition fair_schedule :: "('x qmem_scheme) gpu_env \<Rightarrow> (nat \<Rightarrow> nat) \<Rightarrow> nat \<Rightarrow> u64 \<Rightarrow> bool" where
  "fair_schedule E sched B timeout \<longleftrightarrow>
     (\<forall>t. \<exists>i < B. 0 < sched (t + 2 * i))
   \<and> (\<forall>t k. k \<le> 2 * B + 2 \<longrightarrow> 2 * unat (ge_clock E (t + k) - ge_clock E t) < unat timeout)"

context nvme_controller
begin

text \<open>Any number of controller steps processes a single outstanding command once.\<close>

lemma steps_one:
  assumes "inv cmds P C q m" and "length cmds = Suc C"
  shows "inv cmds (if 0 < k then Suc C else P) C q ((step ^^ k) m)
    \<and> view ((step ^^ k) m) = (if 0 < k \<and> P = C then eff (cmds ! C) (view m) else view m)"
proof (induction k)
  case 0
  then show ?case using assms by simp
next
  case (Suc k)
  let ?P = "if 0 < k then Suc C else P" and ?m = "(step ^^ k) m"
  have P: "P = C \<or> P = Suc C" using inv_bounds[OF assms(1)] assms(2) by auto
  have inv: "inv cmds ?P C q ?m" using Suc by simp
  show ?case
  proof (cases "?P < length cmds")
    case True
    then have k: "k = 0" "P = C" using assms(2) P by (auto split: if_splits)
    show ?thesis using step_work[OF inv True] k by simp
  next
    case False
    then have "?P = length cmds" using inv_bounds[OF inv] by simp
    then have "step ?m = ?m" using step_idle inv by simp
    then show ?thesis using Suc P False assms(2) by (auto split: if_splits)
  qed
qed

definition poll_post ::
    "nvme_sq_entry list \<Rightarrow> nat \<Rightarrow> gpu_nvme_queue \<Rightarrow> 'v \<Rightarrow> 'v \<Rightarrow>
     cq_poll_result \<times> gpu_nvme_queue \<times> 'x qmem_scheme \<times> nat \<Rightarrow> bool" where
  "poll_post cmds C q v0 v z = (case z of (r, q', m', t') \<Rightarrow>
     r_cid r = sqe_cid (cmds ! C) \<and> r_status r = stat v0 (cmds ! C)
   \<and> r_success r = (stat v0 (cmds ! C) = 0) \<and> \<not> r_timed_out r
   \<and> q' = gpu_nvme_advance_cq_head q \<and> inv cmds (Suc C) (Suc C) q' m' \<and> view m' = v)"

lemma poll_loop_one:
  assumes run: "runs_on E step sched" and tmo: "0 < timeout"
    and len: "length cmds = Suc C"
  shows "\<lbrakk>inv cmds P C q m; i < fuel; 0 < sched (t + 2 * i);
      \<forall>j < i. ge_clock E (t + 2 * j + 1) - start \<le> timeout\<rbrakk> \<Longrightarrow>
    \<exists>z. cq_poll_loop fuel E timeout start q m t = Some z
      \<and> poll_post cmds C q (view m) (if P = C then eff (cmds ! C) (view m) else view m) z"
proof (induction fuel arbitrary: P m t i)
  case 0
  then show ?case by simp
next
  case (Suc fuel)
  let ?m = "ge_step E t m"
  let ?P = "if 0 < sched t then Suc C else P"
  let ?v = "if 0 < sched t \<and> P = C then eff (cmds ! C) (view m) else view m"
  have m: "inv cmds ?P C q ?m" "view ?m = ?v"
    using steps_one[OF Suc.prems(1) len, of "sched t"] run by (auto simp: runs_on_def)
  have st: "stat ?v = stat (view m)" by (simp add: stat_eff)
  have P: "P = C \<or> P = Suc C" using inv_bounds[OF Suc.prems(1)] len by auto
  show ?case
  proof (cases "C < ?P")
    case True
    note ps = poll_some[OF m(1) True refl]
    have PC: "?P = Suc C" using True P by (auto split: if_splits)
    show ?thesis
    proof (cases rule: cq_poll_try_cases[of ?m q])
      case (hit ev)
      have "poll_post cmds C q (view m) (if P = C then eff (cmds ! C) (view m) else view m)
          (poll_result_of (m_cq ?m ! unat (q_cq_head q)), gpu_nvme_advance_cq_head q,
           ?m\<lparr>m_cq_db := ucast (q_cq_head (gpu_nvme_advance_cq_head q)), m_events := ev\<rparr>, Suc t)"
        using ps m(2) st PC True P
        by (auto simp: poll_post_def poll_result_of_def frame view_frame split: if_splits)
      then show ?thesis using hit(2) by auto
    next
      case (miss ev)
      then show ?thesis using ps by simp
    qed
  next
    case False
    then have PC: "P = C" "sched t = 0" using P by (auto split: if_splits)
    then obtain j where j: "i = Suc j" using Suc.prems(3) by (cases i) auto
    have inv: "inv cmds C C q ?m" using m(1) PC by simp
    show ?thesis
    proof (cases rule: cq_poll_try_cases[of ?m q])
      case (hit ev)
      then show ?thesis using poll_none[OF inv] by simp
    next
      case (miss ev)
      let ?m' = "?m\<lparr>m_events := ev\<rparr>"
      have "\<not> timeout < ge_clock E (Suc t) - start" using Suc.prems(4) j by (force simp: not_less)
      then have "cq_poll_loop (Suc fuel) E timeout start q m t =
          cq_poll_loop fuel E timeout start q ?m' (Suc (Suc t))"
        using miss(2) tmo by (simp add: Let_def)
      moreover have "\<exists>z. cq_poll_loop fuel E timeout start q ?m' (Suc (Suc t)) = Some z
          \<and> poll_post cmds C q (view ?m') (if C = C then eff (cmds ! C) (view ?m') else view ?m') z"
      proof (rule Suc.IH[of C ?m' j "Suc (Suc t)"])
        show "inv cmds C C q ?m'" using inv by (simp add: frame_events)
        show "j < fuel" "0 < sched (Suc (Suc t) + 2 * j)" using Suc.prems(2,3) j by simp_all
        show "\<forall>ja<j. ge_clock E (Suc (Suc t) + 2 * ja + 1) - start \<le> timeout"
          using Suc.prems(4) j by (auto dest: spec[of _ "Suc _"])
      qed
      ultimately show ?thesis using PC m(2) by (simp add: view_events)
    qed
  qed
qed

lemma poll_for_cid_one:
  assumes run: "runs_on E step sched" and fair: "fair_schedule E sched B timeout"
    and len: "length cmds = Suc C" and inv: "inv cmds P C q m"
    and fuel: "B \<le> fuel" and target: "target = sqe_cid (cmds ! C)"
  shows "\<exists>z. cq_poll_for_cid fuel E q target timeout m t = Some z
    \<and> poll_post cmds C q (view m) (if P = C then eff (cmds ! C) (view m) else view m) z"
proof -
  have win: "2 * unat (ge_clock E (u + k) - ge_clock E u) < unat timeout" if "k \<le> 2 * B + 2" for u k
    using fair that by (simp add: fair_schedule_def)
  let ?el = "ge_clock E (Suc t) - ge_clock E t" and ?start = "ge_clock E (Suc (Suc t))"
  have el: "2 * unat ?el < unat timeout" using win[of 1 t] by simp
  then have t0: "0 < timeout" by (auto simp: word_gt_0)
  have le: "?el \<le> timeout" using el by (simp add: word_le_nat_alt)
  have rem: "unat (timeout - ?el) = unat timeout - unat ?el" using le by (simp add: unat_sub)
  then have r0: "0 < timeout - ?el" using el by (simp add: word_less_nat_alt)
  obtain i where i: "i < B" "0 < sched (Suc (Suc (Suc t)) + 2 * i)"
    using fair unfolding fair_schedule_def by blast
  have "ge_clock E (Suc (Suc (Suc t)) + 2 * j + 1) - ?start \<le> timeout - ?el" if "j < i" for j
    using win[of "2 * j + 2" "Suc (Suc t)"] that i(1) el rem by (simp add: word_le_nat_alt)
  then obtain z where z: "cq_poll_loop fuel E (timeout - ?el) ?start q m (Suc (Suc (Suc t))) = Some z"
      "poll_post cmds C q (view m) (if P = C then eff (cmds ! C) (view m) else view m) z"
    using poll_loop_one[OF run r0 len inv, of i fuel "Suc (Suc (Suc t))" ?start] i fuel by auto
  obtain n where n: "fuel = Suc n" using i(1) fuel by (cases fuel) auto
  have "cq_poll_for_cid fuel E q target timeout m t = Some z"
    using z t0 le target unfolding cq_poll_for_cid_def n
    by (auto simp: Let_def cq_poll_completion_def poll_post_def not_less split: prod.splits)
  then show ?thesis using z(2) by blast
qed

end

end
