(* ===== verification/Queue_Protocol.thy ===== *)
theory Queue_Protocol
  imports Nvme_Sim Controller_Contract
begin

text \<open>
  The kernel's queue operations and the simulator's poller thread running against each other on
  the shared queue memory, in any interleaving. The abstract view is two FIFO sequences: the
  commands submitted so far, of which the controller has processed the first \<open>P\<close> and the kernel
  has consumed the completions of the first \<open>C\<close>. The invariant \<open>proto_inv\<close> ties the ring indices,
  the doorbell, the queue entries and the phase bits to these counters.
\<close>

abbreviation sqn :: "nvme_sim \<Rightarrow> nat" where "sqn s \<equiv> unat (cfg_sq_size (s_cfg s))"
abbreviation cqn :: "nvme_sim \<Rightarrow> nat" where "cqn s \<equiv> unat (cfg_cq_size (s_cfg s))"

definition proto_inv ::
    "nvme_sq_entry list \<Rightarrow> nat \<Rightarrow> nat \<Rightarrow> gpu_nvme_queue \<Rightarrow> nvme_sim \<Rightarrow> bool" where
  "proto_inv cmds P C q s \<longleftrightarrow>
     sim_wf s \<and> \<not> s_fault s \<and> s_running s
   \<and> q_sq_size q = cfg_sq_size (s_cfg s) \<and> q_cq_size q = cfg_cq_size (s_cfg s)
   \<and> C \<le> P \<and> P \<le> length cmds \<and> length cmds < C + sqn s \<and> length cmds \<le> C + cqn s
   \<and> unat (q_sq_tail q) = length cmds mod sqn s \<and> m_sq_db s = ucast (q_sq_tail q)
   \<and> unat (s_sq_head s) = P mod sqn s
   \<and> ring_at (cqn s) (unat (s_cq_tail s)) (s_cq_phase s) P
   \<and> ring_at (cqn s) (unat (q_cq_head q)) (q_cq_phase q) C
   \<and> q_cid_counter q = of_nat (length cmds)
   \<and> (\<forall>i < length cmds. sqe_cid (cmds ! i) = of_nat i)
   \<and> (\<forall>i. P \<le> i \<and> i < length cmds \<longrightarrow> m_sq s ! (i mod sqn s) = cmds ! i
          \<and> (is_data_cmd (cmds ! i) \<longrightarrow> cmd_nowrap (cmds ! i)))
   \<and> (\<forall>i. C \<le> i \<and> i < P \<longrightarrow>
          cqe_cid (m_cq s ! (i mod cqn s)) = sqe_cid (cmds ! i)
        \<and> NVME_CQE_STATUS (cqe_status_phase (m_cq s ! (i mod cqn s))) = sim_status (s_cfg s) (cmds ! i)
        \<and> cqe_phase8 (m_cq s ! (i mod cqn s)) = phase_of (cqn s) i)
   \<and> (\<forall>i. P \<le> i \<and> i < C + cqn s \<longrightarrow>
          cqe_phase8 (m_cq s ! (i mod cqn s)) \<noteq> phase_of (cqn s) i)"

lemma mod_eq_near: "a \<le> b \<Longrightarrow> b < a + n \<Longrightarrow> a mod n = b mod (n :: nat) \<longleftrightarrow> a = b"
proof
  assume ab: "a \<le> b" "b < a + n" and eq: "a mod n = b mod n"
  from eq ab(1) have "n dvd b - a" by (metis mod_eq_dvd_iff_nat)
  moreover have "b - a < n" using ab by simp
  ultimately have "b - a = 0" using nat_dvd_not_less[of "b - a" n] by blast
  with ab(1) show "a = b" by simp
qed simp

lemma ucast_u16_u32_eq_iff [simp]: "(ucast (a :: u16) :: u32) = ucast b \<longleftrightarrow> a = b"
  by (metis ucast_u32_u16_u32)

section \<open>Submitting\<close>

lemma mem_submitted_simps [simp]:
  fixes s :: nvme_sim
  shows "s_cfg (mem_submitted opc k q slba nlb prp1 prp2 s) = s_cfg s"
  "m_cq (mem_submitted opc k q slba nlb prp1 prp2 s) = m_cq s"
  "m_data (mem_submitted opc k q slba nlb prp1 prp2 s) = m_data s"
  "s_vdev (mem_submitted opc k q slba nlb prp1 prp2 s) = s_vdev s"
  "s_sq_head (mem_submitted opc k q slba nlb prp1 prp2 s) = s_sq_head s"
  "s_cq_tail (mem_submitted opc k q slba nlb prp1 prp2 s) = s_cq_tail s"
  "s_cq_phase (mem_submitted opc k q slba nlb prp1 prp2 s) = s_cq_phase s"
  "s_fault (mem_submitted opc k q slba nlb prp1 prp2 s) = s_fault s"
  "s_running (mem_submitted opc k q slba nlb prp1 prp2 s) = s_running s"
  "m_sq_db (mem_submitted opc k q slba nlb prp1 prp2 s) = ucast (q_sq_tail (queue_submitted q))"
  "m_sq (mem_submitted opc k q slba nlb prp1 prp2 s) = (m_sq s)[unat (q_sq_tail q) :=
      io_command opc (q_cid_counter q) (q_nsid q) prp1 prp2 slba nlb]"
  by (simp_all add: mem_submitted_def)

lemma sim_wf_mem_submitted [simp]:
  "sim_wf (mem_submitted opc k q slba nlb prp1 prp2 s) = sim_wf s"
  by (simp add: sim_wf_def)

lemma proto_inv_submit:
  assumes inv: "proto_inv cmds P C q s"
    and room: "Suc (length cmds) < C + sqn s" "length cmds < C + cqn s"
    and e: "e = io_command opc (q_cid_counter q) (q_nsid q) prp1 prp2 slba nlb"
    and nw: "cmd_nowrap e"
  shows "proto_inv (cmds @ [e]) P C (queue_submitted q) (mem_submitted opc k q slba nlb prp1 prp2 s)"
proof -
  let ?s = "mem_submitted opc k q slba nlb prp1 prp2 s"
  have n0: "0 < sqn s" "q_sq_size q \<noteq> 0" using inv by (auto simp: proto_inv_def sim_wf_def unat_gt_0)
  have tail: "unat (q_sq_tail q) = length cmds mod sqn s" using inv by (simp add: proto_inv_def)
  have len: "length (m_sq s) = sqn s" using inv by (simp add: proto_inv_def sim_wf_def)
  have "unat (q_sq_tail (queue_submitted q)) = Suc (length cmds) mod sqn s"
    using queue_submitted_tail[OF n0(2)] tail inv by (simp add: proto_inv_def mod_Suc_eq)
  moreover have "m_sq ?s ! (i mod sqn s) = (cmds @ [e]) ! i
      \<and> (is_data_cmd ((cmds @ [e]) ! i) \<longrightarrow> cmd_nowrap ((cmds @ [e]) ! i))"
    if i: "P \<le> i" "i < Suc (length cmds)" for i
  proof (cases "i = length cmds")
    case True
    then show ?thesis using tail e nw len n0 by simp
  next
    case False
    then have "i < length cmds" using i by simp
    moreover from this have "i mod sqn s \<noteq> length cmds mod sqn s"
      using mod_eq_near[of i "length cmds" "sqn s"] i inv by (simp add: proto_inv_def)
    ultimately show ?thesis using i inv tail by (simp add: proto_inv_def nth_append)
  qed
  moreover have "sqe_cid ((cmds @ [e]) ! i) = of_nat i" if "i < Suc (length cmds)" for i
    using that inv e by (cases "i = length cmds") (auto simp: proto_inv_def nth_append)
  moreover have "(cmds @ [e]) ! i = cmds ! i" if "i < P" for i
    using that inv by (simp add: proto_inv_def nth_append)
  ultimately show ?thesis
    using inv room by (simp add: proto_inv_def)
qed

section \<open>The controller\<close>

lemma sim_status_small: "sim_status cfg e = 0 \<or> sim_status cfg e = 1 \<or> sim_status cfg e = 2"
  by (simp add: sim_status_def NVME_SC_SUCCESS_def NVME_SC_INVALID_FIELD_def
      NVME_SC_INVALID_OPCODE_def)

lemma sim_cqe_decode:
  assumes "s_cq_phase s = 0 \<or> s_cq_phase s = 1"
  shows "cqe_phase8 (sim_cqe s e) = s_cq_phase s"
    and "NVME_CQE_STATUS (cqe_status_phase (sim_cqe s e)) = sim_status (s_cfg s) e"
    and "cqe_cid (sim_cqe s e) = sqe_cid e"
  using assms sim_status_small[of "s_cfg s" e]
  by (auto simp: sim_cqe_def cqe_phase8_def NVME_CQE_PHASE_def NVME_CQE_STATUS_def)

text \<open>The controller has work exactly when a submitted command is unprocessed.\<close>

lemma pending_iff:
  assumes "proto_inv cmds P C q s"
  shows "ucast (s_sq_head s) \<noteq> m_sq_db s \<longleftrightarrow> P < length cmds"
proof -
  have "s_sq_head s = q_sq_tail q \<longleftrightarrow> P mod sqn s = length cmds mod sqn s"
    using assms by (simp add: proto_inv_def word_unat_eq_iff)
  also have "\<dots> \<longleftrightarrow> P = length cmds"
    using assms by (intro mod_eq_near) (auto simp: proto_inv_def)
  finally show ?thesis using assms by (auto simp: proto_inv_def)
qed

lemma proto_inv_sim_step:
  assumes inv: "proto_inv cmds P C q s" and P: "P < length cmds"
  shows "proto_inv cmds (Suc P) C q (sim_poller_step s)"
    and "m_data (sim_poller_step s) = m_data (sim_effect s (cmds ! P))"
    and "s_vdev (sim_poller_step s) = s_vdev (sim_effect s (cmds ! P))"
    and "s_cfg (sim_poller_step s) = s_cfg s"
proof -
  let ?e = "cmds ! P" and ?k = "cqn s"
  let ?s1 = "(sim_effect s ?e)\<lparr>m_cq := (m_cq s)[unat (s_cq_tail s) := sim_cqe s ?e]\<rparr>"
  have wf: "sim_wf s" and at: "ring_at ?k (unat (s_cq_tail s)) (s_cq_phase s) P"
    and hd: "unat (s_sq_head s) = P mod sqn s"
    using inv by (auto simp: proto_inv_def)
  have cmd: "m_sq s ! unat (s_sq_head s) = ?e" using inv P by (simp add: proto_inv_def)
  have step: "sim_poller_step s = (sim_advance_cq_tail ?s1)\<lparr>s_sq_head :=
      ucast ((ucast (s_sq_head s) + 1 :: u32) mod ucast (cfg_sq_size (s_cfg s)))\<rparr>"
    using sim_poller_step_pending[OF wf] pending_iff[OF inv] inv P cmd by (simp add: proto_inv_def)
  show "m_data (sim_poller_step s) = m_data (sim_effect s ?e)"
    and "s_vdev (sim_poller_step s) = s_vdev (sim_effect s ?e)"
    and cfg: "s_cfg (sim_poller_step s) = s_cfg s"
    by (simp_all add: step)
  have at1: "ring_at (cqn (sim_advance_cq_tail ?s1)) (unat (s_cq_tail (sim_advance_cq_tail ?s1)))
      (s_cq_phase (sim_advance_cq_tail ?s1)) (Suc P)"
    using at by (intro sim_cq.ring_at_adv) simp
  have ph: "s_cq_phase s = 0 \<or> s_cq_phase s = 1" using wf by (simp add: sim_wf_def)
  have slot: "unat (s_cq_tail s) = P mod ?k" and phase: "s_cq_phase s = phase_of ?k P"
    using at by (auto simp: ring_at_def)
  have k0: "0 < ?k" and len: "length (m_cq s) = ?k" using wf by (auto simp: sim_wf_def unat_gt_0)
  let ?cq = "(m_cq s)[P mod ?k := sim_cqe s ?e]"
  have nth: "?cq ! (i mod ?k) = (if i mod ?k = P mod ?k then sim_cqe s ?e else m_cq s ! (i mod ?k))" for i
    using len k0 by (simp add: nth_list_update)
  have bnd: "P < C + ?k" "C \<le> P" using inv P by (auto simp: proto_inv_def)
  have before: "i mod ?k \<noteq> P mod ?k" if "C \<le> i" "i < P" for i
    using that bnd mod_eq_near[of i P ?k] by simp
  have after: "i mod ?k \<noteq> P mod ?k" if "Suc P \<le> i" "i < C + ?k" for i
    using that bnd mod_eq_near[of P i ?k] by fastforce
  have head: "unat (ucast ((ucast (s_sq_head s) + 1 :: u32) mod ucast (cfg_sq_size (s_cfg s))) :: u16)
      = Suc P mod sqn s"
    using wf hd by (simp add: unat_u32_succ_mod sim_wf_def mod_Suc_eq)
  have "sim_wf (sim_poller_step s)"
    using wf at1 head len k0 unfolding step
    by (auto simp: sim_wf_def ring_at_def word_less_nat_alt phase_of_def unat_gt_0)
  moreover have "\<forall>i. C \<le> i \<and> i < Suc P \<longrightarrow> cqe_cid (?cq ! (i mod ?k)) = sqe_cid (cmds ! i)
      \<and> NVME_CQE_STATUS (cqe_status_phase (?cq ! (i mod ?k))) = sim_status (s_cfg s) (cmds ! i)
      \<and> cqe_phase8 (?cq ! (i mod ?k)) = phase_of ?k i"
    using inv before nth sim_cqe_decode[OF ph] phase by (auto simp: proto_inv_def less_Suc_eq)
  moreover have "\<forall>i. Suc P \<le> i \<and> i < C + ?k \<longrightarrow> cqe_phase8 (?cq ! (i mod ?k)) \<noteq> phase_of ?k i"
    using inv after nth by (auto simp: proto_inv_def)
  ultimately show "proto_inv cmds (Suc P) C q (sim_poller_step s)"
    using inv at1 head P slot by (simp add: proto_inv_def step)
qed

lemma proto_inv_sim_idle:
  "proto_inv cmds P C q s \<Longrightarrow> \<not> P < length cmds \<Longrightarrow> sim_poller_step s = s"
  using pending_iff sim_poller_step_idle by blast

section \<open>Polling\<close>

lemma proto_inv_events [simp]:
  "proto_inv cmds P C q (s\<lparr>m_events := ev\<rparr>) = proto_inv cmds P C q s"
  "proto_inv cmds P C q (s\<lparr>m_cq_db := v\<rparr>) = proto_inv cmds P C q s"
  by (simp_all add: proto_inv_def sim_wf_def)

text \<open>The phase bit shows a new completion exactly when there is one.\<close>

lemma phase_hit_iff:
  assumes inv: "proto_inv cmds P C q s"
  shows "cqe_phase8 (m_cq s ! unat (q_cq_head q)) = q_cq_phase q \<longleftrightarrow> C < P"
proof -
  have at: "unat (q_cq_head q) = C mod cqn s" "q_cq_phase q = phase_of (cqn s) C" "0 < cqn s"
    and "C \<le> P" using inv by (auto simp: proto_inv_def ring_at_def)
  then show ?thesis using inv by (cases "C < P") (auto simp: proto_inv_def)
qed

lemma proto_inv_consume:
  assumes inv: "proto_inv cmds P C q s" and CP: "C < P"
  shows "proto_inv cmds P (Suc C) (gpu_nvme_advance_cq_head q) s"
proof -
  let ?k = "cqn s"
  have k: "q_cq_size q = cfg_cq_size (s_cfg s)" and k0: "0 < ?k"
    and at: "ring_at ?k (unat (q_cq_head q)) (q_cq_phase q) C"
    using inv by (auto simp: proto_inv_def ring_at_def)
  have at1: "ring_at ?k (unat (q_cq_head (gpu_nvme_advance_cq_head q)))
      (q_cq_phase (gpu_nvme_advance_cq_head q)) (Suc C)"
    using gpu_cq.ring_at_adv[of q C] at k by simp
  have "cqe_phase8 (m_cq s ! (C mod ?k)) = phase_of ?k C"
    using inv CP by (auto simp: proto_inv_def)
  then have "cqe_phase8 (m_cq s ! ((C + ?k) mod ?k)) \<noteq> phase_of ?k (C + ?k)"
    using phase_of_next_round[OF k0, of C] by simp
  then have "\<forall>i. P \<le> i \<and> i < Suc C + ?k \<longrightarrow> cqe_phase8 (m_cq s ! (i mod ?k)) \<noteq> phase_of ?k i"
    using inv by (auto simp: proto_inv_def less_Suc_eq)
  then show ?thesis using inv at1 CP by (simp add: proto_inv_def)
qed

text \<open>One poll: nothing when everything processed is consumed, else the completion of the oldest
  unconsumed command.\<close>

lemma proto_poll:
  assumes inv: "proto_inv cmds P C q s"
  obtains (none) ev where "C = P" and "cq_poll_try q s = (None, q, s\<lparr>m_events := ev\<rparr>)"
    | (some) r ev v where "C < P"
      and "cq_poll_try q s = (Some r, gpu_nvme_advance_cq_head q, s\<lparr>m_cq_db := v, m_events := ev\<rparr>)"
      and "r_cid r = sqe_cid (cmds ! C)"
      and "r_status r = sim_status (s_cfg s) (cmds ! C)"
      and "r_success r \<longleftrightarrow> sim_status (s_cfg s) (cmds ! C) = 0"
      and "\<not> r_timed_out r"
      and "proto_inv cmds P (Suc C) (gpu_nvme_advance_cq_head q) s"
proof (cases rule: cq_poll_try_cases[of s q])
  case (hit ev)
  then have CP: "C < P" using phase_hit_iff[OF inv] by simp
  have "unat (q_cq_head q) = C mod cqn s" using inv by (auto simp: proto_inv_def ring_at_def)
  then show ?thesis
    using hit CP inv proto_inv_consume[OF inv CP]
    by (intro some[OF CP hit(2)]) (auto simp: poll_result_of_def proto_inv_def)
next
  case (miss ev)
  then have "\<not> C < P" "C \<le> P" using phase_hit_iff[OF inv] inv by (auto simp: proto_inv_def)
  then show ?thesis using miss by (intro none) auto
qed

section \<open>The simulator is a controller\<close>

text \<open>The part of the simulator's state that commands act on, and their effect on it.\<close>

type_synonym sim_data = "nvme_sim_config \<times> u8 list \<times> (u64 \<Rightarrow> u8)"

definition sim_view :: "nvme_sim \<Rightarrow> sim_data" where
  "sim_view s = (s_cfg s, s_vdev s, m_data s)"

definition view_effect :: "nvme_sq_entry \<Rightarrow> sim_data \<Rightarrow> sim_data" where
  "view_effect e v = (case v of (cfg, vdev, data) \<Rightarrow>
    (let bs = unat (cfg_block_size cfg); off = unat (cmd_slba e) * bs; n = unat (cmd_nlb e) * bs
     in if is_data_cmd e \<and> cmd_in_range cfg e
        then (if sqe_opc e = NVME_IO_OPC_READ
              then (cfg, vdev, mem_store data (sqe_prp1 e) (take n (drop off vdev)))
              else (cfg, put_bytes off (mem_load data (sqe_prp1 e) n) vdev, data))
        else v))"

definition view_status :: "sim_data \<Rightarrow> nvme_sq_entry \<Rightarrow> u16" where
  "view_status v e = sim_status (fst v) e"

lemma sim_view_effect: "sim_view (sim_effect s e) = view_effect e (sim_view s)"
  by (simp add: sim_view_def view_effect_def sim_effect_def Let_def block_bytes_def)

lemma fst_view_effect [simp]: "fst (view_effect e v) = fst v"
  by (cases v) (simp add: view_effect_def Let_def)

lemma proto_inv_slot: "proto_inv cmds P C q s \<Longrightarrow> unat (q_sq_tail q) < length (m_sq s)"
  by (auto simp: proto_inv_def sim_wf_def unat_gt_0)

interpretation sim_ctl: nvme_controller proto_inv sim_poller_step sim_view view_effect view_status
  cmd_nowrap
proof
  fix cmds :: "nvme_sq_entry list" and P C q and s :: nvme_sim
  show "proto_inv cmds P C q s \<Longrightarrow> C \<le> P \<and> P \<le> length cmds"
    and "proto_inv cmds P C q s \<Longrightarrow>
      q_cid_counter q = of_nat (length cmds) \<and> (\<forall>i < length cmds. sqe_cid (cmds ! i) = of_nat i)"
    by (simp_all add: proto_inv_def)
  show "proto_inv cmds P C q s \<Longrightarrow> unat (q_sq_tail q) < length (m_sq s)"
    by (rule proto_inv_slot)
  show "proto_inv cmds P C q s \<Longrightarrow> P < length cmds \<Longrightarrow> proto_inv cmds (Suc P) C q (sim_poller_step s)
      \<and> sim_view (sim_poller_step s) = view_effect (cmds ! P) (sim_view s)"
    using proto_inv_sim_step[of cmds P C q s]
    by (simp add: sim_view_effect[symmetric]) (simp add: sim_view_def)
  show "proto_inv cmds (length cmds) C q s \<Longrightarrow> sim_poller_step s = s"
    by (rule proto_inv_sim_idle) auto
  show "proto_inv cmds P P q s \<Longrightarrow> cqe_phase8 (m_cq s ! unat (q_cq_head q)) \<noteq> q_cq_phase q"
    by (simp add: phase_hit_iff)
  fix e
  assume inv: "proto_inv cmds P C q s" and lt: "C < P" and e: "e = m_cq s ! unat (q_cq_head q)"
  have "unat (q_cq_head q) = C mod cqn s" using inv by (auto simp: proto_inv_def ring_at_def)
  then show "cqe_phase8 e = q_cq_phase q \<and> cqe_cid e = sqe_cid (cmds ! C)
      \<and> NVME_CQE_STATUS (cqe_status_phase e) = view_status (sim_view s) (cmds ! C)
      \<and> proto_inv cmds P (Suc C) (gpu_nvme_advance_cq_head q) s"
    using inv lt e phase_hit_iff[OF inv] proto_inv_consume[OF inv lt]
    by (auto simp: view_status_def sim_view_def proto_inv_def)
next
  fix cmds P C q opc prp1 prp2 slba nlb k and s :: nvme_sim
  assume "proto_inv cmds P C q s" "Suc (length cmds) < C + unat (q_sq_size q)"
    "length cmds < C + unat (q_cq_size q)"
    "cmd_nowrap (io_command opc (q_cid_counter q) (q_nsid q) prp1 prp2 slba nlb)"
  then show "proto_inv (cmds @ [io_command opc (q_cid_counter q) (q_nsid q) prp1 prp2 slba nlb]) P C
      (queue_submitted q) (mem_submitted opc k q slba nlb prp1 prp2 s)"
    by (intro proto_inv_submit) (auto simp: proto_inv_def)
qed (simp_all add: sim_view_def view_status_def fun_eq_iff)

end
