(* ===== verification/Queue_System.thy ===== *)
theory Queue_System
  imports Queue_Protocol
begin

text \<open>
  The kernel and the simulator as one transition system: submissions by \<open>sq_submit_read\<close> and
  \<open>sq_submit_write\<close>, passes of the poller thread and polls of the completion queue, in any order.
  The state records the sequence of commands written to the queue and the sequence of results that
  polls returned. A submission obeys the flow control that the callers keep: one submission queue
  slot stays free and no more commands are outstanding than the completion queue can hold.
\<close>

record nvme_sys =
  sys_q :: gpu_nvme_queue
  sys_sim :: nvme_sim
  sys_submitted :: "nvme_sq_entry list"
  sys_consumed :: "cq_poll_result list"

definition outstanding :: "nvme_sys \<Rightarrow> nat" where
  "outstanding y = length (sys_submitted y) - length (sys_consumed y)"

definition may_submit :: "nvme_sys \<Rightarrow> u64 \<Rightarrow> u16 \<Rightarrow> bool" where
  "may_submit y slba nlb \<longleftrightarrow> Suc (outstanding y) < unat (q_sq_size (sys_q y))
     \<and> outstanding y < unat (q_cq_size (sys_q y)) \<and> unat slba + unat nlb + 1 < 2 ^ 64"

text \<open>The queue state that a caller sets up for a fresh simulator.\<close>

definition fresh_queue :: "gpu_nvme_queue \<Rightarrow> nvme_sim \<Rightarrow> bool" where
  "fresh_queue q s \<longleftrightarrow> q_sq_size q = nvme_sim_get_sq_size s \<and> q_cq_size q = nvme_sim_get_cq_size s
     \<and> q_sq_tail q = 0 \<and> q_cq_head q = 0 \<and> q_cq_phase q = 1 \<and> q_cid_counter q = 0"

inductive sys_init :: "nvme_sim_config \<Rightarrow> nvme_sys \<Rightarrow> bool" where
  sys_create: "\<lbrakk>nvme_sim_create A cfg = (Some s, held); fresh_queue q s;
      cfg_sq_size cfg \<noteq> 0; cfg_cq_size cfg \<noteq> 0\<rbrakk> \<Longrightarrow>
    sys_init cfg \<lparr>sys_q = q, sys_sim = s, sys_submitted = [], sys_consumed = []\<rparr>"

inductive sys_step :: "nvme_sys \<Rightarrow> nvme_sys \<Rightarrow> bool" where
  submit_read: "\<lbrakk>may_submit y slba nlb;
      sq_submit_read (sys_q y) slba nlb prp1 prp2 (sys_sim y) = (cid, q', s')\<rbrakk> \<Longrightarrow>
    sys_step y (y\<lparr>sys_q := q', sys_sim := s',
      sys_submitted := sys_submitted y @ [m_sq s' ! unat (q_sq_tail (sys_q y))]\<rparr>)"
| submit_write: "\<lbrakk>may_submit y slba nlb;
      sq_submit_write (sys_q y) slba nlb prp1 prp2 (sys_sim y) = (cid, q', s')\<rbrakk> \<Longrightarrow>
    sys_step y (y\<lparr>sys_q := q', sys_sim := s',
      sys_submitted := sys_submitted y @ [m_sq s' ! unat (q_sq_tail (sys_q y))]\<rparr>)"
| controller: "sys_step y (y\<lparr>sys_sim := sim_poller_step (sys_sim y)\<rparr>)"
| poll_hit: "cq_poll_try (sys_q y) (sys_sim y) = (Some r, q', s') \<Longrightarrow>
    sys_step y (y\<lparr>sys_q := q', sys_sim := s', sys_consumed := sys_consumed y @ [r]\<rparr>)"
| poll_miss: "cq_poll_try (sys_q y) (sys_sim y) = (None, q', s') \<Longrightarrow>
    sys_step y (y\<lparr>sys_q := q', sys_sim := s'\<rparr>)"

inductive sys_reach :: "nvme_sys \<Rightarrow> nvme_sys \<Rightarrow> bool" where
  reach_start: "sys_reach y y"
| reach_step: "sys_reach y0 y \<Longrightarrow> sys_step y y' \<Longrightarrow> sys_reach y0 y'"

inductive_cases sys_init_cases: "sys_init cfg y"

section \<open>The abstract queue pair\<close>

text \<open>What a queue pair is to its user: the results delivered are those of the first commands, in
  submission order, and the data is what the first \<open>P\<close> commands make of the initial data, for some
  \<open>P\<close> between the delivered and the submitted ones.\<close>

definition result_for :: "nvme_sim_config \<Rightarrow> nvme_sq_entry \<Rightarrow> cq_poll_result \<Rightarrow> bool" where
  "result_for cfg e r \<longleftrightarrow> r_cid r = sqe_cid e \<and> r_status r = sim_status cfg e
     \<and> r_success r = (sim_status cfg e = 0) \<and> \<not> r_timed_out r"

definition sys_inv :: "sim_data \<Rightarrow> nat \<Rightarrow> nvme_sys \<Rightarrow> bool" where
  "sys_inv v0 P y \<longleftrightarrow> proto_inv (sys_submitted y) P (length (sys_consumed y)) (sys_q y) (sys_sim y)
     \<and> sim_view (sys_sim y) = fold view_effect (take P (sys_submitted y)) v0
     \<and> list_all2 (result_for (fst v0)) (take (length (sys_consumed y)) (sys_submitted y)) (sys_consumed y)"

lemma fst_fold_view_effect [simp]: "fst (fold view_effect es v) = fst v"
  by (induction es arbitrary: v) simp_all

lemma sys_inv_cfg: "sys_inv v0 P y \<Longrightarrow> s_cfg (sys_sim y) = fst v0"
  by (metis fst_conv fst_fold_view_effect sim_view_def sys_inv_def)

lemma sim_view_mem_submitted [simp]:
  "sim_view (mem_submitted opc k q slba nlb prp1 prp2 s) = sim_view s"
  by (simp add: sim_view_def)

lemma sys_inv_submit:
  assumes inv: "sys_inv v0 P y" and ok: "may_submit y slba nlb"
    and s': "s' = mem_submitted opc k (sys_q y) slba nlb prp1 prp2 (sys_sim y)"
  shows "sys_inv v0 P (y\<lparr>sys_q := queue_submitted (sys_q y), sys_sim := s',
      sys_submitted := sys_submitted y @ [m_sq s' ! unat (q_sq_tail (sys_q y))]\<rparr>)"
proof -
  let ?e = "io_command opc (q_cid_counter (sys_q y)) (q_nsid (sys_q y)) prp1 prp2 slba nlb"
  have pi: "proto_inv (sys_submitted y) P (length (sys_consumed y)) (sys_q y) (sys_sim y)"
    using inv by (simp add: sys_inv_def)
  have b: "length (sys_consumed y) \<le> P" "P \<le> length (sys_submitted y)"
    using sim_ctl.inv_bounds[OF pi] by auto
  have nw: "cmd_nowrap ?e"
    using ok by (simp add: may_submit_def cmd_nowrap_def io_command_decode)
  have "m_sq s' ! unat (q_sq_tail (sys_q y)) = ?e"
    using proto_inv_slot[OF pi] by (simp add: s')
  moreover have "proto_inv (sys_submitted y @ [?e]) P (length (sys_consumed y))
      (queue_submitted (sys_q y)) s'"
    unfolding s' using ok b nw by (intro sim_ctl.submit[OF pi]) (auto simp: may_submit_def outstanding_def)
  ultimately show ?thesis
    using inv b s' by (simp add: sys_inv_def)
qed

lemma sys_inv_controller:
  assumes inv: "sys_inv v0 P y"
  shows "sys_inv v0 (if P < length (sys_submitted y) then Suc P else P)
    (y\<lparr>sys_sim := sim_poller_step (sys_sim y)\<rparr>)"
proof -
  have pi: "proto_inv (sys_submitted y) P (length (sys_consumed y)) (sys_q y) (sys_sim y)"
    using inv by (simp add: sys_inv_def)
  show ?thesis
  proof (cases "P < length (sys_submitted y)")
    case True
    then show ?thesis
      using sim_ctl.step_work[OF pi True] inv by (simp add: sys_inv_def take_Suc_conv_app_nth)
  next
    case False
    then show ?thesis using proto_inv_sim_idle[OF pi] inv by simp
  qed
qed

lemma sys_inv_step:
  assumes "sys_step y y'" and "sys_inv v0 P y"
  shows "\<exists>P'. sys_inv v0 P' y'"
  using assms
proof cases
  case (submit_read slba nlb prp1 prp2 cid q' s')
  have "unat (q_sq_tail (sys_q y)) < length (m_sq (sys_sim y))"
    using assms(2) proto_inv_slot by (auto simp: sys_inv_def)
  then have "q' = queue_submitted (sys_q y)"
      "s' = mem_submitted NVME_IO_OPC_READ 18 (sys_q y) slba nlb prp1 prp2 (sys_sim y)"
    using submit_read(3) by (simp_all add: sq_submit_read_closed)
  then show ?thesis using sys_inv_submit[OF assms(2) submit_read(2)] submit_read(1) by blast
next
  case (submit_write slba nlb prp1 prp2 cid q' s')
  have "unat (q_sq_tail (sys_q y)) < length (m_sq (sys_sim y))"
    using assms(2) proto_inv_slot by (auto simp: sys_inv_def)
  then have "q' = queue_submitted (sys_q y)"
      "s' = mem_submitted NVME_IO_OPC_WRITE 13 (sys_q y) slba nlb prp1 prp2 (sys_sim y)"
    using submit_write(3) by (simp_all add: sq_submit_write_closed)
  then show ?thesis using sys_inv_submit[OF assms(2) submit_write(2)] submit_write(1) by blast
next
  case controller
  then show ?thesis using sys_inv_controller[OF assms(2)] by auto
next
  case (poll_hit r q' s')
  have pi: "proto_inv (sys_submitted y) P (length (sys_consumed y)) (sys_q y) (sys_sim y)"
    using assms(2) by (simp add: sys_inv_def)
  from pi show ?thesis
  proof (cases rule: proto_poll)
    case (none ev)
    then show ?thesis using poll_hit by simp
  next
    case (some r' ev v)
    let ?C = "length (sys_consumed y)"
    have lt: "?C < length (sys_submitted y)" using sim_ctl.inv_bounds[OF pi] some(1) by simp
    have "r' = r" "q' = gpu_nvme_advance_cq_head (sys_q y)"
        and s': "s' = (sys_sim y)\<lparr>m_cq_db := v, m_events := ev\<rparr>"
      using some(2) poll_hit(2) by auto
    then have y': "y' = y\<lparr>sys_q := gpu_nvme_advance_cq_head (sys_q y), sys_sim := s',
        sys_consumed := sys_consumed y @ [r']\<rparr>" using poll_hit(1) by simp
    have "result_for (fst v0) (sys_submitted y ! ?C) r'"
      using some(3-6) sys_inv_cfg[OF assms(2)] by (simp add: result_for_def)
    then have "sys_inv v0 P y'"
      using assms(2) some(7) lt unfolding y' s'
      by (simp add: sys_inv_def take_Suc_conv_app_nth list_all2_appendI sim_view_def)
    then show ?thesis by blast
  qed
next
  case (poll_miss q' s')
  have pi: "proto_inv (sys_submitted y) P (length (sys_consumed y)) (sys_q y) (sys_sim y)"
    using assms(2) by (simp add: sys_inv_def)
  show ?thesis
    using poll_miss assms(2)
    by (cases rule: proto_poll[OF pi]) (auto simp: sys_inv_def sim_view_def intro!: exI[of _ P])
qed

lemma sys_inv_facts:
  assumes "sys_inv v0 P y"
  shows "length (sys_consumed y) \<le> P" "P \<le> length (sys_submitted y)" "\<not> s_fault (sys_sim y)"
    "length (sys_submitted y) < length (sys_consumed y) + unat (q_sq_size (sys_q y))"
  using assms by (auto simp: sys_inv_def proto_inv_def)

lemma sys_init_inv:
  assumes "sys_init cfg y"
  shows "sys_inv (sim_view (sys_sim y)) 0 y" and "s_cfg (sys_sim y) = cfg"
proof -
  from assms obtain A s held q where s: "nvme_sim_create A cfg = (Some s, held)"
    and q: "fresh_queue q s" and cfg: "cfg_sq_size cfg \<noteq> 0" "cfg_cq_size cfg \<noteq> 0"
    and y: "y = \<lparr>sys_q = q, sys_sim = s, sys_submitted = [], sys_consumed = []\<rparr>"
    by (rule sys_init_cases)
  have "cqe_phase8 cqe_zero = 0" by (simp add: cqe_phase8_def cqe_zero_def NVME_CQE_PHASE_def)
  then show "sys_inv (sim_view (sys_sim y)) 0 y"
    using nvme_sim_create_state[OF s] q cfg
    by (simp add: y sys_inv_def proto_inv_def sim_wf_def fresh_queue_def ring_at_def phase_of_def
        nvme_sim_get_sq_size_def nvme_sim_get_cq_size_def unat_gt_0 word_gt_0)
  show "s_cfg (sys_sim y) = cfg" using nvme_sim_create_state[OF s] by (simp add: y)
qed

lemma sys_reach_inv:
  assumes "sys_reach y0 y" and "sys_init cfg y0"
  obtains P where "sys_inv (sim_view (sys_sim y0)) P y"
proof -
  have "\<exists>P. sys_inv (sim_view (sys_sim y0)) P y"
    using assms
  proof (induction rule: sys_reach.induct)
    case (reach_start y)
    then show ?case using sys_init_inv(1) by blast
  next
    case (reach_step y0 y y')
    then show ?case using sys_inv_step by blast
  qed
  then show thesis using that by blast
qed

text \<open>A concrete run: a simulator with four blocks of 512 bytes and queues of four entries, one
  read of block 1 submitted, processed and polled.\<close>

definition example_queue :: gpu_nvme_queue where
  "example_queue = \<lparr>q_data_buf_phys = 0x10000, q_sq_size = 4, q_cq_size = 4, q_sq_tail = 0,
     q_cq_head = 0, q_qid = 1, q_cq_phase = 1, q_cid_counter = 0, q_nsid = 1, q_block_size = 512,
     q_pcie_flush = False, q_poll_timeout_cycles = 0\<rparr>"

definition example_start :: nvme_sys where
  "example_start = \<lparr>sys_q = example_queue, sys_sim = example_sim, sys_submitted = [],
     sys_consumed = []\<rparr>"

lemma example_init: "sys_init example_cfg example_start"
proof -
  obtain held where c: "nvme_sim_create example_alloc example_cfg = (Some example_sim, held)"
    using example_create by blast
  show ?thesis unfolding example_start_def
    by (rule sys_create[OF c])
      (simp_all add: fresh_queue_def example_queue_def nvme_sim_get_sq_size_def
        nvme_sim_get_cq_size_def nvme_sim_create_state[OF c] example_cfg_def)
qed

lemma example_submitted:
  "\<exists>y. sys_reach example_start y \<and> sys_consumed y = []
     \<and> sys_submitted y = [io_command NVME_IO_OPC_READ 0 1 0x10000 0 1 0]"
proof -
  obtain held where c: "nvme_sim_create example_alloc example_cfg = (Some example_sim, held)"
    using example_create by blast
  let ?s' = "mem_submitted NVME_IO_OPC_READ 18 example_queue 1 0 0x10000 0 example_sim"
  have sq: "m_sq example_sim = replicate 4 sqe_zero"
    using nvme_sim_create_state(2)[OF c] by (simp add: example_cfg_def)
  have "sq_submit_read (sys_q example_start) 1 0 0x10000 0 (sys_sim example_start) =
      (0, queue_submitted example_queue, ?s')"
    by (subst sq_submit_read_closed) (simp_all add: example_start_def sq example_queue_def)
  moreover have "may_submit example_start 1 0"
    by (simp add: may_submit_def example_start_def outstanding_def example_queue_def)
  ultimately have "sys_step example_start (example_start\<lparr>sys_q := queue_submitted example_queue,
      sys_sim := ?s', sys_submitted := sys_submitted example_start @
        [m_sq ?s' ! unat (q_sq_tail (sys_q example_start))]\<rparr>)"
    by (rule sys_step.submit_read[rotated])
  note reach = reach_step[OF reach_start this]
  show ?thesis
    by (rule exI, rule conjI, rule reach) (simp add: example_start_def sq example_queue_def)
qed

lemma sys_poll_after_step:
  assumes inv: "sys_inv v0 P y" and out: "0 < outstanding y"
  shows "\<exists>r q' s'. cq_poll_try (sys_q y) (sim_poller_step (sys_sim y)) = (Some r, q', s')
    \<and> result_for (fst v0) (sys_submitted y ! length (sys_consumed y)) r"
proof -
  let ?C = "length (sys_consumed y)" and ?s = "sim_poller_step (sys_sim y)"
  obtain P' where P': "sys_inv v0 P' (y\<lparr>sys_sim := ?s\<rparr>)" "?C < P'"
    using sys_inv_controller[OF inv] out sys_inv_facts(1)[OF inv]
    by (cases "P < length (sys_submitted y)") (auto simp: outstanding_def)
  then have pi: "proto_inv (sys_submitted y) P' ?C (sys_q y) ?s" by (simp add: sys_inv_def)
  have cfg: "s_cfg ?s = fst v0" using sys_inv_cfg[OF P'(1)] by simp
  from pi show ?thesis
    by (cases rule: proto_poll) (use P'(2) cfg in \<open>auto simp: result_for_def\<close>)
qed

lemma example_done:
  "\<exists>y. sys_reach example_start y \<and> length (sys_consumed y) = 1
     \<and> sys_submitted y = [io_command NVME_IO_OPC_READ 0 1 0x10000 0 1 0]"
proof -
  obtain y where y: "sys_reach example_start y" "sys_consumed y = []"
      "sys_submitted y = [io_command NVME_IO_OPC_READ 0 1 0x10000 0 1 0]"
    using example_submitted by blast
  obtain P where P: "sys_inv (sim_view (sys_sim example_start)) P y"
    using sys_reach_inv[OF y(1) example_init] .
  let ?y1 = "y\<lparr>sys_sim := sim_poller_step (sys_sim y)\<rparr>"
  obtain r q' s' where r: "cq_poll_try (sys_q ?y1) (sys_sim ?y1) = (Some r, q', s')"
    using sys_poll_after_step[OF P] y by (auto simp: outstanding_def)
  note reach = reach_step[OF reach_step[OF y(1) sys_step.controller] sys_step.poll_hit[OF r]]
  show ?thesis by (rule exI, rule conjI, rule reach) (simp add: y)
qed

section \<open>Properties of the queue pair\<close>



text \<open>C2. The data side of the same system: at every moment the virtual device and the data memory
  are what the submitted commands up to some point make of the initial contents, executed one after
  the other in submission order; that point is past every command whose completion was delivered.\<close>

theorem queue_pair_data:
  assumes "sys_init cfg y0" and "sys_reach y0 y"
  shows "\<exists>P. length (sys_consumed y) \<le> P \<and> P \<le> length (sys_submitted y)
    \<and> sim_view (sys_sim y) = fold view_effect (take P (sys_submitted y)) (sim_view (sys_sim y0))"
proof -
  obtain P where inv: "sys_inv (sim_view (sys_sim y0)) P y" using sys_reach_inv[OF assms(2,1)] .
  then show ?thesis using sys_inv_facts[OF inv] by (auto simp: sys_inv_def)
qed

theorem queue_pair_data_witness:
  "\<exists>y. sys_reach example_start y \<and> sim_view (sys_sim y) =
     view_effect (io_command NVME_IO_OPC_READ 0 1 0x10000 0 1 0) (sim_view example_sim)"
proof -
  obtain y where y: "sys_reach example_start y" "length (sys_consumed y) = 1"
      "sys_submitted y = [io_command NVME_IO_OPC_READ 0 1 0x10000 0 1 0]"
    using example_done by blast
  obtain P where "1 \<le> P" "P \<le> 1"
      "sim_view (sys_sim y) = fold view_effect (take P (sys_submitted y)) (sim_view example_sim)"
    using queue_pair_data[OF example_init y(1)] y(2,3) by (auto simp: example_start_def)
  then show ?thesis using y by (intro exI[of _ y]) simp
qed

text \<open>C10. The command identifiers of the commands in flight are pairwise distinct, although the
  16-bit counter wraps around.\<close>

theorem inflight_cids_distinct:
  assumes "sys_init cfg y0" and "sys_reach y0 y"
  shows "distinct (map sqe_cid (drop (length (sys_consumed y)) (sys_submitted y)))"
proof -
  let ?C = "length (sys_consumed y)" and ?S = "sys_submitted y"
  obtain P where inv: "sys_inv (sim_view (sys_sim y0)) P y" using sys_reach_inv[OF assms(2,1)] .
  then have pi: "proto_inv ?S P ?C (sys_q y) (sys_sim y)" by (simp add: sys_inv_def)
  have cid: "sqe_cid (?S ! i) = of_nat i" if "i < length ?S" for i
    using sim_ctl.inv_cid[OF pi] that by simp
  have win: "length ?S < ?C + 65536"
    using sys_inv_facts(4)[OF inv] unat_bound[of "q_sq_size (sys_q y)"] by simp
  have "(of_nat (?C + i) :: u16) \<noteq> of_nat (?C + j)" if "i < j" "?C + j < length ?S" for i j
  proof
    assume "(of_nat (?C + i) :: u16) = of_nat (?C + j)"
    then have "unat (of_nat (?C + i) :: u16) = unat (of_nat (?C + j) :: u16)" by (rule arg_cong)
    then have "(?C + i) mod 65536 = (?C + j) mod 65536" by (simp only: unat_of_nat) simp
    then show False using mod_eq_near[of "?C + i" "?C + j" 65536] that win by simp
  qed
  then have "(of_nat (?C + i) :: u16) \<noteq> of_nat (?C + j)"
    if "i \<noteq> j" "?C + i < length ?S" "?C + j < length ?S" for i j
    using that by (metis linorder_neqE_nat)
  then show ?thesis
    by (simp add: distinct_conv_nth cid less_diff_conv add.commute del: of_nat_add)
qed

theorem inflight_cids_distinct_witness:
  "\<exists>y. sys_reach example_start y \<and> length (sys_submitted y) = 1 \<and> sys_consumed y = []
     \<and> distinct (map sqe_cid (drop (length (sys_consumed y)) (sys_submitted y)))"
proof -
  obtain y where "sys_reach example_start y" "sys_consumed y = []" "length (sys_submitted y) = 1"
    using example_submitted by force
  then show ?thesis using inflight_cids_distinct[OF example_init, of y] by blast
qed

text \<open>C9. Progress: in every reachable state with an outstanding command, one pass of the
  controller's loop is enough for the next poll to return the completion of the oldest one.\<close>

theorem completion_visible:
  assumes "sys_init cfg y0" and "sys_reach y0 y" and "0 < outstanding y"
  shows "\<exists>r q' s'. cq_poll_try (sys_q y) (sim_poller_step (sys_sim y)) = (Some r, q', s')
    \<and> result_for cfg (sys_submitted y ! length (sys_consumed y)) r"
proof -
  obtain P where inv: "sys_inv (sim_view (sys_sim y0)) P y" using sys_reach_inv[OF assms(2,1)] .
  have "fst (sim_view (sys_sim y0)) = cfg" using sys_init_inv(2)[OF assms(1)] by (simp add: sim_view_def)
  then show ?thesis using sys_poll_after_step[OF inv assms(3)] by simp
qed

theorem completion_visible_witness:
  "\<exists>y r q' s'. sys_reach example_start y \<and> outstanding y = 1
     \<and> cq_poll_try (sys_q y) (sim_poller_step (sys_sim y)) = (Some r, q', s') \<and> r_cid r = 0"
proof -
  obtain y where y: "sys_reach example_start y" "sys_consumed y = []"
      "sys_submitted y = [io_command NVME_IO_OPC_READ 0 1 0x10000 0 1 0]"
    using example_submitted by blast
  then have "outstanding y = 1" by (simp add: outstanding_def)
  then show ?thesis
    using completion_visible[OF example_init y(1)] y by (fastforce simp: result_for_def)
qed

end
