(* ===== verification/Queue_Steps.thy ===== *)
theory Queue_Steps
  imports Queue_System
begin

text \<open>
  The queue pair at the granularity of single memory accesses: the stores of a submission, the fences, the
  flush read and the doorbell write, the dword reads of a poll, and on the controller's side the read of the doorbell,
  the copy of the command, the transfer of its data, each store to the completion queue entry and the update of the
  controller's indices. The accesses of the two sides interleave in any order. The theory shows that the coarse system of
  \<^verbatim>\<open>Queue_System\<close>, where a submission, a poll and a pass of the poller thread are single steps, simulates every such
  interleaving, so its properties hold of the accesses as the code makes them.
\<close>

section \<open>The kernel's accesses\<close>

text \<open>Where the kernel stands: between two operations; with stores to the entry at \<open>slot\<close> left to make; before the
  flush read, the doorbell write and the last fence of a submission; with dword 3, then dword 0 of a new completion read;
  and before the update of the head, with the result complete.\<close>

datatype kernel_pc =
    KIdle
  | KStores u16 "(nvme_sq_entry \<Rightarrow> nvme_sq_entry) list"
  | KFlush u16
  | KDoorbell u16
  | KFence
  | KDword0 u32
  | KDword2 u32 u32
  | KAdvance cq_poll_result

definition submit_read_stores :: "gpu_nvme_queue \<Rightarrow> u16 \<Rightarrow> u64 \<Rightarrow> u16 \<Rightarrow> u64 \<Rightarrow> u64 \<Rightarrow> (nvme_sq_entry \<Rightarrow> nvme_sq_entry) list" where
  "submit_read_stores q cid slba nlb_0based prp1 prp2 =
    (let cdw0 = 0x02 OR push_bit 16 (ucast cid)
     in [\<lambda>e. e\<lparr>sqe_cdw0 := fld_set sqe_opc_f 0x02 (sqe_cdw0 e)\<rparr>,
         \<lambda>e. e\<lparr>sqe_cdw0 := fld_set sqe_fuse_f 0 (sqe_cdw0 e)\<rparr>,
         \<lambda>e. e\<lparr>sqe_cdw0 := fld_set sqe_rsvd0_f 0 (sqe_cdw0 e)\<rparr>,
         \<lambda>e. e\<lparr>sqe_cdw0 := fld_set sqe_psdt_f 0 (sqe_cdw0 e)\<rparr>,
         \<lambda>e. e\<lparr>sqe_cdw0 := fld_set sqe_cid_f (ucast cid) (sqe_cdw0 e)\<rparr>,
         \<lambda>e. e\<lparr>sqe_cdw0 := cdw0\<rparr>, \<lambda>e. e\<lparr>sqe_nsid := q_nsid q\<rparr>,
         \<lambda>e. e\<lparr>sqe_cdw2 := 0\<rparr>, \<lambda>e. e\<lparr>sqe_cdw3 := 0\<rparr>, \<lambda>e. e\<lparr>sqe_mptr := 0\<rparr>,
         \<lambda>e. e\<lparr>sqe_prp1 := prp1\<rparr>, \<lambda>e. e\<lparr>sqe_prp2 := prp2\<rparr>,
         \<lambda>e. e\<lparr>sqe_cdw10 := ucast (slba AND 0xFFFFFFFF)\<rparr>, \<lambda>e. e\<lparr>sqe_cdw11 := ucast (drop_bit 32 slba)\<rparr>,
         \<lambda>e. e\<lparr>sqe_cdw12 := ucast nlb_0based\<rparr>,
         \<lambda>e. e\<lparr>sqe_cdw13 := 0\<rparr>, \<lambda>e. e\<lparr>sqe_cdw14 := 0\<rparr>, \<lambda>e. e\<lparr>sqe_cdw15 := 0\<rparr>])"

definition submit_write_stores :: "gpu_nvme_queue \<Rightarrow> u16 \<Rightarrow> u64 \<Rightarrow> u16 \<Rightarrow> u64 \<Rightarrow> u64 \<Rightarrow> (nvme_sq_entry \<Rightarrow> nvme_sq_entry) list" where
  "submit_write_stores q cid slba nlb_0based prp1 prp2 =
    (let cdw0 = 0x01 OR push_bit 16 (ucast cid)
     in [\<lambda>e. e\<lparr>sqe_cdw0 := cdw0\<rparr>, \<lambda>e. e\<lparr>sqe_nsid := q_nsid q\<rparr>,
         \<lambda>e. e\<lparr>sqe_cdw2 := 0\<rparr>, \<lambda>e. e\<lparr>sqe_cdw3 := 0\<rparr>, \<lambda>e. e\<lparr>sqe_mptr := 0\<rparr>,
         \<lambda>e. e\<lparr>sqe_prp1 := prp1\<rparr>, \<lambda>e. e\<lparr>sqe_prp2 := prp2\<rparr>,
         \<lambda>e. e\<lparr>sqe_cdw10 := ucast (slba AND 0xFFFFFFFF)\<rparr>, \<lambda>e. e\<lparr>sqe_cdw11 := ucast (drop_bit 32 slba)\<rparr>,
         \<lambda>e. e\<lparr>sqe_cdw12 := ucast nlb_0based\<rparr>,
         \<lambda>e. e\<lparr>sqe_cdw13 := 0\<rparr>, \<lambda>e. e\<lparr>sqe_cdw14 := 0\<rparr>, \<lambda>e. e\<lparr>sqe_cdw15 := 0\<rparr>])"

text \<open>The kernel's private part of a submission: the command identifier, the slot and the advanced queue state.\<close>

definition submit_start :: "gpu_nvme_queue \<Rightarrow> u16 \<times> u16 \<times> gpu_nvme_queue" where
  "submit_start q = (let (cid, q) = gpu_nvme_next_cid q; (slot, q) = gpu_nvme_advance_sq_tail q in (cid, slot, q))"

text \<open>One access of a submission under way.\<close>

fun submit_access :: "gpu_nvme_queue \<Rightarrow> kernel_pc \<Rightarrow> 'x qmem_scheme \<Rightarrow> kernel_pc \<times> 'x qmem_scheme" where
  "submit_access q (KStores slot (f # fs)) m = (KStores slot fs, sqe_store slot f m)"
| "submit_access q (KStores slot []) m = (KFlush slot, threadfence_system m)"
| "submit_access q (KFlush slot) m =
    (KDoorbell slot, if q_pcie_flush q then snd (mmio_read32 FlushAddr m) else m)"
| "submit_access q (KDoorbell slot) m = (KFence, doorbell_write_sq_tail (q_sq_tail q) m)"
| "submit_access q KFence m = (KIdle, threadfence_system m)"
| "submit_access q pc m = (pc, m)"

text \<open>One access of a poll under way, or the first one.\<close>

fun poll_access :: "gpu_nvme_queue \<Rightarrow> kernel_pc \<Rightarrow> 'x qmem_scheme \<Rightarrow> kernel_pc \<times> gpu_nvme_queue \<times> 'x qmem_scheme" where
  "poll_access q KIdle m =
    (let (dw3, m) = mmio_read32 (CqDword (unat (q_cq_head q)) 3) m;
         sp = (ucast (drop_bit 16 dw3) :: u16);
         phase = (ucast (sp AND 1) :: u8)
     in (if phase = q_cq_phase q then KDword0 dw3 else KIdle, q, m))"
| "poll_access q (KDword0 dw3) m =
    (let (cdw0, m) = mmio_read32 (CqDword (unat (q_cq_head q)) 0) m in (KDword2 dw3 cdw0, q, m))"
| "poll_access q (KDword2 dw3 cdw0) m =
    (let (dw2, m) = mmio_read32 (CqDword (unat (q_cq_head q)) 2) m;
         status = drop_bit 1 (ucast (drop_bit 16 dw3)) AND 0x7FFF
     in (KAdvance \<lparr>r_cdw0 = cdw0, r_sqhd = ucast (dw2 AND 0xFFFF), r_status = status,
           r_cid = ucast (dw3 AND 0xFFFF), r_success = (status = 0), r_timed_out = False\<rparr>, q, m))"
| "poll_access q (KAdvance r) m =
    (let q = gpu_nvme_advance_cq_head q in (KIdle, q, doorbell_write_cq_head (q_cq_head q) m))"
| "poll_access q pc m = (pc, q, m)"

section \<open>The controller's accesses\<close>

text \<open>Where the poller thread stands: before the read of the doorbell, with a command to fetch, to execute, and with
  stores to the completion queue entry left to make.\<close>

datatype ctl_pc =
    CIdle
  | CFetch
  | CExec nvme_sq_entry
  | CPost "(nvme_cq_entry \<Rightarrow> nvme_cq_entry) list"

text \<open>The data transfer of a command and the value of the last field it posts.\<close>

definition ctl_execute :: "nvme_sim \<Rightarrow> nvme_sq_entry \<Rightarrow> nvme_sim \<times> u16" where
  "ctl_execute sim cmd =
    (let opcode = sqe_opc cmd; slba = cmd_slba cmd; nlb = cmd_nlb cmd; prp1 = sqe_prp1 cmd;
         byte_offset = unat (slba * ucast (cfg_block_size (s_cfg sim)));
         byte_count = unat (ucast nlb * ucast (cfg_block_size (s_cfg sim)) :: u64)
     in if opcode = NVME_IO_OPC_READ \<or> opcode = NVME_IO_OPC_WRITE
        then (if slba + ucast nlb > ucast (cfg_num_blocks (s_cfg sim))
              then (sim, push_bit 1 0x02 OR ucast (s_cq_phase sim))
              else (if byte_offset + byte_count \<le> length (s_vdev sim)
                    then (if opcode = NVME_IO_OPC_READ
                          then sim\<lparr>m_data := mem_store (m_data sim) prp1 (take byte_count (drop byte_offset (s_vdev sim)))\<rparr>
                          else sim\<lparr>s_vdev := put_bytes byte_offset (mem_load (m_data sim) prp1 byte_count) (s_vdev sim)\<rparr>)
                    else sim\<lparr>s_fault := True\<rparr>, ucast (s_cq_phase sim)))
        else if opcode = NVME_IO_OPC_FLUSH then (sim, ucast (s_cq_phase sim))
        else (sim, push_bit 1 NVME_SC_INVALID_OPCODE OR ucast (s_cq_phase sim)))"

definition cqe_stores :: "nvme_sim \<Rightarrow> nvme_sq_entry \<Rightarrow> u16 \<Rightarrow> (nvme_cq_entry \<Rightarrow> nvme_cq_entry) list" where
  "cqe_stores sim cmd status_phase =
    [\<lambda>c. c\<lparr>cqe_cdw0 := 0\<rparr>, \<lambda>c. c\<lparr>cqe_cdw1 := 0\<rparr>, \<lambda>c. c\<lparr>cqe_sqhd := s_sq_head sim\<rparr>, \<lambda>c. c\<lparr>cqe_sqid := 1\<rparr>,
     \<lambda>c. c\<lparr>cqe_cid := sqe_cid cmd\<rparr>, \<lambda>c. c\<lparr>cqe_status_phase := status_phase\<rparr>]"

text \<open>One access of the poller thread.\<close>

fun ctl_access :: "ctl_pc \<Rightarrow> nvme_sim \<Rightarrow> ctl_pc \<times> nvme_sim" where
  "ctl_access CIdle sim = (if s_running sim \<and> ucast (s_sq_head sim) \<noteq> m_sq_db sim then CFetch else CIdle, sim)"
| "ctl_access CFetch sim =
    (if unat (s_sq_head sim) < length (m_sq sim)
     then (CExec (m_sq sim ! unat (s_sq_head sim)), sim) else (CFetch, sim\<lparr>s_fault := True\<rparr>))"
| "ctl_access (CExec cmd) sim =
    (let (sim', status_phase) = ctl_execute sim cmd
     in if s_fault sim' then (CExec cmd, sim') else (CPost (cqe_stores sim' cmd status_phase), sim'))"
| "ctl_access (CPost (f # fs)) sim =
    (if unat (s_cq_tail sim) < length (m_cq sim)
     then (CPost fs, sim\<lparr>m_cq := (m_cq sim)[unat (s_cq_tail sim) := f (m_cq sim ! unat (s_cq_tail sim))]\<rparr>)
     else (CPost (f # fs), sim\<lparr>s_fault := True\<rparr>))"
| "ctl_access (CPost []) sim =
    (let sim = sim_advance_cq_tail sim
     in (CIdle, sim\<lparr>s_sq_head := ucast ((ucast (s_sq_head sim) + 1 :: u32) mod ucast (cfg_sq_size (s_cfg sim)))\<rparr>))"

definition ctl_step :: "ctl_pc \<Rightarrow> nvme_sim \<Rightarrow> ctl_pc \<times> nvme_sim" where
  "ctl_step pc sim = (if s_fault sim then (pc, sim) else ctl_access pc sim)"

section \<open>Running alone, the accesses are the operations\<close>

fun submit_run :: "nat \<Rightarrow> gpu_nvme_queue \<Rightarrow> kernel_pc \<times> 'x qmem_scheme \<Rightarrow> kernel_pc \<times> 'x qmem_scheme" where
  "submit_run 0 q z = z"
| "submit_run (Suc n) q z = submit_run n q (submit_access q (fst z) (snd z))"

lemma submit_run_stores:
  "submit_run (length fs + n) q (KStores slot fs, m) = submit_run n q (KStores slot [], fold (sqe_store slot) fs m)"
  by (induction fs arbitrary: m) simp_all

lemma submit_run_ring: "submit_run 4 q (KStores slot [], m) = (KIdle, sq_ring q m)"
  by (simp add: eval_nat_numeral sq_ring_def Let_def)

lemma submit_run_read:
  "submit_start q = (cid, slot, q') \<Longrightarrow>
   (cid, q', snd (submit_run 22 q' (KStores slot (submit_read_stores q' cid slba nlb p1 p2), m))) = sq_submit_read q slba nlb p1 p2 m"
  using submit_run_stores[of "submit_read_stores q' cid slba nlb p1 p2" 4 q' slot m]
  by (auto simp: submit_start_def sq_submit_read_def submit_read_stores_def Let_def submit_run_ring split: prod.splits)

lemma submit_run_write:
  "submit_start q = (cid, slot, q') \<Longrightarrow>
   (cid, q', snd (submit_run 17 q' (KStores slot (submit_write_stores q' cid slba nlb p1 p2), m))) = sq_submit_write q slba nlb p1 p2 m"
  using submit_run_stores[of "submit_write_stores q' cid slba nlb p1 p2" 4 q' slot m]
  by (auto simp: submit_start_def sq_submit_write_def submit_write_stores_def Let_def submit_run_ring split: prod.splits)


lemma poll_accesses_miss:
  "cq_poll_try q m = (None, q', m') \<Longrightarrow> poll_access q KIdle m = (KIdle, q', m')"
  by (auto simp: cq_poll_try_def Let_def split: prod.splits if_splits)

lemma poll_accesses_hit:
  assumes "cq_poll_try q m = (Some r, q', m')"
  shows "\<exists>dw3 cdw0 m1 m2 m3. poll_access q KIdle m = (KDword0 dw3, q, m1)
    \<and> poll_access q (KDword0 dw3) m1 = (KDword2 dw3 cdw0, q, m2)
    \<and> poll_access q (KDword2 dw3 cdw0) m2 = (KAdvance r, q, m3)
    \<and> poll_access q (KAdvance r) m3 = (KIdle, q', m')"
  using assms by (auto simp: cq_poll_try_def Let_def split: prod.splits if_splits)

lemma sim_put_cqe_stores:
  "unat (s_cq_tail s) < length (m_cq s) \<Longrightarrow>
   sim_put_cqe s (sqe_cid cmd) sp = s\<lparr>m_cq := (m_cq s)[unat (s_cq_tail s) :=
     fold (\<lambda>f. f) (cqe_stores s cmd sp) (m_cq s ! unat (s_cq_tail s))]\<rparr>"
  by (cases "m_cq s ! unat (s_cq_tail s)") (simp add: sim_put_cqe_def cqe_stores_def)

lemma sim_dispatch_execute:
  "\<not> s_fault s \<Longrightarrow> sim_dispatch s cmd = (case ctl_execute s cmd of (s', sp) \<Rightarrow>
     if s_fault s' then s' else sim_put_cqe s' (sqe_cid cmd) sp)"
proof -
  have "NVME_IO_OPC_READ \<noteq> NVME_IO_OPC_WRITE" by (simp add: cmd_defs)
  then show "\<not> s_fault s \<Longrightarrow> ?thesis"
    by (simp add: sim_dispatch_def ctl_execute_def sim_process_read_def sim_process_write_def Let_def)
qed

fun ctl_run :: "nat \<Rightarrow> ctl_pc \<times> nvme_sim \<Rightarrow> ctl_pc \<times> nvme_sim" where
  "ctl_run 0 z = z"
| "ctl_run (Suc n) z = ctl_run n (ctl_step (fst z) (snd z))"

lemma ctl_run_stop: "s_fault s \<Longrightarrow> ctl_run n (pc, s) = (pc, s)"
  by (induction n) (simp_all add: ctl_step_def)

lemma ctl_run_stores:
  "unat (s_cq_tail s) < length (m_cq s) \<Longrightarrow> \<not> s_fault s \<Longrightarrow>
   ctl_run (length fs + n) (CPost fs, s) = ctl_run n (CPost [], s\<lparr>m_cq := (m_cq s)[unat (s_cq_tail s) :=
     fold (\<lambda>f. f) fs (m_cq s ! unat (s_cq_tail s))]\<rparr>)"
  by (induction fs arbitrary: s) (simp_all add: ctl_step_def)

lemma ctl_execute_frame:
  "ctl_execute s cmd = (s', sp) \<Longrightarrow> s_cq_tail s' = s_cq_tail s \<and> m_cq s' = m_cq s \<and> s_cfg s' = s_cfg s
     \<and> s_sq_head s' = s_sq_head s \<and> s_cq_phase s' = s_cq_phase s \<and> m_sq s' = m_sq s \<and> m_sq_db s' = m_sq_db s"
  by (auto simp: ctl_execute_def Let_def split: if_splits)

lemma ctl_run_step: "snd (ctl_run 10 (CIdle, s)) = sim_poller_step s"
proof (cases "s_fault s \<or> \<not> s_running s \<or> ucast (s_sq_head s) = m_sq_db s")
  case True
  have "ctl_run n (CIdle, s) = (CIdle, s)" for n
    using True by (induction n) (auto simp: ctl_step_def)
  then show ?thesis using True by (auto simp: sim_poller_step_def)
next
  case False
  then have one: "ctl_run 10 (CIdle, s) = ctl_run 9 (CFetch, s)"
    by (simp add: eval_nat_numeral ctl_step_def)
  show ?thesis
  proof (cases "unat (s_sq_head s) < length (m_sq s)")
    case out: False
    have "ctl_run 9 (CFetch, s) = ctl_run 8 (CFetch, s\<lparr>s_fault := True\<rparr>)"
      using False out by (simp add: eval_nat_numeral ctl_step_def)
    then show ?thesis using False out one by (simp add: ctl_run_stop sim_poller_step_def)
  next
    case True
    let ?cmd = "m_sq s ! unat (s_sq_head s)"
    obtain s' sp where ex: "ctl_execute s ?cmd = (s', sp)" by fastforce
    note fr = ctl_execute_frame[OF ex]
    have "ctl_run 9 (CFetch, s) = ctl_run 8 (CExec ?cmd, s)"
      using False True by (simp add: eval_nat_numeral ctl_step_def)
    also have "\<dots> = ctl_run 7 (if s_fault s' then (CExec ?cmd, s') else (CPost (cqe_stores s' ?cmd sp), s'))"
      using False ex by (simp add: eval_nat_numeral ctl_step_def)
    finally have two: "ctl_run 10 (CIdle, s) =
        ctl_run 7 (if s_fault s' then (CExec ?cmd, s') else (CPost (cqe_stores s' ?cmd sp), s'))"
      using one by simp
    consider "s_fault s'" | "\<not> s_fault s'" "unat (s_cq_tail s') < length (m_cq s')"
      | "\<not> s_fault s'" "\<not> unat (s_cq_tail s') < length (m_cq s')" by blast
    then show ?thesis
    proof cases
      case 1
      then show ?thesis
        using False True two ex by (simp add: ctl_run_stop sim_poller_step_def sim_dispatch_execute)
    next
      case 2
      let ?s2 = "sim_put_cqe s' (sqe_cid ?cmd) sp"
      have "length (cqe_stores s' ?cmd sp) + 1 = 7" by (simp add: cqe_stores_def)
      then have "ctl_run 7 (CPost (cqe_stores s' ?cmd sp), s') = ctl_run 1 (CPost [], ?s2)"
        using ctl_run_stores[OF 2(2,1), of "cqe_stores s' ?cmd sp" 1] by (simp only: sim_put_cqe_stores[OF 2(2)])
      moreover have "\<not> s_fault ?s2" using 2 by (simp add: sim_put_cqe_def)
      ultimately show ?thesis
        using False True two ex 2
        by (simp add: sim_poller_step_def sim_dispatch_execute ctl_step_def Let_def)
    next
      case 3
      have "ctl_run 7 (CPost (cqe_stores s' ?cmd sp), s') = ctl_run 6 (CPost (cqe_stores s' ?cmd sp), s'\<lparr>s_fault := True\<rparr>)"
        using 3 by (simp add: eval_nat_numeral ctl_step_def cqe_stores_def)
      then show ?thesis
        using False True two ex 3
        by (simp add: ctl_run_stop sim_poller_step_def sim_dispatch_execute sim_put_cqe_def)
    qed
  qed
qed


section \<open>The system of accesses\<close>

record fine_sys =
  f_q :: gpu_nvme_queue
  f_sim :: nvme_sim
  f_kernel :: kernel_pc
  f_ctl :: ctl_pc
  f_submitted :: "nvme_sq_entry list"
  f_consumed :: "cq_poll_result list"

definition fine_outstanding :: "fine_sys \<Rightarrow> nat" where
  "fine_outstanding z = length (f_submitted z) - length (f_consumed z)"

definition fine_may_submit :: "fine_sys \<Rightarrow> u64 \<Rightarrow> u16 \<Rightarrow> bool" where
  "fine_may_submit z slba nlb \<longleftrightarrow> Suc (fine_outstanding z) < unat (q_sq_size (f_q z))
     \<and> fine_outstanding z < unat (q_cq_size (f_q z)) \<and> unat slba + unat nlb + 1 < 2 ^ 64"

definition fine_start :: "nvme_sys \<Rightarrow> fine_sys" where
  "fine_start y = \<lparr>f_q = sys_q y, f_sim = sys_sim y, f_kernel = KIdle, f_ctl = CIdle,
     f_submitted = sys_submitted y, f_consumed = sys_consumed y\<rparr>"

text \<open>The history of submitted commands grows at the doorbell write, that of results at the end of a poll.\<close>

inductive fine_step :: "fine_sys \<Rightarrow> fine_sys \<Rightarrow> bool" where
  start_read: "\<lbrakk>f_kernel z = KIdle; fine_may_submit z slba nlb; submit_start (f_q z) = (cid, slot, q')\<rbrakk> \<Longrightarrow>
    fine_step z (z\<lparr>f_q := q', f_kernel := KStores slot (submit_read_stores q' cid slba nlb prp1 prp2)\<rparr>)"
| start_write: "\<lbrakk>f_kernel z = KIdle; fine_may_submit z slba nlb; submit_start (f_q z) = (cid, slot, q')\<rbrakk> \<Longrightarrow>
    fine_step z (z\<lparr>f_q := q', f_kernel := KStores slot (submit_write_stores q' cid slba nlb prp1 prp2)\<rparr>)"
| submitting: "\<lbrakk>f_kernel z = KStores slot fs \<or> f_kernel z = KFlush slot \<or> f_kernel z = KFence;
      submit_access (f_q z) (f_kernel z) (f_sim z) = (pc, s')\<rbrakk> \<Longrightarrow>
    fine_step z (z\<lparr>f_kernel := pc, f_sim := s'\<rparr>)"
| ringing: "\<lbrakk>f_kernel z = KDoorbell slot; submit_access (f_q z) (f_kernel z) (f_sim z) = (pc, s')\<rbrakk> \<Longrightarrow>
    fine_step z (z\<lparr>f_kernel := pc, f_sim := s', f_submitted := f_submitted z @ [m_sq s' ! unat slot]\<rparr>)"
| polling: "\<lbrakk>f_kernel z = KIdle \<or> f_kernel z = KDword0 dw3 \<or> f_kernel z = KDword2 dw3 cdw0;
      poll_access (f_q z) (f_kernel z) (f_sim z) = (pc, q', s')\<rbrakk> \<Longrightarrow>
    fine_step z (z\<lparr>f_kernel := pc, f_q := q', f_sim := s'\<rparr>)"
| polled: "\<lbrakk>f_kernel z = KAdvance r; poll_access (f_q z) (f_kernel z) (f_sim z) = (pc, q', s')\<rbrakk> \<Longrightarrow>
    fine_step z (z\<lparr>f_kernel := pc, f_q := q', f_sim := s', f_consumed := f_consumed z @ [r]\<rparr>)"
| controlling: "ctl_step (f_ctl z) (f_sim z) = (pc, s') \<Longrightarrow> fine_step z (z\<lparr>f_ctl := pc, f_sim := s'\<rparr>)"

inductive fine_reach :: "fine_sys \<Rightarrow> fine_sys \<Rightarrow> bool" where
  fine_refl: "fine_reach z z"
| fine_trans: "fine_reach z0 z \<Longrightarrow> fine_step z z' \<Longrightarrow> fine_reach z0 z'"

section \<open>The simulation relation\<close>

text \<open>The simulators agree outside the fields that accesses under way change.\<close>

definition same_rest :: "nvme_sim \<Rightarrow> nvme_sim \<Rightarrow> bool" where
  "same_rest s a \<longleftrightarrow> s = a\<lparr>m_sq := m_sq s, m_cq := m_cq s, m_cq_db := m_cq_db s, m_data := m_data s,
     m_events := m_events s, s_vdev := s_vdev s, s_sq_head := s_sq_head s, s_cq_tail := s_cq_tail s,
     s_cq_phase := s_cq_phase s\<rparr>"

text \<open>A submission under way with the stores \<open>fs\<close> left to make: the slot behind the doorbell is a partial entry that these
  stores complete to a command that the coarse system may submit.\<close>

definition submitting_rel :: "u16 \<Rightarrow> (nvme_sq_entry \<Rightarrow> nvme_sq_entry) list \<Rightarrow> gpu_nvme_queue \<Rightarrow> nvme_sim \<Rightarrow> nvme_sys \<Rightarrow> bool" where
  "submitting_rel slot fs q s y \<longleftrightarrow> q = queue_submitted (sys_q y) \<and> slot = q_sq_tail (sys_q y)
     \<and> (\<exists>opc slba nlb prp1 prp2 e. (opc = NVME_IO_OPC_READ \<or> opc = NVME_IO_OPC_WRITE) \<and> may_submit y slba nlb
        \<and> m_sq s = (m_sq (sys_sim y))[unat slot := e]
        \<and> fold (\<lambda>f. f) fs e = io_command opc (q_cid_counter (sys_q y)) (q_nsid (sys_q y)) prp1 prp2 slba nlb)"

definition polling_rel :: "gpu_nvme_queue \<Rightarrow> nvme_sim \<Rightarrow> nvme_sys \<Rightarrow> nat \<Rightarrow> bool" where
  "polling_rel q s y P \<longleftrightarrow> q = sys_q y \<and> m_sq s = m_sq (sys_sim y) \<and> length (sys_consumed y) < P"

definition head_entry :: "nvme_sys \<Rightarrow> nvme_cq_entry" where
  "head_entry y = m_cq (sys_sim y) ! unat (q_cq_head (sys_q y))"

definition kernel_rel :: "kernel_pc \<Rightarrow> gpu_nvme_queue \<Rightarrow> nvme_sim \<Rightarrow> nvme_sys \<Rightarrow> nat \<Rightarrow> bool" where
  "kernel_rel pc q s y P \<longleftrightarrow> (case pc of
     KStores slot fs \<Rightarrow> submitting_rel slot fs q s y
   | KFlush slot \<Rightarrow> submitting_rel slot [] q s y
   | KDoorbell slot \<Rightarrow> submitting_rel slot [] q s y
   | KDword0 dw3 \<Rightarrow> polling_rel q s y P \<and> dw3 = cqe_dword (head_entry y) 3
   | KDword2 dw3 cdw0 \<Rightarrow> polling_rel q s y P \<and> dw3 = cqe_dword (head_entry y) 3 \<and> cdw0 = cqe_dword (head_entry y) 0
   | KAdvance r \<Rightarrow> polling_rel q s y P \<and> r = poll_result_of (head_entry y)
   | _ \<Rightarrow> q = sys_q y \<and> m_sq s = m_sq (sys_sim y))"

text \<open>The controller's side: \<open>P\<close> commands are processed in the coarse system, which takes its step at the store of the phase
  bit.\<close>

definition quiet_rel :: "nvme_sim \<Rightarrow> nvme_sim \<Rightarrow> bool" where
  "quiet_rel s a \<longleftrightarrow> m_cq s = m_cq a \<and> m_data s = m_data a \<and> s_vdev s = s_vdev a
     \<and> s_sq_head s = s_sq_head a \<and> s_cq_tail s = s_cq_tail a \<and> s_cq_phase s = s_cq_phase a"

definition posting_rel :: "(nvme_cq_entry \<Rightarrow> nvme_cq_entry) list \<Rightarrow> nvme_sim \<Rightarrow> nvme_sim \<Rightarrow> nvme_sq_entry \<Rightarrow> bool" where
  "posting_rel fs s a cmd \<longleftrightarrow> m_data s = m_data (sim_effect a cmd) \<and> s_vdev s = s_vdev (sim_effect a cmd)
     \<and> s_sq_head s = s_sq_head a \<and> s_cq_tail s = s_cq_tail a \<and> s_cq_phase s = s_cq_phase a
     \<and> (\<forall>f \<in> set (butlast fs). \<forall>c. cqe_status_phase (f c) = cqe_status_phase c)
     \<and> (\<exists>c. m_cq s = (m_cq a)[unat (s_cq_tail a) := c] \<and> fold (\<lambda>f. f) fs c = sim_cqe a cmd
          \<and> cqe_status_phase c = cqe_status_phase (m_cq a ! unat (s_cq_tail a)))"

definition posted_rel :: "nvme_sim \<Rightarrow> nvme_sim \<Rightarrow> bool" where
  "posted_rel s a \<longleftrightarrow> m_cq s = m_cq a \<and> m_data s = m_data a \<and> s_vdev s = s_vdev a
     \<and> s_sq_head a = ucast ((ucast (s_sq_head s) + 1 :: u32) mod ucast (cfg_sq_size (s_cfg a)))
     \<and> s_cq_tail a = s_cq_tail (sim_advance_cq_tail s) \<and> s_cq_phase a = s_cq_phase (sim_advance_cq_tail s)"

definition ctl_rel :: "ctl_pc \<Rightarrow> nvme_sim \<Rightarrow> nvme_sys \<Rightarrow> nat \<Rightarrow> bool" where
  "ctl_rel pc s y P \<longleftrightarrow> (case pc of
     CIdle \<Rightarrow> quiet_rel s (sys_sim y)
   | CFetch \<Rightarrow> quiet_rel s (sys_sim y) \<and> P < length (sys_submitted y)
   | CExec cmd \<Rightarrow> quiet_rel s (sys_sim y) \<and> P < length (sys_submitted y) \<and> cmd = sys_submitted y ! P
   | CPost fs \<Rightarrow> if fs = [] then posted_rel s (sys_sim y)
       else P < length (sys_submitted y) \<and> posting_rel fs s (sys_sim y) (sys_submitted y ! P))"

definition fine_rel :: "sim_data \<Rightarrow> fine_sys \<Rightarrow> nvme_sys \<Rightarrow> nat \<Rightarrow> bool" where
  "fine_rel v0 z y P \<longleftrightarrow> sys_inv v0 P y \<and> f_submitted z = sys_submitted y \<and> f_consumed z = sys_consumed y
     \<and> same_rest (f_sim z) (sys_sim y) \<and> kernel_rel (f_kernel z) (f_q z) (f_sim z) y P
     \<and> ctl_rel (f_ctl z) (f_sim z) y P"


section \<open>Every access keeps the relation\<close>

lemma submit_start_closed:
  "submit_start q = (cid, slot, q') \<longleftrightarrow> cid = q_cid_counter q \<and> slot = q_sq_tail q \<and> q' = queue_submitted q"
  by (auto simp: submit_start_def queue_submitted_def gpu_nvme_next_cid_def gpu_nvme_advance_sq_tail_def Let_def)

lemma fold_submit_stores:
  "fold (\<lambda>f. f) (submit_read_stores q cid slba nlb p1 p2) e = io_command NVME_IO_OPC_READ cid (q_nsid q) p1 p2 slba nlb"
  "fold (\<lambda>f. f) (submit_write_stores q cid slba nlb p1 p2) e = io_command NVME_IO_OPC_WRITE cid (q_nsid q) p1 p2 slba nlb"
  by (cases e; simp add: submit_read_stores_def submit_write_stores_def Let_def cdw0_of_read cdw0_of_write io_command_def)+

lemma same_rest_simps [simp]:
  "same_rest s a \<Longrightarrow> s_cfg s = s_cfg a" "same_rest s a \<Longrightarrow> m_sq_db s = m_sq_db a"
  "same_rest s a \<Longrightarrow> s_fault s = s_fault a" "same_rest s a \<Longrightarrow> s_running s = s_running a"
  unfolding same_rest_def
  by (drule arg_cong[where f = s_cfg], simp, drule arg_cong[where f = m_sq_db], simp,
      drule arg_cong[where f = s_fault], simp, drule arg_cong[where f = s_running], simp)

lemma same_rest_db: "same_rest s (a\<lparr>m_cq_db := db, m_events := ev\<rparr>) = same_rest s a"
  unfolding same_rest_def by (rule arg_cong[where f = "(=) s"]) (cases a, simp)

lemma same_rest_refl [simp]: "same_rest a a"
  by (cases a) (simp add: same_rest_def)

lemma fine_rel_facts:
  assumes "fine_rel v0 z y P"
  shows "proto_inv (sys_submitted y) P (length (sys_consumed y)) (sys_q y) (sys_sim y)"
    and "same_rest (f_sim z) (sys_sim y)" and "sys_inv v0 P y"
  using assms by (simp_all add: fine_rel_def sys_inv_def)

text \<open>The slot of the completion that a poll looks at is not the one the controller writes, unless that completion is the
  one to come, whose phase bit the stores before the last leave alone.\<close>

lemma posting_slot:
  assumes inv: "proto_inv cmds P C q a" and P: "P < length cmds" and C: "C < P"
  shows "unat (q_cq_head q) \<noteq> unat (s_cq_tail a)"
proof -
  have "C mod cqn a \<noteq> P mod cqn a"
    using mod_eq_near[of C P "cqn a"] inv P C by (simp add: proto_inv_def)
  then show ?thesis using inv by (auto simp: proto_inv_def ring_at_def)
qed

lemma head_read:
  assumes rel: "fine_rel v0 z y P" and C: "length (sys_consumed y) < P"
  shows "m_cq (f_sim z) ! unat (q_cq_head (sys_q y)) = head_entry y"
  using rel posting_slot[OF fine_rel_facts(1)[OF rel] _ C]
  by (auto simp: fine_rel_def ctl_rel_def quiet_rel_def posted_rel_def posting_rel_def head_entry_def
      split: ctl_pc.splits if_splits)

lemma head_phase:
  assumes rel: "fine_rel v0 z y P"
  shows "cqe_phase8 (m_cq (f_sim z) ! unat (q_cq_head (sys_q y))) = cqe_phase8 (head_entry y)"
proof -
  have "unat (s_cq_tail (sys_sim y)) < length (m_cq (sys_sim y))"
    using fine_rel_facts(1)[OF rel] by (simp add: proto_inv_def sim_wf_def word_less_nat_alt)
  then show ?thesis
    using rel by (auto simp: fine_rel_def ctl_rel_def quiet_rel_def posted_rel_def posting_rel_def head_entry_def
        cqe_phase8_def nth_list_update split: ctl_pc.splits if_splits)
qed

lemma kernel_rel_cong:
  assumes "kernel_rel pc q s y P" and "m_sq s' = m_sq s" and "sys_q y' = sys_q y"
    and "sys_submitted y' = sys_submitted y" and "sys_consumed y' = sys_consumed y"
    and "m_sq (sys_sim y') = m_sq (sys_sim y)" and "P \<le> P'"
    and "length (sys_consumed y) < P \<Longrightarrow> head_entry y' = head_entry y"
  shows "kernel_rel pc q s' y' P'"
  using assms by (auto simp: kernel_rel_def submitting_rel_def polling_rel_def may_submit_def outstanding_def split: kernel_pc.splits)

text \<open>Accesses of the kernel that change nothing of what the controller sees or writes.\<close>

lemma ctl_rel_cong:
  assumes "ctl_rel pc s y P" and "m_cq s' = m_cq s" "m_data s' = m_data s" "s_vdev s' = s_vdev s" "s_cfg s' = s_cfg s"
    "s_sq_head s' = s_sq_head s" "s_cq_tail s' = s_cq_tail s" "s_cq_phase s' = s_cq_phase s"
  shows "ctl_rel pc s' y P"
  using assms by (auto simp: ctl_rel_def quiet_rel_def posted_rel_def posting_rel_def sim_advance_cq_tail_def Let_def
      split: ctl_pc.splits if_splits)

text \<open>What the kernel's accesses other than the doorbell write change.\<close>

definition kernel_frame :: "nvme_sim \<Rightarrow> nvme_sim \<Rightarrow> bool" where
  "kernel_frame s s' \<longleftrightarrow> s' = s\<lparr>m_sq := m_sq s', m_events := m_events s', m_cq_db := m_cq_db s'\<rparr>"

lemma kernel_frame_intros [simp]:
  "kernel_frame s s" "kernel_frame s (s\<lparr>m_events := ev\<rparr>)" "kernel_frame s (s\<lparr>m_sq := sq, m_events := ev\<rparr>)"
  "kernel_frame s (s\<lparr>m_cq_db := db, m_events := ev\<rparr>)"
  by (cases s; simp add: kernel_frame_def)+

lemma kernel_frame_rest: "kernel_frame s s' \<Longrightarrow> same_rest s a \<Longrightarrow> same_rest s' a"
  unfolding kernel_frame_def by (cases s; cases a; cases s') (simp add: same_rest_def)

lemma kernel_frame_ctl: "kernel_frame s s' \<Longrightarrow> ctl_rel pc s y P \<Longrightarrow> ctl_rel pc s' y P"
  by (erule ctl_rel_cong; cases s; cases s') (simp_all add: kernel_frame_def)

lemma fine_rel_kernel:
  assumes "fine_rel v0 z y P" and "kernel_frame (f_sim z) s'" and "kernel_rel pc q s' y P"
  shows "fine_rel v0 (z\<lparr>f_kernel := pc, f_q := q, f_sim := s'\<rparr>) y P"
  using assms kernel_frame_rest kernel_frame_ctl by (simp add: fine_rel_def)

lemma submitting_relI:
  assumes "q = queue_submitted (sys_q y)" "slot = q_sq_tail (sys_q y)"
    and "opc = NVME_IO_OPC_READ \<or> opc = NVME_IO_OPC_WRITE" "may_submit y slba nlb"
    and "m_sq s = (m_sq (sys_sim y))[unat slot := e]"
    and "fold (\<lambda>f. f) fs e = io_command opc (q_cid_counter (sys_q y)) (q_nsid (sys_q y)) prp1 prp2 slba nlb"
  shows "submitting_rel slot fs q s y"
  unfolding submitting_rel_def
  by (rule conjI[OF assms(1) conjI[OF assms(2)]], rule exI[of _ opc], rule exI[of _ slba], rule exI[of _ nlb],
      rule exI[of _ prp1], rule exI[of _ prp2], rule exI[of _ e]) (use assms in blast)

lemma submitting_relE:
  assumes "submitting_rel slot fs q s y"
  obtains opc slba nlb prp1 prp2 e where "q = queue_submitted (sys_q y)" "slot = q_sq_tail (sys_q y)"
    "opc = NVME_IO_OPC_READ \<or> opc = NVME_IO_OPC_WRITE" "may_submit y slba nlb"
    "m_sq s = (m_sq (sys_sim y))[unat slot := e]"
    "fold (\<lambda>f. f) fs e = io_command opc (q_cid_counter (sys_q y)) (q_nsid (sys_q y)) prp1 prp2 slba nlb"
  using assms unfolding submitting_rel_def by blast

lemma start_rel:
  assumes rel: "fine_rel v0 z y P" and idle: "f_kernel z = KIdle" and ok: "fine_may_submit z slba nlb"
    and st: "submit_start (f_q z) = (cid, slot, q')" and opc: "opc = NVME_IO_OPC_READ \<or> opc = NVME_IO_OPC_WRITE"
    and fs: "\<And>e. fold (\<lambda>f. f) fs e = io_command opc cid (q_nsid q') prp1 prp2 slba nlb"
  shows "fine_rel v0 (z\<lparr>f_q := q', f_kernel := KStores slot fs\<rparr>) y P"
proof -
  have q: "f_q z = sys_q y" "m_sq (f_sim z) = m_sq (sys_sim y)"
    using rel idle by (simp_all add: fine_rel_def kernel_rel_def)
  have "may_submit y slba nlb"
    using ok rel q by (simp add: may_submit_def fine_may_submit_def outstanding_def fine_outstanding_def fine_rel_def)
  moreover have "m_sq (f_sim z) = (m_sq (sys_sim y))[unat slot := m_sq (sys_sim y) ! unat slot]" using q by simp
  ultimately have "submitting_rel slot fs q' (f_sim z) y"
    using st q fs by (intro submitting_relI[OF _ _ opc, where slba = slba and nlb = nlb
        and e = "m_sq (sys_sim y) ! unat slot"]) (simp_all add: submit_start_closed)
  then have "fine_rel v0 (z\<lparr>f_kernel := KStores slot fs, f_q := q', f_sim := f_sim z\<rparr>) y P"
    by (intro fine_rel_kernel[OF rel]) (simp_all add: kernel_rel_def)
  then show ?thesis by (cases z) simp
qed

lemma submitting_rel_store:
  assumes rel: "submitting_rel slot (f # fs) q s y" and slot: "unat (q_sq_tail (sys_q y)) < length (m_sq (sys_sim y))"
  shows "submitting_rel slot fs q (sqe_store slot f s) y"
proof -
  from rel obtain opc slba nlb prp1 prp2 e where h: "q = queue_submitted (sys_q y)" "slot = q_sq_tail (sys_q y)"
    "opc = NVME_IO_OPC_READ \<or> opc = NVME_IO_OPC_WRITE" "may_submit y slba nlb"
    "m_sq s = (m_sq (sys_sim y))[unat slot := e]"
    "fold (\<lambda>f. f) (f # fs) e = io_command opc (q_cid_counter (sys_q y)) (q_nsid (sys_q y)) prp1 prp2 slba nlb"
    by (rule submitting_relE)
  show ?thesis
    using h(5,6) slot h(2) by (intro submitting_relI[OF h(1-4), where e = "f e"]) (simp_all add: sqe_store_def)
qed

lemma submitting_rel_cong:
  assumes "submitting_rel slot fs q s y" and "m_sq s' = m_sq s"
  shows "submitting_rel slot fs q s' y"
  unfolding submitting_rel_def assms(2) by (rule assms(1)[unfolded submitting_rel_def])

lemma flush_read_frame: "\<exists>ev. snd (mmio_read32 FlushAddr m) = m\<lparr>m_events := ev\<rparr>"
  by (cases m) (auto simp: mmio_read32_def threadfence_system_def)

lemma submitting_access_rel:
  assumes rel: "fine_rel v0 z y P"
    and pc: "f_kernel z = KStores slot fs \<or> f_kernel z = KFlush slot \<or> f_kernel z = KFence"
    and acc: "submit_access (f_q z) (f_kernel z) (f_sim z) = (pc', s')"
  shows "fine_rel v0 (z\<lparr>f_kernel := pc', f_sim := s'\<rparr>) y P"
proof -
  note slot = proto_inv_slot[OF fine_rel_facts(1)[OF rel]]
  have k: "kernel_rel (f_kernel z) (f_q z) (f_sim z) y P" using rel by (simp add: fine_rel_def)
  have "kernel_frame (f_sim z) s' \<and> kernel_rel pc' (f_q z) s' y P"
    using pc
  proof (elim disjE)
    assume "f_kernel z = KStores slot fs"
    then show ?thesis
      using k acc submitting_rel_store[OF _ slot, of slot] submitting_rel_cong[of slot "[]" "f_q z" "f_sim z" y]
      by (cases fs) (auto simp: kernel_rel_def sqe_store_def threadfence_system_def)
  next
    assume f: "f_kernel z = KFlush slot"
    obtain ev where "snd (mmio_read32 FlushAddr (f_sim z)) = (f_sim z)\<lparr>m_events := ev\<rparr>" using flush_read_frame by blast
    then have "kernel_frame (f_sim z) s'" "m_sq s' = m_sq (f_sim z)" "pc' = KDoorbell slot"
      using acc f by (auto split: if_splits)
    then show ?thesis
      using k f submitting_rel_cong[of slot "[]" "f_q z" "f_sim z" y s'] by (auto simp: kernel_rel_def)
  next
    assume "f_kernel z = KFence"
    then show ?thesis using k acc by (auto simp: kernel_rel_def threadfence_system_def)
  qed
  then have "fine_rel v0 (z\<lparr>f_kernel := pc', f_q := f_q z, f_sim := s'\<rparr>) y P"
    using fine_rel_kernel[OF rel] by blast
  then show ?thesis by (cases z) simp
qed


lemma doorbell_frame:
  "\<exists>ev. doorbell_write_sq_tail tail m = m\<lparr>m_sq_db := ucast tail, m_events := ev\<rparr>"
  "\<exists>ev. doorbell_write_cq_head head m = m\<lparr>m_cq_db := ucast head, m_events := ev\<rparr>"
  by (cases m; auto simp: doorbell_write_sq_tail_def doorbell_write_cq_head_def mmio_write32_def threadfence_system_def)+

lemma ctl_rel_submitted:
  assumes "ctl_rel pc s y P" and "sys_submitted y' = sys_submitted y @ cs"
    and "s_cfg (sys_sim y') = s_cfg (sys_sim y)" "s_vdev (sys_sim y') = s_vdev (sys_sim y)"
    "m_data (sys_sim y') = m_data (sys_sim y)" "m_cq (sys_sim y') = m_cq (sys_sim y)"
    "s_sq_head (sys_sim y') = s_sq_head (sys_sim y)" "s_cq_tail (sys_sim y') = s_cq_tail (sys_sim y)"
    "s_cq_phase (sys_sim y') = s_cq_phase (sys_sim y)"
  shows "ctl_rel pc s y' P"
proof -
  have "m_data (sim_effect (sys_sim y') e) = m_data (sim_effect (sys_sim y) e)"
    and "s_vdev (sim_effect (sys_sim y') e) = s_vdev (sim_effect (sys_sim y) e)"
    and "sim_cqe (sys_sim y') e = sim_cqe (sys_sim y) e" for e
    using assms by (simp_all add: sim_effect_def block_bytes_def sim_cqe_def)
  then show ?thesis
    using assms(1,3-) by (simp add: ctl_rel_def quiet_rel_def posted_rel_def posting_rel_def nth_append assms(2)
        split: ctl_pc.splits if_splits)
qed

text \<open>The doorbell write is where the coarse system submits.\<close>

lemma ringing_rel:
  assumes rel: "fine_rel v0 z y P" and pc: "f_kernel z = KDoorbell slot"
    and acc: "submit_access (f_q z) (f_kernel z) (f_sim z) = (pc', s')"
  shows "\<exists>y'. sys_step y y'
    \<and> fine_rel v0 (z\<lparr>f_kernel := pc', f_sim := s', f_submitted := f_submitted z @ [m_sq s' ! unat slot]\<rparr>) y' P"
proof -
  note pi = fine_rel_facts(1)[OF rel] and slot = proto_inv_slot[OF fine_rel_facts(1)[OF rel]]
  have "submitting_rel slot [] (f_q z) (f_sim z) y" using rel pc by (simp add: fine_rel_def kernel_rel_def)
  then obtain opc slba nlb prp1 prp2 e where h: "f_q z = queue_submitted (sys_q y)" "slot = q_sq_tail (sys_q y)"
    "opc = NVME_IO_OPC_READ \<or> opc = NVME_IO_OPC_WRITE" "may_submit y slba nlb"
    "m_sq (f_sim z) = (m_sq (sys_sim y))[unat slot := e]"
    "fold (\<lambda>f. f) [] e = io_command opc (q_cid_counter (sys_q y)) (q_nsid (sys_q y)) prp1 prp2 slba nlb"
    by (rule submitting_relE)
  let ?k = "if opc = NVME_IO_OPC_READ then 18 else 13"
  let ?s = "mem_submitted opc ?k (sys_q y) slba nlb prp1 prp2 (sys_sim y)"
  let ?y = "y\<lparr>sys_q := queue_submitted (sys_q y), sys_sim := ?s,
      sys_submitted := sys_submitted y @ [m_sq ?s ! unat (q_sq_tail (sys_q y))]\<rparr>"
  have step: "sys_step y ?y"
  proof (cases "opc = NVME_IO_OPC_READ")
    case True
    then show ?thesis using sys_step.submit_read[OF h(4) sq_submit_read_closed[OF slot]] by simp
  next
    case False
    then have "opc = NVME_IO_OPC_WRITE" using h(3) by simp
    then show ?thesis using False sys_step.submit_write[OF h(4) sq_submit_write_closed[OF slot]] by simp
  qed
  obtain ev where s': "s' = (f_sim z)\<lparr>m_sq_db := ucast (q_sq_tail (f_q z)), m_events := ev\<rparr>" and pc': "pc' = KFence"
    using acc pc doorbell_frame(1)[of "q_sq_tail (f_q z)" "f_sim z"] by auto
  have "ctl_rel (f_ctl z) s' y P"
    by (rule ctl_rel_cong[of _ "f_sim z"]) (use rel s' in \<open>simp_all add: fine_rel_def\<close>)
  then have ctl: "ctl_rel (f_ctl z) s' ?y P" by (rule ctl_rel_submitted) simp_all
  have "same_rest s' ?s"
    using fine_rel_facts(2)[OF rel] h(1) unfolding s' same_rest_def mem_submitted_def
    by (cases "f_sim z"; cases "sys_sim y") simp
  moreover have "m_sq s' = m_sq ?s" using h(5,6) h(2) s' by simp
  moreover have "sys_inv v0 P ?y" using sys_inv_submit[OF fine_rel_facts(3)[OF rel] h(4) refl] .
  ultimately have "fine_rel v0 (z\<lparr>f_kernel := pc', f_sim := s', f_submitted := f_submitted z @ [m_sq s' ! unat slot]\<rparr>) ?y P"
    using rel ctl h(1,2) pc' by (simp add: fine_rel_def kernel_rel_def)
  then show ?thesis using step by blast
qed

lemma cq_read_frame: "\<exists>ev. mmio_read32 (CqDword slot i) m = (cqe_dword (m_cq m ! slot) i, m\<lparr>m_events := ev\<rparr>)"
  by (cases m) (auto simp: mmio_read32_def threadfence_system_def)

lemma polling_access_rel:
  assumes rel: "fine_rel v0 z y P"
    and pc: "f_kernel z = KIdle \<or> f_kernel z = KDword0 dw3 \<or> f_kernel z = KDword2 dw3 cdw0"
    and acc: "poll_access (f_q z) (f_kernel z) (f_sim z) = (pc', q', s')"
  shows "fine_rel v0 (z\<lparr>f_kernel := pc', f_q := q', f_sim := s'\<rparr>) y P"
proof -
  let ?e = "m_cq (f_sim z) ! unat (q_cq_head (f_q z))"
  note pi = fine_rel_facts(1)[OF rel]
  have k: "kernel_rel (f_kernel z) (f_q z) (f_sim z) y P" using rel by (simp add: fine_rel_def)
  then have q: "f_q z = sys_q y" "m_sq (f_sim z) = m_sq (sys_sim y)"
    using pc by (auto simp: kernel_rel_def polling_rel_def)
  have "kernel_frame (f_sim z) s' \<and> m_sq s' = m_sq (f_sim z) \<and> q' = f_q z \<and> kernel_rel pc' q' s' y P"
    using pc
  proof (elim disjE)
    assume i: "f_kernel z = KIdle"
    obtain ev where rd: "mmio_read32 (CqDword (unat (q_cq_head (f_q z))) 3) (f_sim z) = (cqe_dword ?e 3, (f_sim z)\<lparr>m_events := ev\<rparr>)"
      using cq_read_frame by blast
    have ph: "cqe_phase8 ?e = q_cq_phase (f_q z) \<longleftrightarrow> length (sys_consumed y) < P"
      using head_phase[OF rel] phase_hit_iff[OF pi] q by (simp add: head_entry_def)
    have "length (sys_consumed y) < P \<Longrightarrow> ?e = head_entry y" using head_read[OF rel] q by simp
    then show ?thesis
      using acc i rd ph q
      by (auto simp: Let_def dword_halves cqe_phase8_def NVME_CQE_PHASE_def kernel_rel_def polling_rel_def split: if_splits)
  next
    assume d: "f_kernel z = KDword0 dw3"
    obtain ev where rd: "mmio_read32 (CqDword (unat (q_cq_head (f_q z))) 0) (f_sim z) = (cqe_dword ?e 0, (f_sim z)\<lparr>m_events := ev\<rparr>)"
      using cq_read_frame by blast
    have "?e = head_entry y" using head_read[OF rel] k d by (simp add: kernel_rel_def polling_rel_def)
    then show ?thesis using acc d rd k by (auto simp: kernel_rel_def polling_rel_def)
  next
    assume d: "f_kernel z = KDword2 dw3 cdw0"
    obtain ev where rd: "mmio_read32 (CqDword (unat (q_cq_head (f_q z))) 2) (f_sim z) = (cqe_dword ?e 2, (f_sim z)\<lparr>m_events := ev\<rparr>)"
      using cq_read_frame by blast
    have "?e = head_entry y" using head_read[OF rel] k d by (simp add: kernel_rel_def polling_rel_def)
    then show ?thesis
      using acc d rd k
      by (auto simp: Let_def kernel_rel_def polling_rel_def poll_result_of_def dword_halves NVME_CQE_STATUS_def)
  qed
  then show ?thesis using fine_rel_kernel[OF rel] by blast
qed


text \<open>The update of the head is where the coarse system takes the completion.\<close>

lemma polled_rel:
  assumes rel: "fine_rel v0 z y P" and pc: "f_kernel z = KAdvance r"
    and acc: "poll_access (f_q z) (f_kernel z) (f_sim z) = (pc', q', s')"
  shows "\<exists>y'. sys_step y y'
    \<and> fine_rel v0 (z\<lparr>f_kernel := pc', f_q := q', f_sim := s', f_consumed := f_consumed z @ [r]\<rparr>) y' P"
proof -
  note pi = fine_rel_facts(1)[OF rel]
  have k: "f_q z = sys_q y" "m_sq (f_sim z) = m_sq (sys_sim y)" "length (sys_consumed y) < P" "r = poll_result_of (head_entry y)"
    using rel pc by (auto simp: fine_rel_def kernel_rel_def polling_rel_def)
  let ?q = "gpu_nvme_advance_cq_head (sys_q y)" and ?C = "length (sys_consumed y)"
  obtain ev where try_: "cq_poll_try (sys_q y) (sys_sim y) =
      (Some r, ?q, (sys_sim y)\<lparr>m_cq_db := ucast (q_cq_head ?q), m_events := ev\<rparr>)"
    using phase_hit_iff[OF pi] k(3,4) by (cases rule: cq_poll_try_cases[of "sys_sim y" "sys_q y"]) (auto simp: head_entry_def)
  let ?a = "(sys_sim y)\<lparr>m_cq_db := ucast (q_cq_head ?q), m_events := ev\<rparr>"
  let ?y = "y\<lparr>sys_q := ?q, sys_sim := ?a, sys_consumed := sys_consumed y @ [r]\<rparr>"
  note step = sys_step.poll_hit[OF try_]
  have "?C < length (sys_submitted y)" using sim_ctl.inv_bounds[OF pi] k(3) by simp
  moreover have "result_for (fst v0) (sys_submitted y ! ?C) r"
    using proto_poll[OF pi] k(3) try_ sys_inv_cfg[OF fine_rel_facts(3)[OF rel]] by (auto simp: result_for_def)
  ultimately have inv: "sys_inv v0 P ?y"
    using fine_rel_facts(3)[OF rel] proto_inv_consume[OF pi k(3)]
    by (simp add: sys_inv_def take_Suc_conv_app_nth list_all2_appendI sim_view_def)
  obtain ev' where db: "doorbell_write_cq_head (q_cq_head ?q) (f_sim z) = (f_sim z)\<lparr>m_cq_db := ucast (q_cq_head ?q), m_events := ev'\<rparr>"
    using doorbell_frame(2) by blast
  have "poll_access (sys_q y) (KAdvance r) (f_sim z) = (KIdle, ?q, doorbell_write_cq_head (q_cq_head ?q) (f_sim z))"
    by (simp add: Let_def)
  then have s': "s' = (f_sim z)\<lparr>m_cq_db := ucast (q_cq_head ?q), m_events := ev'\<rparr>" "pc' = KIdle" "q' = ?q"
    using acc unfolding pc k(1) db by auto
  have fr: "kernel_frame (f_sim z) s'" using s' by simp
  have "ctl_rel (f_ctl z) s' y P" using kernel_frame_ctl[OF fr] rel by (simp add: fine_rel_def)
  then have "ctl_rel (f_ctl z) s' ?y P" by (rule ctl_rel_submitted[where cs = "[]"]) simp_all
  moreover have "same_rest s' ?a"
    using kernel_frame_rest[OF fr fine_rel_facts(2)[OF rel]] by (simp add: same_rest_db)
  ultimately have "fine_rel v0 (z\<lparr>f_kernel := pc', f_q := q', f_sim := s', f_consumed := f_consumed z @ [r]\<rparr>) ?y P"
    using rel inv k s' by (simp add: fine_rel_def kernel_rel_def)
  then show ?thesis using step by blast
qed

text \<open>The controller: every access but the store of the phase bit leaves the coarse system where it is.\<close>

definition ctl_frame :: "nvme_sim \<Rightarrow> nvme_sim \<Rightarrow> bool" where
  "ctl_frame s s' \<longleftrightarrow> s' = s\<lparr>m_cq := m_cq s', m_data := m_data s', s_vdev := s_vdev s', s_sq_head := s_sq_head s',
     s_cq_tail := s_cq_tail s', s_cq_phase := s_cq_phase s'\<rparr>"

lemma ctl_frame_rest: "ctl_frame s s' \<Longrightarrow> same_rest s a \<Longrightarrow> same_rest s' a"
  unfolding ctl_frame_def by (cases s; cases a; cases s') (simp add: same_rest_def)

lemma ctl_frame_rest2: "ctl_frame a a' \<Longrightarrow> same_rest s a \<Longrightarrow> same_rest s a'"
  unfolding ctl_frame_def by (cases s; cases a; cases a') (simp add: same_rest_def)

lemma ctl_frame_trans: "ctl_frame r s \<Longrightarrow> ctl_frame s t \<Longrightarrow> ctl_frame r t"
  unfolding ctl_frame_def by (cases r; cases s; cases t) simp

lemma ctl_frame_intros:
  "ctl_frame s s" "ctl_frame s (s\<lparr>m_cq := cq\<rparr>)" "ctl_frame s (s\<lparr>s_sq_head := h\<rparr>)"
  "ctl_frame s (sim_effect s e)" "ctl_frame s (sim_advance_cq_tail s)"
  by (cases s; simp add: ctl_frame_def sim_effect_def sim_advance_cq_tail_def Let_def)+

lemma ctl_frame_sq: "ctl_frame s s' \<Longrightarrow> m_sq s' = m_sq s"
  unfolding ctl_frame_def by (cases s; cases s') simp

lemma fine_rel_ctl:
  assumes rel: "fine_rel v0 z y P" and fr: "ctl_frame (f_sim z) s'" and c: "ctl_rel pc s' y P"
  shows "fine_rel v0 (z\<lparr>f_ctl := pc, f_sim := s'\<rparr>) y P"
proof -
  have "kernel_rel (f_kernel z) (f_q z) s' y P"
    by (rule kernel_rel_cong[where s = "f_sim z" and y = y and P = P]) (use rel ctl_frame_sq[OF fr] in \<open>simp_all add: fine_rel_def\<close>)
  then show ?thesis using rel c ctl_frame_rest[OF fr] by (simp add: fine_rel_def)
qed

lemma ctl_execute_closed:
  assumes wf: "sim_wf s" and f: "\<not> s_fault s" and nw: "is_data_cmd e \<Longrightarrow> cmd_nowrap e"
  shows "ctl_execute s e = (sim_effect s e, push_bit 1 (sim_status (s_cfg s) e) OR ucast (s_cq_phase s))"
proof (cases "is_data_cmd e")
  case True
  have ne: "NVME_IO_OPC_READ \<noteq> NVME_IO_OPC_WRITE" by (simp add: cmd_defs)
  from True have rc: "cmd_slba e + ucast (cmd_nlb e) > ucast (cfg_num_blocks (s_cfg s)) \<longleftrightarrow> \<not> cmd_in_range (s_cfg s) e"
    using nw by (intro range_check_exact) simp
  show ?thesis
  proof (cases "cmd_in_range (s_cfg s) e")
    case in_range: True
    note b = in_range_bytes[OF in_range wf]
    show ?thesis
      using True in_range rc b ne
      by (auto simp: is_data_cmd_def ctl_execute_def Let_def sim_effect_def sim_status_def NVME_SC_SUCCESS_def block_bytes_def)
  next
    case False
    then show ?thesis
      using True rc by (auto simp: is_data_cmd_def ctl_execute_def Let_def sim_effect_def sim_status_def NVME_SC_INVALID_FIELD_def)
  qed
next
  case False
  then show ?thesis
    by (auto simp: is_data_cmd_def ctl_execute_def Let_def sim_effect_def sim_status_def NVME_SC_SUCCESS_def)
qed


lemma quiet_pending:
  assumes rel: "fine_rel v0 z y P" and q: "quiet_rel (f_sim z) (sys_sim y)"
  shows "ucast (s_sq_head (f_sim z)) \<noteq> m_sq_db (f_sim z) \<longleftrightarrow> P < length (sys_submitted y)"
  using pending_iff[OF fine_rel_facts(1)[OF rel]] fine_rel_facts(2)[OF rel] q by (simp add: quiet_rel_def)

text \<open>The command at the controller's head is not the entry that a submission under way is writing.\<close>

lemma fetched_command:
  assumes rel: "fine_rel v0 z y P" and q: "quiet_rel (f_sim z) (sys_sim y)" and P: "P < length (sys_submitted y)"
  shows "unat (s_sq_head (f_sim z)) < length (m_sq (f_sim z))"
    and "m_sq (f_sim z) ! unat (s_sq_head (f_sim z)) = sys_submitted y ! P"
proof -
  let ?a = "sys_sim y" and ?q = "sys_q y"
  note pi = fine_rel_facts(1)[OF rel]
  have hd: "unat (s_sq_head ?a) = P mod sqn ?a" and len: "length (m_sq ?a) = sqn ?a" "0 < sqn ?a"
    and cmd: "m_sq ?a ! (P mod sqn ?a) = sys_submitted y ! P"
    using pi P by (auto simp: proto_inv_def sim_wf_def unat_gt_0)
  have ne: "unat (s_sq_head ?a) \<noteq> unat (q_sq_tail ?q)"
    using mod_eq_near[of P "length (sys_submitted y)" "sqn ?a"] pi P hd by (auto simp: proto_inv_def)
  have "\<exists>e. m_sq (f_sim z) = (m_sq ?a)[unat (q_sq_tail ?q) := e]"
  proof (cases "m_sq (f_sim z) = m_sq ?a")
    case True
    then show ?thesis by (metis list_update_id)
  next
    case False
    then show ?thesis
      using rel by (auto simp: fine_rel_def kernel_rel_def polling_rel_def submitting_rel_def split: kernel_pc.splits)
  qed
  then show "unat (s_sq_head (f_sim z)) < length (m_sq (f_sim z))"
    and "m_sq (f_sim z) ! unat (s_sq_head (f_sim z)) = sys_submitted y ! P"
    using ne hd len cmd q by (auto simp: quiet_rel_def)
qed

lemma execute_rel:
  assumes rel: "fine_rel v0 z y P" and pc: "f_ctl z = CExec cmd"
  shows "\<exists>s' sp. ctl_execute (f_sim z) cmd = (s', sp) \<and> \<not> s_fault s' \<and> ctl_frame (f_sim z) s'
    \<and> ctl_rel (CPost (cqe_stores s' cmd sp)) s' y P"
proof -
  let ?a = "sys_sim y" and ?s = "f_sim z"
  note pi = fine_rel_facts(1)[OF rel] and rest = fine_rel_facts(2)[OF rel]
  have q: "quiet_rel ?s ?a" and P: "P < length (sys_submitted y)" and cmd: "cmd = sys_submitted y ! P"
    using rel pc by (simp_all add: fine_rel_def ctl_rel_def)
  have nw: "is_data_cmd cmd \<Longrightarrow> cmd_nowrap cmd" using pi P by (auto simp: proto_inv_def cmd)
  have wf: "sim_wf ?s" "\<not> s_fault ?s"
  proof -
    have "length (m_sq ?s) = length (m_sq ?a)"
      using rel by (auto simp: fine_rel_def kernel_rel_def polling_rel_def submitting_rel_def split: kernel_pc.splits)
    then show "sim_wf ?s" "\<not> s_fault ?s" using pi q rest by (simp_all add: proto_inv_def sim_wf_def quiet_rel_def)
  qed
  have eff: "m_data (sim_effect ?s cmd) = m_data (sim_effect ?a cmd)" "s_vdev (sim_effect ?s cmd) = s_vdev (sim_effect ?a cmd)"
    using q rest by (simp_all add: sim_effect_def block_bytes_def quiet_rel_def)
  let ?sp = "push_bit 1 (sim_status (s_cfg ?s) cmd) OR ucast (s_cq_phase ?s)"
  let ?c = "m_cq ?a ! unat (s_cq_tail ?a)"
  have "fold (\<lambda>f. f) (cqe_stores (sim_effect ?s cmd) cmd ?sp) ?c = sim_cqe ?a cmd"
    using q rest by (cases ?c) (simp add: cqe_stores_def sim_cqe_def quiet_rel_def)
  moreover have "\<forall>f \<in> set (butlast (cqe_stores (sim_effect ?s cmd) cmd ?sp)). \<forall>c. cqe_status_phase (f c) = cqe_status_phase c"
    by (simp add: cqe_stores_def)
  moreover have "m_cq ?a = (m_cq ?a)[unat (s_cq_tail ?a) := ?c]" by simp
  ultimately have "posting_rel (cqe_stores (sim_effect ?s cmd) cmd ?sp) (sim_effect ?s cmd) ?a cmd"
    using q eff unfolding posting_rel_def by (auto simp: quiet_rel_def intro!: exI[of _ ?c])
  then have "ctl_rel (CPost (cqe_stores (sim_effect ?s cmd) cmd ?sp)) (sim_effect ?s cmd) y P"
    using P cmd by (simp add: ctl_rel_def cqe_stores_def)
  moreover note ctl_frame_intros(4)[of ?s cmd]
  ultimately show ?thesis using ctl_execute_closed[OF wf nw] wf(2) by auto
qed

lemma post_rel:
  assumes rel: "fine_rel v0 z y P" and pc: "f_ctl z = CPost (f # g # fs)"
  defines "s' \<equiv> (f_sim z)\<lparr>m_cq := (m_cq (f_sim z))[unat (s_cq_tail (f_sim z)) := f (m_cq (f_sim z) ! unat (s_cq_tail (f_sim z)))]\<rparr>"
  shows "ctl_rel (CPost (g # fs)) s' y P"
proof -
  let ?a = "sys_sim y"
  have tail: "unat (s_cq_tail ?a) < length (m_cq ?a)"
    using fine_rel_facts(1)[OF rel] by (simp add: proto_inv_def sim_wf_def word_less_nat_alt)
  have P: "P < length (sys_submitted y)" and p: "posting_rel (f # g # fs) (f_sim z) ?a (sys_submitted y ! P)"
    using rel pc by (simp_all add: fine_rel_def ctl_rel_def)
  then obtain c where c: "m_cq (f_sim z) = (m_cq ?a)[unat (s_cq_tail ?a) := c]"
      "fold (\<lambda>f. f) (f # g # fs) c = sim_cqe ?a (sys_submitted y ! P)"
      "cqe_status_phase c = cqe_status_phase (m_cq ?a ! unat (s_cq_tail ?a))"
    unfolding posting_rel_def by blast
  have "m_cq s' = (m_cq ?a)[unat (s_cq_tail ?a) := f c]"
    using p c(1) tail by (simp add: s'_def posting_rel_def)
  moreover have "cqe_status_phase (f c) = cqe_status_phase (m_cq ?a ! unat (s_cq_tail ?a))"
    using p c(3) by (simp add: posting_rel_def)
  ultimately have "\<exists>c. m_cq s' = (m_cq ?a)[unat (s_cq_tail ?a) := c] \<and> fold (\<lambda>f. f) (g # fs) c = sim_cqe ?a (sys_submitted y ! P)
      \<and> cqe_status_phase c = cqe_status_phase (m_cq ?a ! unat (s_cq_tail ?a))"
    using c(2) by (intro exI[of _ "f c"]) simp
  then have "posting_rel (g # fs) s' ?a (sys_submitted y ! P)"
    using p unfolding posting_rel_def by (simp add: s'_def)
  then show ?thesis using P by (simp add: ctl_rel_def)
qed


text \<open>The store of the phase bit is where the coarse system processes the command.\<close>

lemma commit_rel:
  assumes rel: "fine_rel v0 z y P" and pc: "f_ctl z = CPost [f]"
  defines "s' \<equiv> (f_sim z)\<lparr>m_cq := (m_cq (f_sim z))[unat (s_cq_tail (f_sim z)) := f (m_cq (f_sim z) ! unat (s_cq_tail (f_sim z)))]\<rparr>"
  shows "fine_rel v0 (z\<lparr>f_ctl := CPost [], f_sim := s'\<rparr>) (y\<lparr>sys_sim := sim_poller_step (sys_sim y)\<rparr>) (Suc P)"
proof -
  let ?a = "sys_sim y" and ?q = "sys_q y" and ?C = "length (sys_consumed y)"
  let ?y = "y\<lparr>sys_sim := sim_poller_step ?a\<rparr>"
  note pi = fine_rel_facts(1)[OF rel] and rest = fine_rel_facts(2)[OF rel]
  have P: "P < length (sys_submitted y)" and p: "posting_rel [f] (f_sim z) ?a (sys_submitted y ! P)"
    using rel pc by (simp_all add: fine_rel_def ctl_rel_def)
  let ?e = "sys_submitted y ! P"
  have tail: "unat (s_cq_tail ?a) < length (m_cq ?a)"
    using pi by (simp add: proto_inv_def sim_wf_def word_less_nat_alt)
  obtain c where c: "m_cq (f_sim z) = (m_cq ?a)[unat (s_cq_tail ?a) := c]" "f c = sim_cqe ?a ?e"
    using p unfolding posting_rel_def by auto
  let ?b = "(sim_effect ?a ?e)\<lparr>m_cq := (m_cq ?a)[unat (s_cq_tail ?a) := sim_cqe ?a ?e]\<rparr>"
  have wf: "sim_wf ?a" "\<not> s_fault ?a" "s_running ?a" and cmd: "?e = m_sq ?a ! unat (s_sq_head ?a)"
    and nw: "is_data_cmd ?e \<Longrightarrow> cmd_nowrap ?e"
    using pi P by (auto simp: proto_inv_def)
  have a': "sim_poller_step ?a = (sim_advance_cq_tail ?b)\<lparr>s_sq_head :=
      ucast ((ucast (s_sq_head ?a) + 1 :: u32) mod ucast (cfg_sq_size (s_cfg ?a)))\<rparr>"
    using sim_poller_step_pending[OF wf _ cmd nw] pending_iff[OF pi] P by simp
  have cq': "m_cq s' = (m_cq ?a)[unat (s_cq_tail ?a) := sim_cqe ?a ?e]"
    using p c tail by (simp add: s'_def posting_rel_def)
  have adv: "s_cq_tail (sim_advance_cq_tail s') = s_cq_tail (sim_advance_cq_tail ?b)"
      "s_cq_phase (sim_advance_cq_tail s') = s_cq_phase (sim_advance_cq_tail ?b)"
    using p rest by (simp_all add: s'_def posting_rel_def sim_advance_cq_tail_def Let_def)
  have posted: "posted_rel s' (sim_poller_step ?a)"
    using p cq' adv rest unfolding posted_rel_def a' by (simp add: s'_def posting_rel_def)
  have head: "head_entry ?y = head_entry y" if "?C < P"
    using posting_slot[OF pi P that] by (simp add: head_entry_def a')
  have "kernel_rel (f_kernel z) (f_q z) s' ?y (Suc P)"
    by (rule kernel_rel_cong[where s = "f_sim z" and y = y and P = P])
      (use rel head in \<open>simp_all add: fine_rel_def s'_def a'\<close>)
  moreover have "same_rest s' (sim_poller_step ?a)"
  proof -
    have "ctl_frame ?a (sim_poller_step ?a)"
      unfolding a' by (rule ctl_frame_trans[OF ctl_frame_trans[OF ctl_frame_trans[OF ctl_frame_intros(4) ctl_frame_intros(2)]
        ctl_frame_intros(5)] ctl_frame_intros(3)])
    then have "same_rest (f_sim z) (sim_poller_step ?a)" using ctl_frame_rest2 rest by blast
    then show ?thesis unfolding s'_def by (rule ctl_frame_rest[OF ctl_frame_intros(2)])
  qed
  moreover have "sys_inv v0 (Suc P) ?y" using sys_inv_controller[OF fine_rel_facts(3)[OF rel]] P by simp
  ultimately show ?thesis using rel posted by (simp add: fine_rel_def ctl_rel_def)
qed

lemma controlling_rel:
  assumes rel: "fine_rel v0 z y P" and acc: "ctl_step (f_ctl z) (f_sim z) = (pc', s')"
  shows "\<exists>y' P'. (y' = y \<or> sys_step y y') \<and> fine_rel v0 (z\<lparr>f_ctl := pc', f_sim := s'\<rparr>) y' P'"
proof -
  let ?s = "f_sim z"
  note pi = fine_rel_facts(1)[OF rel] and rest = fine_rel_facts(2)[OF rel]
  have run: "\<not> s_fault ?s" "s_running ?s" using pi rest by (auto simp: proto_inv_def)
  note same = ctl_frame_intros(1)
  have c: "ctl_rel (f_ctl z) ?s y P" using rel by (simp add: fine_rel_def)
  have stay: ?thesis if "ctl_frame ?s s'" "ctl_rel pc' s' y P"
    using fine_rel_ctl[OF rel that] by blast
  show ?thesis
  proof (cases "f_ctl z")
    case CIdle
    then have "ctl_rel pc' s' y P" "s' = ?s"
      using acc c run quiet_pending[OF rel] by (auto simp: ctl_rel_def ctl_step_def)
    then show ?thesis using stay same by simp
  next
    case CFetch
    then have "ctl_rel pc' s' y P" "s' = ?s"
      using acc c run fetched_command[OF rel] by (auto simp: ctl_rel_def ctl_step_def)
    then show ?thesis using stay same by simp
  next
    case (CExec cmd)
    then show ?thesis using execute_rel[OF rel CExec] acc run stay by (auto simp: ctl_step_def)
  next
    case (CPost fs)
    show ?thesis
    proof (cases fs)
      case Nil
      have "quiet_rel s' (sys_sim y)"
        using c acc run CPost Nil rest by (auto simp: ctl_rel_def posted_rel_def ctl_step_def Let_def quiet_rel_def)
      moreover have "ctl_frame ?s s'"
        using acc run CPost Nil
        by (auto simp: ctl_step_def Let_def intro: ctl_frame_trans[OF ctl_frame_intros(5) ctl_frame_intros(3)])
      ultimately show ?thesis using stay acc run CPost Nil by (auto simp: ctl_rel_def ctl_step_def Let_def)
    next
      case (Cons f gs)
      have "unat (s_cq_tail ?s) < length (m_cq ?s)"
        using c pi CPost Cons by (auto simp: ctl_rel_def posting_rel_def proto_inv_def sim_wf_def word_less_nat_alt)
      then have s': "s' = ?s\<lparr>m_cq := (m_cq ?s)[unat (s_cq_tail ?s) := f (m_cq ?s ! unat (s_cq_tail ?s))]\<rparr>" "pc' = CPost gs"
        using acc run CPost Cons by (auto simp: ctl_step_def)
      show ?thesis
      proof (cases gs)
        case Nil
        then show ?thesis using commit_rel[OF rel, of f] CPost Cons s' sys_step.controller by blast
      next
        case (Cons g hs)
        have "ctl_frame ?s s'" using s' ctl_frame_intros(2) by simp
        then show ?thesis using stay post_rel[OF rel, of f g hs] CPost \<open>fs = f # gs\<close> Cons s' by simp
      qed
    qed
  qed
qed

lemma fine_step_rel:
  assumes "fine_step z z'" and rel: "fine_rel v0 z y P"
  shows "\<exists>y' P'. (y' = y \<or> sys_step y y') \<and> fine_rel v0 z' y' P'"
  using assms(1)
proof cases
  case (start_read slba nlb cid slot q' prp1 prp2)
  have "fine_rel v0 z' y P"
    unfolding start_read(1)
    by (rule start_rel[OF rel start_read(2-4), where opc = NVME_IO_OPC_READ]) (simp_all add: fold_submit_stores)
  then show ?thesis by blast
next
  case (start_write slba nlb cid slot q' prp1 prp2)
  have "fine_rel v0 z' y P"
    unfolding start_write(1)
    by (rule start_rel[OF rel start_write(2-4), where opc = NVME_IO_OPC_WRITE]) (simp_all add: fold_submit_stores)
  then show ?thesis by blast
next
  case (submitting slot fs pc s')
  then show ?thesis using submitting_access_rel[OF rel submitting(2,3)] by blast
next
  case (ringing slot pc s')
  then show ?thesis using ringing_rel[OF rel ringing(2,3)] by blast
next
  case (polling dw3 cdw0 pc q' s')
  then show ?thesis using polling_access_rel[OF rel polling(2,3)] by blast
next
  case (polled r pc q' s')
  then show ?thesis using polled_rel[OF rel polled(2,3)] by blast
next
  case (controlling pc s')
  then show ?thesis using controlling_rel[OF rel controlling(2)] by simp
qed

lemma fine_start_rel:
  assumes "sys_init cfg y0"
  shows "fine_rel (sim_view (sys_sim y0)) (fine_start y0) y0 0"
  using sys_init_inv(1)[OF assms]
  by (simp add: fine_rel_def fine_start_def same_rest_def kernel_rel_def ctl_rel_def quiet_rel_def)

lemma fine_reach_rel:
  assumes "fine_reach z0 z" and "sys_init cfg y0" and "z0 = fine_start y0"
  shows "\<exists>y P. sys_reach y0 y \<and> fine_rel (sim_view (sys_sim y0)) z y P"
  using assms(1,3)
proof (induction rule: fine_reach.induct)
  case (fine_refl z)
  then show ?case using fine_start_rel[OF assms(2)] reach_start by blast
next
  case (fine_trans z0 z z')
  then obtain y P where "sys_reach y0 y" "fine_rel (sim_view (sys_sim y0)) z y P" by blast
  then show ?case using fine_step_rel[OF fine_trans(2)] reach_step by metis
qed


text \<open>A concrete run: a submission access by access.\<close>

lemma fine_stores:
  "fine_reach z0 z \<Longrightarrow> f_kernel z = KStores slot fs \<Longrightarrow>
   \<exists>s. fine_reach z0 (z\<lparr>f_kernel := KStores slot [], f_sim := s\<rparr>)"
proof (induction fs arbitrary: z)
  case Nil
  then have "z\<lparr>f_kernel := KStores slot [], f_sim := f_sim z\<rparr> = z" by simp
  then show ?case using Nil by metis
next
  case (Cons f fs)
  let ?z = "z\<lparr>f_kernel := KStores slot fs, f_sim := sqe_store slot f (f_sim z)\<rparr>"
  have "fine_step z ?z" using Cons.prems by (intro fine_step.submitting[where slot = slot and fs = "f # fs"]) auto
  then have "fine_reach z0 ?z" using Cons.prems(1) fine_trans by blast
  then show ?case using Cons.IH[of ?z] by simp
qed

lemma example_fine_submitted:
  "\<exists>z. fine_reach (fine_start example_start) z \<and> f_kernel z = KIdle \<and> f_ctl z = CIdle \<and> length (f_submitted z) = 1
     \<and> f_consumed z = []"
proof -
  let ?z0 = "fine_start example_start" and ?q = "queue_submitted example_queue"
  let ?fs = "submit_read_stores ?q 0 1 0 0x10000 0"
  have st: "submit_start (f_q ?z0) = (0, 0, ?q)"
    by (simp add: submit_start_closed fine_start_def example_start_def) (simp add: example_queue_def)
  have ok: "fine_may_submit ?z0 1 0"
    by (simp add: fine_may_submit_def fine_start_def example_start_def fine_outstanding_def example_queue_def)
  have "f_kernel ?z0 = KIdle" by (simp add: fine_start_def)
  from fine_trans[OF fine_refl fine_step.start_read[OF this ok st]]
  obtain s1 where 1: "fine_reach ?z0 (?z0\<lparr>f_q := ?q, f_kernel := KStores 0 [], f_sim := s1\<rparr>)"
    using fine_stores[of ?z0 "?z0\<lparr>f_q := ?q, f_kernel := KStores 0 ?fs\<rparr>" 0 ?fs] by auto
  obtain s2 where 2: "fine_reach ?z0 (?z0\<lparr>f_q := ?q, f_kernel := KFlush 0, f_sim := s2\<rparr>)"
    using fine_trans[OF 1 fine_step.submitting[where slot = 0 and fs = "[]"]] by auto
  obtain s3 where 3: "fine_reach ?z0 (?z0\<lparr>f_q := ?q, f_kernel := KDoorbell 0, f_sim := s3\<rparr>)"
    using fine_trans[OF 2 fine_step.submitting[where slot = 0 and fs = "[]"]] by auto
  obtain s4 es where 4: "fine_reach ?z0 (?z0\<lparr>f_q := ?q, f_kernel := KFence, f_sim := s4, f_submitted := es\<rparr>)" "length es = 1"
    using fine_trans[OF 3 fine_step.ringing[where slot = 0]] by (auto simp: fine_start_def example_start_def)
  have "fine_step (?z0\<lparr>f_q := ?q, f_kernel := KFence, f_sim := s4, f_submitted := es\<rparr>)
      (?z0\<lparr>f_q := ?q, f_submitted := es, f_kernel := KIdle, f_sim := threadfence_system s4\<rparr>)"
    using fine_step.submitting[of "?z0\<lparr>f_q := ?q, f_kernel := KFence, f_sim := s4, f_submitted := es\<rparr>"] by simp
  from fine_trans[OF 4(1) this] show ?thesis
    using 4(2) by (intro exI conjI) (assumption, simp_all add: fine_start_def example_start_def)
qed

section \<open>The accesses refine the operations\<close>

text \<open>C3. Single accesses of kernel and controller, interleaved in any order, show no more behaviour than whole submissions,
  polls and passes of the controller do: every state they reach has delivered exactly the results, and submitted exactly the
  commands, of some run of the coarse system, and with both sides between two operations the two states agree in everything
  but the trace of accesses and the completion doorbell, which the controller does not read. So the entry behind the doorbell is never
  read half written, nor a completion before its phase bit.\<close>

theorem accesses_refine_operations:
  assumes "sys_init cfg y0" and "fine_reach (fine_start y0) z"
  shows "\<exists>y. sys_reach y0 y \<and> sys_submitted y = f_submitted z \<and> sys_consumed y = f_consumed z \<and> \<not> s_fault (f_sim z)
    \<and> (f_kernel z = KIdle \<and> f_ctl z = CIdle \<longrightarrow> sys_q y = f_q z
       \<and> f_sim z = (sys_sim y)\<lparr>m_cq_db := m_cq_db (f_sim z), m_events := m_events (f_sim z)\<rparr>)"
proof -
  obtain y P where y: "sys_reach y0 y" "fine_rel (sim_view (sys_sim y0)) z y P"
    using fine_reach_rel[OF assms(2,1) refl] by blast
  have "f_sim z = (sys_sim y)\<lparr>m_cq_db := m_cq_db (f_sim z), m_events := m_events (f_sim z)\<rparr>"
    if "f_kernel z = KIdle" "f_ctl z = CIdle"
  proof -
    have "m_sq (f_sim z) = m_sq (sys_sim y)" "quiet_rel (f_sim z) (sys_sim y)"
      using y(2) that by (simp_all add: fine_rel_def kernel_rel_def ctl_rel_def)
    then show ?thesis
      using fine_rel_facts(2)[OF y(2)] unfolding same_rest_def quiet_rel_def by (cases "f_sim z"; cases "sys_sim y") simp
  qed
  moreover have "\<not> s_fault (f_sim z)"
    using fine_rel_facts[OF y(2)] by (simp add: proto_inv_def)
  ultimately show ?thesis
    using y by (intro exI[of _ y]) (auto simp: fine_rel_def kernel_rel_def)
qed

theorem accesses_refine_operations_witness:
  "\<exists>z y. fine_reach (fine_start example_start) z \<and> length (f_submitted z) = 1 \<and> sys_reach example_start y
     \<and> sys_submitted y = f_submitted z \<and> sys_q y = f_q z"
proof -
  obtain z where z: "fine_reach (fine_start example_start) z" "f_kernel z = KIdle" "f_ctl z = CIdle"
      "length (f_submitted z) = 1"
    using example_fine_submitted by blast
  then show ?thesis using accesses_refine_operations[OF example_init z(1)] by blast
qed


text \<open>Without interference, the accesses that a side makes one after the other are its operation: the accesses of
  a submission make up \<^verbatim>\<open>sq_submit_read\<close> or \<^verbatim>\<open>sq_submit_write\<close>, with the same identifier, queue state and memory, and the poller
  thread's accesses from one read of the doorbell to the next make up one pass of its loop, out-of-range accesses included.\<close>

theorem accesses_compose:
  "(case submit_start q of (cid, slot, q') \<Rightarrow>
      (cid, q', snd (submit_run 22 q' (KStores slot (submit_read_stores q' cid slba nlb p1 p2), m))) = sq_submit_read q slba nlb p1 p2 m
    \<and> (cid, q', snd (submit_run 17 q' (KStores slot (submit_write_stores q' cid slba nlb p1 p2), m))) = sq_submit_write q slba nlb p1 p2 m)
   \<and> snd (ctl_run 10 (CIdle, s)) = sim_poller_step s"
  using submit_run_read submit_run_write ctl_run_step by (auto split: prod.splits)

end
