(* ===== verification/Block_Io.thy ===== *)
theory Block_Io
  imports Queue_System
begin

text \<open>
  The block I/O kernels of \<^verbatim>\<open>src/device/block_io.cu\<close>. The two kernels differ only in the submit
  function that their loop calls; the loop is written once with that function as an argument. Its
  specification \<open>run_commands\<close> executes the planned commands one after the other on the data and
  stops at the first one with an error status. The kernels refine it for every controller that
  satisfies the contract \<open>nvme_controller\<close>, and on the simulator they transfer the blocks.
\<close>

section \<open>The kernels\<close>

definition DEFAULT_TIMEOUT_CYCLES :: u64 where
  "DEFAULT_TIMEOUT_CYCLES = 170000000"

record gpunvme_io_result =
  io_status :: u32
  io_blocks_done :: u32
  io_error_code :: u32
  io_cqe_status :: u32

definition io_timeout :: "gpu_nvme_queue \<Rightarrow> u64" where
  "io_timeout q = (let timeout = q_poll_timeout_cycles q
     in if timeout = 0 then DEFAULT_TIMEOUT_CYCLES else timeout)"

definition io_block_size :: "gpu_nvme_queue \<Rightarrow> u32" where
  "io_block_size q = (let block_size = q_block_size q in if block_size = 0 then 512 else block_size)"

definition io_blocks_per_page :: "u32 \<Rightarrow> u32" where
  "io_blocks_per_page block_size =
    (let blocks_per_page = 4096 div block_size in if blocks_per_page = 0 then 1 else blocks_per_page)"

definition io_batch :: "u32 \<Rightarrow> u32 \<Rightarrow> u32 \<Rightarrow> u32" where
  "io_batch block_size num_blocks done =
    (let batch = num_blocks - done
     in if batch > io_blocks_per_page block_size then io_blocks_per_page block_size else batch)"

lemma io_batch_bounds:
  assumes "done < num_blocks"
  shows "0 < unat (io_batch bs num_blocks done)"
    and "unat (io_batch bs num_blocks done) \<le> 4096"
    and "unat done + unat (io_batch bs num_blocks done) \<le> unat num_blocks"
    and "unat (done + io_batch bs num_blocks done) = unat done + unat (io_batch bs num_blocks done)"
proof -
  let ?b = "io_batch bs num_blocks done"
  have p: "0 < unat (io_blocks_per_page bs)" "unat (io_blocks_per_page bs) \<le> 4096"
    by (auto simp: io_blocks_per_page_def Let_def unat_div unat_gt_0 div_le_dividend)
  have d: "unat (num_blocks - done) = unat num_blocks - unat done"
    using assms by (simp add: unat_sub order_less_imp_le)
  have lt: "unat done < unat num_blocks" using assms by (simp add: word_less_nat_alt)
  show "0 < unat ?b" "unat ?b \<le> 4096"
    using p d lt by (auto simp: io_batch_def Let_def word_less_nat_alt)
  show le: "unat done + unat ?b \<le> unat num_blocks"
    using d lt by (auto simp: io_batch_def Let_def word_less_nat_alt)
  then show "unat (done + ?b) = unat done + unat ?b"
    using unat_bound[of num_blocks] by (simp add: unat_word_ariths)
qed

lemma io_loop_decreases:
  "done < num_blocks \<Longrightarrow>
   unat num_blocks - unat (done + io_batch bs num_blocks done) < unat num_blocks - unat done"
  using io_batch_bounds[of "done" num_blocks bs] by linarith

type_synonym 'm submit_fn =
  "gpu_nvme_queue \<Rightarrow> u64 \<Rightarrow> u16 \<Rightarrow> u64 \<Rightarrow> u64 \<Rightarrow> 'm \<Rightarrow> u16 \<times> gpu_nvme_queue \<times> 'm"

text \<open>The \<^verbatim>\<open>while (done < num_blocks)\<close> loop; \<open>None\<close> when a poll inside it ran out of fuel.\<close>

function io_blocks_loop ::
    "('x qmem_scheme) submit_fn \<Rightarrow> nat \<Rightarrow> ('x qmem_scheme) gpu_env \<Rightarrow> u64 \<Rightarrow> u32 \<Rightarrow> u64 \<Rightarrow> u32 \<Rightarrow> u64 \<Rightarrow>
     u32 \<Rightarrow> gpunvme_io_result \<Rightarrow> gpu_nvme_queue \<Rightarrow> 'x qmem_scheme \<Rightarrow> nat \<Rightarrow>
     (gpunvme_io_result \<times> gpu_nvme_queue \<times> 'x qmem_scheme \<times> nat) option" where
  "io_blocks_loop submit fuel E slba num_blocks data_phys block_size timeout done result q m t =
    (if done < num_blocks
     then let batch = io_batch block_size num_blocks done;
              cur_lba = slba + ucast done;
              cur_phys = data_phys + ucast done * ucast block_size;
              (cid, q, m) = submit q cur_lba (ucast (batch - 1)) cur_phys 0 m
          in case cq_poll_for_cid fuel E q cid timeout m t of
               None \<Rightarrow> None
             | Some (cqr, q, m, t) \<Rightarrow>
                 if r_timed_out cqr
                 then Some (result\<lparr>io_status := 1, io_error_code := 2, io_blocks_done := done\<rparr>, q, m, t)
                 else if \<not> r_success cqr
                 then Some (result\<lparr>io_status := 1, io_error_code := 3,
                        io_cqe_status := ucast (r_status cqr), io_blocks_done := done\<rparr>, q, m, t)
                 else io_blocks_loop submit fuel E slba num_blocks data_phys block_size timeout
                        (done + batch) result q m t
     else Some (result\<lparr>io_blocks_done := done\<rparr>, q, m, t))"
  by pat_completeness auto
termination
  by (relation "measure (\<lambda>(submit, fuel, E, slba, num_blocks, data_phys, block_size, timeout, done, _).
      unat num_blocks - unat done)") (auto dest: io_loop_decreases)

declare io_blocks_loop.simps [simp del]

definition io_result_zero :: gpunvme_io_result where
  "io_result_zero = \<lparr>io_status = 0, io_blocks_done = 0, io_error_code = 0, io_cqe_status = 0\<rparr>"

text \<open>The arguments \<open>tid\<close> and \<open>bid\<close> are \<^verbatim>\<open>threadIdx.x\<close> and \<^verbatim>\<open>blockIdx.x\<close>, \<open>result\<close> is what the
  result structure holds at the launch.\<close>

definition gpunvme_read_blocks_kernel ::
    "nat \<Rightarrow> ('x qmem_scheme) gpu_env \<Rightarrow> u32 \<Rightarrow> u32 \<Rightarrow> gpu_nvme_queue \<Rightarrow> u64 \<Rightarrow> u32 \<Rightarrow> u64 \<Rightarrow>
     gpunvme_io_result \<Rightarrow> 'x qmem_scheme \<Rightarrow> nat \<Rightarrow>
     (gpunvme_io_result \<times> gpu_nvme_queue \<times> 'x qmem_scheme \<times> nat) option" where
  "gpunvme_read_blocks_kernel fuel E tid bid q slba num_blocks data_phys result m t =
    (if tid \<noteq> 0 \<or> bid \<noteq> 0 then Some (result, q, m, t)
     else let result = result\<lparr>io_status := 0, io_blocks_done := 0, io_error_code := 0,
                io_cqe_status := 0\<rparr>
          in io_blocks_loop sq_submit_read fuel E slba num_blocks data_phys (io_block_size q)
               (io_timeout q) 0 result q m t)"

definition gpunvme_write_blocks_kernel ::
    "nat \<Rightarrow> ('x qmem_scheme) gpu_env \<Rightarrow> u32 \<Rightarrow> u32 \<Rightarrow> gpu_nvme_queue \<Rightarrow> u64 \<Rightarrow> u32 \<Rightarrow> u64 \<Rightarrow>
     gpunvme_io_result \<Rightarrow> 'x qmem_scheme \<Rightarrow> nat \<Rightarrow>
     (gpunvme_io_result \<times> gpu_nvme_queue \<times> 'x qmem_scheme \<times> nat) option" where
  "gpunvme_write_blocks_kernel fuel E tid bid q slba num_blocks data_phys result m t =
    (if tid \<noteq> 0 \<or> bid \<noteq> 0 then Some (result, q, m, t)
     else let result = result\<lparr>io_status := 0, io_blocks_done := 0, io_error_code := 0,
                io_cqe_status := 0\<rparr>
          in io_blocks_loop sq_submit_write fuel E slba num_blocks data_phys (io_block_size q)
               (io_timeout q) 0 result q m t)"

section \<open>The specification\<close>

text \<open>The commands that a kernel issues from block \<open>done\<close> on, each with the number of blocks
  before it.\<close>

function io_plan ::
    "u8 \<Rightarrow> u32 \<Rightarrow> u64 \<Rightarrow> u32 \<Rightarrow> u64 \<Rightarrow> u32 \<Rightarrow> u16 \<Rightarrow> u32 \<Rightarrow> (nvme_sq_entry \<times> u32) list" where
  "io_plan opc nsid slba num_blocks data_phys bs cid done =
    (if done < num_blocks
     then (io_command opc cid nsid (data_phys + ucast done * ucast bs) 0 (slba + ucast done)
             (ucast (io_batch bs num_blocks done - 1)), done)
          # io_plan opc nsid slba num_blocks data_phys bs (cid + 1) (done + io_batch bs num_blocks done)
     else [])"
  by pat_completeness auto
termination
  by (relation "measure (\<lambda>(opc, nsid, slba, num_blocks, data_phys, bs, cid, done).
      unat num_blocks - unat done)") (auto dest: io_loop_decreases)

declare io_plan.simps [simp del]

fun run_commands ::
    "('v \<Rightarrow> nvme_sq_entry \<Rightarrow> u16) \<Rightarrow> (nvme_sq_entry \<Rightarrow> 'v \<Rightarrow> 'v) \<Rightarrow> u32 \<Rightarrow>
     (nvme_sq_entry \<times> u32) list \<Rightarrow> 'v \<Rightarrow> gpunvme_io_result \<times> 'v" where
  "run_commands stat eff num [] v = (io_result_zero\<lparr>io_blocks_done := num\<rparr>, v)"
| "run_commands stat eff num ((e, done) # es) v =
    (if stat v e = 0 then run_commands stat eff num es (eff e v)
     else (\<lparr>io_status = 1, io_blocks_done = done, io_error_code = 3,
            io_cqe_status = ucast (stat v e)\<rparr>, eff e v))"

text \<open>The submit functions of the kernels, in closed form.\<close>

definition submits :: "('x qmem_scheme) submit_fn \<Rightarrow> u8 \<Rightarrow> bool" where
  "submits submit opc \<longleftrightarrow> (\<exists>k. \<forall>q slba nlb prp1 prp2 m. unat (q_sq_tail q) < length (m_sq m) \<longrightarrow>
     submit q slba nlb prp1 prp2 m =
       (q_cid_counter q, queue_submitted q, mem_submitted opc k q slba nlb prp1 prp2 m))"

lemma submits_kernels:
  "submits sq_submit_read NVME_IO_OPC_READ" "submits sq_submit_write NVME_IO_OPC_WRITE"
  unfolding submits_def using sq_submit_read_closed sq_submit_write_closed by blast+

section \<open>Refinement\<close>

context nvme_controller
begin

definition io_done ::
    "gpu_nvme_queue \<Rightarrow> nvme_sq_entry list \<Rightarrow> nvme_sq_entry list \<Rightarrow> gpunvme_io_result \<times> 'v \<Rightarrow>
     gpunvme_io_result \<times> gpu_nvme_queue \<times> 'x qmem_scheme \<times> nat \<Rightarrow> bool" where
  "io_done q0 cmds plan spec z = (case z of (r, q, m, t) \<Rightarrow>
     (r, view m) = spec \<and> q_block_size q = q_block_size q0
   \<and> q_poll_timeout_cycles q = q_poll_timeout_cycles q0 \<and> (\<exists>n \<le> length plan. inv (cmds @ take n plan)
        (length cmds + n) (length cmds + n) q m))"

text \<open>One round: submit a command on a drained queue pair and poll for its completion.\<close>

lemma submit_and_poll:
  assumes run: "runs_on E step sched" and fair: "fair_schedule E sched B timeout" and fuel: "B \<le> fuel"
    and sub: "submits submit opc" and inv: "inv cmds (length cmds) (length cmds) q m"
    and size: "2 \<le> unat (q_sq_size q)" "1 \<le> unat (q_cq_size q)"
    and e: "e = io_command opc (q_cid_counter q) (q_nsid q) prp1 prp2 slba nlb" and ok: "ok e"
  shows "\<exists>m1 r q' m' t'. submit q slba nlb prp1 prp2 m = (q_cid_counter q, queue_submitted q, m1)
    \<and> cq_poll_for_cid fuel E (queue_submitted q) (q_cid_counter q) timeout m1 t = Some (r, q', m', t')
    \<and> \<not> r_timed_out r \<and> r_status r = stat (view m) e \<and> r_success r = (stat (view m) e = 0)
    \<and> q' = gpu_nvme_advance_cq_head (queue_submitted q)
    \<and> inv (cmds @ [e]) (length (cmds @ [e])) (length (cmds @ [e])) q' m'
    \<and> view m' = eff e (view m)"
proof -
  let ?C = "length cmds"
  obtain k where k: "submit q slba nlb prp1 prp2 m =
      (q_cid_counter q, queue_submitted q, mem_submitted opc k q slba nlb prp1 prp2 m)"
    using sub inv_slot[OF inv] unfolding submits_def by blast
  let ?m1 = "mem_submitted opc k q slba nlb prp1 prp2 m"
  have inv1: "inv (cmds @ [e]) ?C ?C (queue_submitted q) ?m1"
    using size ok unfolding e by (intro submit[OF inv]) auto
  have cid: "q_cid_counter q = sqe_cid ((cmds @ [e]) ! ?C)" by (simp add: e)
  obtain z where z: "cq_poll_for_cid fuel E (queue_submitted q) (q_cid_counter q) timeout ?m1 t = Some z"
      "poll_post (cmds @ [e]) ?C (queue_submitted q) (view ?m1) (eff e (view ?m1)) z"
    using poll_for_cid_one[OF run fair _ inv1 fuel cid, of t] by auto
  obtain r q' m' t' where "z = (r, q', m', t')" by (cases z) auto
  then show ?thesis using z k by (auto simp: poll_post_def submit_view)
qed

lemma io_blocks_loop_refines:
  assumes run: "runs_on E step sched" and fair: "fair_schedule E sched B timeout" and fuel: "B \<le> fuel"
  shows "\<lbrakk>submits submit opc; inv cmds (length cmds) (length cmds) q m;
      2 \<le> unat (q_sq_size q); 1 \<le> unat (q_cq_size q);
      q_cid_counter q = cid; q_nsid q = nsid; done \<le> num_blocks;
      list_all (\<lambda>(e, _). ok e) (io_plan opc nsid slba num_blocks data_phys bs cid done)\<rbrakk> \<Longrightarrow>
    \<exists>z. io_blocks_loop submit fuel E slba num_blocks data_phys bs timeout done io_result_zero q m t = Some z
      \<and> io_done q cmds (map fst (io_plan opc nsid slba num_blocks data_phys bs cid done))
          (run_commands stat eff num_blocks (io_plan opc nsid slba num_blocks data_phys bs cid done) (view m)) z"
proof (induction opc nsid slba num_blocks data_phys bs cid "done" arbitrary: cmds q m t rule: io_plan.induct)
  case (1 opc nsid slba num_blocks data_phys bs cid "done")
  note plan = io_plan.simps[of opc nsid slba num_blocks data_phys bs cid "done"]
  note loop = io_blocks_loop.simps[of submit fuel E slba num_blocks data_phys bs timeout "done" io_result_zero q m t]
  show ?case
  proof (cases "done < num_blocks")
    case False
    then have "done = num_blocks" using 1(8) by simp
    then show ?thesis using 1(3) plan loop by (auto simp: io_done_def)
  next
    case True
    let ?b = "io_batch bs num_blocks done"
    let ?lba = "slba + ucast done" and ?phys = "data_phys + ucast done * ucast bs"
    let ?e = "io_command opc (q_cid_counter q) (q_nsid q) ?phys 0 ?lba (ucast (?b - 1))"
    let ?rest = "io_plan opc nsid slba num_blocks data_phys bs (cid + 1) (done + ?b)"
    have p: "io_plan opc nsid slba num_blocks data_phys bs cid done = (?e, done) # ?rest"
      using True plan 1(6,7) by simp
    have ok: "ok ?e" "list_all (\<lambda>(e, _). ok e) ?rest" using 1(9) p by simp_all
    obtain m1 r q' m' t' where
        sub: "submit q ?lba (ucast (?b - 1)) ?phys 0 m = (q_cid_counter q, queue_submitted q, m1)"
        and poll: "cq_poll_for_cid fuel E (queue_submitted q) (q_cid_counter q) timeout m1 t = Some (r, q', m', t')"
        and r: "\<not> r_timed_out r" "r_status r = stat (view m) ?e" "r_success r = (stat (view m) ?e = 0)"
        and q': "q' = gpu_nvme_advance_cq_head (queue_submitted q)"
        and inv': "inv (cmds @ [?e]) (length (cmds @ [?e])) (length (cmds @ [?e])) q' m'"
        and view': "view m' = eff ?e (view m)"
      using submit_and_poll[OF run fair fuel 1(2) 1(3-5) refl ok(1), of t] by blast
    show ?thesis
    proof (cases "stat (view m) ?e = 0")
      case False
      have "io_blocks_loop submit fuel E slba num_blocks data_phys bs timeout done io_result_zero q m t =
          Some (\<lparr>io_status = 1, io_blocks_done = done, io_error_code = 3,
            io_cqe_status = ucast (stat (view m) ?e)\<rparr>, q', m', t')"
        using True sub poll r False by (subst loop) (simp add: Let_def io_result_zero_def)
      moreover have "inv (cmds @ take 1 (?e # map fst ?rest)) (length cmds + 1) (length cmds + 1) q' m'"
        using inv' by simp
      ultimately show ?thesis
        using False view' q' unfolding p io_done_def by (auto intro!: exI[of _ "1::nat"])
    next
      case stat0: True
      have b: "done + ?b \<le> num_blocks"
        using io_batch_bounds(3,4)[OF True, of bs] by (simp add: word_le_nat_alt)
      obtain z where z: "io_blocks_loop submit fuel E slba num_blocks data_phys bs timeout (done + ?b)
            io_result_zero q' m' t' = Some z"
          "io_done q' (cmds @ [?e]) (map fst ?rest) (run_commands stat eff num_blocks ?rest (view m')) z"
        using 1(1)[OF True 1(2) inv' _ _ _ _ b ok(2), of t'] 1(4-7) q' by auto
      have "io_blocks_loop submit fuel E slba num_blocks data_phys bs timeout done io_result_zero q m t = Some z"
        using True sub poll r stat0 z(1) by (simp add: loop Let_def)
      moreover have "io_done q cmds (?e # map fst ?rest) (run_commands stat eff num_blocks ?rest (view m')) z"
        using z(2) q' unfolding io_done_def by (force split: prod.splits intro: exI[of _ "Suc _"])
      ultimately show ?thesis using stat0 view' unfolding p by simp
    qed
  qed
qed

end

section \<open>The kernels on the simulator\<close>

lemma io_plan_nlb:
  assumes "0 < unat b" and "unat (b :: u32) \<le> 4096"
  shows "unat (ucast (ucast (b - 1) :: u16) + 1 :: u32) = unat b"
proof -
  have "unat (b - 1) = unat b - 1" using assms by (simp add: unat_sub word_le_nat_alt)
  then have "unat (ucast (b - 1) :: u16) = unat b - 1"
    using assms by (simp add: unsigned_ucast_eq take_bit_eq_mod)
  then show ?thesis using assms by simp
qed

text \<open>A range of blocks that lies on the device.\<close>

definition blocks_on_device :: "sim_data \<Rightarrow> u64 \<Rightarrow> u32 \<Rightarrow> bool" where
  "blocks_on_device v slba n \<longleftrightarrow> unat slba + unat n \<le> unat (cfg_num_blocks (fst v))
     \<and> length (fst (snd v)) = unat (cfg_num_blocks (fst v)) * unat (cfg_block_size (fst v))"

lemma plan_head:
  assumes dev: "blocks_on_device v slba num_blocks" and lt: "done < num_blocks"
    and bs: "bs = cfg_block_size (fst v)"
    and e: "e = io_command opc cid nsid p 0 (slba + ucast done) (ucast (io_batch bs num_blocks done - 1))"
  shows "unat (cmd_slba e) = unat slba + unat done" "unat (cmd_nlb e) = unat (io_batch bs num_blocks done)"
    "cmd_nowrap e" "cmd_in_range (fst v) e"
proof -
  note b = io_batch_bounds[OF lt, of bs]
  have le: "unat slba + unat num_blocks < 2 ^ 33"
    using dev unat_bound[of "cfg_num_blocks (fst v)"] by (simp add: blocks_on_device_def)
  show s: "unat (cmd_slba e) = unat slba + unat done"
    using b le by (simp add: e unat_word_ariths)
  show n: "unat (cmd_nlb e) = unat (io_batch bs num_blocks done)"
    using io_plan_nlb[OF b(1,2)] by (simp only: e io_command_decode)
  show "cmd_nowrap e" "cmd_in_range (fst v) e"
    using dev b le by (auto simp: cmd_nowrap_def cmd_in_range_def s n blocks_on_device_def)
qed

lemma plan_phys:
  assumes "done < num_blocks"
  shows "(data_phys :: u64) + ucast (done + io_batch bs num_blocks done) * ucast bs =
    (data_phys + ucast done * ucast bs) + of_nat (unat (io_batch bs num_blocks done) * unat bs)"
proof -
  have eq: "(ucast (done + io_batch bs num_blocks done) :: u64)
      = ucast done + of_nat (unat (io_batch bs num_blocks done))"
    using io_batch_bounds(4)[OF assms, of bs] by (metis of_nat_add of_nat_unat)
  show ?thesis unfolding eq by (simp add: algebra_simps)
qed

lemma plan_ok:
  "\<lbrakk>blocks_on_device v slba num_blocks; bs = cfg_block_size (fst v)\<rbrakk> \<Longrightarrow>
   list_all (\<lambda>(e, _). cmd_nowrap e) (io_plan opc nsid slba num_blocks data_phys bs cid done)"
proof (induction opc nsid slba num_blocks data_phys bs cid "done" rule: io_plan.induct)
  case (1 opc nsid slba num_blocks data_phys bs cid "done")
  then show ?case
    using plan_head(3)[OF 1(2) _ 1(3) refl] by (subst io_plan.simps) simp
qed

lemma plan_split:
  assumes dev: "blocks_on_device v slba num_blocks" and bs: "bs = cfg_block_size (fst v)"
    and lt: "done < num_blocks"
  defines "b \<equiv> io_batch bs num_blocks done"
  shows "(unat num_blocks - unat done) * unat bs = unat b * unat bs + (unat num_blocks - unat (done + b)) * unat bs"
    and "(unat slba + unat (done + b)) * unat bs = (unat slba + unat done) * unat bs + unat b * unat bs"
    and "(unat slba + unat done) * unat bs + (unat num_blocks - unat done) * unat bs \<le> length (fst (snd v))"
    and "length (fst (snd v)) < 2 ^ 64"
proof -
  note b = io_batch_bounds[OF lt, of bs, folded b_def]
  have "unat num_blocks - unat done = unat b + (unat num_blocks - unat (done + b))" using b by simp
  then show "(unat num_blocks - unat done) * unat bs = unat b * unat bs + (unat num_blocks - unat (done + b)) * unat bs"
    by (metis add_mult_distrib)
  show "(unat slba + unat (done + b)) * unat bs = (unat slba + unat done) * unat bs + unat b * unat bs"
    unfolding b(4) by (simp add: algebra_simps)
  have "(unat slba + unat done + (unat num_blocks - unat done)) * unat bs
      \<le> unat (cfg_num_blocks (fst v)) * unat bs"
    using dev b by (intro mult_le_mono1) (simp add: blocks_on_device_def)
  then show "(unat slba + unat done) * unat bs + (unat num_blocks - unat done) * unat bs \<le> length (fst (snd v))"
    using dev bs by (simp add: blocks_on_device_def add_mult_distrib)
  show "length (fst (snd v)) < 2 ^ 64"
    using dev u32_mult_lt_u64 by (simp add: blocks_on_device_def)
qed

lemma run_read_plan:
  assumes "blocks_on_device (cfg, vdev, d) slba num_blocks" and "bs = cfg_block_size cfg" and "done \<le> num_blocks"
  shows "run_commands view_status view_effect num_blocks
      (io_plan NVME_IO_OPC_READ nsid slba num_blocks data_phys bs cid done) (cfg, vdev, d) =
    (io_result_zero\<lparr>io_blocks_done := num_blocks\<rparr>, cfg, vdev,
      mem_store d (data_phys + ucast done * ucast bs)
        (take ((unat num_blocks - unat done) * unat bs) (drop ((unat slba + unat done) * unat bs) vdev)))"
  using assms
proof (induction NVME_IO_OPC_READ nsid slba num_blocks data_phys bs cid "done" arbitrary: d rule: io_plan.induct)
  case (1 nsid slba num_blocks data_phys bs cid "done")
  show ?case
  proof (cases "done < num_blocks")
    case False
    then show ?thesis using 1(4) by (subst io_plan.simps) simp
  next
    case True
    let ?b = "io_batch bs num_blocks done" and ?p = "data_phys + ucast done * ucast bs"
    let ?e = "io_command NVME_IO_OPC_READ cid nsid ?p 0 (slba + ucast done) (ucast (?b - 1))"
    let ?off = "(unat slba + unat done) * unat bs" and ?n = "unat ?b * unat bs"
    let ?rem = "(unat num_blocks - unat (done + ?b)) * unat bs"
    have v: "bs = cfg_block_size (fst (cfg, vdev, d))" using 1(3) by simp
    note h = plan_head[OF 1(2) True v refl, where opc = NVME_IO_OPC_READ and cid = cid and nsid = nsid and p = ?p]
    note ph = plan_phys[OF True, of data_phys bs]
    note sp = plan_split[OF 1(2) v True]
    have st: "view_status (cfg, vdev, d) ?e = 0"
      using h(4) by (simp add: view_status_def sim_status_def is_data_cmd_def NVME_SC_SUCCESS_def)
    have eff: "view_effect ?e (cfg, vdev, d) = (cfg, vdev, mem_store d ?p (take ?n (drop ?off vdev)))"
      using h(1,2,4) 1(3) by (simp add: view_effect_def is_data_cmd_def Let_def del: io_command_decode(3,4))
    have app: "mem_store (mem_store d ?p (take ?n (drop ?off vdev))) (?p + of_nat ?n)
        (take ?rem (drop ((unat slba + unat (done + ?b)) * unat bs) vdev)) =
      mem_store d ?p (take ((unat num_blocks - unat done) * unat bs) (drop ?off vdev))"
      using mem_store_slices[of ?off ?n ?rem vdev d ?p] sp(3,4) unfolding sp(1,2) by simp
    have le: "done + ?b \<le> num_blocks" using io_batch_bounds[OF True] by (simp add: word_le_nat_alt)
    show ?thesis
      using 1(1)[OF True _ 1(3) le, of "mem_store d ?p (take ?n (drop ?off vdev))"] 1(2) True st eff ph app
      by (subst io_plan.simps) (simp add: blocks_on_device_def)
  qed
qed

lemma run_write_plan:
  assumes "blocks_on_device (cfg, vdev, d) slba num_blocks" and "bs = cfg_block_size cfg" and "done \<le> num_blocks"
  shows "run_commands view_status view_effect num_blocks
      (io_plan NVME_IO_OPC_WRITE nsid slba num_blocks data_phys bs cid done) (cfg, vdev, d) =
    (io_result_zero\<lparr>io_blocks_done := num_blocks\<rparr>, cfg,
      put_bytes ((unat slba + unat done) * unat bs)
        (mem_load d (data_phys + ucast done * ucast bs) ((unat num_blocks - unat done) * unat bs)) vdev, d)"
  using assms
proof (induction NVME_IO_OPC_WRITE nsid slba num_blocks data_phys bs cid "done" arbitrary: vdev rule: io_plan.induct)
  case (1 nsid slba num_blocks data_phys bs cid "done")
  show ?case
  proof (cases "done < num_blocks")
    case False
    then show ?thesis using 1(4) by (subst io_plan.simps) (simp add: mem_load_def)
  next
    case True
    let ?b = "io_batch bs num_blocks done" and ?p = "data_phys + ucast done * ucast bs"
    let ?e = "io_command NVME_IO_OPC_WRITE cid nsid ?p 0 (slba + ucast done) (ucast (?b - 1))"
    let ?off = "(unat slba + unat done) * unat bs" and ?n = "unat ?b * unat bs"
    let ?rem = "(unat num_blocks - unat (done + ?b)) * unat bs"
    let ?vdev = "put_bytes ?off (mem_load d ?p ?n) vdev"
    have v: "bs = cfg_block_size (fst (cfg, vdev, d))" using 1(3) by simp
    note h = plan_head[OF 1(2) True v refl, where opc = NVME_IO_OPC_WRITE and cid = cid and nsid = nsid and p = ?p]
    note ph = plan_phys[OF True, of data_phys bs]
    note sp = plan_split[OF 1(2) v True]
    have ne: "NVME_IO_OPC_WRITE \<noteq> NVME_IO_OPC_READ" by (simp add: cmd_defs)
    have st: "view_status (cfg, vdev, d) ?e = 0"
      using h(4) by (simp add: view_status_def sim_status_def is_data_cmd_def NVME_SC_SUCCESS_def)
    have eff: "view_effect ?e (cfg, vdev, d) = (cfg, ?vdev, d)"
      using h(1,2,4) 1(3) ne by (simp add: view_effect_def is_data_cmd_def Let_def del: io_command_decode(3,4))
    have app: "put_bytes ((unat slba + unat (done + ?b)) * unat bs) (mem_load d (?p + of_nat ?n) ?rem) ?vdev =
      put_bytes ?off (mem_load d ?p ((unat num_blocks - unat done) * unat bs)) vdev"
      using put_bytes_append[of ?off "mem_load d ?p ?n" "mem_load d (?p + of_nat ?n) ?rem" vdev] sp
      by (simp add: mem_load_append)
    have dev: "blocks_on_device (cfg, ?vdev, d) slba num_blocks"
      using 1(2) sp by (simp add: blocks_on_device_def)
    have le: "done + ?b \<le> num_blocks" using io_batch_bounds[OF True] by (simp add: word_le_nat_alt)
    show ?thesis
      using 1(1)[OF True dev 1(3) le] True st eff ph app
      by (subst io_plan.simps) simp
  qed
qed

text \<open>A queue pair with no outstanding command on a running simulator, and an environment that is
  the simulator's poller thread under a fair schedule.\<close>

definition drained :: "gpu_nvme_queue \<Rightarrow> nvme_sim \<Rightarrow> bool" where
  "drained q s \<longleftrightarrow> 2 \<le> unat (q_sq_size q) \<and> (\<exists>cmds. proto_inv cmds (length cmds) (length cmds) q s)"

definition sim_env :: "nat \<Rightarrow> gpu_nvme_queue \<Rightarrow> nvme_sim gpu_env \<Rightarrow> bool" where
  "sim_env fuel q E \<longleftrightarrow> (\<exists>sched B. runs_on E sim_poller_step sched
     \<and> fair_schedule E sched B (io_timeout q) \<and> B \<le> fuel)"

text \<open>The settings of a queue that its operations never change.\<close>

definition same_config :: "gpu_nvme_queue \<Rightarrow> gpu_nvme_queue \<Rightarrow> bool" where
  "same_config q' q \<longleftrightarrow> q_block_size q' = q_block_size q \<and> q_poll_timeout_cycles q' = q_poll_timeout_cycles q"

lemma same_config_env: "same_config q' q \<Longrightarrow> sim_env fuel q' E = sim_env fuel q E"
  by (simp add: same_config_def sim_env_def io_timeout_def)

lemma same_config_block_size: "same_config q' q \<Longrightarrow> io_block_size q' = io_block_size q"
  by (simp add: same_config_def io_block_size_def)

lemma drained_sizes: "drained q s \<Longrightarrow> 1 \<le> unat (q_cq_size q)"
  by (auto simp: drained_def proto_inv_def sim_wf_def unat_gt_0 Suc_le_eq)

lemma drained_on_device:
  "drained q s \<Longrightarrow> unat slba + unat n \<le> unat (cfg_num_blocks (s_cfg s)) \<Longrightarrow>
   blocks_on_device (sim_view s) slba n"
  by (auto simp: drained_def blocks_on_device_def sim_view_def proto_inv_def sim_wf_def)

lemma fst_run_commands [simp]:
  "fst (snd (run_commands view_status view_effect n es v)) = fst v"
  by (induction view_status view_effect n es v rule: run_commands.induct) auto

lemma sim_loop_refines:
  assumes dr: "drained q s" and env: "sim_env fuel q E" and sub: "submits submit opc"
    and plan: "plan = io_plan opc (q_nsid q) slba num_blocks data_phys bs (q_cid_counter q) 0"
    and nw: "list_all (\<lambda>(e, _). cmd_nowrap e) plan"
  shows "\<exists>r q' s' t'. io_blocks_loop submit fuel E slba num_blocks data_phys bs (io_timeout q) 0
        io_result_zero q s t = Some (r, q', s', t')
    \<and> (r, sim_view s') = run_commands view_status view_effect num_blocks plan (sim_view s)
    \<and> drained q' s' \<and> same_config q' q"
proof -
  let ?spec = "run_commands view_status view_effect num_blocks plan (sim_view s)"
  obtain cmds where inv: "proto_inv cmds (length cmds) (length cmds) q s"
    and sz: "2 \<le> unat (q_sq_size q)" using dr by (auto simp: drained_def)
  obtain sched B where "runs_on E sim_poller_step sched" "fair_schedule E sched B (io_timeout q)" "B \<le> fuel"
    using env by (auto simp: sim_env_def)
  from sim_ctl.io_blocks_loop_refines[OF this sub inv sz drained_sizes[OF dr] refl refl _ nw[unfolded plan], of t]
  obtain r q' s' t' where z: "io_blocks_loop submit fuel E slba num_blocks data_phys bs (io_timeout q) 0
      io_result_zero q s t = Some (r, q', s', t')"
    "sim_ctl.io_done q cmds (map fst plan) ?spec (r, q', s', t')"
    unfolding plan by auto
  then obtain n where v: "(r, sim_view s') = ?spec" and sc: "same_config q' q" and n: "n \<le> length plan"
    "proto_inv (cmds @ take n (map fst plan)) (length cmds + n) (length cmds + n) q' s'"
    by (auto simp: sim_ctl.io_done_def same_config_def)
  then have inv': "\<exists>cmds. proto_inv cmds (length cmds) (length cmds) q' s'"
    by (intro exI[of _ "cmds @ take n (map fst plan)"]) simp
  have "s_cfg s' = s_cfg s" using v fst_run_commands[of num_blocks plan "sim_view s"]
    by (metis fst_conv sim_view_def snd_conv)
  then have "q_sq_size q' = q_sq_size q" using inv inv' by (auto simp: proto_inv_def)
  then show ?thesis using z(1) v inv' sz sc unfolding drained_def by auto
qed

section \<open>Properties of the kernels\<close>

lemma result_reset: "r\<lparr>io_status := 0, io_blocks_done := 0, io_error_code := 0, io_cqe_status := 0\<rparr> = io_result_zero"
  by (cases r) (simp add: io_result_zero_def)

lemma kernels_refine:
  assumes "drained q s" and "sim_env fuel q E"
    and "list_all (\<lambda>(e, _). cmd_nowrap e)
      (io_plan opc (q_nsid q) slba num_blocks data_phys (io_block_size q) (q_cid_counter q) 0)"
    and "(krn, opc) = (gpunvme_read_blocks_kernel, NVME_IO_OPC_READ)
      \<or> (krn, opc) = (gpunvme_write_blocks_kernel, NVME_IO_OPC_WRITE)"
  shows "\<exists>r q' s' t'. krn fuel E 0 0 q slba num_blocks data_phys r0 s t = Some (r, q', s', t')
    \<and> (r, sim_view s') = run_commands view_status view_effect num_blocks
        (io_plan opc (q_nsid q) slba num_blocks data_phys (io_block_size q) (q_cid_counter q) 0) (sim_view s)
    \<and> drained q' s' \<and> same_config q' q"
  using assms(4)
proof
  assume k: "(krn, opc) = (gpunvme_read_blocks_kernel, NVME_IO_OPC_READ)"
  then show ?thesis
    using sim_loop_refines[OF assms(1,2) submits_kernels(1) refl, of slba num_blocks data_phys "io_block_size q" t]
      assms(3) by (simp add: gpunvme_read_blocks_kernel_def result_reset)
next
  assume k: "(krn, opc) = (gpunvme_write_blocks_kernel, NVME_IO_OPC_WRITE)"
  then show ?thesis
    using sim_loop_refines[OF assms(1,2) submits_kernels(2) refl, of slba num_blocks data_phys "io_block_size q" t]
      assms(3) by (simp add: gpunvme_write_blocks_kernel_def result_reset)
qed

lemma plan_nowrap:
  "unat slba + unat num_blocks < 2 ^ 64 \<Longrightarrow>
   list_all (\<lambda>(e, _). cmd_nowrap e) (io_plan opc nsid slba num_blocks data_phys bs cid done)"
proof (induction opc nsid slba num_blocks data_phys bs cid "done" rule: io_plan.induct)
  case (1 opc nsid slba num_blocks data_phys bs cid "done")
  show ?case
  proof (cases "done < num_blocks")
    case True
    note b = io_batch_bounds[OF True, of bs]
    have "unat (slba + ucast done) = unat slba + unat done"
      using b 1(2) by (simp add: unat_word_ariths)
    then show ?thesis
      using 1(1)[OF True 1(2)] True b 1(2) io_plan_nlb[OF b(1,2)]
      by (subst io_plan.simps) (simp add: cmd_nowrap_def del: unat_nlb_succ)
  qed (subst io_plan.simps, simp)
qed

lemma kernels_on_device:
  assumes "drained q s" and "sim_env fuel q E" and "io_block_size q = cfg_block_size (s_cfg s)"
    and "unat slba + unat num_blocks \<le> unat (cfg_num_blocks (s_cfg s))"
  shows "list_all (\<lambda>(e, _). cmd_nowrap e)
      (io_plan opc (q_nsid q) slba num_blocks data_phys (io_block_size q) (q_cid_counter q) 0)"
  using plan_ok[OF drained_on_device[OF assms(1,4)]] assms(3) by (simp add: sim_view_def)

lemma sim_view_eq_iff:
  "sim_view s' = (cfg, vdev, d) \<longleftrightarrow> s_cfg s' = cfg \<and> s_vdev s' = vdev \<and> m_data s' = d"
  by (auto simp: sim_view_def)

lemma read_kernel_facts:
  assumes "drained q s" and "sim_env fuel q E" and "io_block_size q = cfg_block_size (s_cfg s)"
    and "unat slba + unat num_blocks \<le> unat (cfg_num_blocks (s_cfg s))"
  shows "\<exists>q' s' t'. gpunvme_read_blocks_kernel fuel E 0 0 q slba num_blocks data_phys r0 s t =
      Some (\<lparr>io_status = 0, io_blocks_done = num_blocks, io_error_code = 0, io_cqe_status = 0\<rparr>, q', s', t')
    \<and> m_data s' = mem_store (m_data s) data_phys (block_bytes s (unat slba) (unat num_blocks))
    \<and> s_vdev s' = s_vdev s \<and> drained q' s' \<and> same_config q' q"
proof -
  have dev: "blocks_on_device (s_cfg s, s_vdev s, m_data s) slba num_blocks"
    using drained_on_device[OF assms(1,4)] by (simp add: sim_view_def)
  from kernels_refine[OF assms(1,2) kernels_on_device[OF assms] disjI1[OF refl], of data_phys r0 t]
    run_read_plan[OF dev assms(3), of 0]
  show ?thesis
    by (auto simp: sim_view_def io_result_zero_def block_bytes_def assms(3))
qed

lemma write_kernel_facts:
  assumes "drained q s" and "sim_env fuel q E" and "io_block_size q = cfg_block_size (s_cfg s)"
    and "unat slba + unat num_blocks \<le> unat (cfg_num_blocks (s_cfg s))"
  shows "\<exists>q' s' t'. gpunvme_write_blocks_kernel fuel E 0 0 q slba num_blocks data_phys r0 s t =
      Some (\<lparr>io_status = 0, io_blocks_done = num_blocks, io_error_code = 0, io_cqe_status = 0\<rparr>, q', s', t')
    \<and> sim_view s' = (s_cfg s, put_bytes (unat slba * unat (cfg_block_size (s_cfg s)))
        (mem_load (m_data s) data_phys (unat num_blocks * unat (cfg_block_size (s_cfg s)))) (s_vdev s), m_data s)
    \<and> drained q' s' \<and> same_config q' q"
proof -
  have dev: "blocks_on_device (s_cfg s, s_vdev s, m_data s) slba num_blocks"
    using drained_on_device[OF assms(1,4)] by (simp add: sim_view_def)
  from kernels_refine[OF assms(1,2) kernels_on_device[OF assms] disjI2[OF refl], of data_phys r0 t]
    run_write_plan[OF dev assms(3), of 0]
  show ?thesis
    by (auto simp: sim_view_def io_result_zero_def assms(3))
qed

text \<open>C4. The read kernel, started on a drained queue pair of the running simulator with a range of
  blocks on the device, returns within the fuel of the fairness bound, reports success and the
  number of blocks, and leaves in the data buffer exactly the blocks of the device. Nothing else in
  the data memory or on the device changes, and the queue pair is drained again.\<close>

theorem read_blocks_kernel_correct:
  assumes "drained q s" and "sim_env fuel q E" and "io_block_size q = cfg_block_size (s_cfg s)"
    and "unat slba + unat num_blocks \<le> unat (cfg_num_blocks (s_cfg s))"
  shows "\<exists>q' s' t'. gpunvme_read_blocks_kernel fuel E 0 0 q slba num_blocks data_phys r0 s t =
      Some (\<lparr>io_status = 0, io_blocks_done = num_blocks, io_error_code = 0, io_cqe_status = 0\<rparr>, q', s', t')
    \<and> m_data s' = mem_store (m_data s) data_phys (block_bytes s (unat slba) (unat num_blocks))
    \<and> s_vdev s' = s_vdev s \<and> drained q' s' \<and> same_config q' q"
  using read_kernel_facts[OF assms] .

text \<open>An environment for the examples: the poller thread makes one pass between any two accesses of
  the kernel, and the clock ticks.\<close>

definition example_env :: "nvme_sim gpu_env" where
  "example_env = \<lparr>ge_step = (\<lambda>t. sim_poller_step), ge_clock = of_nat, ge_uninit = cq_poll_result_init\<rparr>"

lemma example_env_fair: "sim_env 1 example_queue example_env"
  unfolding sim_env_def
proof (intro exI conjI)
  show "runs_on example_env sim_poller_step (\<lambda>_. 1)"
    by (simp add: runs_on_def example_env_def)
  have "2 * unat (of_nat (t + k) - of_nat t :: u64) < 170000000" if "k \<le> 4" for t k :: nat
    using that by (simp add: unat_of_nat)
  then show "fair_schedule example_env (\<lambda>_. 1) 1 (io_timeout example_queue)"
    by (simp add: fair_schedule_def example_env_def io_timeout_def example_queue_def
        DEFAULT_TIMEOUT_CYCLES_def)
qed simp

lemma example_drained: "drained example_queue example_sim"
proof -
  have "sys_inv (sim_view example_sim) 0 example_start"
    using sys_init_inv(1)[OF example_init] by (simp add: example_start_def)
  then have "proto_inv [] 0 0 example_queue example_sim" by (simp add: sys_inv_def example_start_def)
  then show ?thesis by (auto simp: drained_def example_queue_def intro!: exI[of _ "[]"])
qed

lemma example_sim_cfg: "s_cfg example_sim = example_cfg"
  using example_create nvme_sim_create_state(1) by blast

lemma example_block_size: "io_block_size example_queue = cfg_block_size (s_cfg example_sim)"
  by (simp add: example_sim_cfg example_cfg_def io_block_size_def example_queue_def)

theorem read_blocks_kernel_correct_witness:
  "\<exists>q' s' t'. gpunvme_read_blocks_kernel 1 example_env 0 0 example_queue 1 2 0x10000 io_result_zero
      example_sim 0 =
      Some (\<lparr>io_status = 0, io_blocks_done = 2, io_error_code = 0, io_cqe_status = 0\<rparr>, q', s', t')
    \<and> drained q' s'"
  using read_blocks_kernel_correct[OF example_drained example_env_fair example_block_size,
      of 1 2 "0x10000" io_result_zero 0]
  by (auto simp: example_sim_cfg example_cfg_def)

text \<open>C5. The write kernel, under the same conditions, stores the bytes of the data buffer to the
  blocks of the device and changes nothing else there or in the data memory.\<close>

theorem write_blocks_kernel_correct:
  assumes "drained q s" and "sim_env fuel q E" and "io_block_size q = cfg_block_size (s_cfg s)"
    and "unat slba + unat num_blocks \<le> unat (cfg_num_blocks (s_cfg s))"
  shows "\<exists>q' s' t'. gpunvme_write_blocks_kernel fuel E 0 0 q slba num_blocks data_phys r0 s t =
      Some (\<lparr>io_status = 0, io_blocks_done = num_blocks, io_error_code = 0, io_cqe_status = 0\<rparr>, q', s', t')
    \<and> s_vdev s' = put_bytes (unat slba * unat (cfg_block_size (s_cfg s)))
        (mem_load (m_data s) data_phys (unat num_blocks * unat (cfg_block_size (s_cfg s)))) (s_vdev s)
    \<and> m_data s' = m_data s \<and> drained q' s' \<and> same_config q' q"
  using write_kernel_facts[OF assms, of data_phys r0 t] by (auto simp: sim_view_eq_iff)

theorem write_blocks_kernel_correct_witness:
  "\<exists>q' s' t'. gpunvme_write_blocks_kernel 1 example_env 0 0 example_queue 0 4 0x10000 io_result_zero
      example_sim 0 =
      Some (\<lparr>io_status = 0, io_blocks_done = 4, io_error_code = 0, io_cqe_status = 0\<rparr>, q', s', t')
    \<and> m_data s' = m_data example_sim"
  using write_blocks_kernel_correct[OF example_drained example_env_fair example_block_size,
      of 0 4 "0x10000" io_result_zero 0]
  by (auto simp: example_sim_cfg example_cfg_def)

text \<open>C8. Both kernels refine the sequential execution of their command plan, errors included: they
  always return, the result and the data are those of executing the planned commands one after the
  other until the first one with an error status, whose status and block count the result reports.\<close>

theorem block_kernels_refine:
  assumes "drained q s" and "sim_env fuel q E"
    and "unat slba + unat num_blocks < 2 ^ 64"
  shows "(\<exists>r q' s' t'. gpunvme_read_blocks_kernel fuel E 0 0 q slba num_blocks data_phys r0 s t =
        Some (r, q', s', t')
      \<and> (r, sim_view s') = run_commands view_status view_effect num_blocks
        (io_plan NVME_IO_OPC_READ (q_nsid q) slba num_blocks data_phys (io_block_size q) (q_cid_counter q) 0)
        (sim_view s)
      \<and> drained q' s' \<and> same_config q' q)
    \<and> (\<exists>r q' s' t'. gpunvme_write_blocks_kernel fuel E 0 0 q slba num_blocks data_phys r0 s t =
        Some (r, q', s', t')
      \<and> (r, sim_view s') = run_commands view_status view_effect num_blocks
        (io_plan NVME_IO_OPC_WRITE (q_nsid q) slba num_blocks data_phys (io_block_size q) (q_cid_counter q) 0)
        (sim_view s)
      \<and> drained q' s' \<and> same_config q' q)"
  using kernels_refine[OF assms(1,2) plan_nowrap[OF assms(3)]] by blast

text \<open>The error path of the specification: a plan that starts off the device.\<close>

lemma run_plan_off_device:
  assumes opc: "opc = NVME_IO_OPC_READ \<or> opc = NVME_IO_OPC_WRITE"
    and off: "unat (cfg_num_blocks (fst v)) \<le> unat slba" and n: "0 < num_blocks"
  shows "run_commands view_status view_effect num_blocks (io_plan opc nsid slba num_blocks p bs cid 0) v =
    (\<lparr>io_status = 1, io_blocks_done = 0, io_error_code = 3, io_cqe_status = 2\<rparr>, v)"
proof -
  let ?e = "io_command opc cid nsid p 0 slba (ucast (io_batch bs num_blocks 0 - 1))"
  have "\<not> cmd_in_range (fst v) ?e" using off by (simp add: cmd_in_range_def)
  moreover have "is_data_cmd ?e" using opc by (simp add: is_data_cmd_def)
  moreover obtain cfg vdev d where "v = (cfg, vdev, d)" by (cases v) auto
  ultimately show ?thesis
    using n by (subst io_plan.simps)
      (simp add: view_status_def sim_status_def NVME_SC_INVALID_FIELD_def view_effect_def)
qed

theorem block_kernels_refine_witness:
  "\<exists>q' s' t'. gpunvme_read_blocks_kernel 1 example_env 0 0 example_queue 4 1 0x10000 io_result_zero
      example_sim 0 =
      Some (\<lparr>io_status = 1, io_blocks_done = 0, io_error_code = 3, io_cqe_status = 2\<rparr>, q', s', t')
    \<and> sim_view s' = sim_view example_sim"
proof -
  have "unat (4 :: u64) + unat (1 :: u32) < 2 ^ 64" by simp
  from block_kernels_refine[OF example_drained example_env_fair this, of "0x10000" io_result_zero 0]
  obtain r q' s' t' where k: "gpunvme_read_blocks_kernel 1 example_env 0 0 example_queue 4 1 0x10000
      io_result_zero example_sim 0 = Some (r, q', s', t')"
    and r: "(r, sim_view s') = run_commands view_status view_effect 1 (io_plan NVME_IO_OPC_READ 1 4 1 0x10000 512 0 0)
      (sim_view example_sim)"
    by (auto simp: example_queue_def io_block_size_def)
  have "(r, sim_view s') = (\<lparr>io_status = 1, io_blocks_done = 0, io_error_code = 3, io_cqe_status = 2\<rparr>,
      sim_view example_sim)"
    unfolding r by (rule run_plan_off_device)
      (simp_all add: sim_view_def example_sim_cfg example_cfg_def)
  then show ?thesis using k by auto
qed

text \<open>C6. Blocks written from one buffer and read back into another by the kernels, one launch
  after the other, arrive unchanged.\<close>

theorem write_read_roundtrip:
  assumes "drained q s" and "sim_env fuel q E" and "io_block_size q = cfg_block_size (s_cfg s)"
    and "unat slba + unat num_blocks \<le> unat (cfg_num_blocks (s_cfg s))"
    and "n = unat num_blocks * unat (cfg_block_size (s_cfg s))"
  shows "\<exists>r q1 s1 t1 r' q2 s2 t2.
      gpunvme_write_blocks_kernel fuel E 0 0 q slba num_blocks src r0 s t = Some (r, q1, s1, t1)
    \<and> gpunvme_read_blocks_kernel fuel E 0 0 q1 slba num_blocks dst r s1 t1 = Some (r', q2, s2, t2)
    \<and> io_status r = 0 \<and> io_status r' = 0 \<and> mem_load (m_data s2) dst n = mem_load (m_data s) src n"
proof -
  let ?bs = "unat (cfg_block_size (s_cfg s))"
  from write_kernel_facts[OF assms(1-4), of src r0 t] obtain r q1 s1 t1 where
    w: "gpunvme_write_blocks_kernel fuel E 0 0 q slba num_blocks src r0 s t = Some (r, q1, s1, t1)"
      "io_status r = 0" "drained q1 s1" "same_config q1 q"
      "sim_view s1 = (s_cfg s, put_bytes (unat slba * ?bs) (mem_load (m_data s) src n) (s_vdev s), m_data s)"
    unfolding assms(5) by auto
  have cfg1: "s_cfg s1 = s_cfg s" and vdev1: "s_vdev s1 = put_bytes (unat slba * ?bs) (mem_load (m_data s) src n) (s_vdev s)"
    using w(5) by (auto simp: sim_view_eq_iff)
  from read_kernel_facts[OF w(3), of fuel E slba num_blocks dst r t1] obtain r' q2 s2 t2 where
    rd: "gpunvme_read_blocks_kernel fuel E 0 0 q1 slba num_blocks dst r s1 t1 = Some (r', q2, s2, t2)"
      "io_status r' = 0" "m_data s2 = mem_store (m_data s1) dst (block_bytes s1 (unat slba) (unat num_blocks))"
    using assms(2-4) w(4) cfg1 by (auto simp: same_config_env same_config_block_size)
  have fits: "unat slba * ?bs + n \<le> length (s_vdev s)" and lt: "n < 2 ^ 64"
    using drained_on_device[OF assms(1,4)] u32_mult_lt_u64 mult_le_mono1[OF assms(4), of ?bs] assms(5)
    by (auto simp: blocks_on_device_def sim_view_def add_mult_distrib)
  have "block_bytes s1 (unat slba) (unat num_blocks) = mem_load (m_data s) src n"
    using fits by (simp add: block_bytes_def cfg1 vdev1 assms(5) put_bytes_def)
  then have "mem_load (m_data s2) dst n = mem_load (m_data s) src n"
    using mem_load_store_same[of "mem_load (m_data s) src n" "m_data s1" dst] lt rd(3) by simp
  then show ?thesis using w(1,2) rd(1,2) by blast
qed

theorem write_read_roundtrip_witness:
  "\<exists>r q1 s1 t1 r' q2 s2 t2.
      gpunvme_write_blocks_kernel 1 example_env 0 0 example_queue 1 2 0x10000 io_result_zero example_sim 0
        = Some (r, q1, s1, t1)
    \<and> gpunvme_read_blocks_kernel 1 example_env 0 0 q1 1 2 0x20000 r s1 t1 = Some (r', q2, s2, t2)
    \<and> mem_load (m_data s2) 0x20000 1024 = mem_load (m_data example_sim) 0x10000 1024"
  using write_read_roundtrip[OF example_drained example_env_fair example_block_size,
      of 1 2 1024 "0x10000" io_result_zero 0 "0x20000"]
  by (auto simp: example_sim_cfg example_cfg_def)

end
