(* ===== verification/Pipeline.thy ===== *)
theory Pipeline
  imports Block_Io
begin

text \<open>
  What the pipelined kernels have in common (\<^verbatim>\<open>gpu_layer_read\<close> in \<^verbatim>\<open>src/host/layer_loader.cu\<close>,
  \<^verbatim>\<open>bench_read_pipelined\<close> in \<^verbatim>\<open>bench/bench_gpu_direct.cu\<close>): a loop that keeps up to a pipeline's depth of read
  commands in flight and takes completions one by one. The kernels differ in how they compute the arguments of the
  \<open>i\<close>-th command, in whether they read the clock around each poll, and in what they report; they are shown to be instances.
  Within the controller contract the loop refines the sequential execution of the commands.
\<close>

section \<open>The loop\<close>

text \<open>The arguments of a read command: first block, block count minus one, both PRPs.\<close>

type_synonym read_args = "u64 \<times> u16 \<times> u64 \<times> u64"

datatype pipe_end = PipeDone | PipeTimeout | PipeFailed u16

function pipe_submit_loop ::
    "(u32 \<Rightarrow> read_args) \<Rightarrow> u32 \<Rightarrow> u32 \<Rightarrow> u32 \<Rightarrow> u32 \<Rightarrow> gpu_nvme_queue \<Rightarrow> 'x qmem_scheme \<Rightarrow> u32 \<times> gpu_nvme_queue \<times> 'x qmem_scheme" where
  "pipe_submit_loop args n depth completed submitted q m =
    (if submitted < n \<and> submitted - completed < depth
     then let (slba, nlb, prp1, prp2) = args submitted;
              (cid, q, m) = sq_submit_read q slba nlb prp1 prp2 m
          in pipe_submit_loop args n depth completed (submitted + 1) q m
     else (submitted, q, m))"
  by pat_completeness auto
termination
proof (relation "measure (\<lambda>(args, n, depth, completed, submitted, _). unat n - unat submitted)", goal_cases)
  case (2 args n depth completed submitted q m)
  then have "unat (submitted + 1) = Suc (unat submitted)" "unat submitted < unat n"
    using unat_succ_lt[of submitted "unat n"] unat_bound[of n] by (auto simp: word_less_nat_alt)
  then show ?case by simp
qed simp

declare pipe_submit_loop.simps [simp del]

text \<open>The timeout that both kernels pass to every poll.\<close>

definition PIPE_POLL_TIMEOUT :: u64 where
  "PIPE_POLL_TIMEOUT = 3400000000"

function pipe_loop ::
    "bool \<Rightarrow> nat \<Rightarrow> ('x qmem_scheme) gpu_env \<Rightarrow> (u32 \<Rightarrow> read_args) \<Rightarrow> u32 \<Rightarrow> u32 \<Rightarrow> u32 \<Rightarrow> u32 \<Rightarrow> u64 list \<Rightarrow> gpu_nvme_queue \<Rightarrow>
     'x qmem_scheme \<Rightarrow> nat \<Rightarrow> (pipe_end \<times> u32 \<times> u64 list \<times> gpu_nvme_queue \<times> 'x qmem_scheme \<times> nat) option" where
  "pipe_loop timed fuel E args n depth submitted completed lat q m t =
    (if completed < n
     then let (submitted, q, m) = pipe_submit_loop args n depth completed submitted q m
          in case cq_poll_completion fuel E q PIPE_POLL_TIMEOUT m (if timed then Suc t else t) of
               None \<Rightarrow> None
             | Some (cqr, q, m, t') \<Rightarrow>
                 let t'' = (if timed then Suc t' else t');
                     lat' = (if timed then lat[unat completed := ge_clock E t' - ge_clock E t] else lat)
                 in if r_timed_out cqr then Some (PipeTimeout, completed, lat, q, m, t'')
                    else if \<not> r_success cqr then Some (PipeFailed (r_status cqr), completed, lat, q, m, t'')
                    else pipe_loop timed fuel E args n depth submitted (completed + 1) lat' q m t''
     else Some (PipeDone, completed, lat, q, m, t))"
  by pat_completeness auto
termination
proof (relation "measure (\<lambda>(timed, fuel, E, args, n, depth, submitted, completed, _). unat n - unat completed)", goal_cases)
  case (2 timed fuel E args n depth submitted completed)
  then have "unat (completed + 1) = Suc (unat completed)" "unat completed < unat n"
    using unat_succ_lt[of completed "unat n"] unat_bound[of n] by (auto simp: word_less_nat_alt)
  then show ?case by simp
qed simp

declare pipe_loop.simps [simp del]

section \<open>The command plan\<close>

definition pipe_command :: "(u32 \<Rightarrow> read_args) \<Rightarrow> u16 \<Rightarrow> u32 \<Rightarrow> nat \<Rightarrow> nvme_sq_entry" where
  "pipe_command args cid nsid i = (case args (of_nat i) of (slba, nlb, prp1, prp2) \<Rightarrow>
     io_command NVME_IO_OPC_READ (cid + of_nat i) nsid prp1 prp2 slba nlb)"

definition pipe_plan :: "(u32 \<Rightarrow> read_args) \<Rightarrow> u32 \<Rightarrow> u16 \<Rightarrow> u32 \<Rightarrow> nvme_sq_entry list" where
  "pipe_plan args n cid nsid = map (pipe_command args cid nsid) [0..<unat n]"

lemma pipe_plan_simps [simp]:
  "length (pipe_plan args n cid nsid) = unat n"
  "i < unat n \<Longrightarrow> pipe_plan args n cid nsid ! i = pipe_command args cid nsid i"
  by (simp_all add: pipe_plan_def)

text \<open>How a run over a plan may end: with all commands done, or at the first command that fails,
  with up to a pipeline of later commands carried out as well.\<close>

definition pipe_outcome ::
    "('v \<Rightarrow> nvme_sq_entry \<Rightarrow> u16) \<Rightarrow> (nvme_sq_entry \<Rightarrow> 'v \<Rightarrow> 'v) \<Rightarrow> nat \<Rightarrow> nvme_sq_entry list \<Rightarrow> 'v \<Rightarrow>
     pipe_end \<Rightarrow> nat \<Rightarrow> 'v \<Rightarrow> bool" where
  "pipe_outcome stat eff depth plan v e n v' \<longleftrightarrow>
     ((\<forall>i < length plan. stat v (plan ! i) = 0) \<and> e = PipeDone \<and> n = length plan \<and> v' = fold eff plan v)
   \<or> (n < length plan \<and> (\<forall>k < n. stat v (plan ! k) = 0) \<and> stat v (plan ! n) \<noteq> 0 \<and> e = PipeFailed (stat v (plan ! n))
        \<and> (\<exists>j. n < j \<and> j \<le> length plan \<and> j \<le> n + depth \<and> v' = fold eff (take j plan) v))"

text \<open>The configuration of a queue that its operations keep, with the flow control that the pipeline
  depth gives.\<close>

definition queue_fits :: "u32 \<Rightarrow> u32 \<Rightarrow> gpu_nvme_queue \<Rightarrow> bool" where
  "queue_fits depth nsid q \<longleftrightarrow> q_nsid q = nsid \<and> 0 < unat depth
     \<and> unat depth < unat (q_sq_size q) \<and> unat depth \<le> unat (q_cq_size q)"

lemma queue_fits_ops [simp]:
  "queue_fits depth nsid (queue_submitted q) = queue_fits depth nsid q"
  "queue_fits depth nsid (gpu_nvme_advance_cq_head q) = queue_fits depth nsid q"
  by (simp_all add: queue_fits_def)

section \<open>Several outstanding commands\<close>

context nvme_controller
begin

text \<open>A plan of commands under way on a queue pair that held \<open>cmds\<close>: \<open>s\<close> of them are submitted, \<open>j\<close>
  processed and \<open>c\<close> completed.\<close>

definition piping ::
    "'v \<Rightarrow> nvme_sq_entry list \<Rightarrow> nvme_sq_entry list \<Rightarrow> nat \<Rightarrow> nat \<Rightarrow> nat \<Rightarrow> gpu_nvme_queue \<Rightarrow> 'x qmem_scheme \<Rightarrow> bool" where
  "piping v0 cmds plan s c j q m \<longleftrightarrow>
     inv (cmds @ take s plan) (length cmds + j) (length cmds + c) q m
   \<and> view m = fold eff (take j plan) v0 \<and> s \<le> length plan \<and> c \<le> j \<and> j \<le> s"

lemma stat_fold: "stat (fold eff es v) = stat v"
  by (induction es arbitrary: v) (simp_all add: stat_eff)

lemma piping_nth:
  assumes "piping v0 cmds plan s c j q m" and "i < s"
  shows "(cmds @ take s plan) ! (length cmds + i) = plan ! i"
  using assms by (simp add: piping_def nth_append)

lemma piping_submit:
  assumes p: "piping v0 cmds plan s c j q m" and s: "s < length plan"
    and e: "plan ! s = io_command opc (q_cid_counter q) (q_nsid q) prp1 prp2 slba nlb" and ok: "ok (plan ! s)"
    and room: "Suc (s - c) < unat (q_sq_size q)" "s - c < unat (q_cq_size q)"
  shows "piping v0 cmds plan (Suc s) c j (queue_submitted q) (mem_submitted opc k q slba nlb prp1 prp2 m)"
proof -
  have cs: "c \<le> s" "length (take s plan) = s" using p s by (auto simp: piping_def)
  have "inv ((cmds @ take s plan) @ [plan ! s]) (length cmds + j) (length cmds + c)
      (queue_submitted q) (mem_submitted opc k q slba nlb prp1 prp2 m)"
    unfolding e using p room ok cs e by (intro submit) (auto simp: piping_def)
  then show ?thesis
    using p s by (simp add: piping_def take_Suc_conv_app_nth submit_view)
qed

lemma piping_steps:
  assumes "piping v0 cmds plan s c j q m"
  shows "\<exists>j'. piping v0 cmds plan s c j' q ((step ^^ k) m) \<and> j \<le> j' \<and> (0 < k \<and> c < s \<longrightarrow> c < j')"
proof (induction k)
  case 0
  then show ?case using assms by auto
next
  case (Suc k)
  then obtain j' where j': "piping v0 cmds plan s c j' q ((step ^^ k) m)" "j \<le> j'" by blast
  let ?cs = "cmds @ take s plan"
  have inv: "inv ?cs (length cmds + j') (length cmds + c) q ((step ^^ k) m)" and len: "length ?cs = length cmds + s"
    using j'(1) by (auto simp: piping_def)
  show ?case
  proof (cases "j' < s")
    case True
    have "inv ?cs (length cmds + Suc j') (length cmds + c) q ((step ^^ Suc k) m)"
        "view ((step ^^ Suc k) m) = eff (plan ! j') (view ((step ^^ k) m))"
      using step_work[OF inv] True len piping_nth[OF j'(1) True] by simp_all
    then show ?thesis
      using j' True by (intro exI[of _ "Suc j'"]) (auto simp: piping_def take_Suc_conv_app_nth)
  next
    case False
    then have "j' = s" using j'(1) by (simp add: piping_def)
    then have "step ((step ^^ k) m) = (step ^^ k) m"
      using step_idle[of ?cs "length cmds + c" q] inv len by simp
    then show ?thesis using j' \<open>j' = s\<close> by auto
  qed
qed

lemma piping_frame:
  "piping v0 cmds plan s c j q (m\<lparr>m_events := ev\<rparr>) = piping v0 cmds plan s c j q m"
  "piping v0 cmds plan s c j q (m\<lparr>m_cq_db := v\<rparr>) = piping v0 cmds plan s c j q m"
  using frame[where m = m and v = v and ev = "m_events m"] view_frame[where m = m and v = v and ev = "m_events m"]
  by (simp_all add: piping_def frame_events view_events)

text \<open>A poll with outstanding commands delivers the completion of the oldest.\<close>

lemma piping_hit:
  assumes p: "piping v0 cmds plan s c j q m" and lt: "c < j"
  shows "\<exists>r m'. cq_poll_try q m = (Some r, gpu_nvme_advance_cq_head q, m') \<and> \<not> r_timed_out r
    \<and> r_status r = stat v0 (plan ! c) \<and> r_success r = (stat v0 (plan ! c) = 0)
    \<and> piping v0 cmds plan s (Suc c) j (gpu_nvme_advance_cq_head q) m'"
proof -
  have inv: "inv (cmds @ take s plan) (length cmds + j) (length cmds + c) q m" using p by (simp add: piping_def)
  have c: "c < s" using p lt by (simp add: piping_def)
  note ps = poll_some[OF inv _ refl]
  show ?thesis
  proof (cases rule: cq_poll_try_cases[of m q])
    case (hit ev)
    have "piping v0 cmds plan s (Suc c) j (gpu_nvme_advance_cq_head q) m"
      using ps p lt by (simp add: piping_def)
    moreover have "NVME_CQE_STATUS (cqe_status_phase (m_cq m ! unat (q_cq_head q))) = stat v0 (plan ! c)"
      using ps p lt piping_nth[OF p c] by (simp add: piping_def stat_fold)
    ultimately show ?thesis
      using hit by (auto simp: piping_frame poll_result_of_def)
  next
    case (miss ev)
    then show ?thesis using ps lt by simp
  qed
qed

lemma piping_poll:
  assumes run: "runs_on E step sched" and tmo: "0 < timeout" and cs: "c < s"
  shows "\<lbrakk>piping v0 cmds plan s c j q m; i < fuel; 0 < sched (t + 2 * i);
      \<forall>k < i. ge_clock E (t + 2 * k + 1) - start \<le> timeout\<rbrakk> \<Longrightarrow>
    \<exists>r m' t' j'. cq_poll_loop fuel E timeout start q m t = Some (r, gpu_nvme_advance_cq_head q, m', t')
      \<and> \<not> r_timed_out r \<and> r_status r = stat v0 (plan ! c) \<and> r_success r = (stat v0 (plan ! c) = 0)
      \<and> piping v0 cmds plan s (Suc c) j' (gpu_nvme_advance_cq_head q) m'"
proof (induction fuel arbitrary: j m t i)
  case 0
  then show ?case by simp
next
  case (Suc fuel)
  obtain j' where j': "piping v0 cmds plan s c j' q (ge_step E t m)" "0 < sched t \<longrightarrow> c < j'"
    using piping_steps[OF Suc.prems(1), of "sched t"] run cs by (auto simp: runs_on_def)
  show ?case
  proof (cases "c < j'")
    case True
    then show ?thesis using piping_hit[OF j'(1) True] by auto
  next
    case False
    then have none: "j' = c" "sched t = 0" using j' by (auto simp: piping_def)
    then obtain i' where i': "i = Suc i'" using Suc.prems(3) by (cases i) auto
    have inv: "inv (cmds @ take s plan) (length cmds + c) (length cmds + c) q (ge_step E t m)"
      using j'(1) none by (simp add: piping_def)
    obtain ev where miss: "cq_poll_try q (ge_step E t m) = (None, q, (ge_step E t m)\<lparr>m_events := ev\<rparr>)"
      using poll_none[OF inv] by (cases rule: cq_poll_try_cases[of "ge_step E t m" q]) auto
    have "\<not> timeout < ge_clock E (Suc t) - start" using Suc.prems(4) i' by (force simp: not_less)
    then have "cq_poll_loop (Suc fuel) E timeout start q m t =
        cq_poll_loop fuel E timeout start q ((ge_step E t m)\<lparr>m_events := ev\<rparr>) (Suc (Suc t))"
      using miss tmo by (simp add: Let_def)
    moreover have "\<forall>k < i'. ge_clock E (Suc (Suc t) + 2 * k + 1) - start \<le> timeout"
      using Suc.prems(4) i' by (auto dest: spec[of _ "Suc _"])
    ultimately show ?thesis
      using Suc.IH[of j' "(ge_step E t m)\<lparr>m_events := ev\<rparr>" i' "Suc (Suc t)"] j'(1) Suc.prems(2,3) i'
      by (simp add: piping_frame del: cq_poll_loop.simps)
  qed
qed

lemma pipe_submit_loop_piping:
  "\<lbrakk>piping v0 cmds plan (unat submitted) (unat completed) j q m; queue_fits depth nsid q;
    plan = pipe_plan args n (of_nat (length cmds)) nsid; list_all ok plan; unat submitted \<le> unat completed + unat depth\<rbrakk> \<Longrightarrow>
   \<exists>s' q' m'. pipe_submit_loop args n depth completed submitted q m = (s', q', m')
     \<and> piping v0 cmds plan (unat s') (unat completed) j q' m' \<and> queue_fits depth nsid q'
     \<and> unat s' \<le> unat completed + unat depth \<and> (unat completed < length plan \<longrightarrow> unat completed < unat s')"
proof (induction args n depth completed submitted q m rule: pipe_submit_loop.induct)
  case (1 args n depth completed submitted q m)
  let ?s = "unat submitted" and ?c = "unat completed"
  have cs: "?c \<le> ?s" "?s \<le> unat n" using 1(2,4) by (auto simp: piping_def)
  have diff: "unat (submitted - completed) = ?s - ?c" using cs by (simp add: unat_sub word_le_nat_alt)
  show ?case
  proof (cases "submitted < n \<and> submitted - completed < depth")
    case False
    then have "pipe_submit_loop args n depth completed submitted q m = (submitted, q, m)"
      by (subst pipe_submit_loop.simps) auto
    moreover have "?c < length plan \<longrightarrow> ?c < ?s"
      using False cs diff 1(3,4) by (auto simp: word_less_nat_alt queue_fits_def)
    ultimately show ?thesis using 1 by blast
  next
    case True
    then have lt: "?s < unat n" "?s - ?c < unat depth" using diff by (auto simp: word_less_nat_alt)
    have suc: "unat (submitted + 1) = Suc ?s" using lt(1) unat_bound[of n] by (intro unat_succ_lt) auto
    have inv: "inv (cmds @ take ?s plan) (length cmds + j) (length cmds + ?c) q m" using 1(2) by (simp add: piping_def)
    have cid: "q_cid_counter q = of_nat (length cmds) + of_nat ?s" using inv_cid[OF inv] lt(1) 1(4) by simp
    obtain slba nlb prp1 prp2 where args: "args submitted = (slba, nlb, prp1, prp2)" by (cases "args submitted")
    let ?q = "queue_submitted q" and ?m = "mem_submitted NVME_IO_OPC_READ 18 q slba nlb prp1 prp2 m"
    have sub: "sq_submit_read q slba nlb prp1 prp2 m = (q_cid_counter q, ?q, ?m)"
      by (rule sq_submit_read_closed[OF inv_slot[OF inv]])
    have e: "plan ! ?s = io_command NVME_IO_OPC_READ (q_cid_counter q) (q_nsid q) prp1 prp2 slba nlb"
      using lt(1) cid 1(3,4) args by (simp add: pipe_command_def queue_fits_def)
    have "piping v0 cmds plan (Suc ?s) ?c j ?q ?m"
      using 1(2,3,4,5) lt e by (intro piping_submit) (auto simp: list_all_length queue_fits_def)
    then have "piping v0 cmds plan (unat (submitted + 1)) ?c j ?q ?m" "queue_fits depth nsid ?q"
        "unat (submitted + 1) \<le> ?c + unat depth"
      using suc 1(3) lt cs by auto
    from 1(1)[OF True args[symmetric] refl refl refl sub[symmetric] refl refl this(1,2) 1(4,5) this(3)] show ?thesis
      using True sub args by (subst pipe_submit_loop.simps) (simp add: Let_def)
  qed
qed

lemma pipe_poll:
  assumes run: "runs_on E step sched" and fair: "fair_schedule E sched B timeout" and fuel: "B \<le> fuel"
    and p: "piping v0 cmds plan s c j q m" and cs: "c < s"
  shows "\<exists>r m' t' j'. cq_poll_completion fuel E q timeout m t = Some (r, gpu_nvme_advance_cq_head q, m', t')
      \<and> \<not> r_timed_out r \<and> r_status r = stat v0 (plan ! c) \<and> r_success r = (stat v0 (plan ! c) = 0)
      \<and> piping v0 cmds plan s (Suc c) j' (gpu_nvme_advance_cq_head q) m'"
proof -
  have win: "2 * unat (ge_clock E (u + k) - ge_clock E u) < unat timeout" if "k \<le> 2 * B + 2" for u k
    using fair that by (simp add: fair_schedule_def)
  then have t0: "0 < timeout" using win[of 0 t] by (auto simp: word_gt_0)
  obtain i where i: "i < B" "0 < sched (Suc t + 2 * i)"
    using fair unfolding fair_schedule_def by blast
  have "ge_clock E (Suc t + 2 * k + 1) - ge_clock E t \<le> timeout" if "k < i" for k
    using win[of "2 * k + 2" t] that i(1) by (simp add: word_le_nat_alt)
  then show ?thesis
    using piping_poll[OF run t0 cs p, of i fuel "Suc t" "ge_clock E t"] i fuel
    by (simp add: cq_poll_completion_def)
qed

text \<open>The loop runs to one of the outcomes; after success nothing is outstanding. The latencies of commands that did
  not complete are left alone.\<close>

lemma pipe_loop_outcome:
  assumes run: "runs_on E step sched" and fair: "fair_schedule E sched B PIPE_POLL_TIMEOUT" and fuel: "B \<le> fuel"
  shows "\<lbrakk>piping v0 cmds plan (unat submitted) (unat completed) j q m; queue_fits depth nsid q;
    plan = pipe_plan args n (of_nat (length cmds)) nsid; list_all ok plan;
    unat submitted \<le> unat completed + unat depth; \<forall>k < unat completed. stat v0 (plan ! k) = 0\<rbrakk> \<Longrightarrow>
   \<exists>e d lat' q' m' t'. pipe_loop timed fuel E args n depth submitted completed lat q m t = Some (e, d, lat', q', m', t')
     \<and> pipe_outcome stat eff (unat depth) plan v0 e (unat d) (view m') \<and> queue_fits depth nsid q'
     \<and> length lat' = length lat \<and> (\<forall>i. unat d \<le> i \<longrightarrow> lat' ! i = lat ! i)
     \<and> (e = PipeDone \<longrightarrow> inv (cmds @ plan) (length (cmds @ plan)) (length (cmds @ plan)) q' m')"
proof (induction "unat n - unat completed" arbitrary: submitted completed j lat q m t rule: less_induct)
  case less
  let ?c = "unat completed" and ?d = "unat depth"
  have len: "length plan = unat n" using less.prems(3) by simp
  show ?case
  proof (cases "completed < n")
    case False
    then have c: "?c = length plan" "unat submitted = length plan" "j = length plan"
      using less.prems(1,3) len by (auto simp: piping_def word_less_nat_alt)
    have "pipe_loop timed fuel E args n depth submitted completed lat q m t = Some (PipeDone, completed, lat, q, m, t)"
      using False by (subst pipe_loop.simps) simp
    moreover have "pipe_outcome stat eff ?d plan v0 PipeDone ?c (view m)"
      using less.prems(1,6) c by (auto simp: pipe_outcome_def piping_def)
    ultimately show ?thesis using less.prems(1,2) c by (auto simp: piping_def)
  next
    case True
    then have c: "?c < length plan" using len by (simp add: word_less_nat_alt)
    obtain s1 q1 m1 where sub: "pipe_submit_loop args n depth completed submitted q m = (s1, q1, m1)"
        "piping v0 cmds plan (unat s1) ?c j q1 m1" "queue_fits depth nsid q1" "unat s1 \<le> ?c + ?d" "?c < unat s1"
      using pipe_submit_loop_piping[OF less.prems(1-5)] c by blast
    let ?q2 = "gpu_nvme_advance_cq_head q1" and ?t = "if timed then Suc t else t"
    obtain r m2 t2 j2 where poll: "cq_poll_completion fuel E q1 PIPE_POLL_TIMEOUT m1 ?t = Some (r, ?q2, m2, t2)"
        "\<not> r_timed_out r" "r_status r = stat v0 (plan ! ?c)" "r_success r = (stat v0 (plan ! ?c) = 0)"
        "piping v0 cmds plan (unat s1) (Suc ?c) j2 ?q2 m2"
      using pipe_poll[OF run fair fuel sub(2,5), of ?t] by blast
    let ?t2 = "if timed then Suc t2 else t2"
    show ?thesis
    proof (cases "stat v0 (plan ! ?c) = 0")
      case False
      have "pipe_loop timed fuel E args n depth submitted completed lat q m t =
          Some (PipeFailed (r_status r), completed, lat, ?q2, m2, ?t2)"
        using True sub(1) poll False by (subst pipe_loop.simps) (simp add: Let_def)
      moreover have "?c < j2" "j2 \<le> length plan" "j2 \<le> ?c + ?d" "view m2 = fold eff (take j2 plan) v0"
        using poll(5) sub(4) by (auto simp: piping_def)
      then have "pipe_outcome stat eff ?d plan v0 (PipeFailed (r_status r)) ?c (view m2)"
        unfolding pipe_outcome_def using c less.prems(6) False poll(3) by auto
      ultimately show ?thesis using sub(3) by auto
    next
      case ok: True
      let ?lat = "if timed then lat[?c := ge_clock E t2 - ge_clock E t] else lat"
      have suc: "unat (completed + 1) = Suc ?c" using c len unat_bound[of n] by (intro unat_succ_lt) auto
      have done0: "\<forall>k < unat (completed + 1). stat v0 (plan ! k) = 0"
        using less.prems(6) ok suc by (auto simp: less_Suc_eq)
      have eq: "pipe_loop timed fuel E args n depth submitted completed lat q m t
          = pipe_loop timed fuel E args n depth s1 (completed + 1) ?lat ?q2 m2 ?t2"
        using True sub(1) poll ok by (subst pipe_loop.simps) (simp add: Let_def)
      have dec: "unat n - unat (completed + 1) < unat n - ?c" using suc c len by simp
      have p: "piping v0 cmds plan (unat s1) (unat (completed + 1)) j2 ?q2 m2" using poll(5) suc by simp
      have fits: "queue_fits depth nsid ?q2" "unat s1 \<le> unat (completed + 1) + ?d" using sub(3,4) suc by simp_all
      obtain e d lat' q' m' t' where ih:
          "pipe_loop timed fuel E args n depth s1 (completed + 1) ?lat ?q2 m2 ?t2 = Some (e, d, lat', q', m', t')"
          "pipe_outcome stat eff ?d plan v0 e (unat d) (view m')" "queue_fits depth nsid q'"
          "length lat' = length ?lat" "\<forall>i. unat d \<le> i \<longrightarrow> lat' ! i = ?lat ! i"
          "e = PipeDone \<longrightarrow> inv (cmds @ plan) (length (cmds @ plan)) (length (cmds @ plan)) q' m'"
        using less.hyps[OF dec p fits(1) less.prems(3,4) fits(2) done0, of ?lat ?t2] by blast
      have "?c < unat d"
        using ih(2) c done0 suc by (cases "unat d \<le> ?c") (auto simp: pipe_outcome_def)
      then have "\<forall>i. unat d \<le> i \<longrightarrow> lat' ! i = lat ! i" using ih(5) by auto
      then show ?thesis unfolding eq using ih by auto
    qed
  qed
qed

end

section \<open>The loop on the simulator\<close>

text \<open>The simulator's poller thread runs on a fair schedule, and the fuel covers it.\<close>

definition pipe_env :: "nat \<Rightarrow> nvme_sim gpu_env \<Rightarrow> bool" where
  "pipe_env fuel E \<longleftrightarrow> (\<exists>sched B. runs_on E sim_poller_step sched
     \<and> fair_schedule E sched B PIPE_POLL_TIMEOUT \<and> B \<le> fuel)"

lemma sim_pipe_loop:
  assumes dr: "drained q s" and env: "pipe_env fuel E" and fits: "queue_fits depth (q_nsid q) q"
    and plan: "plan = pipe_plan args n (q_cid_counter q) (q_nsid q)" and nw: "list_all cmd_nowrap plan"
  shows "\<exists>e d lat' q' s' t'. pipe_loop timed fuel E args n depth 0 0 lat q s t = Some (e, d, lat', q', s', t')
    \<and> pipe_outcome view_status view_effect (unat depth) plan (sim_view s) e (unat d) (sim_view s')
    \<and> length lat' = length lat \<and> (\<forall>i. unat d \<le> i \<longrightarrow> lat' ! i = lat ! i)
    \<and> (e = PipeDone \<longrightarrow> drained q' s' \<and> q_nsid q' = q_nsid q \<and> q_sq_size q' = q_sq_size q \<and> q_cq_size q' = q_cq_size q
        \<and> q_cid_counter q' = q_cid_counter q + of_nat (unat n))"
proof -
  obtain cmds where inv: "proto_inv cmds (length cmds) (length cmds) q s" and sz: "2 \<le> unat (q_sq_size q)"
    using dr by (auto simp: drained_def)
  obtain sched B where env: "runs_on E sim_poller_step sched" "fair_schedule E sched B PIPE_POLL_TIMEOUT" "B \<le> fuel"
    using env by (auto simp: pipe_env_def)
  have plan: "plan = pipe_plan args n (of_nat (length cmds)) (q_nsid q)"
    using plan sim_ctl.inv_cid[OF inv] by simp
  have p: "sim_ctl.piping (sim_view s) cmds plan (unat (0 :: u32)) (unat (0 :: u32)) 0 q s"
    using inv by (simp add: sim_ctl.piping_def)
  obtain e d lat' q' s' t' where run: "pipe_loop timed fuel E args n depth 0 0 lat q s t = Some (e, d, lat', q', s', t')"
      "pipe_outcome view_status view_effect (unat depth) plan (sim_view s) e (unat d) (sim_view s')"
      "queue_fits depth (q_nsid q) q'" "length lat' = length lat" "\<forall>i. unat d \<le> i \<longrightarrow> lat' ! i = lat ! i"
      "e = PipeDone \<longrightarrow> proto_inv (cmds @ plan) (length (cmds @ plan)) (length (cmds @ plan)) q' s'"
    using sim_ctl.pipe_loop_outcome[OF env p fits plan nw, of timed lat t] by auto
  have "drained q' s' \<and> q_nsid q' = q_nsid q \<and> q_sq_size q' = q_sq_size q \<and> q_cq_size q' = q_cq_size q
        \<and> q_cid_counter q' = q_cid_counter q + of_nat (unat n)" if "e = PipeDone"
  proof -
    have pi: "proto_inv (cmds @ plan) (length (cmds @ plan)) (length (cmds @ plan)) q' s'" using run(6) that by blast
    have "drained q' s'" unfolding drained_def using run(3) by (intro conjI exI[of _ "cmds @ plan"] pi) (simp add: queue_fits_def)
    moreover have "s_cfg s' = s_cfg s"
      using run(2) that by (auto simp: pipe_outcome_def sim_view_def dest!: arg_cong[where f = fst])
    then have "q_sq_size q' = q_sq_size q \<and> q_cq_size q' = q_cq_size q" using pi inv by (simp add: proto_inv_def)
    moreover have "q_cid_counter q' = of_nat (length cmds) + of_nat (unat n)" "q_cid_counter q = of_nat (length cmds)"
      using sim_ctl.inv_cid[OF pi] sim_ctl.inv_cid[OF inv] plan by simp_all
    moreover have "q_nsid q' = q_nsid q" using run(3) fits by (simp add: queue_fits_def)
    ultimately show ?thesis by simp
  qed
  then show ?thesis using run by blast
qed

lemma example_pipe_env: "pipe_env 1 example_env"
  unfolding pipe_env_def
proof (intro exI conjI)
  show "runs_on example_env sim_poller_step (\<lambda>_. 1)"
    by (simp add: runs_on_def example_env_def)
  have "2 * unat (of_nat (t + k) - of_nat t :: u64) < 3400000000" if "k \<le> 4" for t k :: nat
    using that by (simp add: unat_of_nat)
  then show "fair_schedule example_env (\<lambda>_. 1) 1 PIPE_POLL_TIMEOUT"
    by (simp add: fair_schedule_def example_env_def PIPE_POLL_TIMEOUT_def)
qed simp

end
