(* ===== verification/Layer_Read.thy ===== *)
theory Layer_Read
  imports Pipeline
begin

text \<open>
  The pipelined read kernel of the layer loader (\<^verbatim>\<open>gpu_layer_read\<close> in \<^verbatim>\<open>src/host/layer_loader.cu\<close>): it
  keeps several read commands in flight and consumes completions as they come. The lemmas extend the
  controller contract to several outstanding commands and show that the kernel refines the sequential
  execution of its command plan.
\<close>

section \<open>The kernel\<close>

record layer_read_params =
  lp_start_lba :: u64
  lp_total_blocks :: u32
  lp_blocks_per_cmd :: u32
  lp_n_commands :: u32
  lp_pipeline_depth :: u32
  lp_prp1_array :: "u64 list"
  lp_prp2_array :: "u64 list"

record layer_read_result =
  lr_status :: u32
  lr_commands_completed :: u32
  lr_error_code :: u32
  lr_cqe_status :: u16
  lr_gpu_cycles :: u64

definition layer_lba :: "layer_read_params \<Rightarrow> u32 \<Rightarrow> u64" where
  "layer_lba p cmd_idx = lp_start_lba p + ucast cmd_idx * ucast (lp_blocks_per_cmd p)"

definition layer_nlb :: "layer_read_params \<Rightarrow> u32 \<Rightarrow> u32" where
  "layer_nlb p cmd_idx =
    (let remaining = lp_total_blocks p - cmd_idx * lp_blocks_per_cmd p
     in if remaining < lp_blocks_per_cmd p then remaining else lp_blocks_per_cmd p)"

text \<open>The inner loop: submit until the pipeline is full or nothing is left.\<close>

function layer_submit_loop ::
    "layer_read_params \<Rightarrow> u32 \<Rightarrow> u32 \<Rightarrow> gpu_nvme_queue \<Rightarrow> 'x qmem_scheme \<Rightarrow> u32 \<times> gpu_nvme_queue \<times> 'x qmem_scheme" where
  "layer_submit_loop p completed submitted q m =
    (if submitted < lp_n_commands p \<and> submitted - completed < lp_pipeline_depth p
     then let cmd_idx = submitted;
              (cid, q, m) = sq_submit_read q (layer_lba p cmd_idx) (ucast (layer_nlb p cmd_idx - 1))
                (lp_prp1_array p ! unat cmd_idx) (lp_prp2_array p ! unat cmd_idx) m
          in layer_submit_loop p completed (submitted + 1) q m
     else (submitted, q, m))"
  by pat_completeness auto
termination
proof (relation "measure (\<lambda>(p, completed, submitted, _). unat (lp_n_commands p) - unat submitted)", goal_cases)
  case (2 p completed submitted q m)
  then have "unat (submitted + 1) = Suc (unat submitted)" "unat submitted < unat (lp_n_commands p)"
    using unat_succ_lt[of submitted "unat (lp_n_commands p)"] unat_bound[of "lp_n_commands p"]
    by (auto simp: word_less_nat_alt)
  then show ?case by simp
qed simp

declare layer_submit_loop.simps [simp del]

definition LAYER_POLL_TIMEOUT :: u64 where
  "LAYER_POLL_TIMEOUT = 3400000000"

function layer_read_loop ::
    "nat \<Rightarrow> ('x qmem_scheme) gpu_env \<Rightarrow> layer_read_params \<Rightarrow> u64 \<Rightarrow> u32 \<Rightarrow> u32 \<Rightarrow> layer_read_result \<Rightarrow> gpu_nvme_queue \<Rightarrow>
     'x qmem_scheme \<Rightarrow> nat \<Rightarrow> (layer_read_result \<times> gpu_nvme_queue \<times> 'x qmem_scheme \<times> nat) option" where
  "layer_read_loop fuel E p t_start submitted completed result q m t =
    (if completed < lp_n_commands p
     then let (submitted, q, m) = layer_submit_loop p completed submitted q m
          in case cq_poll_completion fuel E q LAYER_POLL_TIMEOUT m t of
               None \<Rightarrow> None
             | Some (cqr, q, m, t) \<Rightarrow>
                 if r_timed_out cqr
                 then Some (result\<lparr>lr_status := 1, lr_error_code := 2, lr_commands_completed := completed,
                        lr_gpu_cycles := ge_clock E t - t_start\<rparr>, q, m, Suc t)
                 else if \<not> r_success cqr
                 then Some (result\<lparr>lr_status := 1, lr_error_code := 3, lr_cqe_status := r_status cqr,
                        lr_commands_completed := completed, lr_gpu_cycles := ge_clock E t - t_start\<rparr>, q, m, Suc t)
                 else layer_read_loop fuel E p t_start submitted (completed + 1) result q m t
     else Some (result\<lparr>lr_commands_completed := completed, lr_gpu_cycles := ge_clock E t - t_start\<rparr>, q, m, Suc t))"
  by pat_completeness auto
termination
proof (relation "measure (\<lambda>(fuel, E, p, t_start, submitted, completed, _). unat (lp_n_commands p) - unat completed)",
    goal_cases)
  case (2 fuel E p t_start submitted completed)
  then have "unat (completed + 1) = Suc (unat completed)" "unat completed < unat (lp_n_commands p)"
    using unat_succ_lt[of completed "unat (lp_n_commands p)"] unat_bound[of "lp_n_commands p"]
    by (auto simp: word_less_nat_alt)
  then show ?case by simp
qed simp

declare layer_read_loop.simps [simp del]

definition gpu_layer_read ::
    "nat \<Rightarrow> ('x qmem_scheme) gpu_env \<Rightarrow> u32 \<Rightarrow> u32 \<Rightarrow> gpu_nvme_queue \<Rightarrow> layer_read_params \<Rightarrow> layer_read_result \<Rightarrow>
     'x qmem_scheme \<Rightarrow> nat \<Rightarrow> (layer_read_result \<times> gpu_nvme_queue \<times> 'x qmem_scheme \<times> nat) option" where
  "gpu_layer_read fuel E tid bid q p result m t =
    (if tid \<noteq> 0 \<or> bid \<noteq> 0 then Some (result, q, m, t)
     else let result = result\<lparr>lr_status := 0, lr_commands_completed := 0, lr_error_code := 0, lr_cqe_status := 0\<rparr>;
              t_start = ge_clock E t
          in layer_read_loop fuel E p t_start 0 0 result q m (Suc t))"

section \<open>The command plan\<close>

definition layer_command :: "layer_read_params \<Rightarrow> u16 \<Rightarrow> u32 \<Rightarrow> nat \<Rightarrow> nvme_sq_entry" where
  "layer_command p cid nsid i = io_command NVME_IO_OPC_READ (cid + of_nat i) nsid (lp_prp1_array p ! i)
     (lp_prp2_array p ! i) (layer_lba p (of_nat i)) (ucast (layer_nlb p (of_nat i) - 1))"

definition layer_plan :: "layer_read_params \<Rightarrow> u16 \<Rightarrow> u32 \<Rightarrow> nvme_sq_entry list" where
  "layer_plan p cid nsid = map (layer_command p cid nsid) [0..<unat (lp_n_commands p)]"

lemma layer_plan_simps [simp]:
  "length (layer_plan p cid nsid) = unat (lp_n_commands p)"
  "i < unat (lp_n_commands p) \<Longrightarrow> layer_plan p cid nsid ! i = layer_command p cid nsid i"
  by (simp_all add: layer_plan_def)

text \<open>How a run over a plan may end: with all commands done, or at the first command that fails,
  with up to a pipeline of later commands carried out as well.\<close>

definition plan_outcome ::
    "('v \<Rightarrow> nvme_sq_entry \<Rightarrow> u16) \<Rightarrow> (nvme_sq_entry \<Rightarrow> 'v \<Rightarrow> 'v) \<Rightarrow> nat \<Rightarrow> nvme_sq_entry list \<Rightarrow> 'v \<Rightarrow>
     layer_read_result \<Rightarrow> 'v \<Rightarrow> bool" where
  "plan_outcome stat eff depth plan v r v' \<longleftrightarrow>
     ((\<forall>i < length plan. stat v (plan ! i) = 0) \<and> lr_status r = 0 \<and> lr_error_code r = 0 \<and> lr_cqe_status r = 0
        \<and> unat (lr_commands_completed r) = length plan \<and> v' = fold eff plan v)
   \<or> (\<exists>i j. i < length plan \<and> (\<forall>k < i. stat v (plan ! k) = 0) \<and> stat v (plan ! i) \<noteq> 0
        \<and> lr_status r = 1 \<and> lr_error_code r = 3 \<and> lr_cqe_status r = stat v (plan ! i)
        \<and> unat (lr_commands_completed r) = i \<and> i < j \<and> j \<le> length plan \<and> j \<le> i + depth
        \<and> v' = fold eff (take j plan) v)"

text \<open>The configuration of a queue that its operations keep, with the flow control that the pipeline
  depth gives.\<close>

definition pipe_fits :: "layer_read_params \<Rightarrow> u32 \<Rightarrow> gpu_nvme_queue \<Rightarrow> bool" where
  "pipe_fits p nsid q \<longleftrightarrow> q_nsid q = nsid \<and> 0 < unat (lp_pipeline_depth p)
     \<and> unat (lp_pipeline_depth p) < unat (q_sq_size q) \<and> unat (lp_pipeline_depth p) \<le> unat (q_cq_size q)"

section \<open>The kernel is an instance of the pipelined loop\<close>

definition layer_args :: "layer_read_params \<Rightarrow> u32 \<Rightarrow> read_args" where
  "layer_args p i = (layer_lba p i, ucast (layer_nlb p i - 1), lp_prp1_array p ! unat i, lp_prp2_array p ! unat i)"

lemma layer_submit_loop_pipe:
  "layer_submit_loop p completed submitted q m =
     pipe_submit_loop (layer_args p) (lp_n_commands p) (lp_pipeline_depth p) completed submitted q m"
proof (induction p completed submitted q m rule: layer_submit_loop.induct)
  case (1 p completed submitted q m)
  show ?case
  proof (cases "submitted < lp_n_commands p \<and> submitted - completed < lp_pipeline_depth p")
    case True
    obtain cid q' m' where sub: "sq_submit_read q (layer_lba p submitted) (ucast (layer_nlb p submitted - 1))
        (lp_prp1_array p ! unat submitted) (lp_prp2_array p ! unat submitted) m = (cid, q', m')" by (metis surj_pair)
    show ?thesis
      using True sub 1[OF True refl sub[symmetric] refl]
      by (subst layer_submit_loop.simps, subst pipe_submit_loop.simps) (simp add: layer_args_def[of p submitted] Let_def)
  next
    case False
    then show ?thesis by (subst layer_submit_loop.simps, subst pipe_submit_loop.simps) auto
  qed
qed

text \<open>The report of the kernel at the end of the loop.\<close>

definition layer_report :: "layer_read_result \<Rightarrow> pipe_end \<Rightarrow> u32 \<Rightarrow> u64 \<Rightarrow> layer_read_result" where
  "layer_report r e d cycles = (case e of
     PipeDone \<Rightarrow> r\<lparr>lr_commands_completed := d, lr_gpu_cycles := cycles\<rparr>
   | PipeTimeout \<Rightarrow> r\<lparr>lr_status := 1, lr_error_code := 2, lr_commands_completed := d, lr_gpu_cycles := cycles\<rparr>
   | PipeFailed st \<Rightarrow> r\<lparr>lr_status := 1, lr_error_code := 3, lr_cqe_status := st, lr_commands_completed := d, lr_gpu_cycles := cycles\<rparr>)"

lemma layer_read_loop_pipe:
  "layer_read_loop fuel E p t_start submitted completed result q m t =
     map_option (\<lambda>(e, d, lat, q, m, t). (layer_report result e d (ge_clock E t - t_start), q, m, Suc t))
       (pipe_loop False fuel E (layer_args p) (lp_n_commands p) (lp_pipeline_depth p) submitted completed lat q m t)"
proof (induction fuel E p t_start submitted completed result q m t rule: layer_read_loop.induct)
  case (1 fuel E p t_start submitted completed result q m t)
  show ?case
  proof (cases "completed < lp_n_commands p")
    case False
    then show ?thesis
      by (subst layer_read_loop.simps, subst pipe_loop.simps) (simp add: layer_report_def)
  next
    case True
    obtain s1 q1 m1 where sub: "layer_submit_loop p completed submitted q m = (s1, q1, m1)" by (metis surj_pair)
    show ?thesis
    proof (cases "cq_poll_completion fuel E q1 LAYER_POLL_TIMEOUT m1 t")
      case None
      then show ?thesis
        using True sub
        by (subst layer_read_loop.simps, subst pipe_loop.simps)
          (simp add: layer_submit_loop_pipe LAYER_POLL_TIMEOUT_def PIPE_POLL_TIMEOUT_def)
    next
      case (Some z)
      obtain r q2 m2 t2 where z: "z = (r, q2, m2, t2)" by (cases z)
      then show ?thesis
        using True sub Some 1[OF True sub[symmetric] refl refl Some[unfolded z] refl refl refl]
        by (subst layer_read_loop.simps, subst pipe_loop.simps)
          (auto simp: layer_submit_loop_pipe LAYER_POLL_TIMEOUT_def PIPE_POLL_TIMEOUT_def layer_report_def Let_def)
    qed
  qed
qed

lemma layer_plan_pipe: "layer_plan p cid nsid = pipe_plan (layer_args p) (lp_n_commands p) cid nsid"
proof -
  have "unat (of_nat i :: u32) = i" if "i < unat (lp_n_commands p)" for i
    using that unat_bound[of "lp_n_commands p"] by (simp add: unat_of_nat)
  then show ?thesis by (simp add: layer_plan_def pipe_plan_def layer_command_def pipe_command_def layer_args_def)
qed

lemma pipe_fits_queue: "pipe_fits p nsid q = queue_fits (lp_pipeline_depth p) nsid q"
  by (simp add: pipe_fits_def queue_fits_def)

lemma layer_report_outcome:
  assumes "pipe_outcome stat eff depth plan v0 e (unat d) v'"
    and "lr_status r = 0" "lr_error_code r = 0" "lr_cqe_status r = 0"
  shows "plan_outcome stat eff depth plan v0 (layer_report r e d c) v' \<and> (lr_status (layer_report r e d c) = 0 \<longrightarrow> e = PipeDone)"
  using assms unfolding pipe_outcome_def plan_outcome_def by (auto simp: layer_report_def)

section \<open>The kernel on the simulator\<close>

definition layer_env :: "nat \<Rightarrow> nvme_sim gpu_env \<Rightarrow> bool" where
  "layer_env fuel E \<longleftrightarrow> (\<exists>sched B. runs_on E sim_poller_step sched
     \<and> fair_schedule E sched B LAYER_POLL_TIMEOUT \<and> B \<le> fuel)"

lemma sim_layer_read:
  assumes dr: "drained q s" and env: "layer_env fuel E" and fits: "pipe_fits p (q_nsid q) q"
    and plan: "plan = layer_plan p (q_cid_counter q) (q_nsid q)" and nw: "list_all cmd_nowrap plan"
  shows "\<exists>r q' s' t'. gpu_layer_read fuel E 0 0 q p r0 s t = Some (r, q', s', t')
    \<and> plan_outcome view_status view_effect (unat (lp_pipeline_depth p)) plan (sim_view s) r (sim_view s')
    \<and> (lr_status r = 0 \<longrightarrow> drained q' s')"
proof -
  have env: "pipe_env fuel E" using env by (simp add: layer_env_def pipe_env_def LAYER_POLL_TIMEOUT_def PIPE_POLL_TIMEOUT_def)
  have fits: "queue_fits (lp_pipeline_depth p) (q_nsid q) q" using fits by (simp add: pipe_fits_queue)
  let ?r = "r0\<lparr>lr_status := 0, lr_commands_completed := 0, lr_error_code := 0, lr_cqe_status := 0\<rparr>"
  obtain e d lat' q' s' t' where run:
      "pipe_loop False fuel E (layer_args p) (lp_n_commands p) (lp_pipeline_depth p) 0 0 [] q s (Suc t) = Some (e, d, lat', q', s', t')"
      "pipe_outcome view_status view_effect (unat (lp_pipeline_depth p)) plan (sim_view s) e (unat d) (sim_view s')"
      "e = PipeDone \<longrightarrow> drained q' s'"
    using sim_pipe_loop[OF dr env fits plan[unfolded layer_plan_pipe] nw, of False "[]" "Suc t"] by blast
  let ?z = "layer_report ?r e d (ge_clock E t' - ge_clock E t)"
  have "gpu_layer_read fuel E 0 0 q p r0 s t = Some (?z, q', s', Suc t')"
    using run(1) by (simp add: gpu_layer_read_def Let_def layer_read_loop_pipe[where lat = "[]"])
  then show ?thesis using layer_report_outcome[OF run(2), of ?r] run(3) by auto
qed

section \<open>Properties of the pipelined kernel\<close>

text \<open>C23. The pipelined read kernel refines the sequential execution of its command plan: started on a
  drained queue pair with a pipeline depth below the ring sizes, for every fair schedule of the
  controller it returns; either every command succeeds, it reports all of them completed and device and
  memory are what the plan makes of them in order, or it reports the first command that fails with its
  status, and exactly a prefix of the plan that contains this command and at most a pipeline's worth
  after it has been carried out. After success the queue pair is drained again.\<close>

theorem layer_read_refines:
  assumes "drained q s" and "layer_env fuel E" and "pipe_fits p (q_nsid q) q"
    and "list_all cmd_nowrap (layer_plan p (q_cid_counter q) (q_nsid q))"
  shows "\<exists>r q' s' t'. gpu_layer_read fuel E 0 0 q p r0 s t = Some (r, q', s', t')
    \<and> plan_outcome view_status view_effect (unat (lp_pipeline_depth p)) (layer_plan p (q_cid_counter q) (q_nsid q))
        (sim_view s) r (sim_view s')
    \<and> (lr_status r = 0 \<longrightarrow> drained q' s')"
  by (rule sim_layer_read[OF assms(1-3) refl assms(4)])

definition example_layer :: layer_read_params where
  "example_layer = \<lparr>lp_start_lba = 1, lp_total_blocks = 3, lp_blocks_per_cmd = 1, lp_n_commands = 3,
     lp_pipeline_depth = 2, lp_prp1_array = [0x10000, 0x10200, 0x10400], lp_prp2_array = [0, 0, 0]\<rparr>"

definition layer_result_zero :: layer_read_result where
  "layer_result_zero = \<lparr>lr_status = 0, lr_commands_completed = 0, lr_error_code = 0, lr_cqe_status = 0, lr_gpu_cycles = 0\<rparr>"

lemma example_layer_env: "layer_env 1 example_env"
  using example_pipe_env by (simp add: layer_env_def pipe_env_def LAYER_POLL_TIMEOUT_def PIPE_POLL_TIMEOUT_def)

theorem layer_read_refines_witness:
  "\<exists>r q' s' t'. gpu_layer_read 1 example_env 0 0 example_queue example_layer layer_result_zero example_sim 0 = Some (r, q', s', t')
    \<and> lr_status r = 0 \<and> lr_commands_completed r = 3 \<and> drained q' s'"
proof -
  let ?plan = "layer_plan example_layer 0 1"
  have q: "q_cid_counter example_queue = 0" "q_nsid example_queue = 1" by (simp_all add: example_queue_def)
  have plan: "?plan = [io_command NVME_IO_OPC_READ 0 1 0x10000 0 1 0, io_command NVME_IO_OPC_READ 1 1 0x10200 0 2 0,
      io_command NVME_IO_OPC_READ 2 1 0x10400 0 3 0]"
  proof -
    have "[0..<unat (lp_n_commands example_layer)] = [0, 1, 2]" by (simp add: example_layer_def upt_rec)
    then show ?thesis
      by (simp add: layer_plan_def layer_command_def example_layer_def layer_lba_def layer_nlb_def Let_def)
  qed
  have fits: "pipe_fits example_layer 1 example_queue"
    by (simp add: pipe_fits_def example_layer_def example_queue_def)
  have nw: "list_all cmd_nowrap ?plan" unfolding plan by (simp add: cmd_nowrap_def io_command_decode)
  have ok: "view_status (sim_view example_sim) e = 0" if "e \<in> set ?plan" for e
    using that unfolding plan
    by (auto simp: view_status_def sim_view_def example_sim_cfg example_cfg_def sim_status_def is_data_cmd_def
        cmd_in_range_def io_command_decode NVME_SC_SUCCESS_def)
  obtain r q' s' t' where run: "gpu_layer_read 1 example_env 0 0 example_queue example_layer layer_result_zero example_sim 0 = Some (r, q', s', t')"
      "plan_outcome view_status view_effect 2 ?plan (sim_view example_sim) r (sim_view s')" "lr_status r = 0 \<longrightarrow> drained q' s'"
    using layer_read_refines[OF example_drained example_layer_env, of example_layer layer_result_zero 0] fits nw
    unfolding q by (auto simp: example_layer_def)
  have "lr_status r = 0" "unat (lr_commands_completed r) = 3"
    using run(2) ok by (auto simp: plan_outcome_def example_layer_def layer_plan_def)
  then show ?thesis using run by (simp add: word_unat_eq_iff)
qed

end
