(* ===== verification/Host_Env.thy ===== *)
theory Host_Env
  imports Nvme_Cmds
begin

text \<open>
  The world of the host side: a history of the calls that leave the program (MMIO accesses,
  allocations, page map reads, accesses to memory that the controller writes), newest first. The
  answers to these calls are the parameter \<open>henv\<close>, functions of the history, so that a device or
  an allocator may answer differently every time. Host code is a computation in the state monad over
  histories; an error code and an early return are ordinary results.
\<close>

section \<open>Histories and environments\<close>

datatype mem_kind =
    Pinned     \<comment> \<open>\<^verbatim>\<open>cudaMallocHost\<close> and \<^verbatim>\<open>cudaFreeHost\<close>\<close>
  | Aligned    \<comment> \<open>\<^verbatim>\<open>posix_memalign\<close> (4096) and \<^verbatim>\<open>free\<close>\<close>
  | Heap       \<comment> \<open>\<^verbatim>\<open>calloc\<close> and \<^verbatim>\<open>free\<close>\<close>
  | Mapping    \<comment> \<open>\<^verbatim>\<open>mmap\<close> and \<^verbatim>\<open>munmap\<close>\<close>
  | Device     \<comment> \<open>\<^verbatim>\<open>cudaMalloc\<close> and \<^verbatim>\<open>cudaFree\<close>\<close>

datatype hev =
    HRead32 u64 u32
  | HRead64 u64 u64
  | HWrite32 u64 u32
  | HSleep
  | HAlloc mem_kind u64 "u64 option"
  | HFree mem_kind u64
  | HMlock u64 u64
  | HMunlock u64 u64
  | HRegister u64 u64 bool
  | HUnregister u64
  | HMemset u64 u64
  | HPutSqe u64 nat nvme_sq_entry
  | HGetCqe u64 nat nvme_cq_entry
  | HGetBytes u64 nat "u8 list"
  | HOpen bool
  | HPread u64 "u64 option"
  | HPwrite u64 u64 bool
  | HClose

record henv =
  he_read32 :: "hev list \<Rightarrow> u64 \<Rightarrow> u32"
  he_read64 :: "hev list \<Rightarrow> u64 \<Rightarrow> u64"
  he_alloc :: "hev list \<Rightarrow> mem_kind \<Rightarrow> u64 \<Rightarrow> u64 option"
  he_register :: "hev list \<Rightarrow> u64 \<Rightarrow> bool"
  he_cqe :: "hev list \<Rightarrow> u64 \<Rightarrow> nat \<Rightarrow> nvme_cq_entry"
  he_bytes :: "hev list \<Rightarrow> u64 \<Rightarrow> nat \<Rightarrow> u8 list"
  he_pagemap :: "hev list \<Rightarrow> bool"
  he_pread :: "hev list \<Rightarrow> u64 \<Rightarrow> u64 option"
  he_page_size :: u64  \<comment> \<open>\<^verbatim>\<open>sysconf(_SC_PAGESIZE)\<close>\<close>

type_synonym 'a host = "(hev list, 'a) state"

definition log_ev :: "hev \<Rightarrow> unit host" where [host_defs]:
  "log_ev e = State_Monad.update (\<lambda>h. e # h)"

text \<open>A call whose answer the environment gives.\<close>

definition ask :: "(hev list \<Rightarrow> 'a) \<Rightarrow> ('a \<Rightarrow> hev) \<Rightarrow> 'a host" where [host_defs]:
  "ask f ev = do { h \<leftarrow> State_Monad.get; let x = f h; log_ev (ev x); State_Monad.return x }"

section \<open>mmio.h\<close>

definition host_mmio_read32 :: "henv \<Rightarrow> u64 \<Rightarrow> u32 host" where [host_defs]:
  "host_mmio_read32 E addr = ask (\<lambda>h. he_read32 E h addr) (HRead32 addr)"

definition host_mmio_read64 :: "henv \<Rightarrow> u64 \<Rightarrow> u64 host" where [host_defs]:
  "host_mmio_read64 E addr = ask (\<lambda>h. he_read64 E h addr) (HRead64 addr)"

definition host_mmio_write32 :: "u64 \<Rightarrow> u32 \<Rightarrow> unit host" where [host_defs]:
  "host_mmio_write32 addr val = log_ev (HWrite32 addr val)"

definition host_mmio_write64 :: "u64 \<Rightarrow> u64 \<Rightarrow> unit host" where [host_defs]:
  "host_mmio_write64 addr val = do {
     log_ev (HWrite32 addr (ucast (val AND 0xFFFFFFFF)));
     log_ev (HWrite32 (addr + 4) (ucast (drop_bit 32 val)))
   }"

section \<open>Allocation and memory\<close>

definition host_alloc :: "henv \<Rightarrow> mem_kind \<Rightarrow> u64 \<Rightarrow> u64 option host" where [host_defs]:
  "host_alloc E k n = ask (\<lambda>h. he_alloc E h k n) (HAlloc k n)"

definition host_free :: "mem_kind \<Rightarrow> u64 \<Rightarrow> unit host" where [host_defs]:
  "host_free k p = log_ev (HFree k p)"

definition cuda_host_register :: "henv \<Rightarrow> u64 \<Rightarrow> u64 \<Rightarrow> bool host" where [host_defs]:
  "cuda_host_register E p n = ask (\<lambda>h. he_register E h p) (HRegister p n)"

section \<open>What a history leaves behind\<close>

text \<open>The allocations that are held after a history, and the registered host ranges.\<close>

fun held :: "hev list \<Rightarrow> (mem_kind \<times> u64) list" where
  "held [] = []"
| "held (HAlloc k n (Some p) # h) = (k, p) # held h"
| "held (HFree k p # h) = remove1 (k, p) (held h)"
| "held (_ # h) = held h"

fun registered :: "hev list \<Rightarrow> u64 list" where
  "registered [] = []"
| "registered (HRegister p n True # h) = p # registered h"
| "registered (HUnregister p # h) = remove1 p (registered h)"
| "registered (_ # h) = registered h"

text \<open>Open file descriptors, and the MMIO writes in order.\<close>

fun open_files :: "hev list \<Rightarrow> int" where
  "open_files [] = 0"
| "open_files (HOpen True # h) = open_files h + 1"
| "open_files (HClose # h) = open_files h - 1"
| "open_files (_ # h) = open_files h"

fun mmio_writes :: "hev list \<Rightarrow> (u64 \<times> u32) list" where
  "mmio_writes [] = []"
| "mmio_writes (HWrite32 a v # h) = mmio_writes h @ [(a, v)]"
| "mmio_writes (_ # h) = mmio_writes h"

lemma held_alloc_none [simp]: "held (HAlloc k n None # h) = held h"
  by simp

lemma held_alloc: "held (HAlloc k n r # h) = (case r of None \<Rightarrow> held h | Some p \<Rightarrow> (k, p) # held h)"
  by (cases r) simp_all

lemma registered_register: "registered (HRegister p n b # h) = (if b then p # registered h else registered h)"
  by (cases b) simp_all

lemma open_files_open: "open_files (HOpen b # h) = (if b then open_files h + 1 else open_files h)"
  by (cases b) simp_all

lemmas history_simps = held_alloc registered_register open_files_open

text \<open>Running the primitives.\<close>

lemma run_log_ev [simp]: "run_state (log_ev e) h = ((), e # h)"
  by (simp add: log_ev_def State_Monad.update_def State_Monad.bind_def State_Monad.get_def State_Monad.set_def)

lemma run_ask [simp]: "run_state (ask f ev) h = (f h, ev (f h) # h)"
  by (simp add: ask_def Let_def)

text \<open>Everything that a history holds: memory, registrations, files.\<close>

definition resources :: "hev list \<Rightarrow> (mem_kind \<times> u64) list \<times> u64 list \<times> int" where
  "resources h = (held h, registered h, open_files h)"

lemma resources_simps [simp]:
  "resources (HRead32 a v # h) = resources h" "resources (HRead64 a w # h) = resources h"
  "resources (HWrite32 a v # h) = resources h" "resources (HSleep # h) = resources h"
  "resources (HMemset a w # h) = resources h" "resources (HPutSqe a i e # h) = resources h"
  "resources (HMlock a w # h) = resources h" "resources (HMunlock a w # h) = resources h"
  "resources (HGetCqe a i d # h) = resources h" "resources (HGetBytes a i bs # h) = resources h"
  "resources (HPread a r # h) = resources h" "resources (HPwrite a w b # h) = resources h"
  by (simp_all add: resources_def)

text \<open>The commands put into the queue at an address, in order.\<close>

fun posted :: "u64 \<Rightarrow> hev list \<Rightarrow> nvme_sq_entry list" where
  "posted q [] = []"
| "posted q (HPutSqe a i e # h) = posted q h @ (if a = q then [e] else [])"
| "posted q (_ # h) = posted q h"

end
