(* ===== verification/Dma_Alloc.thy ===== *)
theory Dma_Alloc
  imports Host_Env
begin

text \<open>
  DMA buffers, virtual to physical address translation and PRP lists (\<^verbatim>\<open>src/host/dma_alloc.c\<close>). A
  pointer is its address, NULL is 0; a function that fills an out parameter returns the new value,
  and one that may leave it alone returns an error or the value to store. A page size of zero, for
  which the C code is undefined, is excluded by the hypotheses of the theorems.
\<close>

section \<open>Virtual to physical\<close>

text \<open>One pagemap entry: bit 63 says that the page is present, bits 54..0 are its frame number.\<close>

definition pagemap_present :: "u64 \<Rightarrow> bool" where
  "pagemap_present entry \<longleftrightarrow> entry AND push_bit 63 1 \<noteq> 0"

definition pagemap_phys :: "u64 \<Rightarrow> u64 \<Rightarrow> u64 \<Rightarrow> u64" where
  "pagemap_phys entry page_size vaddr = (entry AND (push_bit 55 1 - 1)) * page_size + vaddr mod page_size"

definition gpunvme_virt_to_phys :: "henv \<Rightarrow> u64 \<Rightarrow> (gpunvme_err + u64) host" where
  "gpunvme_virt_to_phys E vaddr =
    (if vaddr = 0 then State_Monad.return (Inl GPUNVME_ERR_INVALID_PARAM)
     else do {
       opened \<leftarrow> ask (he_pagemap E) HOpen;
       if \<not> opened then State_Monad.return (Inl GPUNVME_ERR_IO)
       else do {
         let page_size = he_page_size E;
         let page_index = vaddr div page_size;
         r \<leftarrow> ask (\<lambda>h. he_pread E h (page_index * 8)) (HPread (page_index * 8));
         log_ev HClose;
         State_Monad.return (case r of
           None \<Rightarrow> Inl GPUNVME_ERR_IO
         | Some entry \<Rightarrow>
             if \<not> pagemap_present entry then Inl GPUNVME_ERR_DMA
             else Inr (pagemap_phys entry page_size vaddr))
       }
     })"

section \<open>DMA buffers\<close>

datatype gpunvme_dma_type = GPUNVME_DMA_HOST | GPUNVME_DMA_GPU

record gpunvme_dma_buf =
  db_vaddr :: u64
  db_phys_addr :: u64
  db_size :: u64
  db_type :: gpunvme_dma_type

definition dma_buf_zero :: gpunvme_dma_buf where
  "dma_buf_zero = \<lparr>db_vaddr = 0, db_phys_addr = 0, db_size = 0, db_type = GPUNVME_DMA_HOST\<rparr>"

text \<open>Each returns the error code and the buffer descriptor, if the argument is not NULL.\<close>

definition gpunvme_dma_alloc_host ::
    "henv \<Rightarrow> u64 \<Rightarrow> gpunvme_dma_buf option \<Rightarrow> (gpunvme_err \<times> gpunvme_dma_buf option) host" where
  "gpunvme_dma_alloc_host E n buf =
    (if buf = None \<or> n = 0 then State_Monad.return (GPUNVME_ERR_INVALID_PARAM, buf)
     else do {
       r \<leftarrow> host_alloc E Pinned n;
       case r of
         None \<Rightarrow> State_Monad.return (GPUNVME_ERR_NOMEM, Some dma_buf_zero)
       | Some p \<Rightarrow> do {
           log_ev (HMemset p n);
           ret \<leftarrow> gpunvme_virt_to_phys E p;
           State_Monad.return (GPUNVME_OK, Some (dma_buf_zero\<lparr>db_vaddr := p, db_size := n,
             db_type := GPUNVME_DMA_HOST,
             db_phys_addr := (case ret of Inr phys \<Rightarrow> phys | Inl _ \<Rightarrow> p)\<rparr>))
         }
     })"

definition gpunvme_dma_alloc_gpu ::
    "henv \<Rightarrow> u64 \<Rightarrow> gpunvme_dma_buf option \<Rightarrow> (gpunvme_err \<times> gpunvme_dma_buf option) host" where
  "gpunvme_dma_alloc_gpu E n buf =
    (if buf = None \<or> n = 0 then State_Monad.return (GPUNVME_ERR_INVALID_PARAM, buf)
     else do {
       r \<leftarrow> host_alloc E Device n;
       case r of
         None \<Rightarrow> State_Monad.return (GPUNVME_ERR_NOMEM, Some dma_buf_zero)
       | Some p \<Rightarrow> do {
           log_ev (HMemset p n);
           State_Monad.return (GPUNVME_OK, Some (dma_buf_zero\<lparr>db_vaddr := p, db_size := n,
             db_type := GPUNVME_DMA_GPU, db_phys_addr := 0\<rparr>))
         }
     })"

definition gpunvme_dma_free :: "gpunvme_dma_buf option \<Rightarrow> gpunvme_dma_buf option host" where
  "gpunvme_dma_free buf =
    (case buf of
       None \<Rightarrow> State_Monad.return None
     | Some b \<Rightarrow>
         if db_vaddr b = 0 then State_Monad.return buf
         else do {
           (case db_type b of
              GPUNVME_DMA_HOST \<Rightarrow> host_free Pinned (db_vaddr b)
            | GPUNVME_DMA_GPU \<Rightarrow> host_free Device (db_vaddr b));
           State_Monad.return (Some dma_buf_zero)
         })"

section \<open>PRP lists\<close>

text \<open>\<open>pl_list\<close> is the pointer, \<open>pl_entries\<close> the memory that it points to.\<close>

record gpunvme_prp_list =
  pl_list :: u64
  pl_list_phys :: u64
  pl_prp1 :: u64
  pl_prp2 :: u64
  pl_n_entries :: u32
  pl_max_entries :: u32
  pl_list_bytes :: u64
  pl_entries :: "u64 list"

definition prp_list_zero :: gpunvme_prp_list where
  "prp_list_zero = \<lparr>pl_list = 0, pl_list_phys = 0, pl_prp1 = 0, pl_prp2 = 0, pl_n_entries = 0,
     pl_max_entries = 0, pl_list_bytes = 0, pl_entries = []\<rparr>"

definition prp_n_entries :: "u32 \<Rightarrow> u32" where
  "prp_n_entries max_pages = (let n_entries = max_pages - 1 in if n_entries = 0 then 1 else n_entries)"

definition prp_list_bytes :: "u32 \<Rightarrow> u64" where
  "prp_list_bytes n_entries =
    (let list_bytes = ucast n_entries * 8 in if list_bytes < 4096 then 4096 else list_bytes)"

definition gpunvme_prp_list_alloc ::
    "henv \<Rightarrow> gpunvme_prp_list option \<Rightarrow> u32 \<Rightarrow> (gpunvme_err \<times> gpunvme_prp_list option) host" where
  "gpunvme_prp_list_alloc E prp max_pages =
    (if prp = None \<or> max_pages = 0 then State_Monad.return (GPUNVME_ERR_INVALID_PARAM, prp)
     else do {
       let n_entries = prp_n_entries max_pages;
       let list_bytes = prp_list_bytes n_entries;
       r \<leftarrow> host_alloc E Aligned list_bytes;
       case r of
         None \<Rightarrow> State_Monad.return (GPUNVME_ERR_NOMEM, Some prp_list_zero)
       | Some p \<Rightarrow> do {
           log_ev (HMlock p list_bytes);
           reg \<leftarrow> cuda_host_register E p list_bytes;
           if \<not> reg then do {
             log_ev (HMunlock p list_bytes);
             host_free Aligned p;
             State_Monad.return (GPUNVME_ERR_NOMEM, Some prp_list_zero)
           } else do {
             log_ev (HMemset p list_bytes);
             ret \<leftarrow> gpunvme_virt_to_phys E p;
             case ret of
               Inl err \<Rightarrow> do {
                 log_ev (HUnregister p);
                 log_ev (HMunlock p list_bytes);
                 host_free Aligned p;
                 State_Monad.return (err, Some prp_list_zero)
               }
             | Inr phys \<Rightarrow>
                 State_Monad.return (GPUNVME_OK, Some (prp_list_zero\<lparr>pl_list := p,
                   pl_entries := replicate (unat list_bytes div 8) 0,
                   pl_max_entries := n_entries, pl_list_bytes := list_bytes, pl_list_phys := phys\<rparr>))
           }
         }
     })"

text \<open>The loop of \<^verbatim>\<open>gpunvme_prp_list_build\<close> from page \<open>i\<close> on, with \<open>n\<close> pages left.\<close>

fun prp_build_loop ::
    "nat \<Rightarrow> henv \<Rightarrow> u64 \<Rightarrow> u32 \<Rightarrow> u32 \<Rightarrow> gpunvme_prp_list \<Rightarrow> (gpunvme_err \<times> gpunvme_prp_list) host" where
  "prp_build_loop 0 E base page_size i prp = State_Monad.return (GPUNVME_OK, prp)"
| "prp_build_loop (Suc n) E base page_size i prp = do {
     let vaddr = base + ucast i * ucast page_size;
     let page_index = vaddr div he_page_size E;
     r \<leftarrow> ask (\<lambda>h. he_pread E h (page_index * 8)) (HPread (page_index * 8));
     case r of
       None \<Rightarrow> do { log_ev HClose; State_Monad.return (GPUNVME_ERR_IO, prp) }
     | Some entry \<Rightarrow>
         if \<not> pagemap_present entry
         then do { log_ev HClose; State_Monad.return (GPUNVME_ERR_DMA, prp) }
         else do {
           let phys = pagemap_phys entry (he_page_size E) vaddr;
           prp_build_loop n E base page_size (i + 1)
             (if i = 0 then prp\<lparr>pl_prp1 := phys\<rparr>
              else prp\<lparr>pl_entries := (pl_entries prp)[unat (i - 1) := phys]\<rparr>)
         }
   }"

definition gpunvme_prp_list_build ::
    "henv \<Rightarrow> gpunvme_prp_list option \<Rightarrow> u64 \<Rightarrow> u64 \<Rightarrow> u32 \<Rightarrow>
     (gpunvme_err \<times> gpunvme_prp_list option) host" where
  "gpunvme_prp_list_build E prp data_vaddr transfer_bytes page_size =
    (case prp of
       None \<Rightarrow> State_Monad.return (GPUNVME_ERR_INVALID_PARAM, None)
     | Some p \<Rightarrow>
        if pl_list p = 0 \<or> data_vaddr = 0 \<or> transfer_bytes = 0
        then State_Monad.return (GPUNVME_ERR_INVALID_PARAM, prp)
        else let n_pages = ucast ((transfer_bytes + ucast page_size - 1) div ucast page_size) :: u32
             in if n_pages > pl_max_entries p + 1
                then State_Monad.return (GPUNVME_ERR_INVALID_PARAM, prp)
                else do {
                  opened \<leftarrow> ask (he_pagemap E) HOpen;
                  if \<not> opened then State_Monad.return (GPUNVME_ERR_IO, prp)
                  else do {
                    (err, p) \<leftarrow> prp_build_loop (unat n_pages) E data_vaddr page_size 0 p;
                    if err \<noteq> GPUNVME_OK then State_Monad.return (err, Some p)
                    else do {
                      log_ev HClose;
                      let p = p\<lparr>pl_n_entries := (if n_pages > 1 then n_pages - 1 else 0)\<rparr>;
                      State_Monad.return (GPUNVME_OK, Some (
                        if n_pages \<le> 1 then p\<lparr>pl_prp2 := 0\<rparr>
                        else if n_pages = 2 then p\<lparr>pl_prp2 := pl_entries p ! 0\<rparr>
                        else p\<lparr>pl_prp2 := pl_list_phys p\<rparr>))
                    }
                  }
                })"

definition gpunvme_prp_list_free :: "gpunvme_prp_list option \<Rightarrow> gpunvme_prp_list option host" where
  "gpunvme_prp_list_free prp =
    (case prp of
       None \<Rightarrow> State_Monad.return None
     | Some p \<Rightarrow> do {
         (if pl_list p \<noteq> 0 then do {
            log_ev (HUnregister (pl_list p));
            log_ev (HMunlock (pl_list p) (pl_list_bytes p));
            host_free Aligned (pl_list p)
          } else State_Monad.return ());
         State_Monad.return (Some prp_list_zero)
       })"

section \<open>What a resolver of addresses promises\<close>

text \<open>The clients of address translation rely on it leaving their resources alone.\<close>

locale phys_resolver =
  fixes resolve :: "u64 \<Rightarrow> (gpunvme_err + u64) host"
  assumes resolve_held: "held (snd (run_state (resolve v) h)) = held h"
    and resolve_registered: "registered (snd (run_state (resolve v) h)) = registered h"
    and resolve_files: "open_files (snd (run_state (resolve v) h)) = open_files h"
    and resolve_writes: "mmio_writes (snd (run_state (resolve v) h)) = mmio_writes h"
    and resolve_posted: "posted a (snd (run_state (resolve v) h)) = posted a h"
begin

lemmas resolve_keeps = resolve_held resolve_registered resolve_files resolve_writes resolve_posted

lemma resolve_resources: "resources (snd (run_state (resolve v) h)) = resources h"
  by (simp add: resources_def resolve_keeps)

end

interpretation v2p: phys_resolver "gpunvme_virt_to_phys E" for E
  by unfold_locales (auto simp: gpunvme_virt_to_phys_def Let_def open_files_open)

section \<open>Translation against a page table\<close>

text \<open>The documented contents of the page map: it can be opened, and entry \<open>i\<close> holds the frame
  number that the page table \<open>pt\<close> gives page \<open>i\<close>.\<close>

definition pagemap_of :: "henv \<Rightarrow> (u64 \<Rightarrow> u64 option) \<Rightarrow> bool" where
  "pagemap_of E pt \<longleftrightarrow> (\<forall>h. he_pagemap E h) \<and> (\<forall>h i. \<exists>e. he_pread E h (i * 8) = Some e
     \<and> (case pt i of None \<Rightarrow> \<not> pagemap_present e
        | Some pfn \<Rightarrow> pagemap_present e \<and> e AND (push_bit 55 1 - 1) = pfn))"

definition phys_of :: "henv \<Rightarrow> (u64 \<Rightarrow> u64 option) \<Rightarrow> u64 \<Rightarrow> u64 option" where
  "phys_of E pt v = (case pt (v div he_page_size E) of None \<Rightarrow> None
     | Some pfn \<Rightarrow> Some (pfn * he_page_size E + v mod he_page_size E))"

lemma pagemap_read:
  assumes "pagemap_of E pt"
  shows "\<exists>e. he_pread E h (v div he_page_size E * 8) = Some e
    \<and> phys_of E pt v = (if pagemap_present e then Some (pagemap_phys e (he_page_size E) v) else None)"
proof -
  obtain e where e: "he_pread E h (v div he_page_size E * 8) = Some e"
      "case pt (v div he_page_size E) of None \<Rightarrow> \<not> pagemap_present e
        | Some pfn \<Rightarrow> pagemap_present e \<and> e AND (push_bit 55 1 - 1) = pfn"
    using assms unfolding pagemap_of_def by metis
  then show ?thesis
    by (intro exI[of _ e]) (auto simp: phys_of_def pagemap_phys_def split: option.splits)
qed

lemma virt_to_phys_result:
  assumes "pagemap_of E pt" and "v \<noteq> 0"
  shows "fst (run_state (gpunvme_virt_to_phys E v) h) =
    (case phys_of E pt v of None \<Rightarrow> Inl GPUNVME_ERR_DMA | Some p \<Rightarrow> Inr p)"
proof -
  have o: "he_pagemap E h" using assms(1) by (simp add: pagemap_of_def)
  obtain e where "he_pread E (HOpen True # h) (v div he_page_size E * 8) = Some e"
      "phys_of E pt v = (if pagemap_present e then Some (pagemap_phys e (he_page_size E) v) else None)"
    using pagemap_read[OF assms(1)] by blast
  then show ?thesis
    using assms(2) o by (simp add: gpunvme_virt_to_phys_def Let_def)
qed

section \<open>PRP lists against a page table\<close>

definition page_addr :: "u64 \<Rightarrow> u32 \<Rightarrow> nat \<Rightarrow> u64" where
  "page_addr base page_size i = base + of_nat i * ucast page_size"

lemma ucast_u32_succ:
  "unat (i :: u32) + 1 < 2 ^ 32 \<Longrightarrow> unat (i + 1) = unat i + 1"
  by (simp add: unat_word_ariths)

lemma prp_build_loop_present:
  assumes pt: "pagemap_of E pt"
  shows "\<lbrakk>unat i + n < 2 ^ 32; \<And>k. unat i \<le> k \<Longrightarrow> k < unat i + n \<Longrightarrow>
      phys_of E pt (page_addr base ps k) = Some (ph k)\<rbrakk> \<Longrightarrow>
    \<exists>p' h'. run_state (prp_build_loop n E base ps i p) h = ((GPUNVME_OK, p'), h')
      \<and> open_files h' = open_files h \<and> held h' = held h \<and> registered h' = registered h
      \<and> p' = p\<lparr>pl_prp1 := pl_prp1 p', pl_entries := pl_entries p'\<rparr>
      \<and> pl_prp1 p' = (if i = 0 \<and> 0 < n then ph 0 else pl_prp1 p)
      \<and> length (pl_entries p') = length (pl_entries p)
      \<and> (\<forall>j < length (pl_entries p). pl_entries p' ! j =
          (if unat i \<le> Suc j \<and> Suc j < unat i + n then ph (Suc j) else pl_entries p ! j))"
proof (induction n arbitrary: i p h)
  case 0
  then show ?case by (auto intro!: exI[of _ p])
next
  case (Suc n)
  let ?v = "page_addr base ps (unat i)"
  have v: "base + ucast i * ucast ps = ?v" by (simp add: page_addr_def)
  have ph: "phys_of E pt ?v = Some (ph (unat i))" using Suc.prems(2)[of "unat i"] by simp
  obtain e where e: "he_pread E h (?v div he_page_size E * 8) = Some e"
      "pagemap_present e" "pagemap_phys e (he_page_size E) ?v = ph (unat i)"
    using pagemap_read[OF pt, of h ?v] ph by (auto split: if_splits)
  let ?p = "if i = 0 then p\<lparr>pl_prp1 := ph (unat i)\<rparr> else p\<lparr>pl_entries := (pl_entries p)[unat (i - 1) := ph (unat i)]\<rparr>"
  let ?h = "HPread (?v div he_page_size E * 8) (Some e) # h"
  have run: "run_state (prp_build_loop (Suc n) E base ps i p) h = run_state (prp_build_loop n E base ps (i + 1) ?p) ?h"
    using e by (simp add: Let_def v del: One_nat_def)
  have si: "unat (i + 1) = unat i + 1" using Suc.prems(1) by (intro ucast_u32_succ) simp
  have pred: "i \<noteq> 0 \<Longrightarrow> Suc (unat (i - 1)) = unat i"
    using unat_sub[of 1 i] by (simp add: word_le_nat_alt unat_gt_0 Suc_le_eq)
  obtain p' h' where ih: "run_state (prp_build_loop n E base ps (i + 1) ?p) ?h = ((GPUNVME_OK, p'), h')"
      "open_files h' = open_files ?h" "held h' = held ?h" "registered h' = registered ?h"
      "p' = ?p\<lparr>pl_prp1 := pl_prp1 p', pl_entries := pl_entries p'\<rparr>"
      "pl_prp1 p' = (if i + 1 = 0 \<and> 0 < n then ph 0 else pl_prp1 ?p)"
      "length (pl_entries p') = length (pl_entries ?p)"
      "\<forall>j < length (pl_entries ?p). pl_entries p' ! j =
          (if unat (i + 1) \<le> Suc j \<and> Suc j < unat (i + 1) + n then ph (Suc j) else pl_entries ?p ! j)"
    using Suc.IH[of "i + 1" ?p ?h] Suc.prems si by fastforce
  have i1: "i + 1 \<noteq> 0" using si by (metis add_is_0 one_neq_zero unat_0)
  show ?case
  proof (cases "i = 0")
    case True
    then show ?thesis using ih run by (intro exI[of _ p'] exI[of _ h']) simp
  next
    case False
    have "pl_entries ?p ! j = (if Suc j = unat i then ph (unat i) else pl_entries p ! j)"
      if "j < length (pl_entries p)" for j
      using that False pred[OF False] by (auto simp: nth_list_update)
    then have "pl_entries p' ! j =
        (if unat i \<le> Suc j \<and> Suc j < unat i + Suc n then ph (Suc j) else pl_entries p ! j)"
      if "j < length (pl_entries p)" for j
      using that ih(8) si False by auto
    then show ?thesis
      using ih(1-7) run False i1 by (intro exI[of _ p'] exI[of _ h']) simp
  qed
qed

section \<open>Properties of address translation and PRP lists\<close>

text \<open>The pages that a controller reads out of the PRP entries of a command of \<open>n\<close> pages; \<open>rd a i\<close>
  is the \<open>i\<close>-th entry of the list at physical address \<open>a\<close>.\<close>

definition prp_pages :: "(u64 \<Rightarrow> nat \<Rightarrow> u64) \<Rightarrow> u64 \<Rightarrow> u64 \<Rightarrow> nat \<Rightarrow> u64 list" where
  "prp_pages rd prp1 prp2 n =
    (if n \<le> 1 then [prp1] else if n = 2 then [prp1, prp2] else prp1 # map (rd prp2) [0..<n - 1])"

definition prp_memory :: "gpunvme_prp_list \<Rightarrow> u64 \<Rightarrow> nat \<Rightarrow> u64" where
  "prp_memory p a i = (if a = pl_list_phys p then pl_entries p ! i else 0)"

text \<open>Room for \<open>n\<close> pages in an allocated list.\<close>

definition prp_room :: "gpunvme_prp_list \<Rightarrow> nat \<Rightarrow> bool" where
  "prp_room p n \<longleftrightarrow> pl_list p \<noteq> 0 \<and> unat (pl_max_entries p) + 1 < 2 ^ 32
     \<and> unat (pl_max_entries p) \<le> length (pl_entries p) \<and> n \<le> unat (pl_max_entries p) + 1"

definition page_count :: "u64 \<Rightarrow> u32 \<Rightarrow> nat" where
  "page_count bytes page_size = (unat bytes + unat page_size - 1) div unat page_size"

lemma page_count_word:
  assumes "page_size \<noteq> 0" and "unat bytes + unat page_size < 2 ^ 64" and "page_count bytes page_size < 2 ^ 32"
  shows "unat (ucast ((bytes + ucast page_size - 1) div ucast page_size) :: u32) = page_count bytes page_size"
proof -
  have ps: "0 < unat page_size" using assms(1) by (simp add: unat_gt_0)
  have "unat (bytes + ucast page_size) = unat bytes + unat page_size"
    using assms(2) by (simp add: unat_word_ariths)
  moreover from this have "1 \<le> bytes + ucast page_size" using ps by (simp add: word_le_nat_alt)
  ultimately have "unat (bytes + ucast page_size - 1) = unat bytes + unat page_size - 1"
    by (simp add: unat_sub)
  then show ?thesis
    using assms(3) by (simp add: unsigned_ucast_eq take_bit_eq_mod unat_div page_count_def)
qed

lemma page_count_pos: "page_size \<noteq> 0 \<Longrightarrow> bytes \<noteq> 0 \<Longrightarrow> 0 < page_count bytes page_size"
  using unat_gt_0[of bytes] unat_gt_0[of page_size]
  by (auto simp: page_count_def div_greater_zero_iff)

text \<open>Translation of an address: against a page map that reports a page table, the result is the
  frame of the page with the offset kept, an absent page is a DMA error, and no path leaks a file
  descriptor or touches an allocation or a device register.\<close>

theorem virt_to_phys_correct:
  assumes "pagemap_of E pt" and "v \<noteq> 0"
  shows "fst (run_state (gpunvme_virt_to_phys E v) h) =
      (case pt (v div he_page_size E) of None \<Rightarrow> Inl GPUNVME_ERR_DMA
       | Some pfn \<Rightarrow> Inr (pfn * he_page_size E + v mod he_page_size E))
    \<and> open_files (snd (run_state (gpunvme_virt_to_phys E v) h)) = open_files h
    \<and> held (snd (run_state (gpunvme_virt_to_phys E v) h)) = held h
    \<and> mmio_writes (snd (run_state (gpunvme_virt_to_phys E v) h)) = mmio_writes h"
  using virt_to_phys_result[OF assms] v2p.resolve_keeps
  by (simp add: phys_of_def split: option.splits)

text \<open>An environment for the examples: a page map of 2^40 pages that are their own frames,
  allocations that succeed at fresh addresses, a device that reads as zero.\<close>

definition example_host :: henv where
  "example_host = \<lparr>he_read32 = (\<lambda>h a. 0), he_read64 = (\<lambda>h a. 0),
     he_alloc = (\<lambda>h k n. Some (push_bit 20 1 OR push_bit 21 (of_nat (length h)))), he_register = (\<lambda>h p. True),
     he_cqe = (\<lambda>h p i. cqe_zero), he_bytes = (\<lambda>h p n. replicate n 0), he_pagemap = (\<lambda>h. True),
     he_pread = (\<lambda>h off. Some (push_bit 63 1 OR take_bit 40 (drop_bit 3 off))),
     he_page_size = 4096\<rparr>"

definition example_pt :: "u64 \<Rightarrow> u64 option" where
  "example_pt i = Some (take_bit 40 (drop_bit 3 (i * 8)))"

lemma example_pagemap: "pagemap_of example_host example_pt"
proof -
  have m: "(push_bit 55 1 - 1 :: u64) = mask 55" by (simp add: mask_eq_exp_minus_1)
  have "bit ((push_bit 63 1 OR take_bit 40 w) AND push_bit 63 1) 63" for w :: u64
    by (simp add: bit_simps)
  then have p: "pagemap_present (push_bit 63 1 OR take_bit 40 w)" for w
    unfolding pagemap_present_def by (metis bit_0_eq bot_apply bot_bool_def)
  have "(push_bit k 1 OR take_bit 40 w) AND mask 55 = (take_bit 40 w :: u64)" if "55 \<le> k" for w :: u64 and k
    using that by (intro bit_eqI) (auto simp: bit_simps)
  then have f: "(push_bit 63 1 OR take_bit 40 w) AND mask 55 = (take_bit 40 w :: u64)" for w :: u64
    by this simp
  show ?thesis
    unfolding pagemap_of_def m using p f by (simp only: example_host_def henv.simps example_pt_def option.simps simp_thms ex_simps)
qed

theorem virt_to_phys_correct_witness:
  "fst (run_state (gpunvme_virt_to_phys example_host 0x5123) []) =
     Inr (take_bit 40 (drop_bit 3 (5 * 8)) * 4096 + 0x123)"
  using virt_to_phys_correct[OF example_pagemap, of "0x5123" "[]"]
  by (simp add: example_pt_def example_host_def)


definition example_prp :: gpunvme_prp_list where
  "example_prp = prp_list_zero\<lparr>pl_list := 0x200000, pl_list_phys := 0x200000, pl_max_entries := 511,
     pl_list_bytes := 4096, pl_entries := replicate 512 0\<rparr>"


text \<open>A successful allocation does not return NULL.\<close>

definition nonnull_alloc :: "henv \<Rightarrow> bool" where
  "nonnull_alloc E \<longleftrightarrow> (\<forall>h k n. he_alloc E h k n \<noteq> Some 0)"

lemma nonnull_allocD: "nonnull_alloc E \<Longrightarrow> he_alloc E h k n = Some p \<Longrightarrow> p \<noteq> 0"
  by (auto simp: nonnull_alloc_def)

text \<open>Running the address translation inside a longer computation.\<close>

lemma run_virt_to_phys:
  obtains r h' where "run_state (gpunvme_virt_to_phys E v) h = (r, h')" and "held h' = held h"
    and "registered h' = registered h" and "open_files h' = open_files h" and "mmio_writes h' = mmio_writes h"
    and "resources h' = resources h" and "\<And>a. posted a h' = posted a h"
  using v2p.resolve_held[of E v h] v2p.resolve_registered[of E v h] v2p.resolve_files[of E v h]
    v2p.resolve_writes[of E v h] v2p.resolve_posted[of _ E v h] v2p.resolve_resources[of E v h]
  by (cases "run_state (gpunvme_virt_to_phys E v) h") simp

lemma alloc_host_balanced:
  assumes "nonnull_alloc E"
  shows "case run_state (gpunvme_dma_alloc_host E n (Some b)) h of ((err, b'), h') \<Rightarrow>
      if err = GPUNVME_OK then held h' = (Pinned, db_vaddr (the b')) # held h \<and> db_size (the b') = n
        \<and> held (snd (run_state (gpunvme_dma_free b') h')) = held h
      else held h' = held h"
proof (cases "n = 0 \<or> he_alloc E h Pinned n = None")
  case True
  then show ?thesis by (auto simp: gpunvme_dma_alloc_host_def host_alloc_def)
next
  case False
  then obtain p where p: "he_alloc E h Pinned n = Some p" "p \<noteq> 0" using nonnull_allocD[OF assms] by auto
  let ?h = "HMemset p n # HAlloc Pinned n (Some p) # h"
  obtain r h' where "run_state (gpunvme_virt_to_phys E p) ?h = (r, h')" "held h' = held ?h"
    by (rule run_virt_to_phys)
  then show ?thesis
    using False p by (simp add: gpunvme_dma_alloc_host_def host_alloc_def gpunvme_dma_free_def host_free_def dma_buf_zero_def)
qed

lemma alloc_gpu_balanced:
  assumes "nonnull_alloc E"
  shows "case run_state (gpunvme_dma_alloc_gpu E n (Some b)) h of ((err, b'), h') \<Rightarrow>
      if err = GPUNVME_OK then held h' = (Device, db_vaddr (the b')) # held h \<and> db_size (the b') = n
        \<and> held (snd (run_state (gpunvme_dma_free b') h')) = held h
      else held h' = held h"
  using nonnull_allocD[OF assms, of h Device n]
  by (cases "he_alloc E h Device n")
    (auto simp: gpunvme_dma_alloc_gpu_def host_alloc_def gpunvme_dma_free_def host_free_def dma_buf_zero_def)

lemma prp_capacity: "unat n \<le> unat (prp_list_bytes n) div 8"
proof -
  have "unat (ucast n * 8 :: u64) = unat n * 8"
    using unat_bound[of n] by (simp add: unat_word_ariths)
  moreover have "unat (4096 :: u64) = 4096" by simp
  ultimately show ?thesis
    by (auto simp: prp_list_bytes_def Let_def word_less_nat_alt simp del: unsigned_numeral)
qed

lemma prp_list_balanced:
  assumes "nonnull_alloc E"
  shows "case run_state (gpunvme_prp_list_alloc E (Some pl) max_pages) h of ((err, p'), h') \<Rightarrow>
      open_files h' = open_files h \<and>
      (if err = GPUNVME_OK
       then unat (pl_max_entries (the p')) \<le> length (pl_entries (the p'))
        \<and> held (snd (run_state (gpunvme_prp_list_free p') h')) = held h
        \<and> registered (snd (run_state (gpunvme_prp_list_free p') h')) = registered h
       else held h' = held h \<and> registered h' = registered h)"
proof (cases "max_pages = 0")
  case True
  then show ?thesis by (simp add: gpunvme_prp_list_alloc_def)
next
  case False
  define n_entries where "n_entries = prp_n_entries max_pages"
  define bytes where "bytes = prp_list_bytes n_entries"
  have cap: "unat n_entries \<le> unat bytes div 8" unfolding bytes_def by (rule prp_capacity)
  note defs = gpunvme_prp_list_alloc_def host_alloc_def cuda_host_register_def host_free_def
    Let_def n_entries_def[symmetric] bytes_def[symmetric]
  show ?thesis
  proof (cases "he_alloc E h Aligned bytes")
    case None
    then show ?thesis using False by (simp add: defs)
  next
    case (Some p)
    have p0: "p \<noteq> 0" using nonnull_allocD[OF assms] Some by blast
    let ?h = "HMlock p bytes # HAlloc Aligned bytes (Some p) # h"
    let ?h1 = "HMemset p bytes # HRegister p bytes True # ?h"
    obtain r h' where v: "run_state (gpunvme_virt_to_phys E p) ?h1 = (r, h')" "held h' = held ?h1"
        "registered h' = registered ?h1" "open_files h' = open_files ?h1"
      by (rule run_virt_to_phys)
    show ?thesis
      using False Some p0 v cap by (cases "he_register E ?h p"; cases r)
        (simp_all add: defs gpunvme_prp_list_free_def prp_list_zero_def)
  qed
qed

text \<open>DMA buffers and PRP lists are balanced: an allocation that fails leaves no memory,
  registration or file behind, and freeing a successful one gives back all of it; a list has room
  for the entries it announces.\<close>

theorem dma_resources_balanced:
  assumes "nonnull_alloc E"
  shows "(case run_state (gpunvme_dma_alloc_host E n (Some b)) h of ((err, b'), h') \<Rightarrow>
      if err = GPUNVME_OK then held h' = (Pinned, db_vaddr (the b')) # held h \<and> db_size (the b') = n
        \<and> held (snd (run_state (gpunvme_dma_free b') h')) = held h
      else held h' = held h)
   \<and> (case run_state (gpunvme_dma_alloc_gpu E n (Some b)) h of ((err, b'), h') \<Rightarrow>
      if err = GPUNVME_OK then held h' = (Device, db_vaddr (the b')) # held h \<and> db_size (the b') = n
        \<and> held (snd (run_state (gpunvme_dma_free b') h')) = held h
      else held h' = held h)
   \<and> (case run_state (gpunvme_prp_list_alloc E (Some p) max_pages) h of ((err, p'), h') \<Rightarrow>
      open_files h' = open_files h \<and>
      (if err = GPUNVME_OK
       then unat (pl_max_entries (the p')) \<le> length (pl_entries (the p'))
        \<and> held (snd (run_state (gpunvme_prp_list_free p') h')) = held h
        \<and> registered (snd (run_state (gpunvme_prp_list_free p') h')) = registered h
       else held h' = held h \<and> registered h' = registered h))"
  by (intro conjI alloc_host_balanced[OF assms] alloc_gpu_balanced[OF assms] prp_list_balanced[OF assms])

lemma example_nonnull: "nonnull_alloc example_host"
proof -
  have "bit (push_bit 20 1 OR push_bit 21 w :: u64) 20" for w by (simp add: bit_simps)
  then have "push_bit 20 1 OR push_bit 21 w \<noteq> (0 :: u64)" for w by (metis bit_0_eq bot_apply bot_bool_def)
  then show ?thesis unfolding nonnull_alloc_def example_host_def by (simp only: henv.simps option.inject) simp
qed

theorem dma_resources_balanced_witness:
  "case run_state (gpunvme_prp_list_alloc example_host (Some prp_list_zero) 3) [] of ((err, p'), h') \<Rightarrow>
     err = GPUNVME_OK \<and> held (snd (run_state (gpunvme_prp_list_free p') h')) = []"
proof -
  have "fst (fst (run_state (gpunvme_prp_list_alloc example_host (Some prp_list_zero) 3) [])) = GPUNVME_OK"
    using virt_to_phys_result[OF example_pagemap]
    by (simp add: gpunvme_prp_list_alloc_def host_alloc_def cuda_host_register_def Let_def
        example_host_def phys_of_def example_pt_def split_def)
  then show ?thesis
    using dma_resources_balanced[OF example_nonnull, where n = 1 and b = dma_buf_zero and h = "[]" and p = prp_list_zero and max_pages = 3] by (simp add: split_def)
qed

end
