(* ===== verification/Controller.thy ===== *)
theory Controller
  imports Dma_Alloc Gpu_Queue
begin

text \<open>
  Controller initialisation, the admin queue and shutdown (\<^verbatim>\<open>src/host/controller.c\<close>). Diagnostic
  output is not modelled. A bounded polling loop is a recursion over the number of passes left.
  Shifts by 32 or more, which are undefined in C, give 0 in the model.
\<close>

section \<open>State\<close>

record gpunvme_ctrl =
  c_bar0 :: u64
  c_bar0_gpu :: u64
  c_bar0_size :: u64
  c_cap :: u64
  c_dstrd :: u8
  c_page_size :: u32
  c_timeout_ms :: u32
  c_max_queue_entries :: u16
  c_admin_sq :: u64
  c_admin_cq :: u64
  c_admin_sq_phys :: u64
  c_admin_cq_phys :: u64
  c_admin_sq_size :: u16
  c_admin_cq_size :: u16
  c_admin_sq_tail :: u16
  c_admin_cq_head :: u16
  c_admin_cq_phase :: u8
  c_admin_cid :: u16
  c_ns_size_blocks :: u32
  c_block_size :: u32
  c_mdts :: u8
  c_max_transfer_bytes :: u32
  c_model :: "u8 list"
  c_serial :: "u8 list"
  c_firmware :: "u8 list"

definition ctrl_zero :: gpunvme_ctrl where
  "ctrl_zero = \<lparr>c_bar0 = 0, c_bar0_gpu = 0, c_bar0_size = 0, c_cap = 0, c_dstrd = 0, c_page_size = 0,
     c_timeout_ms = 0, c_max_queue_entries = 0, c_admin_sq = 0, c_admin_cq = 0, c_admin_sq_phys = 0,
     c_admin_cq_phys = 0, c_admin_sq_size = 0, c_admin_cq_size = 0, c_admin_sq_tail = 0,
     c_admin_cq_head = 0, c_admin_cq_phase = 0, c_admin_cid = 0, c_ns_size_blocks = 0,
     c_block_size = 0, c_mdts = 0, c_max_transfer_bytes = 0, c_model = replicate 41 0,
     c_serial = replicate 21 0, c_firmware = replicate 9 0\<rparr>"

section \<open>Waiting for the controller\<close>

fun wait_csts_loop :: "nat \<Rightarrow> henv \<Rightarrow> u64 \<Rightarrow> u32 \<Rightarrow> gpunvme_err host" where
  "wait_csts_loop 0 E bar0 target = State_Monad.return GPUNVME_ERR_TIMEOUT"
| "wait_csts_loop (Suc n) E bar0 target = do {
     csts \<leftarrow> host_mmio_read32 E (nvme_reg_ptr bar0 NVME_REG_CSTS);
     if fld_get csts_cfs csts \<noteq> 0 then State_Monad.return GPUNVME_ERR_CTRL_FATAL
     else if fld_get csts_rdy csts = target then State_Monad.return GPUNVME_OK
     else do { log_ev HSleep; wait_csts_loop n E bar0 target }
   }"

definition wait_csts_rdy :: "henv \<Rightarrow> u64 \<Rightarrow> u32 \<Rightarrow> u32 \<Rightarrow> gpunvme_err host" where
  "wait_csts_rdy E bar0 target timeout_ms = wait_csts_loop (unat timeout_ms) E bar0 target"

section \<open>The admin queue\<close>

definition admin_advance_cq :: "gpunvme_ctrl \<Rightarrow> gpunvme_ctrl" where
  "admin_advance_cq c =
    (let c = c\<lparr>c_admin_cq_head := c_admin_cq_head c + 1\<rparr>
     in if c_admin_cq_head c \<ge> c_admin_cq_size c
        then c\<lparr>c_admin_cq_head := 0, c_admin_cq_phase := c_admin_cq_phase c XOR 1\<rparr> else c)"

fun admin_poll_loop ::
    "nat \<Rightarrow> henv \<Rightarrow> gpunvme_ctrl \<Rightarrow> (gpunvme_err \<times> u32 option \<times> gpunvme_ctrl) host" where
  "admin_poll_loop 0 E c = State_Monad.return (GPUNVME_ERR_TIMEOUT, None, c)"
| "admin_poll_loop (Suc n) E c = do {
     let slot = unat (c_admin_cq_head c);
     e \<leftarrow> ask (\<lambda>h. he_cqe E h (c_admin_cq c) slot) (HGetCqe (c_admin_cq c) slot);
     let sp = cqe_status_phase e;
     if NVME_CQE_PHASE sp = ucast (c_admin_cq_phase c) then do {
       let status = NVME_CQE_SC sp;
       e \<leftarrow> ask (\<lambda>h. he_cqe E h (c_admin_cq c) slot) (HGetCqe (c_admin_cq c) slot);
       let c = admin_advance_cq c;
       host_mmio_write32 (nvme_reg_ptr (c_bar0 c) (nvme_cq_doorbell_offset 0 (c_dstrd c)))
         (ucast (c_admin_cq_head c));
       State_Monad.return (if status \<noteq> 0 then GPUNVME_ERR_NVME_STATUS else GPUNVME_OK, Some (cqe_cdw0 e), c)
     }
     else do { log_ev HSleep; admin_poll_loop n E c }
   }"

definition admin_submit_body ::
    "henv \<Rightarrow> gpunvme_ctrl \<Rightarrow> nvme_sq_entry \<Rightarrow> (gpunvme_err \<times> u32 option \<times> gpunvme_ctrl) host" where
  "admin_submit_body E c cmd = do {
     log_ev (HPutSqe (c_admin_sq c) (unat (c_admin_sq_tail c)) cmd);
     let c = c\<lparr>c_admin_sq_tail :=
       ucast ((ucast (c_admin_sq_tail c) + 1 :: u32) mod ucast (c_admin_sq_size c))\<rparr>;
     host_mmio_write32 (nvme_reg_ptr (c_bar0 c) (nvme_sq_doorbell_offset 0 (c_dstrd c)))
       (ucast (c_admin_sq_tail c));
     admin_poll_loop (unat (c_timeout_ms c * 1000)) E c
   }"

definition gpunvme_admin_submit ::
    "henv \<Rightarrow> gpunvme_ctrl option \<Rightarrow> nvme_sq_entry option \<Rightarrow>
     (gpunvme_err \<times> u32 option \<times> gpunvme_ctrl option) host" where
  "gpunvme_admin_submit E ctrl cmd =
    (case (ctrl, cmd) of
       (Some c, Some e) \<Rightarrow> do {
         (err, cdw0, c) \<leftarrow> admin_submit_body E c e;
         State_Monad.return (err, cdw0, Some c)
       }
     | _ \<Rightarrow> State_Monad.return (GPUNVME_ERR_INVALID_PARAM, None, ctrl))"

section \<open>Identify\<close>

text \<open>The trimming loop runs from the last character down: it is a recursion on the reversed
  string.\<close>

fun trim_rev :: "u8 list \<Rightarrow> u8 list" where
  "trim_rev [] = []"
| "trim_rev (x # xs) = (if x = 0x20 then 0 # trim_rev xs else x # xs)"

definition trim_spaces :: "u8 list \<Rightarrow> u8 list" where
  "trim_spaces xs = rev (trim_rev (rev xs))"

definition ctrl_max_transfer :: "u32 \<Rightarrow> u8 \<Rightarrow> u32" where
  "ctrl_max_transfer page_size mdts =
    (if mdts > 0 then page_size * push_bit (unat mdts) 1 else push_bit 20 1)"

definition ctrl_parse_identify :: "u8 list \<Rightarrow> gpunvme_ctrl \<Rightarrow> gpunvme_ctrl" where
  "ctrl_parse_identify idb c =
    (let mdts = idb ! 77
     in c\<lparr>c_serial := trim_spaces (take 20 (drop 4 idb)) @ [0],
          c_model := trim_spaces (take 40 (drop 24 idb)) @ [0],
          c_firmware := take 8 (drop 64 idb) @ [0],
          c_mdts := mdts,
          c_max_transfer_bytes := ctrl_max_transfer (c_page_size c) mdts\<rparr>)"

definition ctrl_parse_namespace :: "u8 list \<Rightarrow> gpunvme_ctrl \<Rightarrow> gpunvme_ctrl" where
  "ctrl_parse_namespace ns c =
    (let nsze = bytes_u64 ns 0;
         flbas = ns ! 26;
         lba_idx = flbas AND 0x0F;
         lbaf = bytes_u32 ns (128 + unat lba_idx * 4);
         lba_ds = drop_bit 16 lbaf AND 0xFF
     in c\<lparr>c_ns_size_blocks := ucast nsze, c_block_size := push_bit (unat lba_ds) 1\<rparr>)"

text \<open>Steps 9 and 10: the error is the one that ends the initialisation; a failed command does
  not.\<close>

definition ctrl_identify ::
    "henv \<Rightarrow> (u16 \<Rightarrow> u64 \<Rightarrow> nvme_sq_entry) \<Rightarrow> (u8 list \<Rightarrow> gpunvme_ctrl \<Rightarrow> gpunvme_ctrl) \<Rightarrow> gpunvme_ctrl \<Rightarrow>
     (gpunvme_err \<times> gpunvme_ctrl) host" where
  "ctrl_identify E build parse c = do {
     r \<leftarrow> host_alloc E Pinned 4096;
     case r of
       None \<Rightarrow> State_Monad.return (GPUNVME_ERR_NOMEM, c)
     | Some buf \<Rightarrow> do {
         ret \<leftarrow> gpunvme_virt_to_phys E buf;
         let phys = (case ret of Inr p \<Rightarrow> p | Inl _ \<Rightarrow> 0);
         let cmd = build (c_admin_cid c) phys;
         let c = c\<lparr>c_admin_cid := c_admin_cid c + 1\<rparr>;
         (err, cdw0, c) \<leftarrow> admin_submit_body E c cmd;
         c \<leftarrow> (if err = GPUNVME_OK then do {
                 bs \<leftarrow> ask (\<lambda>h. he_bytes E h buf 4096) (HGetBytes buf 4096);
                 State_Monad.return (parse bs c)
               } else State_Monad.return c);
         host_free Pinned buf;
         State_Monad.return (GPUNVME_OK, c)
       }
   }"

section \<open>Initialisation\<close>

text \<open>Steps 1 to 3: read the capabilities, disable the controller and wait.\<close>

definition ctrl_read_cap :: "u64 \<Rightarrow> gpunvme_ctrl \<Rightarrow> gpunvme_ctrl" where
  "ctrl_read_cap cap c = c\<lparr>c_cap := cap, c_dstrd := ucast (fld_get cap_dstrd cap),
     c_timeout_ms := ucast (fld_get cap_to cap) * 500,
     c_max_queue_entries := ucast (fld_get cap_mqes cap) + 1,
     c_page_size := push_bit (12 + unat (fld_get cap_mpsmin cap)) 1\<rparr>"

definition ctrl_disable :: "henv \<Rightarrow> gpunvme_ctrl \<Rightarrow> gpunvme_err host" where
  "ctrl_disable E c = do {
     cc \<leftarrow> host_mmio_read32 E (nvme_reg_ptr (c_bar0 c) NVME_REG_CC);
     if fld_get cc_en cc \<noteq> 0 then do {
       host_mmio_write32 (nvme_reg_ptr (c_bar0 c) NVME_REG_CC) (fld_set cc_en 0 cc);
       wait_csts_rdy E (c_bar0 c) 0 (c_timeout_ms c)
     } else State_Monad.return GPUNVME_OK
   }"

text \<open>Step 4: allocate the admin queues and resolve their addresses.\<close>

definition ctrl_alloc_admin :: "henv \<Rightarrow> gpunvme_ctrl \<Rightarrow> (gpunvme_err \<times> gpunvme_ctrl) host" where
  "ctrl_alloc_admin E c = do {
     let c = c\<lparr>c_admin_sq_size := 32, c_admin_cq_size := 32\<rparr>;
     let sq_bytes = (ucast (c_admin_sq_size c) * 64 :: u64);
     let cq_bytes = (ucast (c_admin_cq_size c) * 16 :: u64);
     let sq_bytes = (if sq_bytes < 4096 then 4096 else sq_bytes);
     let cq_bytes = (if cq_bytes < 4096 then 4096 else cq_bytes);
     r \<leftarrow> host_alloc E Pinned sq_bytes;
     case r of
       None \<Rightarrow> State_Monad.return (GPUNVME_ERR_NOMEM, c)
     | Some sq \<Rightarrow> do {
         let c = c\<lparr>c_admin_sq := sq\<rparr>;
         log_ev (HMemset sq sq_bytes);
         r \<leftarrow> host_alloc E Pinned cq_bytes;
         case r of
           None \<Rightarrow> do { host_free Pinned sq; State_Monad.return (GPUNVME_ERR_NOMEM, c) }
         | Some cq \<Rightarrow> do {
             let c = c\<lparr>c_admin_cq := cq\<rparr>;
             log_ev (HMemset cq cq_bytes);
             ret \<leftarrow> gpunvme_virt_to_phys E sq;
             case ret of
               Inl err \<Rightarrow> State_Monad.return (err, c)
             | Inr p \<Rightarrow> do {
                 let c = c\<lparr>c_admin_sq_phys := p\<rparr>;
                 ret \<leftarrow> gpunvme_virt_to_phys E cq;
                 State_Monad.return (case ret of
                   Inl err \<Rightarrow> (err, c)
                 | Inr p \<Rightarrow> (GPUNVME_OK, c\<lparr>c_admin_cq_phys := p\<rparr>))
               }
           }
       }
   }"

text \<open>Steps 5 to 8: program the admin queue registers and enable the controller.\<close>

definition cc_config :: u32 where
  "cc_config = fld_set cc_iocqes 4 (fld_set cc_iosqes 6 (fld_set cc_shn NVME_CC_SHN_NONE
     (fld_set cc_ams 0 (fld_set cc_mps 0 (fld_set cc_css 0 (fld_set cc_en 0 0))))))"

definition ctrl_enable :: "henv \<Rightarrow> gpunvme_ctrl \<Rightarrow> gpunvme_err host" where
  "ctrl_enable E c = do {
     let aqa = fld_set aqa_acqs (ucast (c_admin_cq_size c - 1))
       (fld_set aqa_asqs (ucast (c_admin_sq_size c - 1)) 0);
     host_mmio_write32 (nvme_reg_ptr (c_bar0 c) NVME_REG_AQA) aqa;
     host_mmio_write64 (nvme_reg_ptr (c_bar0 c) NVME_REG_ASQ) (c_admin_sq_phys c);
     host_mmio_write64 (nvme_reg_ptr (c_bar0 c) NVME_REG_ACQ) (c_admin_cq_phys c);
     let cc = cc_config;
     host_mmio_write32 (nvme_reg_ptr (c_bar0 c) NVME_REG_CC) cc;
     let cc = fld_set cc_en 1 cc;
     host_mmio_write32 (nvme_reg_ptr (c_bar0 c) NVME_REG_CC) cc;
     wait_csts_rdy E (c_bar0 c) 1 (c_timeout_ms c)
   }"

definition gpunvme_ctrl_init ::
    "henv \<Rightarrow> gpunvme_ctrl option \<Rightarrow> u64 \<Rightarrow> u64 \<Rightarrow> (gpunvme_err \<times> gpunvme_ctrl option) host" where
  "gpunvme_ctrl_init E ctrl bar0 bar0_size =
    (if ctrl = None \<or> bar0 = 0 then State_Monad.return (GPUNVME_ERR_INVALID_PARAM, ctrl)
     else do {
       let c = ctrl_zero\<lparr>c_bar0 := bar0, c_bar0_size := bar0_size\<rparr>;
       cap \<leftarrow> host_mmio_read64 E (nvme_reg_ptr bar0 NVME_REG_CAP);
       let c = ctrl_read_cap cap c;
       err \<leftarrow> ctrl_disable E c;
       if err \<noteq> GPUNVME_OK then State_Monad.return (err, Some c)
       else do {
         (err, c) \<leftarrow> ctrl_alloc_admin E c;
         if err \<noteq> GPUNVME_OK then State_Monad.return (err, Some c)
         else do {
           err \<leftarrow> ctrl_enable E c;
           if err \<noteq> GPUNVME_OK then State_Monad.return (err, Some c)
           else do {
             let c = c\<lparr>c_admin_sq_tail := 0, c_admin_cq_head := 0, c_admin_cq_phase := 1, c_admin_cid := 0\<rparr>;
             (err, c) \<leftarrow> ctrl_identify E (nvme_cmd_identify_controller sqe_zero) ctrl_parse_identify c;
             if err \<noteq> GPUNVME_OK then State_Monad.return (err, Some c)
             else do {
               (err, c) \<leftarrow> ctrl_identify E (\<lambda>cid. nvme_cmd_identify_namespace sqe_zero cid 1)
                 ctrl_parse_namespace c;
               State_Monad.return (err, Some c)
             }
           }
         }
       }
     })"

section \<open>Shutdown and status\<close>

fun wait_shutdown_loop :: "nat \<Rightarrow> henv \<Rightarrow> u64 \<Rightarrow> unit host" where
  "wait_shutdown_loop 0 E bar0 = State_Monad.return ()"
| "wait_shutdown_loop (Suc n) E bar0 = do {
     csts \<leftarrow> host_mmio_read32 E (nvme_reg_ptr bar0 NVME_REG_CSTS);
     if fld_get csts_shst csts = NVME_CSTS_SHST_COMPLETE then State_Monad.return ()
     else do { log_ev HSleep; wait_shutdown_loop n E bar0 }
   }"

definition gpunvme_ctrl_shutdown ::
    "henv \<Rightarrow> gpunvme_ctrl option \<Rightarrow> (gpunvme_err \<times> gpunvme_ctrl option) host" where
  "gpunvme_ctrl_shutdown E ctrl =
    (case ctrl of
       None \<Rightarrow> State_Monad.return (GPUNVME_ERR_INVALID_PARAM, None)
     | Some c \<Rightarrow>
        if c_bar0 c = 0 then State_Monad.return (GPUNVME_ERR_INVALID_PARAM, ctrl)
        else do {
          cc \<leftarrow> host_mmio_read32 E (nvme_reg_ptr (c_bar0 c) NVME_REG_CC);
          host_mmio_write32 (nvme_reg_ptr (c_bar0 c) NVME_REG_CC) (fld_set cc_shn NVME_CC_SHN_NORMAL cc);
          wait_shutdown_loop (unat (c_timeout_ms c)) E (c_bar0 c);
          cc \<leftarrow> host_mmio_read32 E (nvme_reg_ptr (c_bar0 c) NVME_REG_CC);
          host_mmio_write32 (nvme_reg_ptr (c_bar0 c) NVME_REG_CC) (fld_set cc_en 0 cc);
          (if c_admin_sq c \<noteq> 0 then host_free Pinned (c_admin_sq c) else State_Monad.return ());
          (if c_admin_cq c \<noteq> 0 then host_free Pinned (c_admin_cq c) else State_Monad.return ());
          State_Monad.return (GPUNVME_OK, Some (c\<lparr>c_admin_sq := 0, c_admin_cq := 0\<rparr>))
        })"

definition gpunvme_ctrl_is_fatal :: "henv \<Rightarrow> gpunvme_ctrl option \<Rightarrow> u32 host" where
  "gpunvme_ctrl_is_fatal E ctrl =
    (case ctrl of
       None \<Rightarrow> State_Monad.return 1
     | Some c \<Rightarrow>
        if c_bar0 c = 0 then State_Monad.return 1
        else do {
          csts \<leftarrow> host_mmio_read32 E (nvme_reg_ptr (c_bar0 c) NVME_REG_CSTS);
          State_Monad.return (fld_get csts_cfs csts)
        })"

section \<open>The admin completion ring\<close>

interpretation admin_cq: phase_ring "\<lambda>c. unat (c_admin_cq_size c)" "\<lambda>c. unat (c_admin_cq_head c)"
  c_admin_cq_phase admin_advance_cq
proof
  fix c :: gpunvme_ctrl
  show "unat (c_admin_cq_size (admin_advance_cq c)) = unat (c_admin_cq_size c)"
    by (simp add: admin_advance_cq_def Let_def)
  assume lt: "unat (c_admin_cq_head c) < unat (c_admin_cq_size c)"
  then have s: "unat (c_admin_cq_head c + 1) = Suc (unat (c_admin_cq_head c))"
    using unsigned_less[of "c_admin_cq_size c"] by (intro unat_succ_lt) auto
  then have "c_admin_cq_head c + 1 \<ge> c_admin_cq_size c
      \<longleftrightarrow> Suc (unat (c_admin_cq_head c)) = unat (c_admin_cq_size c)"
    using lt by (auto simp: word_le_nat_alt)
  then show "unat (c_admin_cq_head (admin_advance_cq c)) =
      (if Suc (unat (c_admin_cq_head c)) = unat (c_admin_cq_size c) then 0 else Suc (unat (c_admin_cq_head c)))"
    and "c_admin_cq_phase (admin_advance_cq c) =
      (if Suc (unat (c_admin_cq_head c)) = unat (c_admin_cq_size c) then c_admin_cq_phase c XOR 1
       else c_admin_cq_phase c)"
    using s by (auto simp: admin_advance_cq_def Let_def)
qed

lemma admin_advance_simps [simp]:
  "c_bar0 (admin_advance_cq c) = c_bar0 c" "c_dstrd (admin_advance_cq c) = c_dstrd c"
  "c_admin_sq (admin_advance_cq c) = c_admin_sq c" "c_admin_cq (admin_advance_cq c) = c_admin_cq c"
  "c_admin_sq_tail (admin_advance_cq c) = c_admin_sq_tail c"
  "c_admin_sq_size (admin_advance_cq c) = c_admin_sq_size c"
  "c_admin_cq_size (admin_advance_cq c) = c_admin_cq_size c"
  "c_admin_cid (admin_advance_cq c) = c_admin_cid c"
  "c_timeout_ms (admin_advance_cq c) = c_timeout_ms c"
  "c_max_queue_entries (admin_advance_cq c) = c_max_queue_entries c"
  "c_block_size (admin_advance_cq c) = c_block_size c" "c_bar0_gpu (admin_advance_cq c) = c_bar0_gpu c"
  "c_page_size (admin_advance_cq c) = c_page_size c"
  by (simp_all add: admin_advance_cq_def Let_def)

section \<open>Waiting\<close>

lemma wait_csts_loop_keeps:
  assumes "run_state (wait_csts_loop n E bar0 target) h = (err, h')"
  shows "resources h' = resources h" "mmio_writes h' = mmio_writes h" "posted a h' = posted a h"
    "err \<noteq> GPUNVME_OK \<longrightarrow> err = GPUNVME_ERR_CTRL_FATAL \<or> err = GPUNVME_ERR_TIMEOUT"
  using assms
  by (induction n arbitrary: h) (auto simp: host_mmio_read32_def split: if_splits)

lemma wait_shutdown_loop_keeps:
  "resources (snd (run_state (wait_shutdown_loop n E bar0) h)) = resources h"
  "mmio_writes (snd (run_state (wait_shutdown_loop n E bar0) h)) = mmio_writes h"
  by (induction n arbitrary: h) (auto simp: host_mmio_read32_def)

section \<open>Admin commands\<close>

abbreviation admin_sq_db :: "gpunvme_ctrl \<Rightarrow> u64" where
  "admin_sq_db c \<equiv> nvme_reg_ptr (c_bar0 c) (nvme_sq_doorbell_offset 0 (c_dstrd c))"
abbreviation admin_cq_db :: "gpunvme_ctrl \<Rightarrow> u64" where
  "admin_cq_db c \<equiv> nvme_reg_ptr (c_bar0 c) (nvme_cq_doorbell_offset 0 (c_dstrd c))"

text \<open>How an admin command ends: in a timeout with nothing changed, or with the entry at the head of
  the completion queue that carried the expected phase; then the head advances and its doorbell is
  written, and the status code decides the result.\<close>

definition admin_completed :: "henv \<Rightarrow> gpunvme_ctrl \<Rightarrow> gpunvme_err \<Rightarrow> gpunvme_ctrl \<Rightarrow> bool" where
  "admin_completed E c err c' \<longleftrightarrow> c' = admin_advance_cq c \<and>
     (\<exists>h1 sp. sp = cqe_status_phase (he_cqe E h1 (c_admin_cq c) (unat (c_admin_cq_head c)))
        \<and> NVME_CQE_PHASE sp = ucast (c_admin_cq_phase c)
        \<and> err = (if NVME_CQE_SC sp = 0 then GPUNVME_OK else GPUNVME_ERR_NVME_STATUS))"

definition admin_outcome :: "henv \<Rightarrow> gpunvme_ctrl \<Rightarrow> gpunvme_err \<Rightarrow> gpunvme_ctrl \<Rightarrow> (u64 \<times> u32) list \<Rightarrow> bool" where
  "admin_outcome E c err c' writes \<longleftrightarrow>
     (err = GPUNVME_ERR_TIMEOUT \<and> c' = c \<and> writes = [])
   \<or> (admin_completed E c err c' \<and> writes = [(admin_cq_db c, ucast (c_admin_cq_head c'))])"

lemma admin_poll_loop_outcome:
  assumes "run_state (admin_poll_loop n E c) h = ((err, cdw0, c'), h')"
  shows "\<exists>ws. admin_outcome E c err c' ws \<and> mmio_writes h' = mmio_writes h @ ws
    \<and> resources h' = resources h \<and> (\<forall>a. posted a h' = posted a h)"
  using assms
proof (induction n arbitrary: h)
  case 0
  then show ?case by (auto simp: admin_outcome_def)
next
  case (Suc n)
  let ?slot = "unat (c_admin_cq_head c)"
  let ?e = "he_cqe E h (c_admin_cq c) ?slot"
  show ?case
  proof (cases "NVME_CQE_PHASE (cqe_status_phase ?e) = ucast (c_admin_cq_phase c)")
    case True
    then have "admin_completed E c err c'"
      using Suc.prems by (auto simp: Let_def admin_completed_def host_mmio_write32_def intro!: exI[of _ h])
    then show ?thesis
      using Suc.prems True by (auto simp: Let_def admin_outcome_def host_mmio_write32_def)
  next
    case False
    then have "run_state (admin_poll_loop n E c) (HSleep # HGetCqe (c_admin_cq c) ?slot ?e # h) = ((err, cdw0, c'), h')"
      using Suc.prems by (simp add: Let_def)
    from Suc.IH[OF this] show ?thesis by simp
  qed
qed

text \<open>The controller record after the submission of an admin command.\<close>

definition admin_submitted :: "gpunvme_ctrl \<Rightarrow> gpunvme_ctrl" where
  "admin_submitted c = c\<lparr>c_admin_sq_tail :=
     ucast ((ucast (c_admin_sq_tail c) + 1 :: u32) mod ucast (c_admin_sq_size c))\<rparr>"

lemma admin_submit_outcome:
  assumes "run_state (admin_submit_body E c cmd) h = ((err, cdw0, c'), h')"
  shows "\<exists>ws. admin_outcome E (admin_submitted c) err c' ws
    \<and> mmio_writes h' = mmio_writes h @ (admin_sq_db c, ucast (c_admin_sq_tail (admin_submitted c))) # ws
    \<and> resources h' = resources h
    \<and> (\<forall>a. posted a h' = posted a h @ (if a = c_admin_sq c then [cmd] else []))"
proof -
  let ?h = "HWrite32 (admin_sq_db c) (ucast (c_admin_sq_tail (admin_submitted c)))
    # HPutSqe (c_admin_sq c) (unat (c_admin_sq_tail c)) cmd # h"
  have "run_state (admin_poll_loop (unat (c_timeout_ms c * 1000)) E (admin_submitted c)) ?h = ((err, cdw0, c'), h')"
    using assms by (simp add: admin_submit_body_def Let_def host_mmio_write32_def admin_submitted_def)
  from admin_poll_loop_outcome[OF this] show ?thesis by auto
qed

text \<open>The part of the controller record that the commands leave alone.\<close>

definition ctrl_core ::
    "gpunvme_ctrl \<Rightarrow> (u64 \<times> u64 \<times> u64 \<times> u64) \<times> (u8 \<times> u32 \<times> u32 \<times> u16) \<times> (u64 \<times> u64 \<times> u64 \<times> u64) \<times> u16 \<times> u16" where
  "ctrl_core c = ((c_bar0 c, c_bar0_gpu c, c_bar0_size c, c_cap c),
     (c_dstrd c, c_page_size c, c_timeout_ms c, c_max_queue_entries c),
     (c_admin_sq c, c_admin_cq c, c_admin_sq_phys c, c_admin_cq_phys c), c_admin_sq_size c, c_admin_cq_size c)"

lemma ctrl_core_simps [simp]:
  "ctrl_core (admin_advance_cq c) = ctrl_core c" "ctrl_core (admin_submitted c) = ctrl_core c"
  "ctrl_core (ctrl_parse_identify bs c) = ctrl_core c" "ctrl_core (ctrl_parse_namespace bs c) = ctrl_core c"
  "ctrl_core (c\<lparr>c_admin_cid := i\<rparr>) = ctrl_core c"
  "ctrl_core (c\<lparr>c_admin_sq_tail := t\<rparr>) = ctrl_core c" "ctrl_core (c\<lparr>c_admin_cq_head := k\<rparr>) = ctrl_core c"
  "ctrl_core (c\<lparr>c_admin_cq_phase := ph\<rparr>) = ctrl_core c"
  by (simp_all add: ctrl_core_def admin_advance_cq_def admin_submitted_def ctrl_parse_identify_def
      ctrl_parse_namespace_def Let_def)

lemma ctrl_core_eqD:
  assumes "ctrl_core c' = ctrl_core c"
  shows "c_bar0 c' = c_bar0 c" "c_dstrd c' = c_dstrd c" "c_admin_sq c' = c_admin_sq c"
    "c_admin_cq c' = c_admin_cq c" "c_timeout_ms c' = c_timeout_ms c"
    "c_max_queue_entries c' = c_max_queue_entries c" "c_bar0_gpu c' = c_bar0_gpu c"
    "c_admin_sq_size c' = c_admin_sq_size c" "c_admin_cq_size c' = c_admin_cq_size c"
  using assms by (simp_all add: ctrl_core_def)

lemma admin_submit_core:
  assumes "run_state (admin_submit_body E c cmd) h = ((err, cdw0, c'), h')"
  shows "ctrl_core c' = ctrl_core c" "c_admin_cid c' = c_admin_cid c"
proof -
  obtain ws where "admin_outcome E (admin_submitted c) err c' ws"
    using admin_submit_outcome[OF assms] by blast
  then have "c' = admin_submitted c \<or> c' = admin_advance_cq (admin_submitted c)"
    by (auto simp: admin_outcome_def admin_completed_def)
  moreover have "c_admin_cid (admin_submitted c) = c_admin_cid c" by (simp add: admin_submitted_def)
  ultimately show "ctrl_core c' = ctrl_core c" "c_admin_cid c' = c_admin_cid c" by auto
qed

text \<open>The registers that admin commands write are the two admin doorbells.\<close>

definition admin_doorbell_writes :: "gpunvme_ctrl \<Rightarrow> (u64 \<times> u32) list \<Rightarrow> bool" where
  "admin_doorbell_writes c ws \<longleftrightarrow> list_all (\<lambda>(a, v). a = admin_sq_db c \<or> a = admin_cq_db c) ws"

lemma admin_doorbell_writes_simps [simp]:
  "admin_doorbell_writes c []"
  "admin_doorbell_writes c (ws @ ws') \<longleftrightarrow> admin_doorbell_writes c ws \<and> admin_doorbell_writes c ws'"
  by (simp_all add: admin_doorbell_writes_def)

lemma admin_doorbell_writes_cong:
  assumes "ctrl_core c' = ctrl_core c"
  shows "admin_doorbell_writes c' ws = admin_doorbell_writes c ws"
  using ctrl_core_eqD(1,2)[OF assms] by (simp add: admin_doorbell_writes_def)

lemma admin_submit_writes:
  assumes "run_state (admin_submit_body E c cmd) h = ((err, cdw0, c'), h')"
  shows "\<exists>ws. admin_doorbell_writes c ws \<and> mmio_writes h' = mmio_writes h @ ws \<and> resources h' = resources h"
proof -
  obtain ws where "admin_outcome E (admin_submitted c) err c' ws" "resources h' = resources h"
    "mmio_writes h' = mmio_writes h @ (admin_sq_db c, ucast (c_admin_sq_tail (admin_submitted c))) # ws"
    using admin_submit_outcome[OF assms] by blast
  moreover have "admin_cq_db (admin_submitted c) = admin_cq_db c" by (simp add: admin_submitted_def)
  ultimately show ?thesis
    by (intro exI[of _ "(admin_sq_db c, ucast (c_admin_sq_tail (admin_submitted c))) # ws"])
      (auto simp: admin_outcome_def admin_doorbell_writes_def)
qed

section \<open>The steps of the initialisation\<close>

lemma ctrl_identify_facts:
  assumes "run_state (ctrl_identify E build parse c) h = ((err, c'), h')"
    and parse: "\<And>bs c. ctrl_core (parse bs c) = ctrl_core c"
  shows "ctrl_core c' = ctrl_core c" "resources h' = resources h"
    "err = GPUNVME_OK \<or> err = GPUNVME_ERR_NOMEM"
    "\<exists>ws. admin_doorbell_writes c ws \<and> mmio_writes h' = mmio_writes h @ ws"
proof -
  have "ctrl_core c' = ctrl_core c \<and> resources h' = resources h
    \<and> (err = GPUNVME_OK \<or> err = GPUNVME_ERR_NOMEM)
    \<and> (\<exists>ws. admin_doorbell_writes c ws \<and> mmio_writes h' = mmio_writes h @ ws)"
  proof (cases "he_alloc E h Pinned 4096")
    case None
    then show ?thesis
      using assms(1) by (auto simp: ctrl_identify_def host_alloc_def resources_def intro!: exI[of _ "[]"])
  next
    case (Some buf)
    let ?h = "HAlloc Pinned 4096 (Some buf) # h"
    obtain r h1 where v: "run_state (gpunvme_virt_to_phys E buf) ?h = (r, h1)"
        "mmio_writes h1 = mmio_writes ?h" "resources h1 = resources ?h"
      by (rule run_virt_to_phys)
    let ?c = "c\<lparr>c_admin_cid := c_admin_cid c + 1\<rparr>"
    let ?cmd = "build (c_admin_cid c) (case r of Inr p \<Rightarrow> p | Inl _ \<Rightarrow> 0)"
    obtain err2 cdw0 c2 h2 where sub: "run_state (admin_submit_body E ?c ?cmd) h1 = ((err2, cdw0, c2), h2)"
      by (metis prod_cases3 surj_pair)
    note core = admin_submit_core[OF sub]
    obtain ws where ws: "admin_doorbell_writes ?c ws" "mmio_writes h2 = mmio_writes h1 @ ws" "resources h2 = resources h1"
      using admin_submit_writes[OF sub] by blast
    have "admin_doorbell_writes c ws"
      using ws(1) admin_doorbell_writes_cong[of ?c c ws] by simp
    then show ?thesis
      using assms(1) Some v sub core ws parse
      by (auto simp: ctrl_identify_def host_alloc_def host_free_def Let_def resources_def split: if_splits
          intro!: exI[of _ ws])
  qed
  then show "ctrl_core c' = ctrl_core c" "resources h' = resources h"
    "err = GPUNVME_OK \<or> err = GPUNVME_ERR_NOMEM"
    "\<exists>ws. admin_doorbell_writes c ws \<and> mmio_writes h' = mmio_writes h @ ws"
    by auto
qed

lemma ctrl_disable_facts:
  assumes "run_state (ctrl_disable E c) h = (err, h')"
  shows "resources h' = resources h"
    "\<exists>ws. mmio_writes h' = mmio_writes h @ ws \<and>
       (ws = [] \<or> (\<exists>cc. ws = [(nvme_reg_ptr (c_bar0 c) NVME_REG_CC, fld_set cc_en 0 cc)]))"
    "posted a h' = posted a h"
proof -
  let ?a = "nvme_reg_ptr (c_bar0 c) NVME_REG_CC"
  let ?cc = "he_read32 E h ?a"
  have "resources h' = resources h \<and> posted a h' = posted a h \<and> (\<exists>ws. mmio_writes h' = mmio_writes h @ ws \<and>
       (ws = [] \<or> (\<exists>cc. ws = [(?a, fld_set cc_en 0 cc)])))"
  proof (cases "fld_get cc_en ?cc = 0")
    case True
    then show ?thesis
      using assms by (auto simp: ctrl_disable_def host_mmio_read32_def)
  next
    case False
    let ?h = "HWrite32 ?a (fld_set cc_en 0 ?cc) # HRead32 ?a ?cc # h"
    have "run_state (wait_csts_loop (unat (c_timeout_ms c)) E (c_bar0 c) 0) ?h = (err, h')"
      using assms False by (simp add: ctrl_disable_def host_mmio_read32_def host_mmio_write32_def wait_csts_rdy_def)
    note w = wait_csts_loop_keeps[OF this]
    then show ?thesis by auto
  qed
  then show "resources h' = resources h" "posted a h' = posted a h"
    "\<exists>ws. mmio_writes h' = mmio_writes h @ ws \<and> (ws = [] \<or> (\<exists>cc. ws = [(?a, fld_set cc_en 0 cc)]))"
    by auto
qed

text \<open>The admin queues after a successful allocation; a failed allocation keeps nothing, while a
  failed address translation leaves both queues allocated.\<close>

lemma ctrl_alloc_admin_facts:
  assumes "run_state (ctrl_alloc_admin E c) h = ((err, c'), h')"
  shows "mmio_writes h' = mmio_writes h" "c_bar0 c' = c_bar0 c" "c_dstrd c' = c_dstrd c"
    "c_timeout_ms c' = c_timeout_ms c" "c_admin_sq_size c' = 32" "c_admin_cq_size c' = 32"
    "c_max_queue_entries c' = c_max_queue_entries c"
    "resources h' = resources h \<and> err = GPUNVME_ERR_NOMEM
     \<or> resources h' = ((Pinned, c_admin_cq c') # (Pinned, c_admin_sq c') # held h, registered h, open_files h)"
    "c_page_size c' = c_page_size c"
proof -
  have "mmio_writes h' = mmio_writes h \<and> c_bar0 c' = c_bar0 c \<and> c_dstrd c' = c_dstrd c
    \<and> c_timeout_ms c' = c_timeout_ms c \<and> c_admin_sq_size c' = 32 \<and> c_admin_cq_size c' = 32
    \<and> c_max_queue_entries c' = c_max_queue_entries c
    \<and> (resources h' = resources h \<and> err = GPUNVME_ERR_NOMEM
     \<or> resources h' = ((Pinned, c_admin_cq c') # (Pinned, c_admin_sq c') # held h, registered h, open_files h))
    \<and> c_page_size c' = c_page_size c"
  proof (cases "he_alloc E h Pinned 4096")
    case None
    then show ?thesis using assms by (auto simp: ctrl_alloc_admin_def Let_def host_alloc_def resources_def)
  next
    case (Some sq)
    let ?h1 = "HMemset sq 4096 # HAlloc Pinned 4096 (Some sq) # h"
    show ?thesis
    proof (cases "he_alloc E ?h1 Pinned 4096")
      case None
      with Some show ?thesis
        using assms by (auto simp: ctrl_alloc_admin_def Let_def host_alloc_def host_free_def resources_def)
    next
      case (Some cq)
      let ?h2 = "HMemset cq 4096 # HAlloc Pinned 4096 (Some cq) # ?h1"
      obtain r h3 where r: "run_state (gpunvme_virt_to_phys E sq) ?h2 = (r, h3)"
          "mmio_writes h3 = mmio_writes ?h2" "resources h3 = resources ?h2"
        by (rule run_virt_to_phys)
      obtain r' h4 where r': "run_state (gpunvme_virt_to_phys E cq) h3 = (r', h4)"
          "mmio_writes h4 = mmio_writes h3" "resources h4 = resources h3"
        by (rule run_virt_to_phys)
      show ?thesis
        using assms \<open>he_alloc E h Pinned 4096 = Some sq\<close> Some r r'
        by (cases r; cases r') (auto simp: ctrl_alloc_admin_def Let_def host_alloc_def resources_def)
    qed
  qed
  then show "mmio_writes h' = mmio_writes h" "c_bar0 c' = c_bar0 c" "c_dstrd c' = c_dstrd c"
    "c_timeout_ms c' = c_timeout_ms c" "c_admin_sq_size c' = 32" "c_admin_cq_size c' = 32"
    "c_max_queue_entries c' = c_max_queue_entries c"
    "resources h' = resources h \<and> err = GPUNVME_ERR_NOMEM
     \<or> resources h' = ((Pinned, c_admin_cq c') # (Pinned, c_admin_sq c') # held h, registered h, open_files h)"
    "c_page_size c' = c_page_size c"
    by blast+
qed

text \<open>The register writes that enable the controller, in the order of the specification: the
  queue attributes, the two base addresses, the configuration with EN clear, then EN set.\<close>

definition enable_writes :: "u64 \<Rightarrow> u64 \<Rightarrow> u64 \<Rightarrow> (u64 \<times> u32) list" where
  "enable_writes bar0 asq acq =
    [(nvme_reg_ptr bar0 NVME_REG_AQA, 0x001F001F),
     (nvme_reg_ptr bar0 NVME_REG_ASQ, ucast asq), (nvme_reg_ptr bar0 NVME_REG_ASQ + 4, ucast (drop_bit 32 asq)),
     (nvme_reg_ptr bar0 NVME_REG_ACQ, ucast acq), (nvme_reg_ptr bar0 NVME_REG_ACQ + 4, ucast (drop_bit 32 acq)),
     (nvme_reg_ptr bar0 NVME_REG_CC, 0x00460000), (nvme_reg_ptr bar0 NVME_REG_CC, 0x00460001)]"

lemma ucast_low_half: "(ucast (w AND 0xFFFFFFFF :: u64) :: u32) = ucast w"
proof -
  have "(0xFFFFFFFF :: u64) = mask 32" by (simp add: mask_eq_exp_minus_1)
  moreover have "(ucast (w AND mask 32) :: u32) = ucast w" by (rule bit_eqI) (auto simp: bit_simps)
  ultimately show ?thesis by simp
qed

lemma ctrl_enable_facts:
  assumes "run_state (ctrl_enable E c) h = (err, h')" and "c_admin_sq_size c = 32" and "c_admin_cq_size c = 32"
  shows "resources h' = resources h"
    "mmio_writes h' = mmio_writes h @ enable_writes (c_bar0 c) (c_admin_sq_phys c) (c_admin_cq_phys c)"
    "err = GPUNVME_OK \<or> err = GPUNVME_ERR_CTRL_FATAL \<or> err = GPUNVME_ERR_TIMEOUT"
proof -
  let ?b = "c_bar0 c"
  have cfg: "cc_config = 0x00460000" "fld_set cc_en 1 0x00460000 = (0x00460001 :: u32)"
    "fld_set aqa_acqs 0x1F (fld_set aqa_asqs 0x1F 0) = (0x001F001F :: u32)"
    by (simp_all add: cc_config_def fld_set_def reg_defs mask_eq_exp_minus_1 )
  obtain h1 where h1: "run_state (wait_csts_loop (unat (c_timeout_ms c)) E ?b 1) h1 = (err, h')"
    "resources h1 = resources h" "mmio_writes h1 = mmio_writes h @ enable_writes ?b (c_admin_sq_phys c) (c_admin_cq_phys c)"
    using assms
    by (auto simp: ctrl_enable_def host_mmio_write32_def host_mmio_write64_def wait_csts_rdy_def cfg
        enable_writes_def ucast_low_half)
  then show "resources h' = resources h"
    "mmio_writes h' = mmio_writes h @ enable_writes ?b (c_admin_sq_phys c) (c_admin_cq_phys c)"
    "err = GPUNVME_OK \<or> err = GPUNVME_ERR_CTRL_FATAL \<or> err = GPUNVME_ERR_TIMEOUT"
    using wait_csts_loop_keeps[OF h1(1)] by auto
qed

lemma ctrl_read_cap_simps [simp]:
  "c_bar0 (ctrl_read_cap w c) = c_bar0 c" "c_admin_sq (ctrl_read_cap w c) = c_admin_sq c"
  "c_admin_cq (ctrl_read_cap w c) = c_admin_cq c"
  by (simp_all add: ctrl_read_cap_def)

text \<open>What a successful initialisation went through.\<close>

definition ctrl_start :: "u64 \<Rightarrow> u64 \<Rightarrow> u64 \<Rightarrow> gpunvme_ctrl" where
  "ctrl_start bar0 n w = ctrl_read_cap w (ctrl_zero\<lparr>c_bar0 := bar0, c_bar0_size := n\<rparr>)"

lemma ctrl_init_cases:
  assumes "run_state (gpunvme_ctrl_init E (Some c0) bar0 n) h = ((err, r), h')" and "bar0 \<noteq> 0"
  obtains (disable) w where
      "run_state (ctrl_disable E (ctrl_start bar0 n w)) (HRead64 (nvme_reg_ptr bar0 NVME_REG_CAP) w # h) = (err, h')"
      "err \<noteq> GPUNVME_OK"
  | (alloc) w h1 c1 where
      "run_state (ctrl_disable E (ctrl_start bar0 n w)) (HRead64 (nvme_reg_ptr bar0 NVME_REG_CAP) w # h) = (GPUNVME_OK, h1)"
      "run_state (ctrl_alloc_admin E (ctrl_start bar0 n w)) h1 = ((err, c1), h')" "r = Some c1" "err \<noteq> GPUNVME_OK"
  | (enable) w h1 c1 h2 where
      "run_state (ctrl_disable E (ctrl_start bar0 n w)) (HRead64 (nvme_reg_ptr bar0 NVME_REG_CAP) w # h) = (GPUNVME_OK, h1)"
      "run_state (ctrl_alloc_admin E (ctrl_start bar0 n w)) h1 = ((GPUNVME_OK, c1), h2)"
      "run_state (ctrl_enable E c1) h2 = (err, h')" "r = Some c1" "err \<noteq> GPUNVME_OK"
  | (identify) w h1 c1 h2 h3 c4 where
      "run_state (ctrl_disable E (ctrl_start bar0 n w)) (HRead64 (nvme_reg_ptr bar0 NVME_REG_CAP) w # h) = (GPUNVME_OK, h1)"
      "run_state (ctrl_alloc_admin E (ctrl_start bar0 n w)) h1 = ((GPUNVME_OK, c1), h2)"
      "run_state (ctrl_enable E c1) h2 = (GPUNVME_OK, h3)"
      "run_state (ctrl_identify E (nvme_cmd_identify_controller sqe_zero) ctrl_parse_identify
        (c1\<lparr>c_admin_sq_tail := 0, c_admin_cq_head := 0, c_admin_cq_phase := 1, c_admin_cid := 0\<rparr>)) h3
       = ((err, c4), h')" "r = Some c4" "err \<noteq> GPUNVME_OK"
  | (namespace) w h1 c1 h2 h3 c4 h4 c5 where
      "run_state (ctrl_disable E (ctrl_start bar0 n w)) (HRead64 (nvme_reg_ptr bar0 NVME_REG_CAP) w # h) = (GPUNVME_OK, h1)"
      "run_state (ctrl_alloc_admin E (ctrl_start bar0 n w)) h1 = ((GPUNVME_OK, c1), h2)"
      "run_state (ctrl_enable E c1) h2 = (GPUNVME_OK, h3)"
      "run_state (ctrl_identify E (nvme_cmd_identify_controller sqe_zero) ctrl_parse_identify
        (c1\<lparr>c_admin_sq_tail := 0, c_admin_cq_head := 0, c_admin_cq_phase := 1, c_admin_cid := 0\<rparr>)) h3
       = ((GPUNVME_OK, c4), h4)"
      "run_state (ctrl_identify E (\<lambda>cid. nvme_cmd_identify_namespace sqe_zero cid 1) ctrl_parse_namespace c4) h4
       = ((err, c5), h')" "r = Some c5"
proof -
  let ?w = "he_read64 E h (nvme_reg_ptr bar0 NVME_REG_CAP)"
  let ?h = "HRead64 (nvme_reg_ptr bar0 NVME_REG_CAP) ?w # h"
  obtain e1 h1 where 1: "run_state (ctrl_disable E (ctrl_start bar0 n ?w)) ?h = (e1, h1)"
    by (metis surj_pair)
  obtain e2 c1 h2 where 2: "run_state (ctrl_alloc_admin E (ctrl_start bar0 n ?w)) h1 = ((e2, c1), h2)"
    by (metis surj_pair)
  obtain e3 h3 where 3: "run_state (ctrl_enable E c1) h2 = (e3, h3)"
    by (metis surj_pair)
  let ?c1 = "c1\<lparr>c_admin_sq_tail := 0, c_admin_cq_head := 0, c_admin_cq_phase := 1, c_admin_cid := 0\<rparr>"
  obtain e4 c4 h4 where 4: "run_state (ctrl_identify E (nvme_cmd_identify_controller sqe_zero) ctrl_parse_identify ?c1) h3
      = ((e4, c4), h4)"
    by (metis surj_pair)
  obtain e5 c5 h5 where 5: "run_state (ctrl_identify E (\<lambda>cid. nvme_cmd_identify_namespace sqe_zero cid 1) ctrl_parse_namespace c4) h4
      = ((e5, c5), h5)"
    by (metis surj_pair)
  note run = assms(1)[unfolded gpunvme_ctrl_init_def host_mmio_read64_def Let_def, folded ctrl_start_def]
  show ?thesis
  proof (cases "e1 = GPUNVME_OK")
    case False
    then show ?thesis using run assms(2) 1 by (intro disable[of ?w]) auto
  next
    case t1: True
    show ?thesis
    proof (cases "e2 = GPUNVME_OK")
      case False
      then show ?thesis using run assms(2) 1 2 t1 by (intro alloc[of ?w]) auto
    next
      case t2: True
      show ?thesis
      proof (cases "e3 = GPUNVME_OK")
        case False
        then show ?thesis using run assms(2) 1 2 3 t1 t2 by (intro enable[of ?w]) auto
      next
        case t3: True
        show ?thesis
        proof (cases "e4 = GPUNVME_OK")
          case False
          then show ?thesis using run assms(2) 1 2 3 4 t1 t2 t3 by (intro identify[of ?w]) auto
        next
          case t4: True
          then show ?thesis using run assms(2) 1 2 3 4 5 t1 t2 t3 by (intro namespace[of ?w]) auto
        qed
      qed
    qed
  qed
qed

lemma ctrl_start_simps [simp]: "c_bar0 (ctrl_start bar0 n w) = bar0"
  by (simp add: ctrl_start_def)

lemmas identify_keeps = ctrl_identify_facts[OF _ ctrl_core_simps(3)] ctrl_identify_facts[OF _ ctrl_core_simps(4)]

text \<open>The admin queues are the only resources an initialisation can leave behind.\<close>

definition holds_admin :: "hev list \<Rightarrow> gpunvme_ctrl \<Rightarrow> hev list \<Rightarrow> bool" where
  "holds_admin h c h' \<longleftrightarrow>
     resources h' = ((Pinned, c_admin_cq c) # (Pinned, c_admin_sq c) # held h, registered h, open_files h)"

lemma holds_admin_cong:
  assumes "ctrl_core c' = ctrl_core c"
  shows "holds_admin h c' = holds_admin h c"
  using ctrl_core_eqD(3,4)[OF assms] by (simp add: holds_admin_def fun_eq_iff)

lemma ctrl_alloc_ok:
  assumes "run_state (ctrl_alloc_admin E c) h = ((GPUNVME_OK, c'), h')"
  shows "holds_admin h c' h'"
  using ctrl_alloc_admin_facts(8)[OF assms] by (simp add: holds_admin_def)

lemma holds_admin_resources:
  "resources h = resources h0 \<Longrightarrow> holds_admin h c h' \<Longrightarrow> holds_admin h0 c h'"
  "resources h1 = resources h' \<Longrightarrow> holds_admin h c h' \<Longrightarrow> holds_admin h c h1"
  by (simp_all add: holds_admin_def resources_def)

text \<open>Every way the initialisation can end.\<close>

lemma ctrl_init_resources:
  assumes "run_state (gpunvme_ctrl_init E (Some c0) bar0 n) h = ((err, r), h')" and "bar0 \<noteq> 0"
  shows "err \<noteq> GPUNVME_OK \<and> resources h' = resources h \<or> (\<exists>c. r = Some c \<and> holds_admin h c h')"
  using assms
proof (cases rule: ctrl_init_cases)
  case (disable w)
  then show ?thesis using ctrl_disable_facts(1) by fastforce
next
  case (alloc w h1 c1)
  then show ?thesis
    using ctrl_disable_facts(1)[OF alloc(1)] ctrl_alloc_admin_facts(8)[OF alloc(2)]
    by (auto simp: holds_admin_def resources_def)
next
  case (enable w h1 c1 h2)
  have "holds_admin h c1 h'"
    using ctrl_disable_facts(1)[OF enable(1)] ctrl_alloc_ok[OF enable(2)]
      ctrl_alloc_admin_facts(5,6)[OF enable(2)] ctrl_enable_facts(1)[OF enable(3)]
    by (auto simp: holds_admin_def resources_def)
  then show ?thesis using enable(4) by blast
next
  case (identify w h1 c1 h2 h3 c4)
  have "holds_admin h c1 h3"
    using ctrl_disable_facts(1)[OF identify(1)] ctrl_alloc_ok[OF identify(2)]
      ctrl_alloc_admin_facts(5,6)[OF identify(2)] ctrl_enable_facts(1)[OF identify(3)]
    by (auto simp: holds_admin_def resources_def)
  then show ?thesis
    using identify(5) identify_keeps(1,2)[OF identify(4)] holds_admin_cong[of c4 c1 h]
      holds_admin_resources(2)[of h' h3 h c1] by simp
next
  case (namespace w h1 c1 h2 h3 c4 h4 c5)
  have "holds_admin h c1 h3"
    using ctrl_disable_facts(1)[OF namespace(1)] ctrl_alloc_ok[OF namespace(2)]
      ctrl_alloc_admin_facts(5,6)[OF namespace(2)] ctrl_enable_facts(1)[OF namespace(3)]
    by (auto simp: holds_admin_def resources_def)
  then show ?thesis
    using namespace(6) identify_keeps(1,2)[OF namespace(4)] identify_keeps(5,6)[OF namespace(5)]
      holds_admin_cong[of c5 c1 h] holds_admin_resources(2)[of h' h3 h c1] by simp
qed

lemma ctrl_init_ok:
  assumes "run_state (gpunvme_ctrl_init E (Some c0) bar0 n) h = ((GPUNVME_OK, r), h')" and "bar0 \<noteq> 0"
  shows "\<exists>c pre post. r = Some c \<and> c_bar0 c = bar0 \<and> c_admin_sq_size c = 32 \<and> c_admin_cq_size c = 32
    \<and> mmio_writes h' = mmio_writes h @ pre @ enable_writes bar0 (c_admin_sq_phys c) (c_admin_cq_phys c) @ post
    \<and> (pre = [] \<or> (\<exists>cc. pre = [(nvme_reg_ptr bar0 NVME_REG_CC, fld_set cc_en 0 cc)]))
    \<and> admin_doorbell_writes c post"
  using assms
proof (cases rule: ctrl_init_cases)
  case (namespace w h1 c1 h2 h3 c4 h4 c5)
  note id4 = identify_keeps(1,4)[OF namespace(4)] and id5 = identify_keeps(5,8)[OF namespace(5)]
  have core: "ctrl_core c5 = ctrl_core c1" "ctrl_core c4 = ctrl_core c1" using id4 id5 by simp_all
  let ?c1 = "c1\<lparr>c_admin_sq_tail := 0, c_admin_cq_head := 0, c_admin_cq_phase := 1, c_admin_cid := 0\<rparr>"
  obtain ws where ws: "admin_doorbell_writes ?c1 ws" "mmio_writes h4 = mmio_writes h3 @ ws"
    using id4(2) by blast
  obtain ws' where ws': "admin_doorbell_writes c4 ws'" "mmio_writes h' = mmio_writes h4 @ ws'"
    using id5(2) by blast
  obtain pre where pre: "mmio_writes h1 = mmio_writes h @ pre"
      "pre = [] \<or> (\<exists>cc. pre = [(nvme_reg_ptr bar0 NVME_REG_CC, fld_set cc_en 0 cc)])"
    using ctrl_disable_facts(2)[OF namespace(1)] by auto
  have "admin_doorbell_writes c5 (ws @ ws')"
    using ws(1) ws'(1) admin_doorbell_writes_cong[of ?c1 c5 ws] admin_doorbell_writes_cong[of c4 c5 ws'] core by simp
  moreover have "mmio_writes h' = mmio_writes h @ pre @ enable_writes bar0 (c_admin_sq_phys c1) (c_admin_cq_phys c1) @ ws @ ws'"
    using ws(2) ws'(2) pre(1) ctrl_alloc_admin_facts(1,2,5,6)[OF namespace(2)] ctrl_enable_facts(2)[OF namespace(3)] by simp
  moreover have "c_admin_sq_phys c5 = c_admin_sq_phys c1" "c_admin_cq_phys c5 = c_admin_cq_phys c1"
      "c_bar0 c5 = bar0" "c_admin_sq_size c5 = 32" "c_admin_cq_size c5 = 32"
    using core(1) ctrl_alloc_admin_facts(2,5,6)[OF namespace(2)] by (simp_all add: ctrl_core_def)
  ultimately show ?thesis using namespace(6) pre(2) by metis
qed simp_all

section \<open>Controllers that answer\<close>

text \<open>How long the host has waited since its last register write, in sleeps, and the last value it
  wrote to a register.\<close>

fun quiet :: "hev list \<Rightarrow> nat" where
  "quiet [] = 0"
| "quiet (HWrite32 a v # h) = 0"
| "quiet (HSleep # h) = Suc (quiet h)"
| "quiet (_ # h) = quiet h"

fun last_write :: "u64 \<Rightarrow> hev list \<Rightarrow> u32" where
  "last_write r [] = 0"
| "last_write r (HWrite32 a v # h) = (if a = r then v else last_write r h)"
| "last_write r (_ # h) = last_write r h"

text \<open>CSTS.RDY follows CC.EN, and is stable, after \<open>d\<close> sleeps; the controller does not report a
  fatal status.\<close>

definition rdy_follows :: "henv \<Rightarrow> u64 \<Rightarrow> nat \<Rightarrow> bool" where
  "rdy_follows E bar0 d \<longleftrightarrow> (\<forall>h. fld_get csts_cfs (he_read32 E h (nvme_reg_ptr bar0 NVME_REG_CSTS)) = 0
     \<and> (d \<le> quiet h \<longrightarrow> fld_get csts_rdy (he_read32 E h (nvme_reg_ptr bar0 NVME_REG_CSTS))
          = fld_get cc_en (last_write (nvme_reg_ptr bar0 NVME_REG_CC) h)))"

text \<open>The controller answers the first commands of a fresh admin queue, all with success: after
  \<open>d\<close> sleeps the entries below the announced tail carry phase 1.\<close>

definition admin_answers :: "henv \<Rightarrow> u64 \<Rightarrow> nat \<Rightarrow> bool" where
  "admin_answers E bar0 d \<longleftrightarrow> (\<forall>h q k. let sp = cqe_status_phase (he_cqe E h q k) in
     (NVME_CQE_PHASE sp = 1 \<longrightarrow> NVME_CQE_SC sp = 0)
     \<and> (d \<le> quiet h \<and> k < unat (last_write (nvme_reg_ptr bar0 NVME_REG_DOORBELL_BASE) h) \<longrightarrow> NVME_CQE_PHASE sp = 1))"

definition memory_available :: "henv \<Rightarrow> bool" where
  "memory_available E \<longleftrightarrow> (\<forall>h k n. \<exists>p. he_alloc E h k n = Some p \<and> p \<noteq> 0)
     \<and> (\<forall>v h. v \<noteq> 0 \<longrightarrow> (\<exists>p h'. run_state (gpunvme_virt_to_phys E v) h = (Inr p, h')))"

lemma memory_availableE:
  assumes "memory_available E"
  obtains p where "he_alloc E h k n = Some p" "p \<noteq> 0"
  using assms unfolding memory_available_def by blast

lemma memory_available_phys:
  assumes "memory_available E" and "v \<noteq> 0"
  obtains p h' where "run_state (gpunvme_virt_to_phys E v) h = (Inr p, h')"
  using assms unfolding memory_available_def by blast

lemma wait_csts_ready:
  assumes "rdy_follows E bar0 d" and "d - quiet h < n"
    and "fld_get cc_en (last_write (nvme_reg_ptr bar0 NVME_REG_CC) h) = target"
  shows "fst (run_state (wait_csts_loop n E bar0 target) h) = GPUNVME_OK"
  using assms(2,3)
proof (induction n arbitrary: h)
  case (Suc n)
  let ?r = "nvme_reg_ptr bar0 NVME_REG_CSTS"
  let ?v = "he_read32 E h ?r"
  have f: "fld_get csts_cfs ?v = 0" and r: "d \<le> quiet h \<Longrightarrow> fld_get csts_rdy ?v = target"
    using assms(1) Suc.prems(2) by (auto simp: rdy_follows_def)
  show ?case
  proof (cases "fld_get csts_rdy ?v = target")
    case False
    with r have "\<not> d \<le> quiet h" by blast
    with Suc.prems have "fst (run_state (wait_csts_loop n E bar0 target) (HSleep # HRead32 ?r ?v # h)) = GPUNVME_OK"
      by (intro Suc.IH) auto
    then show ?thesis using False f by (simp add: host_mmio_read32_def)
  qed (simp add: host_mmio_read32_def f)
qed simp

lemma admin_poll_ready:
  assumes "admin_answers E (c_bar0 c) d" and "d - quiet h < n" and "c_admin_cq_phase c = 1"
    and "unat (c_admin_cq_head c) < unat (last_write (nvme_reg_ptr (c_bar0 c) NVME_REG_DOORBELL_BASE) h)"
  shows "\<exists>cdw0 h'. run_state (admin_poll_loop n E c) h = ((GPUNVME_OK, cdw0, admin_advance_cq c), h')"
  using assms(2,4)
proof (induction n arbitrary: h)
  case (Suc n)
  let ?k = "unat (c_admin_cq_head c)"
  let ?e = "he_cqe E h (c_admin_cq c) ?k"
  have f: "NVME_CQE_PHASE (cqe_status_phase ?e) = 1 \<Longrightarrow> NVME_CQE_SC (cqe_status_phase ?e) = 0"
    and r: "d \<le> quiet h \<Longrightarrow> NVME_CQE_PHASE (cqe_status_phase ?e) = 1"
    using assms(1) Suc.prems(2) by (auto simp: admin_answers_def Let_def)
  show ?case
  proof (cases "NVME_CQE_PHASE (cqe_status_phase ?e) = 1")
    case False
    with r have "\<not> d \<le> quiet h" by blast
    with Suc.prems have "\<exists>cdw0 h'. run_state (admin_poll_loop n E c) (HSleep # HGetCqe (c_admin_cq c) ?k ?e # h)
        = ((GPUNVME_OK, cdw0, admin_advance_cq c), h')"
      by (intro Suc.IH) auto
    then show ?thesis using False assms(3) by (simp add: Let_def)
  qed (use f assms(3) in \<open>simp add: Let_def host_mmio_write32_def\<close>)
qed simp

text \<open>With an answering controller the identification parses the data that the controller wrote.\<close>

lemma admin_queue_next:
  assumes "c_admin_sq_size c = 32" and "unat (c_admin_sq_tail c) < 31"
  shows "unat (c_admin_sq_tail (admin_submitted c)) = Suc (unat (c_admin_sq_tail c))"
  using assms by (simp add: admin_submitted_def unat_mod unat_word_ariths unsigned_ucast_eq take_bit_nat_eq_self)

lemma ctrl_disable_ready:
  assumes "rdy_follows E (c_bar0 c) d" and "d < unat (c_timeout_ms c)"
  shows "fst (run_state (ctrl_disable E c) h) = GPUNVME_OK"
proof (cases "fld_get cc_en (he_read32 E h (nvme_reg_ptr (c_bar0 c) NVME_REG_CC)) = 0")
  case False
  have "fld_get cc_en (fld_set cc_en 0 w) = 0" for w :: u32
    by (simp add: fld_get_set_same cc_en_def)
  then show ?thesis
    using assms False wait_csts_ready[OF assms(1), of _ "unat (c_timeout_ms c)" 0]
    by (simp add: ctrl_disable_def host_mmio_read32_def host_mmio_write32_def wait_csts_rdy_def)
qed (simp add: ctrl_disable_def host_mmio_read32_def)

lemma ctrl_alloc_ready:
  assumes "memory_available E"
  shows "\<exists>c' h'. run_state (ctrl_alloc_admin E c) h = ((GPUNVME_OK, c'), h')"
proof -
  obtain sq where 1: "he_alloc E h Pinned 4096 = Some sq" "sq \<noteq> 0" using memory_availableE[OF assms] .
  let ?h1 = "HMemset sq 4096 # HAlloc Pinned 4096 (Some sq) # h"
  obtain cq where 2: "he_alloc E ?h1 Pinned 4096 = Some cq" "cq \<noteq> 0" using memory_availableE[OF assms] .
  let ?h2 = "HMemset cq 4096 # HAlloc Pinned 4096 (Some cq) # ?h1"
  obtain p h3 where 3: "run_state (gpunvme_virt_to_phys E sq) ?h2 = (Inr p, h3)"
    using memory_available_phys[OF assms 1(2)] .
  obtain q h4 where 4: "run_state (gpunvme_virt_to_phys E cq) h3 = (Inr q, h4)"
    using memory_available_phys[OF assms 2(2)] .
  show ?thesis using 1 2 3 4 by (simp add: ctrl_alloc_admin_def Let_def host_alloc_def)
qed

lemma ctrl_enable_ready:
  assumes "rdy_follows E (c_bar0 c) d" and "d < unat (c_timeout_ms c)"
  shows "fst (run_state (ctrl_enable E c) h) = GPUNVME_OK"
proof -
  have "fld_get cc_en (fld_set cc_en 1 w) = 1" for w :: u32
    by (simp add: fld_get_set_same cc_en_def)
  then show ?thesis
    using assms(2) wait_csts_ready[OF assms(1), of _ "unat (c_timeout_ms c)" 1]
    by (simp add: ctrl_enable_def Let_def host_mmio_write32_def host_mmio_write64_def wait_csts_rdy_def)
qed

text \<open>The admin ring after a command, while it has not wrapped.\<close>

definition admin_fresh :: "nat \<Rightarrow> gpunvme_ctrl \<Rightarrow> bool" where
  "admin_fresh k c \<longleftrightarrow> c_admin_sq_size c = 32 \<and> c_admin_cq_size c = 32 \<and> c_admin_cq_phase c = 1
     \<and> unat (c_admin_sq_tail c) = k \<and> unat (c_admin_cq_head c) = k"

lemma admin_fresh_parse [simp]:
  "admin_fresh k (ctrl_parse_identify bs c) = admin_fresh k c" "admin_fresh k (ctrl_parse_namespace bs c) = admin_fresh k c"
  "admin_fresh k (c\<lparr>c_admin_cid := i\<rparr>) = admin_fresh k c"
  by (simp_all add: admin_fresh_def ctrl_parse_identify_def ctrl_parse_namespace_def Let_def)

lemma admin_fresh_next:
  assumes "admin_fresh k c" and "k < 31"
  shows "admin_fresh (Suc k) (admin_advance_cq (admin_submitted c))"
proof -
  have "admin_fresh k c \<Longrightarrow> unat (c_admin_cq_head c + 1) = Suc k"
    using assms(2) by (intro unat_succ_lt[where k = 32, THEN trans]) (auto simp: admin_fresh_def)
  then show ?thesis
    using assms admin_queue_next[of c]
    by (auto simp: admin_fresh_def admin_advance_cq_def Let_def admin_submitted_def word_le_nat_alt)
qed

lemma admin_submit_ready:
  assumes "admin_answers E (c_bar0 c) d" and "d < unat (c_timeout_ms c * 1000)"
    and "admin_fresh k c" and "k < 31"
  shows "\<exists>cdw0 h'. run_state (admin_submit_body E c cmd) h = ((GPUNVME_OK, cdw0, admin_advance_cq (admin_submitted c)), h')"
proof -
  let ?h = "HWrite32 (admin_sq_db c) (ucast (c_admin_sq_tail (admin_submitted c)))
    # HPutSqe (c_admin_sq c) (unat (c_admin_sq_tail c)) cmd # h"
  have sub: "admin_submit_body E c cmd = do { log_ev (HPutSqe (c_admin_sq c) (unat (c_admin_sq_tail c)) cmd);
      log_ev (HWrite32 (admin_sq_db c) (ucast (c_admin_sq_tail (admin_submitted c))));
      admin_poll_loop (unat (c_timeout_ms c * 1000)) E (admin_submitted c) }"
    by (simp add: admin_submit_body_def admin_submitted_def Let_def host_mmio_write32_def)
  have "\<exists>cdw0 h'. run_state (admin_poll_loop (unat (c_timeout_ms c * 1000)) E (admin_submitted c)) ?h
      = ((GPUNVME_OK, cdw0, admin_advance_cq (admin_submitted c)), h')"
    using assms admin_queue_next[of c]
    by (intro admin_poll_ready[where d = d])
      (auto simp: admin_fresh_def admin_submitted_def nvme_sq_doorbell_offset_def)
  then show ?thesis unfolding sub by auto
qed

lemma ctrl_identify_parses:
  assumes "memory_available E" and "admin_answers E (c_bar0 c) d" and "d < unat (c_timeout_ms c * 1000)"
    and "admin_fresh k c" and "k < 31"
  shows "\<exists>h1 buf p h'. run_state (ctrl_identify E build parse c) h =
      ((GPUNVME_OK, parse (he_bytes E h1 buf 4096) (admin_advance_cq (admin_submitted (c\<lparr>c_admin_cid := c_admin_cid c + 1\<rparr>)))), h')
    \<and> posted (c_admin_sq c) h1 = posted (c_admin_sq c) h @ [build (c_admin_cid c) p]"
proof -
  let ?c = "c\<lparr>c_admin_cid := c_admin_cid c + 1\<rparr>"
  obtain buf where buf: "he_alloc E h Pinned 4096 = Some buf" "buf \<noteq> 0"
    using memory_availableE[OF assms(1)] .
  let ?h = "HAlloc Pinned 4096 (Some buf) # h"
  obtain p h1 where p: "run_state (gpunvme_virt_to_phys E buf) ?h = (Inr p, h1)"
    using memory_available_phys[OF assms(1) buf(2)] .
  have h1p: "posted (c_admin_sq c) h1 = posted (c_admin_sq c) h"
    using p v2p.resolve_posted[of "c_admin_sq c" E buf ?h] by simp
  let ?cmd = "build (c_admin_cid c) p"
  obtain cdw0 h3 where run: "run_state (admin_submit_body E ?c ?cmd) h1
      = ((GPUNVME_OK, cdw0, admin_advance_cq (admin_submitted ?c)), h3)"
    using admin_submit_ready[of E ?c d k ?cmd h1] assms(2-5) by auto
  then have "posted (c_admin_sq c) h3 = posted (c_admin_sq c) h @ [?cmd]"
    using admin_submit_outcome[OF run] h1p by auto
  then show ?thesis
    using buf p run by (auto simp: ctrl_identify_def host_alloc_def host_free_def Let_def intro!: exI[of _ h3])
qed

lemma ctrl_start_timeout:
  "unat (c_timeout_ms (ctrl_start bar0 n w)) = 500 * unat (fld_get cap_to w)"
  "unat (c_timeout_ms (ctrl_start bar0 n w) * 1000) = 500000 * unat (fld_get cap_to w)"
proof -
  have "unat (fld_get cap_to w) < 2 ^ 8"
    using fld_get_bound[of cap_to w] by (simp add: cap_to_def)
  then show "unat (c_timeout_ms (ctrl_start bar0 n w)) = 500 * unat (fld_get cap_to w)"
    "unat (c_timeout_ms (ctrl_start bar0 n w) * 1000) = 500000 * unat (fld_get cap_to w)"
    by (simp_all add: ctrl_start_def ctrl_read_cap_def unat_word_ariths unsigned_ucast_eq take_bit_nat_eq_self)
qed

lemma ctrl_parse_namespace_simps [simp]:
  "c_block_size (ctrl_parse_namespace ns c) = push_bit (unat (drop_bit 16 (bytes_u32 ns (128 + unat (ns ! 26 AND 0x0F) * 4)) AND 0xFF)) 1"
  "c_ns_size_blocks (ctrl_parse_namespace ns c) = ucast (bytes_u64 ns 0)"
  "c_mdts (ctrl_parse_namespace ns c) = c_mdts c"
  "c_admin_sq (ctrl_parse_namespace ns c) = c_admin_sq c"
  by (simp_all add: ctrl_parse_namespace_def Let_def)

lemma ctrl_parse_identify_simps [simp]:
  "c_mdts (ctrl_parse_identify idb c) = idb ! 77" "c_admin_cid (ctrl_parse_identify idb c) = c_admin_cid c"
  "c_admin_sq (ctrl_parse_identify idb c) = c_admin_sq c" "c_bar0 (ctrl_parse_identify idb c) = c_bar0 c"
  "c_timeout_ms (ctrl_parse_identify idb c) = c_timeout_ms c"
  by (simp_all add: ctrl_parse_identify_def Let_def)

lemma admin_submitted_simps [simp]:
  "c_mdts (admin_submitted c) = c_mdts c" "c_admin_cid (admin_submitted c) = c_admin_cid c"
  "c_admin_sq (admin_submitted c) = c_admin_sq c" "c_bar0 (admin_submitted c) = c_bar0 c"
  "c_timeout_ms (admin_submitted c) = c_timeout_ms c" "c_mdts (admin_advance_cq c) = c_mdts c"
  by (simp_all add: admin_submitted_def admin_advance_cq_def Let_def)

text \<open>Steps 1 to 8 on a working machine, and the two identifications after them.\<close>

lemma ctrl_init_enabled:
  assumes "memory_available E" and "rdy_follows E bar0 d" and "bar0 \<noteq> 0"
    and "d < 500 * unat (fld_get cap_to (he_read64 E h (nvme_reg_ptr bar0 NVME_REG_CAP)))"
  obtains c h' where "admin_fresh 0 c" "c_bar0 c = bar0" "d < unat (c_timeout_ms c * 1000)" "c_admin_cid c = 0"
    "run_state (gpunvme_ctrl_init E (Some c0) bar0 n) h = run_state (do {
       (err, c) \<leftarrow> ctrl_identify E (nvme_cmd_identify_controller sqe_zero) ctrl_parse_identify c;
       if err \<noteq> GPUNVME_OK then State_Monad.return (err, Some c)
       else do {
         (err, c) \<leftarrow> ctrl_identify E (\<lambda>cid. nvme_cmd_identify_namespace sqe_zero cid 1) ctrl_parse_namespace c;
         State_Monad.return (err, Some c)
       }
     }) h'"
proof -
  let ?w = "he_read64 E h (nvme_reg_ptr bar0 NVME_REG_CAP)"
  let ?c = "ctrl_start bar0 n ?w"
  let ?h = "HRead64 (nvme_reg_ptr bar0 NVME_REG_CAP) ?w # h"
  have to: "d < unat (c_timeout_ms ?c)" "d < unat (c_timeout_ms ?c * 1000)"
    using assms(4) by (simp_all add: ctrl_start_timeout)
  obtain h1 where 1: "run_state (ctrl_disable E ?c) ?h = (GPUNVME_OK, h1)"
    using ctrl_disable_ready[of E ?c d ?h] assms(2) to by (metis ctrl_start_simps prod.collapse)
  obtain c1 h2 where 2: "run_state (ctrl_alloc_admin E ?c) h1 = ((GPUNVME_OK, c1), h2)"
    using ctrl_alloc_ready[OF assms(1)] by blast
  note c1 = ctrl_alloc_admin_facts(2,4,5,6)[OF 2]
  obtain h3 where 3: "run_state (ctrl_enable E c1) h2 = (GPUNVME_OK, h3)"
    using ctrl_enable_ready[of E c1 d h2] assms(2) to c1 by (metis ctrl_start_simps prod.collapse)
  let ?c1 = "c1\<lparr>c_admin_sq_tail := 0, c_admin_cq_head := 0, c_admin_cq_phase := 1, c_admin_cid := 0\<rparr>"
  show ?thesis
    using that[of ?c1 h3] assms(3) to c1 1 2 3
    by (simp add: admin_fresh_def gpunvme_ctrl_init_def Let_def host_mmio_read64_def ctrl_start_def[symmetric])
qed

lemma ctrl_identify_fresh:
  assumes "memory_available E" and "admin_answers E (c_bar0 c) d" and "d < unat (c_timeout_ms c * 1000)"
    and "admin_fresh k c" and "k < 31"
  obtains h1 buf p c1 h' where
    "run_state (ctrl_identify E build parse c) h = ((GPUNVME_OK, parse (he_bytes E h1 buf 4096) c1), h')"
    "last (posted (c_admin_sq c) h1) = build (c_admin_cid c) p" "admin_fresh (Suc k) c1"
    "c_bar0 c1 = c_bar0 c" "c_timeout_ms c1 = c_timeout_ms c" "c_admin_cid c1 = c_admin_cid c + 1"
    "c_admin_sq c1 = c_admin_sq c" "c_mdts c1 = c_mdts c" "c_max_transfer_bytes c1 = c_max_transfer_bytes c"
proof -
  let ?c = "c\<lparr>c_admin_cid := c_admin_cid c + 1\<rparr>"
  from ctrl_identify_parses[OF assms, of build parse h]
  obtain h1 buf p h' where
      "run_state (ctrl_identify E build parse c) h =
        ((GPUNVME_OK, parse (he_bytes E h1 buf 4096) (admin_advance_cq (admin_submitted ?c))), h')"
      "posted (c_admin_sq c) h1 = posted (c_admin_sq c) h @ [build (c_admin_cid c) p]"
    by blast
  moreover have "admin_fresh (Suc k) (admin_advance_cq (admin_submitted ?c))"
    using admin_fresh_next[of k ?c] assms(4,5) by simp
  ultimately show ?thesis
    using that[of h1 buf "admin_advance_cq (admin_submitted ?c)" h' p]
    by (simp add: admin_advance_cq_def admin_submitted_def Let_def)
qed

text \<open>An identification fails only for want of memory.\<close>

lemma ctrl_identify_memory:
  assumes "memory_available E"
  obtains c' h' where "run_state (ctrl_identify E build parse c) h = ((GPUNVME_OK, c'), h')"
proof -
  obtain buf where buf: "he_alloc E h Pinned 4096 = Some buf"
    using memory_availableE[OF assms] .
  have "fst (fst (run_state (ctrl_identify E build parse c) h)) = GPUNVME_OK"
    using buf by (simp add: ctrl_identify_def host_alloc_def host_free_def Let_def split_def)
  then show ?thesis using that by (metis prod.collapse)
qed

lemma ctrl_alloc_nonnull:
  assumes "run_state (ctrl_alloc_admin E c) h = ((GPUNVME_OK, c'), h')" and "nonnull_alloc E"
  shows "c_admin_sq c' \<noteq> 0" "c_admin_cq c' \<noteq> 0"
  using assms(1)
  by (auto simp: ctrl_alloc_admin_def host_alloc_def host_free_def Let_def split_def
      split: option.splits sum.splits dest: nonnull_allocD[OF assms(2)])

lemma ctrl_init_nonnull:
  assumes "run_state (gpunvme_ctrl_init E (Some c0) bar0 n) h = ((GPUNVME_OK, Some c), h')" and "bar0 \<noteq> 0"
    and "nonnull_alloc E"
  shows "c_admin_sq c \<noteq> 0 \<and> c_admin_cq c \<noteq> 0"
  using assms(1,2)
proof (cases rule: ctrl_init_cases)
  case (namespace w h1 c1 h2 h3 c4 h4 c5)
  then have "ctrl_core c = ctrl_core c1"
    using identify_keeps(1)[OF namespace(4)] identify_keeps(5)[OF namespace(5)] by simp
  then show ?thesis
    using ctrl_alloc_nonnull[OF namespace(2) assms(3)] ctrl_core_eqD(3,4)[of c c1] by simp
qed simp_all

lemma admin_submitted_tail:
  assumes "unat (c_admin_sq_tail c) < unat (c_admin_sq_size c)"
  shows "unat (c_admin_sq_tail (admin_submitted c)) = Suc (unat (c_admin_sq_tail c)) mod unat (c_admin_sq_size c)"
proof -
  let ?r = "(ucast (c_admin_sq_tail c) + 1 :: u32) mod ucast (c_admin_sq_size c)"
  have "unat (ucast (c_admin_sq_tail c) + 1 :: u32) = Suc (unat (c_admin_sq_tail c))"
    using unat_bound[of "c_admin_sq_tail c"] by (intro unat_succ_lt[where k = "2 ^ 16", THEN trans]) auto
  then have r: "unat ?r = Suc (unat (c_admin_sq_tail c)) mod unat (c_admin_sq_size c)"
    by (simp add: unat_mod)
  moreover have "Suc (unat (c_admin_sq_tail c)) mod unat (c_admin_sq_size c) < 2 ^ 16"
    using assms unat_bound[of "c_admin_sq_size c"] by (intro mod_less_divisor[THEN less_trans]) auto
  ultimately show ?thesis
    by (simp add: admin_submitted_def unsigned_ucast_eq take_bit_nat_eq_self)
qed

section \<open>Properties of the controller\<close>

lemma ctrl_init_page_size:
  assumes "run_state (gpunvme_ctrl_init E (Some c0) bar0 n) h = ((GPUNVME_OK, Some c), h')" and "bar0 \<noteq> 0"
  shows "c_page_size c \<noteq> 0"
  using assms
proof (cases rule: ctrl_init_cases)
  case (namespace w h1 c1 h2 h3 c4 h4 c5)
  have "ctrl_core c = ctrl_core c1"
    using namespace identify_keeps(1)[OF namespace(4)] identify_keeps(5)[OF namespace(5)] by simp
  then have "c_page_size c = c_page_size (ctrl_start bar0 n w)"
    using ctrl_alloc_admin_facts(9)[OF namespace(2)] by (simp add: ctrl_core_def)
  moreover have "12 + unat (fld_get cap_mpsmin w) < 32"
    using fld_get_bound[of cap_mpsmin w] by (simp add: cap_mpsmin_def)
  then have "bit (push_bit (12 + unat (fld_get cap_mpsmin w)) 1 :: u32) (12 + unat (fld_get cap_mpsmin w))"
    by (simp add: bit_simps)
  then have "(push_bit (12 + unat (fld_get cap_mpsmin w)) 1 :: u32) \<noteq> 0" by (metis bit_0_eq bot_apply bot_bool_def)
  ultimately show ?thesis by (simp add: ctrl_start_def ctrl_read_cap_def)
qed simp_all

lemma ctrl_init_works:
  assumes "memory_available E" and "rdy_follows E bar0 d" and "admin_answers E bar0 d" and "bar0 \<noteq> 0"
    and "\<And>h. d < 500 * unat (fld_get cap_to (he_read64 E h (nvme_reg_ptr bar0 NVME_REG_CAP)))"
  shows "\<exists>c h' h1 b1 p1 h2 b2 p2.
      run_state (gpunvme_ctrl_init E (Some c0) bar0 n) h = ((GPUNVME_OK, Some c), h')
    \<and> admin_fresh 2 c \<and> c_bar0 c = bar0 \<and> d < unat (c_timeout_ms c * 1000)
    \<and> (\<exists>ps. c_max_transfer_bytes c = ctrl_max_transfer ps (c_mdts c))
    \<and> last (posted (c_admin_sq c) h1) = nvme_cmd_identify_controller sqe_zero 0 p1
    \<and> c_mdts c = he_bytes E h1 b1 4096 ! 77
    \<and> last (posted (c_admin_sq c) h2) = nvme_cmd_identify_namespace sqe_zero 1 1 p2
    \<and> c_ns_size_blocks c = ucast (bytes_u64 (he_bytes E h2 b2 4096) 0)
    \<and> c_block_size c = (let ns = he_bytes E h2 b2 4096 in
        push_bit (unat (drop_bit 16 (bytes_u32 ns (128 + unat (ns ! 26 AND 0x0F) * 4)) AND 0xFF)) 1)"
proof -
  obtain c1 h3 where c1: "admin_fresh 0 c1" "c_bar0 c1 = bar0" "d < unat (c_timeout_ms c1 * 1000)" "c_admin_cid c1 = 0"
    and run: "run_state (gpunvme_ctrl_init E (Some c0) bar0 n) h = run_state (do {
       (err, c) \<leftarrow> ctrl_identify E (nvme_cmd_identify_controller sqe_zero) ctrl_parse_identify c1;
       if err \<noteq> GPUNVME_OK then State_Monad.return (err, Some c)
       else do {
         (err, c) \<leftarrow> ctrl_identify E (\<lambda>cid. nvme_cmd_identify_namespace sqe_zero cid 1) ctrl_parse_namespace c;
         State_Monad.return (err, Some c)
       }
     }) h3"
    by (rule ctrl_init_enabled[OF assms(1,2,4,5)])
  have "admin_answers E (c_bar0 c1) d" using assms(3) c1 by simp
  then obtain h4 b p c2 h5 where 4:
      "run_state (ctrl_identify E (nvme_cmd_identify_controller sqe_zero) ctrl_parse_identify c1) h3
        = ((GPUNVME_OK, ctrl_parse_identify (he_bytes E h4 b 4096) c2), h5)"
      "last (posted (c_admin_sq c1) h4) = nvme_cmd_identify_controller sqe_zero (c_admin_cid c1) p"
      "admin_fresh (Suc 0) c2" "c_bar0 c2 = c_bar0 c1" "c_timeout_ms c2 = c_timeout_ms c1"
      "c_admin_cid c2 = c_admin_cid c1 + 1" "c_admin_sq c2 = c_admin_sq c1" "c_mdts c2 = c_mdts c1" "c_max_transfer_bytes c2 = c_max_transfer_bytes c1"
    by (rule ctrl_identify_fresh[OF assms(1) _ c1(3,1)]) simp
  let ?c2 = "ctrl_parse_identify (he_bytes E h4 b 4096) c2"
  have "admin_answers E (c_bar0 ?c2) d" "d < unat (c_timeout_ms ?c2 * 1000)" "admin_fresh (Suc 0) ?c2" "Suc 0 < 31"
    using assms(3) c1 4 by simp_all
  then obtain h6 b' p' c3 h7 where 5:
      "run_state (ctrl_identify E (\<lambda>cid. nvme_cmd_identify_namespace sqe_zero cid 1) ctrl_parse_namespace ?c2) h5
        = ((GPUNVME_OK, ctrl_parse_namespace (he_bytes E h6 b' 4096) c3), h7)"
      "last (posted (c_admin_sq ?c2) h6) = nvme_cmd_identify_namespace sqe_zero (c_admin_cid ?c2) 1 p'"
      "admin_fresh (Suc (Suc 0)) c3" "c_bar0 c3 = c_bar0 ?c2" "c_timeout_ms c3 = c_timeout_ms ?c2"
      "c_admin_cid c3 = c_admin_cid ?c2 + 1" "c_admin_sq c3 = c_admin_sq ?c2" "c_mdts c3 = c_mdts ?c2" "c_max_transfer_bytes c3 = c_max_transfer_bytes ?c2"
    by (rule ctrl_identify_fresh[OF assms(1)])
  let ?c = "ctrl_parse_namespace (he_bytes E h6 b' 4096) c3"
  show ?thesis
  proof (intro exI conjI)
    show "run_state (gpunvme_ctrl_init E (Some c0) bar0 n) h = ((GPUNVME_OK, Some ?c), h7)"
      unfolding run using 4(1) 5(1) by simp
    show "admin_fresh 2 ?c" using 5(3) by (simp add: numeral_2_eq_2)
    show "c_bar0 ?c = bar0" "d < unat (c_timeout_ms ?c * 1000)" using 4(4,5) 5(4,5) c1(2,3)
      by (simp_all add: ctrl_parse_namespace_def Let_def)
    show "c_max_transfer_bytes ?c = ctrl_max_transfer (c_page_size c2) (c_mdts ?c)"
      using 5(8,9) by (simp add: ctrl_parse_identify_def ctrl_parse_namespace_def Let_def)
    show "last (posted (c_admin_sq ?c) h4) = nvme_cmd_identify_controller sqe_zero 0 p"
      using 4(2,7) 5(7) c1(4) by simp
    show "c_mdts ?c = he_bytes E h4 b 4096 ! 77" using 5(8) by simp
    show "last (posted (c_admin_sq ?c) h6) = nvme_cmd_identify_namespace sqe_zero 1 1 p'"
      using 4(6) 5(2,7) c1(4) by simp
    show "c_ns_size_blocks ?c = ucast (bytes_u64 (he_bytes E h6 b' 4096) 0)" by simp
    show "c_block_size ?c = (let ns = he_bytes E h6 b' 4096 in
        push_bit (unat (drop_bit 16 (bytes_u32 ns (128 + unat (ns ! 26 AND 0x0F) * 4)) AND 0xFF)) 1)" by (simp add: Let_def)
  qed
qed


text \<open>A machine for the examples: CSTS.RDY is CC.EN, the admin completion queue has answers below the
  announced tail, CAP.TO is 1 and the identify data has 512-byte blocks.\<close>

definition ready_host :: henv where
  "ready_host = example_host\<lparr>
     he_read32 := (\<lambda>h a. if a = nvme_reg_ptr 0x10000000 NVME_REG_CSTS
        then fld_get cc_en (last_write (nvme_reg_ptr 0x10000000 NVME_REG_CC) h) else 0),
     he_read64 := (\<lambda>h a. 0x01000000),
     he_cqe := (\<lambda>h q k. if k < unat (last_write (nvme_reg_ptr 0x10000000 NVME_REG_DOORBELL_BASE) h)
        then cqe_zero\<lparr>cqe_status_phase := 1\<rparr> else cqe_zero),
     he_bytes := (\<lambda>h p n. (replicate n 0)[130 := 9])\<rparr>"

lemma ready_host_memory: "memory_available ready_host"
proof -
  have pm: "pagemap_of ready_host example_pt"
    using example_pagemap by (simp add: pagemap_of_def ready_host_def)
  have "\<exists>p h'. run_state (gpunvme_virt_to_phys ready_host v) h = (Inr p, h')" if "v \<noteq> 0" for v h
    using virt_to_phys_result[OF pm that, of h]
    by (cases "run_state (gpunvme_virt_to_phys ready_host v) h") (simp add: phys_of_def example_pt_def)
  moreover have "\<exists>p. he_alloc ready_host h k n = Some p \<and> p \<noteq> 0" for h k n
    using nonnull_allocD[OF example_nonnull, of h k n] by (simp add: ready_host_def example_host_def)
  ultimately show ?thesis unfolding memory_available_def by blast
qed

lemma ready_host_rdy: "rdy_follows ready_host 0x10000000 d"
proof -
  have "fld_get csts_cfs (fld_get cc_en w) = 0" "fld_get csts_rdy (fld_get cc_en w) = fld_get cc_en w" for w :: u32
    by (auto intro!: bit_eqI simp: bit_fld_get csts_cfs_def csts_rdy_def cc_en_def)
  then show ?thesis by (simp add: rdy_follows_def ready_host_def)
qed

lemma ready_host_answers: "admin_answers ready_host 0x10000000 d"
  by (simp add: admin_answers_def ready_host_def Let_def NVME_CQE_PHASE_def NVME_CQE_SC_def cqe_zero_def)

lemma ready_host_timeout: "0 < 500 * unat (fld_get cap_to (he_read64 ready_host h a))"
  by (simp add: ready_host_def cap_to_def fld_get_def)


text \<open>C16. The order in which a successful initialisation programs the controller: at most one write that
  clears CC.EN, then AQA, ASQ, ACQ (each address as its two halves), CC with EN clear and at last CC
  with EN set; after that only the two admin doorbells are written. The addresses are the physical
  addresses kept in the controller record, and the record holds the two admin queues of 32 entries,
  which are the only resources the call leaves allocated.\<close>

theorem ctrl_init_registers:
  assumes "run_state (gpunvme_ctrl_init E (Some c0) bar0 n) h = ((GPUNVME_OK, r), h')" and "bar0 \<noteq> 0"
  shows "\<exists>c pre post. r = Some c \<and> c_bar0 c = bar0 \<and> c_admin_sq_size c = 32 \<and> c_admin_cq_size c = 32
    \<and> mmio_writes h' = mmio_writes h @ pre @ enable_writes bar0 (c_admin_sq_phys c) (c_admin_cq_phys c) @ post
    \<and> (pre = [] \<or> (\<exists>cc. pre = [(nvme_reg_ptr bar0 NVME_REG_CC, fld_set cc_en 0 cc)]))
    \<and> admin_doorbell_writes c post
    \<and> resources h' = ((Pinned, c_admin_cq c) # (Pinned, c_admin_sq c) # held h, registered h, open_files h)"
  using ctrl_init_ok[OF assms] ctrl_init_resources[OF assms] by (auto simp: holds_admin_def)

lemma ready_host_init:
  obtains c h' where "run_state (gpunvme_ctrl_init ready_host (Some ctrl_zero) 0x10000000 0x4000) []
    = ((GPUNVME_OK, Some c), h')"
proof -
  obtain c1 h3 where "run_state (gpunvme_ctrl_init ready_host (Some ctrl_zero) 0x10000000 0x4000) [] = run_state (do {
       (err, c) \<leftarrow> ctrl_identify ready_host (nvme_cmd_identify_controller sqe_zero) ctrl_parse_identify c1;
       if err \<noteq> GPUNVME_OK then State_Monad.return (err, Some c)
       else do {
         (err, c) \<leftarrow> ctrl_identify ready_host (\<lambda>cid. nvme_cmd_identify_namespace sqe_zero cid 1) ctrl_parse_namespace c;
         State_Monad.return (err, Some c)
       }
     }) h3"
    by (rule ctrl_init_enabled[OF ready_host_memory ready_host_rdy _ ready_host_timeout]) simp_all
  moreover obtain c2 h4 where "run_state (ctrl_identify ready_host (nvme_cmd_identify_controller sqe_zero) ctrl_parse_identify c1) h3
      = ((GPUNVME_OK, c2), h4)"
    using ctrl_identify_memory[OF ready_host_memory] .
  moreover obtain c3 h5 where "run_state (ctrl_identify ready_host (\<lambda>cid. nvme_cmd_identify_namespace sqe_zero cid 1) ctrl_parse_namespace c2) h4
      = ((GPUNVME_OK, c3), h5)"
    using ctrl_identify_memory[OF ready_host_memory] .
  ultimately show ?thesis using that by simp
qed

theorem ctrl_init_registers_witness:
  "\<exists>c h' post. run_state (gpunvme_ctrl_init ready_host (Some ctrl_zero) 0x10000000 0x4000) [] = ((GPUNVME_OK, Some c), h')
    \<and> held h' = [(Pinned, c_admin_cq c), (Pinned, c_admin_sq c)]"
proof -
  obtain c h' where run: "run_state (gpunvme_ctrl_init ready_host (Some ctrl_zero) 0x10000000 0x4000) []
      = ((GPUNVME_OK, Some c), h')"
    by (rule ready_host_init)
  then show ?thesis using ctrl_init_registers[OF run] by (auto simp: resources_def)
qed

text \<open>C17. Initialisation followed by shutdown returns everything it took: the admin queues are freed, no
  registration or file stays behind, the record no longer points at the queues, and the shutdown ends
  with the write of CC that clears EN after the one that requests a normal shutdown.\<close>

theorem ctrl_init_shutdown_balanced:
  assumes "run_state (gpunvme_ctrl_init E (Some c0) bar0 n) h = ((GPUNVME_OK, Some c), h')" and "bar0 \<noteq> 0"
    and "nonnull_alloc E"
  shows "\<exists>h'' v w. run_state (gpunvme_ctrl_shutdown E (Some c)) h' = ((GPUNVME_OK, Some (c\<lparr>c_admin_sq := 0, c_admin_cq := 0\<rparr>)), h'')
    \<and> resources h'' = resources h
    \<and> mmio_writes h'' = mmio_writes h' @ [(nvme_reg_ptr bar0 NVME_REG_CC, fld_set cc_shn NVME_CC_SHN_NORMAL v),
        (nvme_reg_ptr bar0 NVME_REG_CC, fld_set cc_en 0 w)]"
proof -
  have c: "c_bar0 c = bar0" "holds_admin h c h'"
    using ctrl_init_ok[OF assms(1,2)] ctrl_init_resources[OF assms(1,2)] by auto
  have nz: "c_admin_sq c \<noteq> 0" "c_admin_cq c \<noteq> 0"
    using ctrl_init_nonnull[OF assms] by auto
  let ?r = "nvme_reg_ptr bar0 NVME_REG_CC"
  let ?v = "he_read32 E h' ?r"
  let ?h1 = "HWrite32 ?r (fld_set cc_shn NVME_CC_SHN_NORMAL ?v) # HRead32 ?r ?v # h'"
  obtain h2 where h2: "run_state (wait_shutdown_loop (unat (c_timeout_ms c)) E bar0) ?h1 = ((), h2)"
      "resources h2 = resources h'" "mmio_writes h2 = mmio_writes h' @ [(?r, fld_set cc_shn NVME_CC_SHN_NORMAL ?v)]"
    using wait_shutdown_loop_keeps[of "unat (c_timeout_ms c)" E bar0 ?h1]
    by (cases "run_state (wait_shutdown_loop (unat (c_timeout_ms c)) E bar0) ?h1") simp
  then have "held h2 = (Pinned, c_admin_cq c) # (Pinned, c_admin_sq c) # held h" "registered h2 = registered h"
      "open_files h2 = open_files h"
    using c(2) by (simp_all add: holds_admin_def resources_def)
  then show ?thesis
    using assms(2) c(1) nz h2(1,3)
    by (auto simp: gpunvme_ctrl_shutdown_def host_mmio_read32_def host_mmio_write32_def host_free_def
        resources_def)
qed

theorem ctrl_init_shutdown_balanced_witness:
  "\<exists>c h' h''. run_state (gpunvme_ctrl_init ready_host (Some ctrl_zero) 0x10000000 0x4000) [] = ((GPUNVME_OK, Some c), h')
    \<and> fst (fst (run_state (gpunvme_ctrl_shutdown ready_host (Some c)) h')) = GPUNVME_OK
    \<and> held (snd (run_state (gpunvme_ctrl_shutdown ready_host (Some c)) h')) = []"
proof -
  obtain c h' where run: "run_state (gpunvme_ctrl_init ready_host (Some ctrl_zero) 0x10000000 0x4000) []
      = ((GPUNVME_OK, Some c), h')"
    by (rule ready_host_init)
  have "nonnull_alloc ready_host"
    using example_nonnull by (simp add: nonnull_alloc_def ready_host_def)
  then show ?thesis using run ctrl_init_shutdown_balanced[OF run] by (fastforce simp: resources_def)
qed

text \<open>C18. Whatever a failing initialisation leaves behind is the pair of admin queues: either nothing is
  left allocated, or exactly these two buffers are, and the record still points at them. The second
  case does happen: a controller that never becomes ready makes the call return a timeout with both
  buffers allocated.\<close>

theorem ctrl_init_error_resources:
  assumes "run_state (gpunvme_ctrl_init E (Some c0) bar0 n) h = ((err, r), h')" and "bar0 \<noteq> 0" and "err \<noteq> GPUNVME_OK"
  shows "resources h' = resources h \<or> (\<exists>c. r = Some c \<and>
     resources h' = ((Pinned, c_admin_cq c) # (Pinned, c_admin_sq c) # held h, registered h, open_files h))"
  using ctrl_init_resources[OF assms(1,2)] by (auto simp: holds_admin_def)

lemma example_alloc_admin:
  obtains c' h' where "run_state (ctrl_alloc_admin example_host c) h = ((GPUNVME_OK, c'), h')"
proof -
  have "memory_available example_host"
    using ready_host_memory by (simp add: memory_available_def ready_host_def example_host_def
        gpunvme_virt_to_phys_def)
  then show ?thesis using ctrl_alloc_ready that by blast
qed

theorem ctrl_init_error_resources_witness:
  "\<exists>c h'. run_state (gpunvme_ctrl_init example_host (Some ctrl_zero) 0x10000000 0x4000) [] = ((GPUNVME_ERR_TIMEOUT, Some c), h')
    \<and> held h' = [(Pinned, c_admin_cq c), (Pinned, c_admin_sq c)]"
proof -
  let ?c = "ctrl_start 0x10000000 0x4000 0"
  let ?h = "[HRead64 (nvme_reg_ptr 0x10000000 NVME_REG_CAP) 0]"
  let ?h1 = "HRead32 (nvme_reg_ptr 0x10000000 NVME_REG_CC) 0 # ?h"
  have d: "run_state (ctrl_disable example_host ?c) ?h = (GPUNVME_OK, ?h1)"
    by (simp add: ctrl_disable_def host_mmio_read32_def example_host_def fld_get_def)
  obtain c h2 where a: "run_state (ctrl_alloc_admin example_host ?c) ?h1 = ((GPUNVME_OK, c), h2)"
    by (rule example_alloc_admin)
  have t: "c_timeout_ms c = 0"
    using ctrl_alloc_admin_facts(4)[OF a] by (simp add: ctrl_start_def ctrl_read_cap_def fld_get_def)
  then have e: "fst (run_state (ctrl_enable example_host c) h2) = GPUNVME_ERR_TIMEOUT"
    by (simp add: ctrl_enable_def Let_def host_mmio_write32_def host_mmio_write64_def wait_csts_rdy_def)
  obtain h3 where e: "run_state (ctrl_enable example_host c) h2 = (GPUNVME_ERR_TIMEOUT, h3)"
    using e by (metis prod.collapse)
  have run: "run_state (gpunvme_ctrl_init example_host (Some ctrl_zero) 0x10000000 0x4000) [] = ((GPUNVME_ERR_TIMEOUT, Some c), h3)"
    using d a e by (simp add: gpunvme_ctrl_init_def Let_def host_mmio_read64_def ctrl_start_def[symmetric]
        example_host_def[THEN arg_cong, of he_read64])
  have "held h3 \<noteq> []"
    using ctrl_alloc_ok[OF a] ctrl_alloc_admin_facts(5,6)[OF a] ctrl_enable_facts(1)[OF e] by (auto simp: holds_admin_def resources_def)
  then show ?thesis
    using run ctrl_init_error_resources[OF run] by (auto simp: resources_def)
qed


definition example_admin :: gpunvme_ctrl where
  "example_admin = ctrl_zero\<lparr>c_bar0 := 0x10000000, c_timeout_ms := 1, c_admin_sq := 0x2000, c_admin_cq := 0x3000,
     c_admin_sq_size := 32, c_admin_cq_size := 32, c_admin_cq_phase := 1\<rparr>"

lemma example_admin_submit:
  assumes "admin_answers E 0x10000000 0"
  obtains cdw0 h' where "run_state (gpunvme_admin_submit E (Some example_admin) (Some cmd)) []
    = ((GPUNVME_OK, cdw0, Some (admin_advance_cq (admin_submitted example_admin))), h')"
proof -
  let ?h = "[HWrite32 (admin_sq_db example_admin) 1, HPutSqe 0x2000 0 cmd]"
  let ?c = "admin_submitted example_admin"
  have "\<exists>cdw0 h'. run_state (admin_poll_loop 1000 E ?c) ?h = ((GPUNVME_OK, cdw0, admin_advance_cq ?c), h')"
    using assms by (intro admin_poll_ready[where d = 0])
      (auto simp: admin_submitted_def example_admin_def ctrl_zero_def nvme_sq_doorbell_offset_def)
  then show ?thesis
    using that by (auto simp: gpunvme_admin_submit_def admin_submit_body_def host_mmio_write32_def Let_def
        admin_submitted_def example_admin_def ctrl_zero_def)
qed


text \<open>The status check of admin commands looks at the status code only: a completion whose status
  code is zero counts as success whatever its status code type and the other status bits are, so a
  command-specific or media status with code 0 is reported as OK.\<close>

theorem admin_submit_ignores_sct:
  assumes "\<And>h. cqe_status_phase (he_cqe E h (c_admin_cq c) (unat (c_admin_cq_head c))) = sp"
    and "NVME_CQE_PHASE sp = ucast (c_admin_cq_phase c)" and "NVME_CQE_SC sp = 0" and "c_timeout_ms c * 1000 \<noteq> 0"
  shows "fst (fst (run_state (gpunvme_admin_submit E (Some c) (Some cmd)) h)) = GPUNVME_OK"
proof -
  obtain n where n: "unat (c_timeout_ms c * 1000) = Suc n"
    using assms(4) by (metis not0_implies_Suc unat_eq_zero)
  then show ?thesis
    using assms(1-3) by (simp add: gpunvme_admin_submit_def admin_submit_body_def Let_def host_mmio_write32_def split_def)
qed

theorem admin_submit_ignores_sct_witness:
  "NVME_CQE_SCT 0x0201 \<noteq> 0 \<and> NVME_CQE_STATUS 0x0201 \<noteq> 0
   \<and> fst (fst (run_state (gpunvme_admin_submit (ready_host\<lparr>he_cqe := (\<lambda>h q k. cqe_zero\<lparr>cqe_status_phase := 0x0201\<rparr>)\<rparr>)
       (Some example_admin) (Some sqe_zero)) [])) = GPUNVME_OK"
proof -
  let ?E = "ready_host\<lparr>he_cqe := (\<lambda>h q k. cqe_zero\<lparr>cqe_status_phase := 0x0201\<rparr>)\<rparr>"
  have "fst (fst (run_state (gpunvme_admin_submit ?E (Some example_admin) (Some sqe_zero)) [])) = GPUNVME_OK"
    by (rule admin_submit_ignores_sct[where sp = "0x0201"])
      (simp_all add: NVME_CQE_PHASE_def NVME_CQE_SC_def example_admin_def ctrl_zero_def)
  then show ?thesis by (simp add: NVME_CQE_SCT_def NVME_CQE_STATUS_def)
qed

end
