(* ===== verification/Admin.thy ===== *)
theory Admin
  imports Controller
begin

text \<open>
  The admin command helpers (\<^verbatim>\<open>src/host/admin.c\<close>): each builds one command with the next admin command
  identifier and submits it. Their common contract is the locale \<open>admin_command\<close>, proved once and
  interpreted for each of the six helpers.
\<close>

section \<open>Operations\<close>

definition gpunvme_admin_identify_ctrl :: "u64 \<Rightarrow> henv \<Rightarrow> gpunvme_ctrl \<Rightarrow> (gpunvme_err \<times> gpunvme_ctrl) host" where
  "gpunvme_admin_identify_ctrl id_buf_phys E ctrl = do {
     let cmd = nvme_cmd_identify_controller sqe_zero (c_admin_cid ctrl) id_buf_phys;
     let ctrl = ctrl\<lparr>c_admin_cid := c_admin_cid ctrl + 1\<rparr>;
     (err, cdw0, ctrl) \<leftarrow> admin_submit_body E ctrl cmd;
     State_Monad.return (err, ctrl)
   }"

definition gpunvme_admin_identify_ns :: "u32 \<Rightarrow> u64 \<Rightarrow> henv \<Rightarrow> gpunvme_ctrl \<Rightarrow> (gpunvme_err \<times> gpunvme_ctrl) host" where
  "gpunvme_admin_identify_ns nsid ns_buf_phys E ctrl = do {
     let cmd = nvme_cmd_identify_namespace sqe_zero (c_admin_cid ctrl) nsid ns_buf_phys;
     let ctrl = ctrl\<lparr>c_admin_cid := c_admin_cid ctrl + 1\<rparr>;
     (err, cdw0, ctrl) \<leftarrow> admin_submit_body E ctrl cmd;
     State_Monad.return (err, ctrl)
   }"

definition gpunvme_admin_create_io_cq ::
    "u16 \<Rightarrow> u16 \<Rightarrow> u64 \<Rightarrow> henv \<Rightarrow> gpunvme_ctrl \<Rightarrow> (gpunvme_err \<times> gpunvme_ctrl) host" where
  "gpunvme_admin_create_io_cq qid qsize cq_phys E ctrl = do {
     let cmd = nvme_cmd_create_io_cq sqe_zero (c_admin_cid ctrl) qid (qsize - 1) cq_phys 0;
     let ctrl = ctrl\<lparr>c_admin_cid := c_admin_cid ctrl + 1\<rparr>;
     (err, cdw0, ctrl) \<leftarrow> admin_submit_body E ctrl cmd;
     State_Monad.return (err, ctrl)
   }"

definition gpunvme_admin_create_io_sq ::
    "u16 \<Rightarrow> u16 \<Rightarrow> u64 \<Rightarrow> u16 \<Rightarrow> henv \<Rightarrow> gpunvme_ctrl \<Rightarrow> (gpunvme_err \<times> gpunvme_ctrl) host" where
  "gpunvme_admin_create_io_sq qid qsize sq_phys cqid E ctrl = do {
     let cmd = nvme_cmd_create_io_sq sqe_zero (c_admin_cid ctrl) qid (qsize - 1) sq_phys cqid;
     let ctrl = ctrl\<lparr>c_admin_cid := c_admin_cid ctrl + 1\<rparr>;
     (err, cdw0, ctrl) \<leftarrow> admin_submit_body E ctrl cmd;
     State_Monad.return (err, ctrl)
   }"

definition gpunvme_admin_delete_io_sq :: "u16 \<Rightarrow> henv \<Rightarrow> gpunvme_ctrl \<Rightarrow> (gpunvme_err \<times> gpunvme_ctrl) host" where
  "gpunvme_admin_delete_io_sq qid E ctrl = do {
     let cmd = nvme_cmd_delete_io_sq sqe_zero (c_admin_cid ctrl) qid;
     let ctrl = ctrl\<lparr>c_admin_cid := c_admin_cid ctrl + 1\<rparr>;
     (err, cdw0, ctrl) \<leftarrow> admin_submit_body E ctrl cmd;
     State_Monad.return (err, ctrl)
   }"

definition gpunvme_admin_delete_io_cq :: "u16 \<Rightarrow> henv \<Rightarrow> gpunvme_ctrl \<Rightarrow> (gpunvme_err \<times> gpunvme_ctrl) host" where
  "gpunvme_admin_delete_io_cq qid E ctrl = do {
     let cmd = nvme_cmd_delete_io_cq sqe_zero (c_admin_cid ctrl) qid;
     let ctrl = ctrl\<lparr>c_admin_cid := c_admin_cid ctrl + 1\<rparr>;
     (err, cdw0, ctrl) \<leftarrow> admin_submit_body E ctrl cmd;
     State_Monad.return (err, ctrl)
   }"

section \<open>The contract of an admin helper\<close>

text \<open>What a call does to the world: one command with the current identifier is posted, only admin
  doorbells are written, nothing is allocated or released, and of the controller record only the
  admin ring and the identifier move.\<close>

definition admin_call ::
    "(u16 \<Rightarrow> nvme_sq_entry) \<Rightarrow> gpunvme_ctrl \<Rightarrow> hev list \<Rightarrow> gpunvme_err \<Rightarrow> gpunvme_ctrl \<Rightarrow> hev list \<Rightarrow> bool" where
  "admin_call cmd c h err c' h' \<longleftrightarrow>
     (\<forall>a. posted a h' = posted a h @ (if a = c_admin_sq c then [cmd (c_admin_cid c)] else []))
   \<and> resources h' = resources h
   \<and> (\<exists>ws. admin_doorbell_writes c ws \<and> mmio_writes h' = mmio_writes h @ ws)
   \<and> ctrl_core c' = ctrl_core c \<and> c_admin_cid c' = c_admin_cid c + 1 \<and> c_block_size c' = c_block_size c
   \<and> (err = GPUNVME_OK \<or> err = GPUNVME_ERR_NVME_STATUS \<or> err = GPUNVME_ERR_TIMEOUT)"

locale admin_command =
  fixes oper :: "henv \<Rightarrow> gpunvme_ctrl \<Rightarrow> (gpunvme_err \<times> gpunvme_ctrl) host"
    and cmd :: "u16 \<Rightarrow> nvme_sq_entry"
  assumes oper_submits: "run_state (oper E c) h =
      (case run_state (admin_submit_body E (c\<lparr>c_admin_cid := c_admin_cid c + 1\<rparr>) (cmd (c_admin_cid c))) h of
         ((err, cdw0, c'), h') \<Rightarrow> ((err, c'), h'))"
begin

lemma oper_call:
  assumes "run_state (oper E c) h = ((err, c'), h')"
  shows "admin_call cmd c h err c' h'"
proof -
  let ?c = "c\<lparr>c_admin_cid := c_admin_cid c + 1\<rparr>"
  obtain cdw0 where run: "run_state (admin_submit_body E ?c (cmd (c_admin_cid c))) h = ((err, cdw0, c'), h')"
    using assms by (auto simp: oper_submits split: prod.splits)
  obtain ws where ws: "admin_outcome E (admin_submitted ?c) err c' ws"
    "\<forall>a. posted a h' = posted a h @ (if a = c_admin_sq c then [cmd (c_admin_cid c)] else [])"
    using admin_submit_outcome[OF run] by auto
  have "\<exists>ws. admin_doorbell_writes c ws \<and> mmio_writes h' = mmio_writes h @ ws \<and> resources h' = resources h"
    using admin_submit_writes[OF run] admin_doorbell_writes_cong[of ?c c] by simp
  moreover have "c_block_size c' = c_block_size c"
    using ws(1) by (auto simp: admin_outcome_def admin_completed_def admin_submitted_def)
  moreover have "err = GPUNVME_OK \<or> err = GPUNVME_ERR_NVME_STATUS \<or> err = GPUNVME_ERR_TIMEOUT"
    using ws(1) by (auto simp: admin_outcome_def admin_completed_def)
  ultimately show ?thesis
    using ws(2) admin_submit_core[OF run] by (auto simp: admin_call_def)
qed

text \<open>With a controller that answers, a call succeeds and moves the ring by one slot.\<close>

lemma oper_succeeds:
  assumes "admin_answers E (c_bar0 c) d" and "d < unat (c_timeout_ms c * 1000)" and "admin_fresh k c" and "k < 31"
  shows "\<exists>c' h'. run_state (oper E c) h = ((GPUNVME_OK, c'), h') \<and> admin_fresh (Suc k) c'"
proof -
  let ?c = "c\<lparr>c_admin_cid := c_admin_cid c + 1\<rparr>"
  have "\<exists>cdw0 h'. run_state (admin_submit_body E ?c (cmd (c_admin_cid c))) h
      = ((GPUNVME_OK, cdw0, admin_advance_cq (admin_submitted ?c)), h')"
    using assms by (intro admin_submit_ready[where d = d and k = k]) simp_all
  then show ?thesis
    using admin_fresh_next[of k ?c] assms(3,4) by (auto simp: oper_submits)
qed

end

lemmas admin_helper_defs = gpunvme_admin_identify_ctrl_def gpunvme_admin_identify_ns_def
  gpunvme_admin_create_io_cq_def gpunvme_admin_create_io_sq_def gpunvme_admin_delete_io_sq_def
  gpunvme_admin_delete_io_cq_def

interpretation adm_identify_ctrl: admin_command "gpunvme_admin_identify_ctrl p"
  "\<lambda>cid. nvme_cmd_identify_controller sqe_zero cid p" for p
  by unfold_locales (simp add: admin_helper_defs Let_def split_def)
interpretation adm_identify_ns: admin_command "gpunvme_admin_identify_ns nsid p"
  "\<lambda>cid. nvme_cmd_identify_namespace sqe_zero cid nsid p" for nsid p
  by unfold_locales (simp add: admin_helper_defs Let_def split_def)
interpretation adm_create_cq: admin_command "gpunvme_admin_create_io_cq qid n p"
  "\<lambda>cid. nvme_cmd_create_io_cq sqe_zero cid qid (n - 1) p 0" for qid n p
  by unfold_locales (simp add: admin_helper_defs Let_def split_def)
interpretation adm_create_sq: admin_command "gpunvme_admin_create_io_sq qid n p cqid"
  "\<lambda>cid. nvme_cmd_create_io_sq sqe_zero cid qid (n - 1) p cqid" for qid n p cqid
  by unfold_locales (simp add: admin_helper_defs Let_def split_def)
interpretation adm_delete_sq: admin_command "gpunvme_admin_delete_io_sq qid"
  "\<lambda>cid. nvme_cmd_delete_io_sq sqe_zero cid qid" for qid
  by unfold_locales (simp add: admin_helper_defs Let_def split_def)
interpretation adm_delete_cq: admin_command "gpunvme_admin_delete_io_cq qid"
  "\<lambda>cid. nvme_cmd_delete_io_cq sqe_zero cid qid" for qid
  by unfold_locales (simp add: admin_helper_defs Let_def split_def)

end
