(* ===== verification/Io_Queue.thy ===== *)
theory Io_Queue
  imports Admin
begin

text \<open>
  Creation and deletion of I/O queue pairs (\<^verbatim>\<open>src/host/io_queue.c\<close>, \<^verbatim>\<open>include/gpunvme/queue.h\<close>): queue
  memory by tier, the admin commands that make the queues known to the controller, the structure that
  the GPU kernels use, and the failure path. The structure in pinned memory is kept beside its
  address. Warnings are not modelled.
\<close>

section \<open>State\<close>

text \<open>The tiers 1 to 3; the value 0 that \<^verbatim>\<open>memset\<close> leaves in a tier field is no tier.\<close>

datatype gpunvme_tier = GPUNVME_TIER1 | GPUNVME_TIER2 | GPUNVME_TIER3 | TIER_ZERO

text \<open>The pointers of the GPU queue structure, beside the fields that the device code uses.\<close>

record gpu_queue_struct = gpu_nvme_queue +
  q_sq :: u64
  q_cq :: u64
  q_doorbell_sq :: u64
  q_doorbell_cq :: u64
  q_data_buf :: u64

record gpunvme_io_queue =
  iq_qid :: u16
  iq_sq_size :: u16
  iq_cq_size :: u16
  iq_tier :: gpunvme_tier
  iq_sq :: u64
  iq_cq :: u64
  iq_sq_phys :: u64
  iq_cq_phys :: u64
  iq_data_buf :: u64
  iq_data_buf_phys :: u64
  iq_data_buf_size :: u64
  iq_sq_doorbell_off :: u32
  iq_cq_doorbell_off :: u32
  iq_gpu_queue :: "(u64 \<times> gpu_queue_struct) option"

definition io_queue_zero :: gpunvme_io_queue where
  "io_queue_zero = \<lparr>iq_qid = 0, iq_sq_size = 0, iq_cq_size = 0, iq_tier = TIER_ZERO, iq_sq = 0, iq_cq = 0,
     iq_sq_phys = 0, iq_cq_phys = 0, iq_data_buf = 0, iq_data_buf_phys = 0, iq_data_buf_size = 0,
     iq_sq_doorbell_off = 0, iq_cq_doorbell_off = 0, iq_gpu_queue = None\<rparr>"

definition sizeof_gpu_nvme_queue :: u64 where
  "sizeof_gpu_nvme_queue = 88"

definition iq_ring_bytes :: "u16 \<Rightarrow> u64 \<Rightarrow> u64" where
  "iq_ring_bytes depth entry = (let n = ucast depth * entry in if n < 4096 then 4096 else n)"

definition host_tier :: "gpunvme_tier \<Rightarrow> bool" where
  "host_tier t \<longleftrightarrow> t = GPUNVME_TIER1 \<or> t = GPUNVME_TIER2"

definition ring_kind :: "gpunvme_tier \<Rightarrow> mem_kind" where
  "ring_kind t = (if host_tier t then Aligned else Device)"

definition data_kind :: "gpunvme_tier \<Rightarrow> mem_kind" where
  "data_kind t = (if t = GPUNVME_TIER1 then Pinned else Device)"

section \<open>Creation\<close>

definition iq_alloc_host :: "henv \<Rightarrow> u64 \<Rightarrow> u64 \<Rightarrow> gpunvme_io_queue \<Rightarrow> (bool \<times> gpunvme_io_queue) host" where
  "iq_alloc_host E sq_bytes cq_bytes out = do {
     r \<leftarrow> host_alloc E Aligned sq_bytes;
     case r of
       None \<Rightarrow> State_Monad.return (False, out)
     | Some sq \<Rightarrow> do {
         r \<leftarrow> host_alloc E Aligned cq_bytes;
         case r of
           None \<Rightarrow> do { host_free Aligned sq; State_Monad.return (False, out) }
         | Some cq \<Rightarrow> do {
             log_ev (HMlock sq sq_bytes);
             log_ev (HMlock cq cq_bytes);
             ok \<leftarrow> cuda_host_register E sq sq_bytes;
             if \<not> ok then do {
               log_ev (HMunlock sq sq_bytes); log_ev (HMunlock cq cq_bytes);
               host_free Aligned sq; host_free Aligned cq;
               State_Monad.return (False, out)
             }
             else do {
               ok \<leftarrow> cuda_host_register E cq cq_bytes;
               if \<not> ok then do {
                 log_ev (HUnregister sq);
                 log_ev (HMunlock sq sq_bytes); log_ev (HMunlock cq cq_bytes);
                 host_free Aligned sq; host_free Aligned cq;
                 State_Monad.return (False, out)
               }
               else State_Monad.return (True, out\<lparr>iq_sq := sq, iq_cq := cq\<rparr>)
             }
           }
       }
   }"

definition iq_alloc_device :: "henv \<Rightarrow> u64 \<Rightarrow> u64 \<Rightarrow> gpunvme_io_queue \<Rightarrow> (bool \<times> gpunvme_io_queue) host" where
  "iq_alloc_device E sq_bytes cq_bytes out = do {
     r \<leftarrow> host_alloc E Device sq_bytes;
     case r of
       None \<Rightarrow> State_Monad.return (False, out)
     | Some sq \<Rightarrow> do {
         let out = out\<lparr>iq_sq := sq\<rparr>;
         r \<leftarrow> host_alloc E Device cq_bytes;
         case r of
           None \<Rightarrow> do { host_free Device sq; State_Monad.return (False, out) }
         | Some cq \<Rightarrow> State_Monad.return (True, out\<lparr>iq_cq := cq\<rparr>)
       }
   }"

text \<open>The result of a translation is ignored: a failed one leaves the address 0.\<close>

definition iq_resolve :: "henv \<Rightarrow> gpunvme_io_queue \<Rightarrow> gpunvme_io_queue host" where
  "iq_resolve E out = do {
     r \<leftarrow> gpunvme_virt_to_phys E (iq_sq out);
     let out = (case r of Inr p \<Rightarrow> out\<lparr>iq_sq_phys := p\<rparr> | Inl _ \<Rightarrow> out);
     r \<leftarrow> gpunvme_virt_to_phys E (iq_cq out);
     State_Monad.return (case r of Inr p \<Rightarrow> out\<lparr>iq_cq_phys := p\<rparr> | Inl _ \<Rightarrow> out)
   }"

definition iq_alloc_data :: "henv \<Rightarrow> gpunvme_tier \<Rightarrow> u64 \<Rightarrow> gpunvme_io_queue \<Rightarrow> (bool \<times> gpunvme_io_queue) host" where
  "iq_alloc_data E tier data_buf_sz out =
    (if data_buf_sz > 0 then
       if tier = GPUNVME_TIER1 then do {
         r \<leftarrow> host_alloc E Pinned data_buf_sz;
         case r of
           None \<Rightarrow> State_Monad.return (False, out)
         | Some p \<Rightarrow> do {
             let out = out\<lparr>iq_data_buf := p\<rparr>;
             r \<leftarrow> gpunvme_virt_to_phys E p;
             let out = (case r of Inr a \<Rightarrow> out\<lparr>iq_data_buf_phys := a\<rparr> | Inl _ \<Rightarrow> out);
             State_Monad.return (True, out\<lparr>iq_data_buf_size := data_buf_sz\<rparr>)
           }
       }
       else do {
         r \<leftarrow> host_alloc E Device data_buf_sz;
         State_Monad.return (case r of
           None \<Rightarrow> (False, out)
         | Some p \<Rightarrow> (True, out\<lparr>iq_data_buf := p, iq_data_buf_size := data_buf_sz\<rparr>))
       }
     else State_Monad.return (True, out))"

definition host_when :: "bool \<Rightarrow> unit host \<Rightarrow> unit host" where
  "host_when b m = (if b then m else State_Monad.return ())"

definition iq_release_ring :: "gpunvme_tier \<Rightarrow> u64 \<Rightarrow> u64 \<Rightarrow> unit host" where
  "iq_release_ring tier p n =
    (if host_tier tier
     then host_when (p \<noteq> 0) (do { log_ev (HUnregister p); log_ev (HMunlock p n); host_free Aligned p })
     else host_when (p \<noteq> 0) (host_free Device p))"

definition iq_fail :: "gpunvme_tier \<Rightarrow> u64 \<Rightarrow> u64 \<Rightarrow> gpunvme_io_queue \<Rightarrow> unit host" where
  "iq_fail tier sq_bytes cq_bytes out = do {
     host_when (iq_data_buf out \<noteq> 0)
       (if tier = GPUNVME_TIER1 then host_free Pinned (iq_data_buf out) else host_free Device (iq_data_buf out));
     iq_release_ring tier (iq_sq out) sq_bytes;
     iq_release_ring tier (iq_cq out) cq_bytes
   }"

definition iq_gpu_struct :: "gpunvme_ctrl \<Rightarrow> gpunvme_io_queue \<Rightarrow> gpu_queue_struct" where
  "iq_gpu_struct ctrl out =
    \<lparr>q_data_buf_phys = iq_data_buf_phys out, q_sq_size = iq_sq_size out, q_cq_size = iq_cq_size out,
     q_sq_tail = 0, q_cq_head = 0, q_qid = iq_qid out, q_cq_phase = 1, q_cid_counter = 0, q_nsid = 1,
     q_block_size = c_block_size ctrl, q_pcie_flush = False, q_poll_timeout_cycles = 0,
     q_sq = iq_sq out, q_cq = iq_cq out,
     q_doorbell_sq = (if c_bar0_gpu ctrl \<noteq> 0 then c_bar0_gpu ctrl + ucast (iq_sq_doorbell_off out) else 0),
     q_doorbell_cq = (if c_bar0_gpu ctrl \<noteq> 0 then c_bar0_gpu ctrl + ucast (iq_cq_doorbell_off out) else 0),
     q_data_buf = iq_data_buf out\<rparr>"

text \<open>The part after the memory is there: the admin commands and the GPU structure. The Boolean says
  whether the code goes on to \<^verbatim>\<open>return GPUNVME_OK\<close> or jumps to \<^verbatim>\<open>fail\<close>.\<close>

definition iq_connect ::
    "henv \<Rightarrow> u16 \<Rightarrow> gpunvme_ctrl \<Rightarrow> gpunvme_io_queue \<Rightarrow> (bool \<times> gpunvme_ctrl \<times> gpunvme_io_queue) host" where
  "iq_connect E depth ctrl out = do {
     let qid = iq_qid out;
     (err, ctrl) \<leftarrow> gpunvme_admin_create_io_cq qid depth (iq_cq_phys out) E ctrl;
     if err \<noteq> GPUNVME_OK then State_Monad.return (False, ctrl, out)
     else do {
       (err, ctrl) \<leftarrow> gpunvme_admin_create_io_sq qid depth (iq_sq_phys out) qid E ctrl;
       if err \<noteq> GPUNVME_OK then do {
         (_, ctrl) \<leftarrow> gpunvme_admin_delete_io_cq qid E ctrl;
         State_Monad.return (False, ctrl, out)
       }
       else do {
         let out = out\<lparr>iq_sq_doorbell_off := nvme_sq_doorbell_offset qid (c_dstrd ctrl),
                       iq_cq_doorbell_off := nvme_cq_doorbell_offset qid (c_dstrd ctrl)\<rparr>;
         r \<leftarrow> host_alloc E Pinned sizeof_gpu_nvme_queue;
         State_Monad.return (case r of
           None \<Rightarrow> (False, ctrl, out)
         | Some p \<Rightarrow> (True, ctrl, out\<lparr>iq_gpu_queue := Some (p, iq_gpu_struct ctrl out)\<rparr>))
       }
     }
   }"

definition iq_create_body ::
    "henv \<Rightarrow> gpunvme_ctrl \<Rightarrow> u16 \<Rightarrow> u16 \<Rightarrow> u64 \<Rightarrow> gpunvme_tier \<Rightarrow>
     (gpunvme_err \<times> gpunvme_ctrl \<times> gpunvme_io_queue) host" where
  "iq_create_body E ctrl qid depth data_buf_sz tier = do {
     let depth = (if depth > c_max_queue_entries ctrl then c_max_queue_entries ctrl else depth);
     let out = io_queue_zero\<lparr>iq_qid := qid, iq_sq_size := depth, iq_cq_size := depth, iq_tier := tier\<rparr>;
     let sq_bytes = iq_ring_bytes depth 64;
     let cq_bytes = iq_ring_bytes depth 16;
     (ok, out) \<leftarrow> (if host_tier tier then iq_alloc_host E sq_bytes cq_bytes out
                   else iq_alloc_device E sq_bytes cq_bytes out);
     if \<not> ok then State_Monad.return (GPUNVME_ERR_NOMEM, ctrl, out)
     else do {
       log_ev (HMemset (iq_sq out) sq_bytes);
       log_ev (HMemset (iq_cq out) cq_bytes);
       out \<leftarrow> (if host_tier tier then iq_resolve E out else State_Monad.return out);
       (ok, out) \<leftarrow> iq_alloc_data E tier data_buf_sz out;
       (ok, ctrl, out) \<leftarrow> (if ok then iq_connect E depth ctrl out else State_Monad.return (False, ctrl, out));
       if ok then State_Monad.return (GPUNVME_OK, ctrl, out)
       else do {
         iq_fail tier sq_bytes cq_bytes out;
         State_Monad.return (GPUNVME_ERR_NOMEM, ctrl, io_queue_zero)
       }
     }
   }"

definition gpunvme_create_io_queue ::
    "henv \<Rightarrow> gpunvme_ctrl option \<Rightarrow> u16 \<Rightarrow> u16 \<Rightarrow> u64 \<Rightarrow> gpunvme_tier \<Rightarrow> gpunvme_io_queue option \<Rightarrow>
     (gpunvme_err \<times> gpunvme_ctrl option \<times> gpunvme_io_queue option) host" where
  "gpunvme_create_io_queue E ctrl qid depth data_buf_sz tier out =
    (case (ctrl, out) of
       (Some c, Some _) \<Rightarrow>
         if qid = 0 \<or> depth = 0 then State_Monad.return (GPUNVME_ERR_INVALID_PARAM, ctrl, out)
         else do {
           (err, c, q) \<leftarrow> iq_create_body E c qid depth data_buf_sz tier;
           State_Monad.return (err, Some c, Some q)
         }
     | _ \<Rightarrow> State_Monad.return (GPUNVME_ERR_INVALID_PARAM, ctrl, out))"

section \<open>Deletion\<close>

definition iq_delete_body :: "henv \<Rightarrow> gpunvme_ctrl \<Rightarrow> gpunvme_io_queue \<Rightarrow> (gpunvme_ctrl \<times> gpunvme_io_queue) host" where
  "iq_delete_body E ctrl q = do {
     (_, ctrl) \<leftarrow> gpunvme_admin_delete_io_sq (iq_qid q) E ctrl;
     (_, ctrl) \<leftarrow> gpunvme_admin_delete_io_cq (iq_qid q) E ctrl;
     (case iq_gpu_queue q of Some (p, _) \<Rightarrow> host_free Pinned p | None \<Rightarrow> State_Monad.return ());
     iq_release_ring (iq_tier q) (iq_sq q) (ucast (iq_sq_size q) * 64);
     iq_release_ring (iq_tier q) (iq_cq q) (ucast (iq_cq_size q) * 16);
     host_when (iq_data_buf q \<noteq> 0)
       (if iq_tier q = GPUNVME_TIER1 then host_free Pinned (iq_data_buf q) else host_free Device (iq_data_buf q));
     State_Monad.return (ctrl, io_queue_zero)
   }"

definition gpunvme_delete_io_queue ::
    "henv \<Rightarrow> gpunvme_ctrl option \<Rightarrow> gpunvme_io_queue option \<Rightarrow>
     (gpunvme_err \<times> gpunvme_ctrl option \<times> gpunvme_io_queue option) host" where
  "gpunvme_delete_io_queue E ctrl q =
    (case (ctrl, q) of
       (Some c, Some iq) \<Rightarrow> do {
         (c, iq) \<leftarrow> iq_delete_body E c iq;
         State_Monad.return (GPUNVME_OK, Some c, Some iq)
       }
     | _ \<Rightarrow> State_Monad.return (GPUNVME_ERR_INVALID_PARAM, ctrl, q))"

definition gpunvme_get_gpu_queue :: "gpunvme_io_queue option \<Rightarrow> (u64 \<times> gpu_queue_struct) option" where
  "gpunvme_get_gpu_queue q = (case q of Some iq \<Rightarrow> iq_gpu_queue iq | None \<Rightarrow> None)"

section \<open>Resources of a queue pair\<close>

text \<open>What a queue pair of a tier owns beyond a history \<open>h\<close>.\<close>

definition iq_resources ::
    "gpunvme_tier \<Rightarrow> gpunvme_io_queue \<Rightarrow> hev list \<Rightarrow> (mem_kind \<times> u64) list \<times> u64 list \<times> int" where
  "iq_resources t q h =
    ((case iq_gpu_queue q of Some (p, _) \<Rightarrow> [(Pinned, p)] | None \<Rightarrow> [])
       @ (if iq_data_buf q \<noteq> 0 then [(data_kind t, iq_data_buf q)] else [])
       @ [(ring_kind t, iq_cq q), (ring_kind t, iq_sq q)] @ held h,
     (if host_tier t then [iq_cq q, iq_sq q] else []) @ registered h, open_files h)"

text \<open>A computation that neither writes registers nor posts commands.\<close>

definition silent :: "hev list \<Rightarrow> hev list \<Rightarrow> bool" where
  "silent h h' \<longleftrightarrow> mmio_writes h' = mmio_writes h \<and> (\<forall>a. posted a h' = posted a h)"

lemma run_host_when [simp]:
  "run_state (host_when b m) h = (if b then run_state m h else ((), h))"
  by (simp add: host_when_def)

lemma iq_fail_releases:
  assumes "resources h1 = iq_resources tier out h" and "iq_gpu_queue out = None"
    and "iq_sq out \<noteq> 0" and "iq_cq out \<noteq> 0"
  shows "resources (snd (run_state (iq_fail tier n m out) h1)) = resources h"
    and "silent h1 (snd (run_state (iq_fail tier n m out) h1))"
  using assms
  by (auto simp: iq_fail_def iq_release_ring_def host_free_def iq_resources_def resources_def
      data_kind_def ring_kind_def host_tier_def silent_def)

lemma iq_alloc_facts:
  assumes "nonnull_alloc E"
    and "run_state (if host_tier tier then iq_alloc_host E n m out else iq_alloc_device E n m out) h = ((ok, out'), h')"
    and "iq_gpu_queue out = None" and "iq_data_buf out = 0"
  shows "silent h h'" "ok \<Longrightarrow> resources h' = iq_resources tier out' h" "\<not> ok \<Longrightarrow> resources h' = resources h"
    "ok \<Longrightarrow> iq_sq out' \<noteq> 0 \<and> iq_cq out' \<noteq> 0 \<and> out' = out\<lparr>iq_sq := iq_sq out', iq_cq := iq_cq out'\<rparr>"
  using assms(2-4)
  by (auto simp: iq_alloc_host_def iq_alloc_device_def host_alloc_def cuda_host_register_def host_free_def Let_def
      silent_def iq_resources_def resources_def ring_kind_def history_simps split: if_splits option.splits
      dest!: nonnull_allocD[OF assms(1)])

lemma silent_refl [simp]: "silent h h"
  by (simp add: silent_def)

lemma silent_trans: "silent h h1 \<Longrightarrow> silent h1 h2 \<Longrightarrow> silent h h2"
  by (simp add: silent_def)

text \<open>The part of the host record that the resolution and the data buffer leave alone.\<close>

definition iq_rings :: "gpunvme_io_queue \<Rightarrow> (u16 \<times> u16 \<times> u16 \<times> gpunvme_tier) \<times> u64 \<times> u64 \<times> (u64 \<times> gpu_queue_struct) option" where
  "iq_rings q = ((iq_qid q, iq_sq_size q, iq_cq_size q, iq_tier q), iq_sq q, iq_cq q, iq_gpu_queue q)"

lemma iq_rings_simps [simp]:
  "iq_rings (q\<lparr>iq_sq_phys := p\<rparr>) = iq_rings q" "iq_rings (q\<lparr>iq_cq_phys := p\<rparr>) = iq_rings q"
  "iq_rings (q\<lparr>iq_data_buf := p\<rparr>) = iq_rings q" "iq_rings (q\<lparr>iq_data_buf_phys := p\<rparr>) = iq_rings q"
  "iq_rings (q\<lparr>iq_data_buf_size := p\<rparr>) = iq_rings q"
  by (simp_all add: iq_rings_def)

lemma iq_resources_cong:
  assumes "iq_rings q' = iq_rings q" and "iq_data_buf q' = iq_data_buf q"
  shows "iq_resources t q' h = iq_resources t q h"
  using assms by (simp add: iq_rings_def iq_resources_def)

lemma iq_resolve_facts:
  assumes "run_state (iq_resolve E out) h = (out', h')"
  shows "silent h h'" "resources h' = resources h" "iq_rings out' = iq_rings out" "iq_data_buf out' = iq_data_buf out"
proof -
  obtain r1 h1 where 1: "run_state (gpunvme_virt_to_phys E (iq_sq out)) h = (r1, h1)" "mmio_writes h1 = mmio_writes h"
      "resources h1 = resources h" "\<And>a. posted a h1 = posted a h"
    by (rule run_virt_to_phys) blast
  obtain r2 h2 where 2: "run_state (gpunvme_virt_to_phys E (iq_cq out)) h1 = (r2, h2)" "mmio_writes h2 = mmio_writes h1"
      "resources h2 = resources h1" "\<And>a. posted a h2 = posted a h1"
    by (rule run_virt_to_phys) blast
  let ?o = "case r1 of Inr p \<Rightarrow> out\<lparr>iq_sq_phys := p\<rparr> | Inl _ \<Rightarrow> out"
  have "iq_cq ?o = iq_cq out" by (simp split: sum.splits)
  then have "h' = h2" "out' = (case r2 of Inr p \<Rightarrow> ?o\<lparr>iq_cq_phys := p\<rparr> | Inl _ \<Rightarrow> ?o)"
    using assms 1(1) 2(1) by (simp_all add: iq_resolve_def Let_def)
  then show "silent h h'" "resources h' = resources h" "iq_rings out' = iq_rings out" "iq_data_buf out' = iq_data_buf out"
    using 1 2 by (auto simp: silent_def split: sum.splits)
qed

lemma iq_alloc_data_facts:
  assumes "nonnull_alloc E" and "run_state (iq_alloc_data E tier n out) h = ((ok, out'), h')"
    and "resources h = iq_resources tier out h0" and "iq_gpu_queue out = None" and "iq_data_buf out = 0"
  shows "silent h h' \<and> resources h' = iq_resources tier out' h0 \<and> iq_rings out' = iq_rings out"
proof (cases "n > 0 \<and> tier = GPUNVME_TIER1")
  case t1: True
  show ?thesis
  proof (cases "he_alloc E h Pinned n")
    case None
    then show ?thesis
      using t1 assms(2-5) by (auto simp: iq_alloc_data_def host_alloc_def silent_def resources_def)
  next
    case (Some p)
    obtain r h1 where r: "run_state (gpunvme_virt_to_phys E p) (HAlloc Pinned n (Some p) # h) = (r, h1)"
        "mmio_writes h1 = mmio_writes h" "resources h1 = resources (HAlloc Pinned n (Some p) # h)" "\<And>a. posted a h1 = posted a h"
      by (rule run_virt_to_phys[of E p "HAlloc Pinned n (Some p) # h"]) simp
    let ?o = "(case r of Inr a \<Rightarrow> out\<lparr>iq_data_buf := p, iq_data_buf_phys := a\<rparr> | Inl _ \<Rightarrow> out\<lparr>iq_data_buf := p\<rparr>)\<lparr>iq_data_buf_size := n\<rparr>"
    have "h' = h1" "out' = ?o"
      using t1 Some assms(2) r(1) by (auto simp: iq_alloc_data_def host_alloc_def Let_def)
    moreover have "iq_rings ?o = iq_rings out" "iq_data_buf ?o = p" by (simp_all split: sum.splits)
    ultimately show ?thesis
      using t1 r(2-4) nonnull_allocD[OF assms(1) Some] assms(3,4,5)
      by (simp add: silent_def iq_resources_def resources_def data_kind_def iq_rings_def)
  qed
next
  case False
  show ?thesis
  proof (cases "he_alloc E h Device n")
    case None
    then show ?thesis
      using False assms(2-5) by (auto simp: iq_alloc_data_def host_alloc_def silent_def resources_def split: if_splits)
  next
    case (Some p)
    then show ?thesis
      using False nonnull_allocD[OF assms(1) Some] assms(2-5)
      by (auto simp: iq_alloc_data_def host_alloc_def silent_def iq_resources_def resources_def data_kind_def split: if_splits)
  qed
qed

section \<open>The commands of a queue pair\<close>

definition create_cq_cmd :: "gpunvme_ctrl \<Rightarrow> gpunvme_io_queue \<Rightarrow> nvme_sq_entry" where
  "create_cq_cmd c q = nvme_cmd_create_io_cq sqe_zero (c_admin_cid c) (iq_qid q) (iq_cq_size q - 1) (iq_cq_phys q) 0"

definition create_sq_cmd :: "gpunvme_ctrl \<Rightarrow> gpunvme_io_queue \<Rightarrow> nvme_sq_entry" where
  "create_sq_cmd c q = nvme_cmd_create_io_sq sqe_zero (c_admin_cid c + 1) (iq_qid q) (iq_sq_size q - 1) (iq_sq_phys q) (iq_qid q)"

definition undo_cq_cmd :: "gpunvme_ctrl \<Rightarrow> gpunvme_io_queue \<Rightarrow> nvme_sq_entry" where
  "undo_cq_cmd c q = nvme_cmd_delete_io_cq sqe_zero (c_admin_cid c + 2) (iq_qid q)"

text \<open>A queue record that is connected: doorbells from the stride, the structure for the GPU in
  place.\<close>

definition iq_connected :: "gpunvme_ctrl \<Rightarrow> gpunvme_io_queue \<Rightarrow> u64 \<Rightarrow> gpunvme_io_queue" where
  "iq_connected c q p =
    (let q = q\<lparr>iq_sq_doorbell_off := nvme_sq_doorbell_offset (iq_qid q) (c_dstrd c),
               iq_cq_doorbell_off := nvme_cq_doorbell_offset (iq_qid q) (c_dstrd c)\<rparr>
     in q\<lparr>iq_gpu_queue := Some (p, iq_gpu_struct c q)\<rparr>)"

lemma admin_call_chain:
  assumes "admin_call f c h e c1 h1" and "admin_call g c1 h1 e' c2 h2"
  shows "\<forall>a. posted a h2 = posted a h @ (if a = c_admin_sq c then [f (c_admin_cid c), g (c_admin_cid c + 1)] else [])"
    "resources h2 = resources h" "ctrl_core c2 = ctrl_core c" "c_admin_cid c2 = c_admin_cid c + 2"
    "c_block_size c2 = c_block_size c"
    "\<exists>ws. admin_doorbell_writes c ws \<and> mmio_writes h2 = mmio_writes h @ ws"
proof -
  have core: "ctrl_core c1 = ctrl_core c" using assms(1) by (simp add: admin_call_def)
  show "\<forall>a. posted a h2 = posted a h @ (if a = c_admin_sq c then [f (c_admin_cid c), g (c_admin_cid c + 1)] else [])"
    "resources h2 = resources h" "ctrl_core c2 = ctrl_core c" "c_admin_cid c2 = c_admin_cid c + 2"
    "c_block_size c2 = c_block_size c"
    using assms ctrl_core_eqD(3)[OF core] by (auto simp: admin_call_def)
  obtain ws ws' where "admin_doorbell_writes c ws" "mmio_writes h1 = mmio_writes h @ ws"
      "admin_doorbell_writes c1 ws'" "mmio_writes h2 = mmio_writes h1 @ ws'"
    using assms by (auto simp: admin_call_def)
  then show "\<exists>ws. admin_doorbell_writes c ws \<and> mmio_writes h2 = mmio_writes h @ ws"
    using admin_doorbell_writes_cong[OF core] by (intro exI[of _ "ws @ ws'"]) simp
qed

text \<open>The four ways the connection ends.\<close>

lemma iq_connect_cases:
  assumes "run_state (iq_connect E (iq_sq_size q) c q) h = ((ok, c', q'), h')" and "iq_cq_size q = iq_sq_size q"
  obtains
    (cq_refused) e where "\<not> ok" "q' = q" "e \<noteq> GPUNVME_OK"
      "admin_call (\<lambda>_. create_cq_cmd c q) c h e c' h'"
  | (sq_refused) c1 h1 c2 h2 e e' where "\<not> ok" "q' = q" "e \<noteq> GPUNVME_OK"
      "admin_call (\<lambda>_. create_cq_cmd c q) c h GPUNVME_OK c1 h1" "admin_call (\<lambda>_. create_sq_cmd c q) c1 h1 e c2 h2"
      "admin_call (\<lambda>_. undo_cq_cmd c q) c2 h2 e' c' h'"
  | (no_struct) c1 h1 h2 where "\<not> ok" "iq_rings q' = iq_rings q" "iq_data_buf q' = iq_data_buf q"
      "admin_call (\<lambda>_. create_cq_cmd c q) c h GPUNVME_OK c1 h1" "admin_call (\<lambda>_. create_sq_cmd c q) c1 h1 GPUNVME_OK c' h2"
      "h' = HAlloc Pinned sizeof_gpu_nvme_queue None # h2"
  | (connected) c1 h1 h2 p where "ok" "q' = iq_connected c' q p"
      "admin_call (\<lambda>_. create_cq_cmd c q) c h GPUNVME_OK c1 h1" "admin_call (\<lambda>_. create_sq_cmd c q) c1 h1 GPUNVME_OK c' h2"
      "h' = HAlloc Pinned sizeof_gpu_nvme_queue (Some p) # h2"
proof -
  let ?n = "iq_sq_size q" and ?qid = "iq_qid q"
  obtain e1 c1 h1 where 1: "run_state (gpunvme_admin_create_io_cq ?qid ?n (iq_cq_phys q) E c) h = ((e1, c1), h1)"
    by (metis surj_pair)
  obtain e2 c2 h2 where 2: "run_state (gpunvme_admin_create_io_sq ?qid ?n (iq_sq_phys q) ?qid E c1) h1 = ((e2, c2), h2)"
    by (metis surj_pair)
  obtain e3 c3 h3 where 3: "run_state (gpunvme_admin_delete_io_cq ?qid E c2) h2 = ((e3, c3), h3)"
    by (metis surj_pair)
  have a1: "admin_call (\<lambda>_. create_cq_cmd c q) c h e1 c1 h1"
    using adm_create_cq.oper_call[OF 1] assms(2) by (simp add: admin_call_def create_cq_cmd_def)
  then have id1: "c_admin_cid c1 = c_admin_cid c + 1" by (simp add: admin_call_def)
  have a2: "admin_call (\<lambda>_. create_sq_cmd c q) c1 h1 e2 c2 h2"
    using adm_create_sq.oper_call[OF 2] id1 by (simp add: admin_call_def create_sq_cmd_def)
  have a3: "admin_call (\<lambda>_. undo_cq_cmd c q) c2 h2 e3 c3 h3"
    using adm_delete_cq.oper_call[OF 3] a2 id1 by (simp add: admin_call_def undo_cq_cmd_def add.commute)
  note run = assms(1)[unfolded iq_connect_def Let_def host_alloc_def]
  show ?thesis
  proof (cases "e1 = GPUNVME_OK")
    case False
    then show ?thesis using run 1 a1 by (intro cq_refused[of e1]) auto
  next
    case t1: True
    show ?thesis
    proof (cases "e2 = GPUNVME_OK")
      case False
      then show ?thesis using run 1 2 3 a1 a2 a3 t1 by (intro sq_refused[of e2 c1 h1 c2 h2 e3]) auto
    next
      case t2: True
      show ?thesis
      proof (cases "he_alloc E h2 Pinned sizeof_gpu_nvme_queue")
        case None
        then show ?thesis using run 1 2 a1 a2 t1 t2 by (intro no_struct[of c1 h1 h2]) (auto simp: iq_rings_def)
      next
        case (Some p)
        then show ?thesis using run 1 2 a1 a2 t1 t2
          by (intro connected[of p c1 h1 h2]) (auto simp: iq_connected_def Let_def)
      qed
    qed
  qed
qed

lemma iq_connect_failure:
  assumes "run_state (iq_connect E (iq_sq_size q) c q) h = ((False, c', q'), h')" and "iq_cq_size q = iq_sq_size q"
  shows "\<exists>cmds. posted (c_admin_sq c) h' = posted (c_admin_sq c) h @ cmds
          \<and> cmds \<in> {[create_cq_cmd c q], [create_cq_cmd c q, create_sq_cmd c q, undo_cq_cmd c q],
              [create_cq_cmd c q, create_sq_cmd c q]}"
    and "resources h' = resources h" and "iq_rings q' = iq_rings q" and "iq_data_buf q' = iq_data_buf q"
proof -
  have "(\<exists>cmds. posted (c_admin_sq c) h' = posted (c_admin_sq c) h @ cmds
          \<and> cmds \<in> {[create_cq_cmd c q], [create_cq_cmd c q, create_sq_cmd c q, undo_cq_cmd c q],
              [create_cq_cmd c q, create_sq_cmd c q]})
    \<and> resources h' = resources h \<and> iq_rings q' = iq_rings q \<and> iq_data_buf q' = iq_data_buf q"
    using assms
  proof (cases rule: iq_connect_cases)
    case (cq_refused e)
    then show ?thesis by (auto simp: admin_call_def)
  next
    case (sq_refused c1 h1 c2 h2 e e')
    note ch = admin_call_chain[OF sq_refused(4,5)]
    then show ?thesis
      using sq_refused(2,6) ctrl_core_eqD(3)[OF ch(3)] by (simp add: admin_call_def)
  next
    case (no_struct c1 h1 h2)
    note ch = admin_call_chain[OF no_struct(4,5)]
    then show ?thesis using no_struct(2,3,6) by (simp add: resources_def)
  qed simp
  then show "\<exists>cmds. posted (c_admin_sq c) h' = posted (c_admin_sq c) h @ cmds
          \<and> cmds \<in> {[create_cq_cmd c q], [create_cq_cmd c q, create_sq_cmd c q, undo_cq_cmd c q],
              [create_cq_cmd c q, create_sq_cmd c q]}"
    and "resources h' = resources h" and "iq_rings q' = iq_rings q" and "iq_data_buf q' = iq_data_buf q"
    by blast+
qed

section \<open>Every way a creation ends\<close>

definition iq_depth :: "gpunvme_ctrl \<Rightarrow> u16 \<Rightarrow> u16" where
  "iq_depth c depth = (if depth > c_max_queue_entries c then c_max_queue_entries c else depth)"

text \<open>The record once all memory of the pair is there.\<close>

definition iq_allocated :: "u16 \<Rightarrow> u16 \<Rightarrow> gpunvme_tier \<Rightarrow> hev list \<Rightarrow> gpunvme_io_queue \<Rightarrow> hev list \<Rightarrow> bool" where
  "iq_allocated qid depth tier h q h1 \<longleftrightarrow>
     silent h h1 \<and> resources h1 = iq_resources tier q h
   \<and> iq_qid q = qid \<and> iq_sq_size q = depth \<and> iq_cq_size q = depth \<and> iq_tier q = tier
   \<and> iq_sq q \<noteq> 0 \<and> iq_cq q \<noteq> 0 \<and> iq_gpu_queue q = None"

lemma iq_allocated_cong:
  assumes "iq_allocated qid depth tier h q h1" and "iq_rings q' = iq_rings q"
    and "silent h1 h2" and "resources h2 = iq_resources tier q' h"
  shows "iq_allocated qid depth tier h q' h2"
  using assms by (auto simp: iq_allocated_def iq_rings_def intro: silent_trans)

lemma iq_create_cases:
  assumes "run_state (iq_create_body E c qid depth n tier) h = ((err, c', q'), h')" and "nonnull_alloc E"
  obtains
    (no_memory) "err = GPUNVME_ERR_NOMEM" "c' = c" "silent h h'" "resources h' = resources h"
  | (failed) q1 h1 q2 h2 a b where "err = GPUNVME_ERR_NOMEM" "q' = io_queue_zero"
      "iq_allocated qid (iq_depth c depth) tier h q1 h1"
      "run_state (iq_connect E (iq_depth c depth) c q1) h1 = ((False, c', q2), h2)"
      "h' = snd (run_state (iq_fail tier a b q2) h2)"
  | (created) q1 h1 where "err = GPUNVME_OK" "iq_allocated qid (iq_depth c depth) tier h q1 h1"
      "run_state (iq_connect E (iq_depth c depth) c q1) h1 = ((True, c', q'), h')"
proof -
  let ?d = "iq_depth c depth"
  let ?o = "io_queue_zero\<lparr>iq_qid := qid, iq_sq_size := ?d, iq_cq_size := ?d, iq_tier := tier\<rparr>"
  let ?sb = "iq_ring_bytes ?d 64" and ?cb = "iq_ring_bytes ?d 16"
  have o: "iq_gpu_queue ?o = None" "iq_data_buf ?o = 0" by (simp_all add: io_queue_zero_def)
  obtain ok q0 h0 where 0: "run_state (if host_tier tier then iq_alloc_host E ?sb ?cb ?o else iq_alloc_device E ?sb ?cb ?o) h
      = ((ok, q0), h0)"
    by (metis surj_pair)
  note al = iq_alloc_facts[OF assms(2) 0 o]
  let ?h0 = "HMemset (iq_cq q0) ?cb # HMemset (iq_sq q0) ?sb # h0"
  obtain q1 h1 where 1: "run_state (if host_tier tier then iq_resolve E q0 else State_Monad.return q0) ?h0 = (q1, h1)"
    by (metis surj_pair)
  have r1: "silent ?h0 h1" "resources h1 = resources h0" "iq_rings q1 = iq_rings q0" "iq_data_buf q1 = iq_data_buf q0"
    using 1 iq_resolve_facts[of E q0 ?h0 q1 h1] by (auto split: if_splits)
  obtain ok1 q2 h2 where 2: "run_state (iq_alloc_data E tier n q1) h1 = ((ok1, q2), h2)"
    by (metis surj_pair)
  note run = assms(1)[unfolded iq_create_body_def Let_def, folded iq_depth_def, simplified]
  show ?thesis
  proof (cases ok)
    case False
    then show ?thesis using run 0 al by (intro no_memory) auto
  next
    case True
    have al': "iq_sq q0 \<noteq> 0" "iq_cq q0 \<noteq> 0" "q0 = ?o\<lparr>iq_sq := iq_sq q0, iq_cq := iq_cq q0\<rparr>"
      using al(4)[OF True] by auto
    have rings: "iq_rings q0 = ((qid, ?d, ?d, tier), iq_sq q0, iq_cq q0, None)" "iq_data_buf q0 = 0"
      by (subst al'(3), simp add: iq_rings_def io_queue_zero_def)+
    have "iq_allocated qid ?d tier h q0 h0"
      using al(1,2)[OF] True al'(1,2) rings by (simp add: iq_allocated_def iq_rings_def)
    moreover have "silent h0 h1" using r1(1) by (simp add: silent_def)
    moreover have "resources h1 = iq_resources tier q1 h"
      using r1 al(2)[OF True] iq_resources_cong[of q1 q0 tier h] by simp
    ultimately have a1: "iq_allocated qid ?d tier h q1 h1"
      using r1(3) by (intro iq_allocated_cong[of qid ?d tier h q0 h0 q1 h1])
    have d: "silent h1 h2" "resources h2 = iq_resources tier q2 h" "iq_rings q2 = iq_rings q1"
      using iq_alloc_data_facts[OF assms(2) 2, of h] a1 r1(4) rings(2) by (auto simp: iq_allocated_def)
    have a2: "iq_allocated qid ?d tier h q2 h2"
      using iq_allocated_cong[OF a1 d(3,1,2)] .
    show ?thesis
    proof (cases ok1)
      case False
      obtain h3 where 3: "run_state (iq_fail tier ?sb ?cb q2) h2 = ((), h3)"
        by (metis surj_pair old.unit.exhaust)
      then have h3: "resources h3 = resources h" "silent h2 h3"
        using iq_fail_releases[of h2 tier q2 h ?sb ?cb] a2 by (auto simp: iq_allocated_def)
      have "err = GPUNVME_ERR_NOMEM" "c' = c" "h' = h3"
        using run 0 1 2 3 True False by simp_all
      then show ?thesis
        using h3 a2 by (intro no_memory) (auto simp: iq_allocated_def intro: silent_trans)
    next
      case t1: True
      obtain ok2 c3 q3 h3 where 3: "run_state (iq_connect E ?d c q2) h2 = ((ok2, c3, q3), h3)"
        by (metis surj_pair)
      obtain h4 where 4: "run_state (iq_fail tier ?sb ?cb q3) h3 = ((), h4)"
        by (metis surj_pair old.unit.exhaust)
      show ?thesis
      proof (cases ok2)
        case False
        then have "err = GPUNVME_ERR_NOMEM" "q' = io_queue_zero" "c' = c3" "h' = h4"
          using run 0 1 2 3 4 True t1 by simp_all
        then show ?thesis using failed[of q2 h2 q3 h3 ?sb ?cb] a2 3 4 False by simp
      next
        case t2: True
        then have "err = GPUNVME_OK" "q' = q3" "c' = c3" "h' = h3"
          using run 0 1 2 3 True t1 by simp_all
        then show ?thesis using created[of q2 h2] a2 3 t2 by simp
      qed
    qed
  qed
qed

lemma iq_connected_simps [simp]:
  "iq_qid (iq_connected c q p) = iq_qid q" "iq_sq_size (iq_connected c q p) = iq_sq_size q"
  "iq_cq_size (iq_connected c q p) = iq_cq_size q" "iq_tier (iq_connected c q p) = iq_tier q"
  "iq_sq (iq_connected c q p) = iq_sq q" "iq_cq (iq_connected c q p) = iq_cq q"
  "iq_sq_phys (iq_connected c q p) = iq_sq_phys q" "iq_cq_phys (iq_connected c q p) = iq_cq_phys q"
  "iq_data_buf (iq_connected c q p) = iq_data_buf q" "iq_data_buf_phys (iq_connected c q p) = iq_data_buf_phys q"
  "create_cq_cmd c0 (iq_connected c q p) = create_cq_cmd c0 q" "create_sq_cmd c0 (iq_connected c q p) = create_sq_cmd c0 q"
  by (simp_all add: iq_connected_def Let_def create_cq_cmd_def create_sq_cmd_def)

lemma iq_resources_connected:
  assumes "resources h1 = iq_resources t q h" and "iq_gpu_queue q = None"
  shows "resources (HAlloc Pinned n (Some p) # h1) = iq_resources t (iq_connected c q p) h"
  using assms by (simp add: resources_def iq_resources_def iq_connected_def Let_def)

text \<open>The structure handed to the GPU kernels after a creation.\<close>

definition gpu_struct_ready :: "gpunvme_ctrl \<Rightarrow> gpunvme_io_queue \<Rightarrow> gpu_queue_struct \<Rightarrow> bool" where
  "gpu_struct_ready c q g \<longleftrightarrow>
     q_sq g = iq_sq q \<and> q_cq g = iq_cq q \<and> q_sq_size g = iq_sq_size q \<and> q_cq_size g = iq_cq_size q
   \<and> q_sq_tail g = 0 \<and> q_cq_head g = 0 \<and> q_cq_phase g = 1 \<and> q_cid_counter g = 0 \<and> q_qid g = iq_qid q
   \<and> q_nsid g = 1 \<and> q_block_size g = c_block_size c \<and> q_data_buf g = iq_data_buf q \<and> q_data_buf_phys g = iq_data_buf_phys q
   \<and> (c_bar0_gpu c \<noteq> 0 \<longrightarrow>
        q_doorbell_sq g = nvme_reg_ptr (c_bar0_gpu c) (nvme_sq_doorbell_offset (iq_qid q) (c_dstrd c))
      \<and> q_doorbell_cq g = nvme_reg_ptr (c_bar0_gpu c) (nvme_cq_doorbell_offset (iq_qid q) (c_dstrd c)))"

lemma iq_connected_struct:
  assumes "ctrl_core c' = ctrl_core c" and "c_block_size c' = c_block_size c"
  shows "\<exists>g. iq_gpu_queue (iq_connected c' q p) = Some (p, g) \<and> gpu_struct_ready c (iq_connected c' q p) g"
  using ctrl_core_eqD(2,7)[OF assms(1)] assms(2)
  by (auto simp: gpu_struct_ready_def iq_connected_def iq_gpu_struct_def Let_def nvme_reg_ptr_def)

lemma create_queue_body:
  assumes "run_state (gpunvme_create_io_queue E (Some c) qid depth n tier (Some out)) h = ((err, Some c', Some q), h')"
    and "qid \<noteq> 0" and "depth \<noteq> 0"
  shows "run_state (iq_create_body E c qid depth n tier) h = ((err, c', q), h')"
  using assms by (auto simp: gpunvme_create_io_queue_def split: prod.splits)

section \<open>Creation with an answering controller\<close>

lemma iq_connect_ready:
  assumes "admin_answers E (c_bar0 c) d" and "d < unat (c_timeout_ms c * 1000)" and "admin_fresh k c" and "k < 30"
  shows "\<exists>c' h2 q2. ctrl_core c' = ctrl_core c \<and> admin_fresh (Suc (Suc k)) c'
    \<and> run_state (iq_connect E n c q) h = (case he_alloc E h2 Pinned sizeof_gpu_nvme_queue of
        None \<Rightarrow> ((False, c', q2), HAlloc Pinned sizeof_gpu_nvme_queue None # h2)
      | Some p \<Rightarrow> ((True, c', iq_connected c' q p), HAlloc Pinned sizeof_gpu_nvme_queue (Some p) # h2))"
proof -
  have k: "k < 31" "Suc k < 31" using assms(4) by simp_all
  obtain c1 h1 where 1: "run_state (gpunvme_admin_create_io_cq (iq_qid q) n (iq_cq_phys q) E c) h = ((GPUNVME_OK, c1), h1)"
      "admin_fresh (Suc k) c1"
    using adm_create_cq.oper_succeeds[OF assms(1-3) k(1)] by blast
  have core: "ctrl_core c1 = ctrl_core c" using adm_create_cq.oper_call[OF 1(1)] by (simp add: admin_call_def)
  have "admin_answers E (c_bar0 c1) d" "d < unat (c_timeout_ms c1 * 1000)"
    using ctrl_core_eqD(1,5)[OF core] assms(1,2) by simp_all
  then obtain c2 h2 where 2: "run_state (gpunvme_admin_create_io_sq (iq_qid q) n (iq_sq_phys q) (iq_qid q) E c1) h1
        = ((GPUNVME_OK, c2), h2)" "admin_fresh (Suc (Suc k)) c2"
    using adm_create_sq.oper_succeeds[OF _ _ 1(2) k(2)] by blast
  then have "ctrl_core c2 = ctrl_core c"
    using adm_create_sq.oper_call[OF 2(1)] core by (simp add: admin_call_def)
  then show ?thesis
    using 1(1) 2 by (intro exI[of _ c2] exI[of _ h2] exI)
      (auto simp: iq_connect_def Let_def host_alloc_def iq_connected_def split: option.splits)
qed

lemma iq_alloc_ready:
  assumes "\<And>h n. \<exists>p. he_alloc E h (ring_kind tier) n = Some p" and "\<And>h p. he_register E h p"
  shows "\<exists>q h'. run_state (if host_tier tier then iq_alloc_host E n m out else iq_alloc_device E n m out) h = ((True, q), h')"
proof (cases "host_tier tier")
  case True
  then obtain sq where 1: "he_alloc E h Aligned n = Some sq" using assms(1) by (auto simp: ring_kind_def)
  obtain cq where 2: "he_alloc E (HAlloc Aligned n (Some sq) # h) Aligned m = Some cq"
    using assms(1) True by (auto simp: ring_kind_def)
  show ?thesis using True 1 2 assms(2) by (simp add: iq_alloc_host_def host_alloc_def cuda_host_register_def)
next
  case False
  then obtain sq where 1: "he_alloc E h Device n = Some sq" using assms(1) by (auto simp: ring_kind_def)
  obtain cq where 2: "he_alloc E (HAlloc Device n (Some sq) # h) Device m = Some cq"
    using assms(1) False by (auto simp: ring_kind_def)
  show ?thesis using False 1 2 by (simp add: iq_alloc_device_def host_alloc_def Let_def)
qed

lemma iq_data_ready:
  assumes "n = 0 \<or> (\<forall>h. \<exists>p. he_alloc E h (data_kind tier) n = Some p)"
  shows "\<exists>q h'. run_state (iq_alloc_data E tier n out) h = ((True, q), h')"
proof (cases "n = 0")
  case False
  then obtain p where "he_alloc E h (data_kind tier) n = Some p" using assms by blast
  then show ?thesis
    using False by (cases "tier = GPUNVME_TIER1")
      (auto simp: iq_alloc_data_def host_alloc_def data_kind_def Let_def word_neq_0_conv split_def)
qed (simp add: iq_alloc_data_def)

lemma iq_alloc_qid:
  assumes "run_state (if host_tier tier then iq_alloc_host E n m out else iq_alloc_device E n m out) h = ((True, q), h')"
  shows "iq_qid q = iq_qid out"
  using assms by (auto simp: iq_alloc_host_def iq_alloc_device_def host_alloc_def cuda_host_register_def host_free_def
      Let_def split: if_splits option.splits)

lemma iq_data_qid:
  assumes "run_state (iq_alloc_data E tier n out) h = ((ok, q), h')"
  shows "iq_qid q = iq_qid out"
  using assms by (auto simp: iq_alloc_data_def host_alloc_def Let_def split_def
      split: if_splits option.splits sum.splits)

lemma iq_create_ready:
  assumes "\<And>h n. \<exists>p. he_alloc E h (ring_kind tier) n = Some p" and "\<And>h p. he_register E h p"
    and "n = 0 \<or> (\<forall>h. \<exists>p. he_alloc E h (data_kind tier) n = Some p)"
  obtains q1 h1 a b where "iq_qid q1 = qid"
    "run_state (iq_create_body E c qid depth n tier) h =
     (case run_state (iq_connect E (iq_depth c depth) c q1) h1 of ((ok, c', q2), h2) \<Rightarrow>
        if ok then ((GPUNVME_OK, c', q2), h2)
        else ((GPUNVME_ERR_NOMEM, c', io_queue_zero), snd (run_state (iq_fail tier a b q2) h2)))"
proof -
  let ?d = "iq_depth c depth"
  let ?o = "io_queue_zero\<lparr>iq_qid := qid, iq_sq_size := ?d, iq_cq_size := ?d, iq_tier := tier\<rparr>"
  let ?sb = "iq_ring_bytes ?d 64" and ?cb = "iq_ring_bytes ?d 16"
  obtain q0 h0 where 0: "run_state (if host_tier tier then iq_alloc_host E ?sb ?cb ?o else iq_alloc_device E ?sb ?cb ?o) h
      = ((True, q0), h0)"
    using iq_alloc_ready[OF assms(1,2)] by blast
  let ?h0 = "HMemset (iq_cq q0) ?cb # HMemset (iq_sq q0) ?sb # h0"
  obtain q1 h1 where 1: "run_state (if host_tier tier then iq_resolve E q0 else State_Monad.return q0) ?h0 = (q1, h1)"
    by (metis surj_pair)
  obtain q2 h2 where 2: "run_state (iq_alloc_data E tier n q1) h1 = ((True, q2), h2)"
    using iq_data_ready[OF assms(3)] by blast
  obtain ok c3 q3 h3 where 3: "run_state (iq_connect E ?d c q2) h2 = ((ok, c3, q3), h3)"
    by (metis surj_pair)
  obtain h4 where 4: "run_state (iq_fail tier ?sb ?cb q3) h3 = ((), h4)"
    by (metis surj_pair old.unit.exhaust)
  have "iq_qid q2 = qid"
    using iq_alloc_qid[OF 0] iq_data_qid[OF 2] 1 iq_resolve_facts(3)[of E q0 ?h0 q1 h1]
    by (auto simp: iq_rings_def split: if_splits)
  then show ?thesis
    using that[of q2 ?sb ?cb h2] 0 1 2 3 4
    by (cases ok) (simp_all add: iq_create_body_def Let_def iq_depth_def[symmetric])
qed

lemma create_completes:
  assumes "memory_available E" and "\<And>h p. he_register E h p" and "admin_answers E (c_bar0 c) d"
    and "d < unat (c_timeout_ms c * 1000)" and "admin_fresh k c" and "k < 30" and "qid \<noteq> 0" and "depth \<noteq> 0"
  shows "\<exists>c' q h'. run_state (gpunvme_create_io_queue E (Some c) qid depth n tier (Some out)) h = ((GPUNVME_OK, Some c', Some q), h')
    \<and> admin_fresh (k + 2) c'"
proof -
  have mem: "\<exists>p. he_alloc E h' kd m = Some p" for h' kd m using memory_availableE[OF assms(1)] by metis
  have data: "n = 0 \<or> (\<forall>h. \<exists>p. he_alloc E h (data_kind tier) n = Some p)" using mem by blast
  obtain q1 h1 a b where "iq_qid q1 = qid" and body: "run_state (iq_create_body E c qid depth n tier) h =
     (case run_state (iq_connect E (iq_depth c depth) c q1) h1 of ((ok, c', q2), h2) \<Rightarrow>
        if ok then ((GPUNVME_OK, c', q2), h2)
        else ((GPUNVME_ERR_NOMEM, c', io_queue_zero), snd (run_state (iq_fail tier a b q2) h2)))"
    by (rule iq_create_ready[OF mem assms(2) data])
  obtain c' h2 q2 where con: "admin_fresh (Suc (Suc k)) c'"
    "run_state (iq_connect E (iq_depth c depth) c q1) h1 = (case he_alloc E h2 Pinned sizeof_gpu_nvme_queue of
        None \<Rightarrow> ((False, c', q2), HAlloc Pinned sizeof_gpu_nvme_queue None # h2)
      | Some p \<Rightarrow> ((True, c', iq_connected c' q1 p), HAlloc Pinned sizeof_gpu_nvme_queue (Some p) # h2))"
    using iq_connect_ready[OF assms(3-6)] by blast
  obtain p where "he_alloc E h2 Pinned sizeof_gpu_nvme_queue = Some p" using mem by blast
  then show ?thesis
    using body con assms(7,8) by (simp add: gpunvme_create_io_queue_def)
qed

lemma iq_created:
  assumes "run_state (gpunvme_create_io_queue E (Some c) qid depth n tier (Some out)) h = ((GPUNVME_OK, Some c', Some q), h')"
    and "nonnull_alloc E"
  shows "iq_qid q = qid \<and> iq_sq_size q = min depth (c_max_queue_entries c) \<and> iq_cq_size q = iq_sq_size q \<and> iq_tier q = tier
    \<and> (\<forall>a. posted a h' = posted a h @ (if a = c_admin_sq c then [create_cq_cmd c q, create_sq_cmd c q] else []))
    \<and> (\<exists>ws. admin_doorbell_writes c ws \<and> mmio_writes h' = mmio_writes h @ ws)
    \<and> resources h' = iq_resources tier q h
    \<and> (\<exists>p g. iq_gpu_queue q = Some (p, g) \<and> gpu_struct_ready c q g)
    \<and> iq_sq q \<noteq> 0 \<and> iq_cq q \<noteq> 0"
proof -
  have "qid \<noteq> 0" "depth \<noteq> 0" using assms(1) by (auto simp: gpunvme_create_io_queue_def)
  note body = create_queue_body[OF assms(1) this]
  obtain q1 h1 where a: "iq_allocated qid (iq_depth c depth) tier h q1 h1"
    and con: "run_state (iq_connect E (iq_depth c depth) c q1) h1 = ((True, c', q), h')"
    by (cases rule: iq_create_cases[OF body assms(2)]) auto
  have con': "run_state (iq_connect E (iq_sq_size q1) c q1) h1 = ((True, c', q), h')" "iq_cq_size q1 = iq_sq_size q1"
    using con a by (auto simp: iq_allocated_def)
  then show ?thesis
  proof (cases rule: iq_connect_cases)
    case (connected c1 h2 h3 p)
    note ch = admin_call_chain[OF connected(3,4)]
    have "resources h' = iq_resources tier q h"
      using a ch(2) connected(2,5) by (auto simp: iq_allocated_def intro!: iq_resources_connected)
    moreover have "min depth (c_max_queue_entries c) = iq_depth c depth" by (auto simp: iq_depth_def min_def)
    ultimately show ?thesis
      using a ch(1,6) connected(2,5) iq_connected_struct[OF ch(3,5), of q1 p] by (auto simp: iq_allocated_def silent_def)
  qed simp_all
qed

lemma iq_delete_releases:
  assumes "resources h1 = iq_resources (iq_tier q) q h" and "iq_sq q \<noteq> 0" and "iq_cq q \<noteq> 0"
  shows "\<exists>c2 h2. run_state (iq_delete_body E c q) h1 = ((c2, io_queue_zero), h2) \<and> resources h2 = resources h
    \<and> posted (c_admin_sq c) h2 = posted (c_admin_sq c) h1 @ [nvme_cmd_delete_io_sq sqe_zero (c_admin_cid c) (iq_qid q),
        nvme_cmd_delete_io_cq sqe_zero (c_admin_cid c + 1) (iq_qid q)]"
proof -
  obtain e1 c1 h2 where 1: "run_state (gpunvme_admin_delete_io_sq (iq_qid q) E c) h1 = ((e1, c1), h2)" by (metis surj_pair)
  obtain e2 c2 h3 where 2: "run_state (gpunvme_admin_delete_io_cq (iq_qid q) E c1) h2 = ((e2, c2), h3)" by (metis surj_pair)
  note ch = admin_call_chain[OF adm_delete_sq.oper_call[OF 1] adm_delete_cq.oper_call[OF 2]]
  have "resources h3 = iq_resources (iq_tier q) q h" using ch(2) assms(1) by simp
  then show ?thesis
    using 1 2 assms(2,3) ch(1)
    by (auto simp: iq_delete_body_def iq_release_ring_def host_free_def iq_resources_def resources_def
      data_kind_def ring_kind_def host_tier_def split: option.splits)
qed

section \<open>Properties of I/O queues\<close>


text \<open>Creating a queue pair terminates with success whenever memory is available and registrable and
  the controller answers admin commands within the timeout, whatever the tier, depth and data size;
  it uses exactly two slots of the admin ring.\<close>

theorem create_io_queue_completes:
  assumes "memory_available E" and "\<And>h p. he_register E h p" and "admin_answers E (c_bar0 c) d"
    and "d < unat (c_timeout_ms c * 1000)" and "admin_fresh k c" and "k < 30" and "qid \<noteq> 0" and "depth \<noteq> 0"
  shows "\<exists>c' q h'. run_state (gpunvme_create_io_queue E (Some c) qid depth n tier (Some out)) h = ((GPUNVME_OK, Some c', Some q), h')
    \<and> admin_fresh (k + 2) c'"
  by (rule create_completes[OF assms])

definition example_ctrl :: gpunvme_ctrl where
  "example_ctrl = example_admin\<lparr>c_max_queue_entries := 64, c_block_size := 512\<rparr>"

lemma example_ctrl_fresh: "admin_fresh 0 example_ctrl" "c_bar0 example_ctrl = 0x10000000"
  "0 < unat (c_timeout_ms example_ctrl * 1000)" "c_max_queue_entries example_ctrl = 64" "c_admin_sq example_ctrl = 0x2000"
  "c_admin_cid example_ctrl = 0"
  by (simp_all add: example_ctrl_def example_admin_def ctrl_zero_def admin_fresh_def)

lemma ready_host_register: "he_register ready_host h p"
  by (simp add: ready_host_def example_host_def)

lemma ready_host_nonnull: "nonnull_alloc ready_host"
  using example_nonnull by (simp add: nonnull_alloc_def ready_host_def)

lemma example_queue_create:
  obtains c q h' where "run_state (gpunvme_create_io_queue ready_host (Some example_ctrl) 1 128 4096 GPUNVME_TIER1
    (Some io_queue_zero)) [] = ((GPUNVME_OK, Some c, Some q), h')"
proof -
  have "admin_answers ready_host (c_bar0 example_ctrl) 0" using ready_host_answers example_ctrl_fresh(2) by simp
  from create_completes[OF ready_host_memory ready_host_register this example_ctrl_fresh(3,1),
      where qid = 1 and depth = 128 and n = 4096 and tier = GPUNVME_TIER1 and out = io_queue_zero and h = "[]"]
  show ?thesis using that by auto
qed

theorem create_io_queue_completes_witness:
  "\<exists>c q h'. run_state (gpunvme_create_io_queue ready_host (Some example_ctrl) 1 128 4096 GPUNVME_TIER2 (Some io_queue_zero)) []
     = ((GPUNVME_OK, Some c, Some q), h') \<and> admin_fresh 2 c"
proof -
  have "admin_answers ready_host (c_bar0 example_ctrl) 0" using ready_host_answers example_ctrl_fresh(2) by simp
  from create_io_queue_completes[OF ready_host_memory ready_host_register this example_ctrl_fresh(3,1),
      where qid = 1 and depth = 128 and n = 4096 and tier = GPUNVME_TIER2 and out = io_queue_zero and h = "[]"]
  show ?thesis by (auto simp del: add_2_eq_Suc add_2_eq_Suc')
qed


lemma iq_create_core:
  assumes "run_state (iq_create_body E c qid depth n tier) h = ((err, c', q'), h')" and "nonnull_alloc E"
  shows "ctrl_core c' = ctrl_core c" "c_block_size c' = c_block_size c"
proof -
  have connect: "ctrl_core c' = ctrl_core c \<and> c_block_size c' = c_block_size c"
    if "run_state (iq_connect E (iq_depth c depth) c q1) h1 = ((ok, c', q2), h2)" "iq_allocated qid (iq_depth c depth) tier h q1 h1"
    for q1 h1 ok q2 h2
  proof -
    have "run_state (iq_connect E (iq_sq_size q1) c q1) h1 = ((ok, c', q2), h2)" "iq_cq_size q1 = iq_sq_size q1"
      using that by (auto simp: iq_allocated_def)
    then show ?thesis by (cases rule: iq_connect_cases) (auto simp: admin_call_def)
  qed
  have "ctrl_core c' = ctrl_core c \<and> c_block_size c' = c_block_size c"
    using assms by (cases rule: iq_create_cases) (use connect in auto)
  then show "ctrl_core c' = ctrl_core c" "c_block_size c' = c_block_size c" by simp_all
qed

lemma create_fails:
  assumes "run_state (gpunvme_create_io_queue E (Some c) qid depth n tier (Some out)) h = ((err, Some c', Some q), h')"
    and "err \<noteq> GPUNVME_OK" and "nonnull_alloc E"
  shows "resources h' = resources h
    \<and> (err = GPUNVME_ERR_INVALID_PARAM \<and> h' = h \<and> (qid = 0 \<or> depth = 0)
      \<or> err = GPUNVME_ERR_NOMEM \<and> (\<exists>q1 cmds. posted (c_admin_sq c) h' = posted (c_admin_sq c) h @ cmds
          \<and> cmds \<in> {[], [create_cq_cmd c q1], [create_cq_cmd c q1, create_sq_cmd c q1, undo_cq_cmd c q1],
              [create_cq_cmd c q1, create_sq_cmd c q1]}))"
proof (cases "qid = 0 \<or> depth = 0")
  case True
  then show ?thesis using assms(1) by (auto simp: gpunvme_create_io_queue_def)
next
  case False
  then have body: "run_state (iq_create_body E c qid depth n tier) h = ((err, c', q), h')"
    using create_queue_body[OF assms(1)] by simp
  show ?thesis
    using body assms(3)
  proof (cases rule: iq_create_cases)
    case no_memory
    then show ?thesis by (auto simp: silent_def)
  next
    case (failed q1 h1 q2 h2 a b)
    have posted: "\<exists>cmds. posted (c_admin_sq c) h2 = posted (c_admin_sq c) h @ cmds
          \<and> cmds \<in> {[create_cq_cmd c q1], [create_cq_cmd c q1, create_sq_cmd c q1, undo_cq_cmd c q1],
              [create_cq_cmd c q1, create_sq_cmd c q1]}"
      and res: "resources h2 = resources h1" "iq_rings q2 = iq_rings q1" "iq_data_buf q2 = iq_data_buf q1"
      using iq_connect_failure[of E q1 c h1 c' q2 h2] failed(3,4) by (auto simp: iq_allocated_def silent_def)
    have "resources h' = resources h" "silent h2 h'"
      using iq_fail_releases[of h2 tier q2 h a b] failed(3,5) res iq_resources_cong[OF res(2,3), of tier h]
      by (auto simp: iq_allocated_def iq_rings_def)
    then show ?thesis using posted failed(1) by (fastforce simp: silent_def)
  qed (use assms(2) in simp)
qed

text \<open>C21. A failed creation gives everything back on the host side: on every failing path no memory,
  registration or file stays behind, and the only error besides bad parameters is NOMEM. What the
  controller was told depends on how far the call came: nothing, the completion queue alone (refused),
  both queues and the deletion of the completion queue again, or both queues; in the last case, which
  happens when the GPU structure cannot be allocated, the two queues stay configured in the controller
  although their memory has been freed.\<close>

theorem create_io_queue_failure:
  assumes "run_state (gpunvme_create_io_queue E (Some c) qid depth n tier (Some out)) h = ((err, Some c', Some q), h')"
    and "err \<noteq> GPUNVME_OK" and "nonnull_alloc E"
  shows "resources h' = resources h
    \<and> (err = GPUNVME_ERR_INVALID_PARAM \<and> h' = h \<and> (qid = 0 \<or> depth = 0)
      \<or> err = GPUNVME_ERR_NOMEM \<and> (\<exists>q1 cmds. posted (c_admin_sq c) h' = posted (c_admin_sq c) h @ cmds
          \<and> cmds \<in> {[], [create_cq_cmd c q1], [create_cq_cmd c q1, create_sq_cmd c q1, undo_cq_cmd c q1],
              [create_cq_cmd c q1, create_sq_cmd c q1]}))"
  by (rule create_fails[OF assms])

text \<open>An allocator without pinned memory.\<close>

definition unpinned_host :: henv where
  "unpinned_host = ready_host\<lparr>he_alloc := (\<lambda>h k n. if k = Pinned then None else he_alloc ready_host h k n)\<rparr>"

lemma unpinned_create:
  obtains c' h' where "run_state (gpunvme_create_io_queue unpinned_host (Some example_ctrl) 1 16 0 GPUNVME_TIER1 (Some io_queue_zero)) []
      = ((GPUNVME_ERR_NOMEM, Some c', Some io_queue_zero), h')"
proof -
  have mem: "\<exists>p. he_alloc unpinned_host h (ring_kind GPUNVME_TIER1) n = Some p" for h n
  proof -
    obtain p where "he_alloc ready_host h Aligned n = Some p" using memory_availableE[OF ready_host_memory] .
    then show ?thesis by (simp add: unpinned_host_def ring_kind_def host_tier_def)
  qed
  have reg: "he_register unpinned_host h p" for h p using ready_host_register by (simp add: unpinned_host_def)
  have ans: "admin_answers unpinned_host (c_bar0 example_ctrl) 0"
    using ready_host_answers[of 0] by (simp add: admin_answers_def unpinned_host_def example_ctrl_fresh)
  obtain q1 h1 a b where "iq_qid q1 = 1" and body: "run_state (iq_create_body unpinned_host example_ctrl 1 16 0 GPUNVME_TIER1) [] =
     (case run_state (iq_connect unpinned_host (iq_depth example_ctrl 16) example_ctrl q1) h1 of ((ok, c', q2), h2) \<Rightarrow>
        if ok then ((GPUNVME_OK, c', q2), h2)
        else ((GPUNVME_ERR_NOMEM, c', io_queue_zero), snd (run_state (iq_fail GPUNVME_TIER1 a b q2) h2)))"
    by (rule iq_create_ready[OF mem reg disjI1[OF HOL.refl]])
  obtain c' h2 q2 where
    "run_state (iq_connect unpinned_host (iq_depth example_ctrl 16) example_ctrl q1) h1 =
      ((False, c', q2), HAlloc Pinned sizeof_gpu_nvme_queue None # h2)"
    using iq_connect_ready[OF ans example_ctrl_fresh(3,1), of "iq_depth example_ctrl 16" q1 h1]
    by (auto simp: unpinned_host_def)
  then show ?thesis using body that by (simp add: gpunvme_create_io_queue_def)
qed

theorem create_io_queue_failure_witness:
  "\<exists>c' h'. run_state (gpunvme_create_io_queue unpinned_host (Some example_ctrl) 1 16 0 GPUNVME_TIER1 (Some io_queue_zero)) []
      = ((GPUNVME_ERR_NOMEM, Some c', Some io_queue_zero), h') \<and> held h' = [] \<and> registered h' = []"
proof -
  obtain c' h' where run: "run_state (gpunvme_create_io_queue unpinned_host (Some example_ctrl) 1 16 0 GPUNVME_TIER1 (Some io_queue_zero)) []
      = ((GPUNVME_ERR_NOMEM, Some c', Some io_queue_zero), h')"
    by (rule unpinned_create)
  have "nonnull_alloc unpinned_host"
    using ready_host_nonnull by (auto simp: nonnull_alloc_def unpinned_host_def split: if_splits)
  then show ?thesis
    using run create_io_queue_failure[OF run] by (auto simp: resources_def)
qed

text \<open>Deleting a queue pair that was created undoes the creation: the submission queue is deleted
  before the completion queue, and all memory and registrations of the pair are released, also when
  the controller refuses the commands or does not answer; the record is cleared. The deletion may come
  after any later activity that keeps the resources.\<close>

theorem delete_io_queue_balanced:
  assumes "run_state (gpunvme_create_io_queue E (Some c) qid depth n tier (Some out)) h = ((GPUNVME_OK, Some c', Some q), h')"
    and "nonnull_alloc E" and "resources h1 = resources h'"
  shows "\<exists>c2 h2. run_state (gpunvme_delete_io_queue E (Some c1) (Some q)) h1 = ((GPUNVME_OK, Some c2, Some io_queue_zero), h2)
    \<and> resources h2 = resources h
    \<and> posted (c_admin_sq c1) h2 = posted (c_admin_sq c1) h1
       @ [nvme_cmd_delete_io_sq sqe_zero (c_admin_cid c1) qid, nvme_cmd_delete_io_cq sqe_zero (c_admin_cid c1 + 1) qid]"
proof -
  have q: "iq_qid q = qid" "iq_tier q = tier" "resources h1 = iq_resources (iq_tier q) q h" "iq_sq q \<noteq> 0" "iq_cq q \<noteq> 0"
    using iq_created[OF assms(1,2)] assms(3) by auto
  from iq_delete_releases[OF q(3-5), of E c1] show ?thesis
    unfolding q(1) by (auto simp: gpunvme_delete_io_queue_def)
qed

theorem delete_io_queue_balanced_witness:
  "\<exists>c q h'. run_state (gpunvme_create_io_queue ready_host (Some example_ctrl) 1 128 4096 GPUNVME_TIER1 (Some io_queue_zero)) []
     = ((GPUNVME_OK, Some c, Some q), h')
     \<and> held (snd (run_state (gpunvme_delete_io_queue ready_host (Some c) (Some q)) h')) = []"
proof -
  obtain c q h' where run: "run_state (gpunvme_create_io_queue ready_host (Some example_ctrl) 1 128 4096 GPUNVME_TIER1
    (Some io_queue_zero)) [] = ((GPUNVME_OK, Some c, Some q), h')"
    by (rule example_queue_create)
  then show ?thesis
    using delete_io_queue_balanced[OF run ready_host_nonnull HOL.refl, of c] by (fastforce simp: resources_def)
qed

end
