(* ===== verification/Layer_Loader.thy ===== *)
theory Layer_Loader
  imports Layer_Read Io_Queue
begin

text \<open>
  The host side of the layer loader (\<^verbatim>\<open>src/host/layer_loader.cu\<close>): set-up with its failure labels, the
  construction of the PRP entries of every command for a destination in host memory or in VRAM behind
  BAR1, the kernel launch, and tear-down. A division by zero, which kills the process, is the result
  \<open>None\<close> in place of an error code. The launch of \<^verbatim>\<open>gpu_layer_read\<close> is an argument: a function of the
  history and the kernel parameters that gives the result structure, or nothing when CUDA reports an
  error. The throughput report is not modelled.
\<close>

section \<open>State\<close>

record gpunvme_layer_loader =
  ll_ctrl :: gpunvme_ctrl
  ll_ioq :: gpunvme_io_queue
  ll_bar0_fd :: bool  \<comment> \<open>not -1\<close>
  ll_bar0 :: u64
  ll_bar0_gpu :: u64
  ll_bar0_size :: u64
  ll_prp_pool :: u64
  ll_prp_pool_bytes :: u64
  ll_prp1_array :: u64
  ll_prp2_array :: u64
  ll_max_commands :: u32
  ll_blocks_per_cmd :: u32
  ll_pipeline_depth :: u32
  ll_kernel_params :: u64
  ll_kernel_result :: u64
  ll_pagemap_fd :: bool
  ll_bar1_fd :: bool
  ll_gpu_bar1_phys :: u64
  ll_bar1_vram_offset :: u64
  ll_bar1_enabled :: bool

definition loader_zero :: gpunvme_layer_loader where
  "loader_zero = \<lparr>ll_ctrl = ctrl_zero, ll_ioq = io_queue_zero, ll_bar0_fd = False, ll_bar0 = 0, ll_bar0_gpu = 0,
     ll_bar0_size = 0, ll_prp_pool = 0, ll_prp_pool_bytes = 0, ll_prp1_array = 0, ll_prp2_array = 0,
     ll_max_commands = 0, ll_blocks_per_cmd = 0, ll_pipeline_depth = 0, ll_kernel_params = 0, ll_kernel_result = 0,
     ll_pagemap_fd = False, ll_bar1_fd = False, ll_gpu_bar1_phys = 0, ll_bar1_vram_offset = 0, ll_bar1_enabled = False\<rparr>"

text \<open>The memory behind the pointers: the PRP pool as 64-bit words, and the two arrays.\<close>

record layer_mem =
  lm_pool :: "nat \<Rightarrow> u64"
  lm_prp1 :: "u64 list"
  lm_prp2 :: "u64 list"

section \<open>The commands of a transfer\<close>

text \<open>\<open>None\<close> stands for a division by zero.\<close>

definition layer_geometry :: "gpunvme_layer_loader \<Rightarrow> u64 \<Rightarrow> (u32 \<times> u32) option" where
  "layer_geometry l size_bytes =
    (let block_size = c_block_size (ll_ctrl l); bpc = ll_blocks_per_cmd l
     in if block_size = 0 \<or> bpc = 0 then None
        else let total_blocks = ucast ((size_bytes + ucast block_size - 1) div ucast block_size) :: u32
             in Some (total_blocks, (total_blocks + bpc - 1) div bpc))"

definition layer_cmd_blocks :: "u32 \<Rightarrow> u32 \<Rightarrow> u32 \<Rightarrow> u32" where
  "layer_cmd_blocks total_blocks bpc i =
    (let remaining_blocks = total_blocks - i * bpc in if remaining_blocks < bpc then remaining_blocks else bpc)"

definition layer_cmd_pages :: "gpunvme_layer_loader \<Rightarrow> u32 \<Rightarrow> u32 \<Rightarrow> u32" where
  "layer_cmd_pages l total_blocks i =
    (let cmd_bytes = layer_cmd_blocks total_blocks (ll_blocks_per_cmd l) i * c_block_size (ll_ctrl l)
     in (cmd_bytes + c_page_size (ll_ctrl l) - 1) div c_page_size (ll_ctrl l))"

definition virt_to_phys_pagemap :: "henv \<Rightarrow> u64 \<Rightarrow> u64 host" where
  "virt_to_phys_pagemap E va = do {
     let page_size = he_page_size E;
     let off = va div page_size * 8;
     r \<leftarrow> ask (\<lambda>h. he_pread E h off) (HPread off);
     State_Monad.return (case r of
       None \<Rightarrow> 0
     | Some entry \<Rightarrow> if \<not> pagemap_present entry then 0 else pagemap_phys entry page_size va)
   }"

text \<open>The loop over the pages of a command; \<open>base\<close> is the index of the first word of its list page.\<close>

fun layer_prp_loop ::
    "nat \<Rightarrow> henv \<Rightarrow> u64 \<Rightarrow> u32 \<Rightarrow> nat \<Rightarrow> u32 \<Rightarrow> u64 \<Rightarrow> (nat \<Rightarrow> u64) \<Rightarrow> ((gpunvme_err + u64) \<times> (nat \<Rightarrow> u64)) host" where
  "layer_prp_loop 0 E chunk page_size base p prp1 pool = State_Monad.return (Inr prp1, pool)"
| "layer_prp_loop (Suc n) E chunk page_size base p prp1 pool = do {
     phys \<leftarrow> virt_to_phys_pagemap E (chunk + ucast p * ucast page_size);
     if phys = 0 then State_Monad.return (Inl GPUNVME_ERR_DMA, pool)
     else if p = 0 then layer_prp_loop n E chunk page_size base (p + 1) phys pool
     else layer_prp_loop n E chunk page_size base (p + 1) prp1 (pool(base + unat (p - 1) := phys))
   }"

definition layer_prp2 :: "u32 \<Rightarrow> u64 \<Rightarrow> nat \<Rightarrow> (nat \<Rightarrow> u64) \<Rightarrow> u64" where
  "layer_prp2 cmd_pages list_phys base pool =
    (if cmd_pages \<le> 1 then 0 else if cmd_pages = 2 then pool base else list_phys)"

definition list_base :: "u32 \<Rightarrow> nat" where
  "list_base i = 512 * unat i"  \<comment> \<open>4096 bytes of 8-byte words\<close>

fun layer_cmds_loop ::
    "nat \<Rightarrow> henv \<Rightarrow> gpunvme_layer_loader \<Rightarrow> u32 \<Rightarrow> u64 \<Rightarrow> u32 \<Rightarrow> layer_mem \<Rightarrow> (gpunvme_err \<times> layer_mem) host" where
  "layer_cmds_loop 0 E l total_blocks dest i mem = State_Monad.return (GPUNVME_OK, mem)"
| "layer_cmds_loop (Suc n) E l total_blocks dest i mem = do {
     let cmd_pages = layer_cmd_pages l total_blocks i;
     list_phys \<leftarrow> virt_to_phys_pagemap E (ll_prp_pool l + ucast i * 4096);
     let chunk = dest + ucast i * ucast (c_max_transfer_bytes (ll_ctrl l));
     (r, pool) \<leftarrow> layer_prp_loop (unat cmd_pages) E chunk (c_page_size (ll_ctrl l)) (list_base i) 0 0 (lm_pool mem);
     case r of
       Inl err \<Rightarrow> State_Monad.return (err, mem\<lparr>lm_pool := pool\<rparr>)
     | Inr prp1 \<Rightarrow>
         layer_cmds_loop n E l total_blocks dest (i + 1)
           (mem\<lparr>lm_pool := pool, lm_prp1 := (lm_prp1 mem)[unat i := prp1],
                lm_prp2 := (lm_prp2 mem)[unat i := layer_prp2 cmd_pages list_phys (list_base i) pool]\<rparr>)
   }"

text \<open>The variant for VRAM computes the addresses from the BAR1 address.\<close>

fun layer_vram_loop :: "nat \<Rightarrow> u64 \<Rightarrow> u32 \<Rightarrow> nat \<Rightarrow> u32 \<Rightarrow> u64 \<Rightarrow> (nat \<Rightarrow> u64) \<Rightarrow> u64 \<times> (nat \<Rightarrow> u64)" where
  "layer_vram_loop 0 chunk_phys page_size base p prp1 pool = (prp1, pool)"
| "layer_vram_loop (Suc n) chunk_phys page_size base p prp1 pool =
    (let phys = chunk_phys + ucast p * ucast page_size
     in if p = 0 then layer_vram_loop n chunk_phys page_size base (p + 1) phys pool
        else layer_vram_loop n chunk_phys page_size base (p + 1) prp1 (pool(base + unat (p - 1) := phys)))"

fun layer_vram_cmds_loop ::
    "nat \<Rightarrow> henv \<Rightarrow> gpunvme_layer_loader \<Rightarrow> u32 \<Rightarrow> u64 \<Rightarrow> u32 \<Rightarrow> layer_mem \<Rightarrow> layer_mem host" where
  "layer_vram_cmds_loop 0 E l total_blocks dest i mem = State_Monad.return mem"
| "layer_vram_cmds_loop (Suc n) E l total_blocks dest i mem = do {
     let cmd_pages = layer_cmd_pages l total_blocks i;
     list_phys \<leftarrow> virt_to_phys_pagemap E (ll_prp_pool l + ucast i * 4096);
     let chunk_phys = dest + ucast i * ucast (c_max_transfer_bytes (ll_ctrl l));
     let (prp1, pool) = layer_vram_loop (unat cmd_pages) chunk_phys (c_page_size (ll_ctrl l)) (list_base i) 0 0 (lm_pool mem);
     layer_vram_cmds_loop n E l total_blocks dest (i + 1)
       (mem\<lparr>lm_pool := pool, lm_prp1 := (lm_prp1 mem)[unat i := prp1],
            lm_prp2 := (lm_prp2 mem)[unat i := layer_prp2 cmd_pages list_phys (list_base i) pool]\<rparr>)
   }"

section \<open>Loading\<close>

type_synonym layer_launch = "hev list \<Rightarrow> layer_read_params \<Rightarrow> layer_read_result option"

definition layer_params :: "gpunvme_layer_loader \<Rightarrow> u64 \<Rightarrow> u32 \<Rightarrow> u32 \<Rightarrow> layer_mem \<Rightarrow> layer_read_params" where
  "layer_params l start_lba total_blocks n_commands mem =
    \<lparr>lp_start_lba = start_lba, lp_total_blocks = total_blocks, lp_blocks_per_cmd = ll_blocks_per_cmd l,
     lp_n_commands = n_commands, lp_pipeline_depth = ll_pipeline_depth l,
     lp_prp1_array = lm_prp1 mem, lp_prp2_array = lm_prp2 mem\<rparr>"

definition layer_finish :: "layer_read_result option \<Rightarrow> gpunvme_err" where
  "layer_finish r =
    (case r of
       None \<Rightarrow> GPUNVME_ERR_CUDA
     | Some result \<Rightarrow>
         if lr_status result \<noteq> 0
         then if lr_error_code result = 2 then GPUNVME_ERR_TIMEOUT else GPUNVME_ERR_NVME_STATUS
         else GPUNVME_OK)"

definition layer_launch_kernel ::
    "layer_launch \<Rightarrow> gpunvme_layer_loader \<Rightarrow> u64 \<Rightarrow> u32 \<Rightarrow> u32 \<Rightarrow> layer_mem \<Rightarrow> gpunvme_err host" where
  "layer_launch_kernel launch l start_lba total_blocks n_commands mem = do {
     h \<leftarrow> State_Monad.get;
     State_Monad.return (layer_finish (launch h (layer_params l start_lba total_blocks n_commands mem)))
   }"

definition gpunvme_load_layer ::
    "henv \<Rightarrow> layer_launch \<Rightarrow> gpunvme_layer_loader option \<Rightarrow> u64 \<Rightarrow> u64 \<Rightarrow> u64 \<Rightarrow> layer_mem \<Rightarrow>
     (gpunvme_err option \<times> layer_mem) host" where
  "gpunvme_load_layer E launch loader start_lba size_bytes dest_pinned mem =
    (case loader of
       None \<Rightarrow> State_Monad.return (Some GPUNVME_ERR_INVALID_PARAM, mem)
     | Some l \<Rightarrow>
        if dest_pinned = 0 \<or> size_bytes = 0 then State_Monad.return (Some GPUNVME_ERR_INVALID_PARAM, mem)
        else case layer_geometry l size_bytes of
          None \<Rightarrow> State_Monad.return (None, mem)
        | Some (total_blocks, n_commands) \<Rightarrow>
            if n_commands > ll_max_commands l then State_Monad.return (Some GPUNVME_ERR_INVALID_PARAM, mem)
            else if n_commands \<noteq> 0 \<and> c_page_size (ll_ctrl l) = 0 then State_Monad.return (None, mem)
            else do {
              (err, mem) \<leftarrow> layer_cmds_loop (unat n_commands) E l total_blocks dest_pinned 0 mem;
              if err \<noteq> GPUNVME_OK then State_Monad.return (Some err, mem)
              else do {
                err \<leftarrow> layer_launch_kernel launch l start_lba total_blocks n_commands mem;
                State_Monad.return (Some err, mem)
              }
            })"

definition gpunvme_load_layer_vram ::
    "henv \<Rightarrow> layer_launch \<Rightarrow> gpunvme_layer_loader option \<Rightarrow> u64 \<Rightarrow> u64 \<Rightarrow> u64 \<Rightarrow> layer_mem \<Rightarrow>
     (gpunvme_err option \<times> layer_mem) host" where
  "gpunvme_load_layer_vram E launch loader start_lba size_bytes dest_bar1_phys mem =
    (case loader of
       None \<Rightarrow> State_Monad.return (Some GPUNVME_ERR_INVALID_PARAM, mem)
     | Some l \<Rightarrow>
        if \<not> ll_bar1_enabled l \<or> size_bytes = 0 then State_Monad.return (Some GPUNVME_ERR_INVALID_PARAM, mem)
        else case layer_geometry l size_bytes of
          None \<Rightarrow> State_Monad.return (None, mem)
        | Some (total_blocks, n_commands) \<Rightarrow>
            if n_commands > ll_max_commands l then State_Monad.return (Some GPUNVME_ERR_INVALID_PARAM, mem)
            else if n_commands \<noteq> 0 \<and> c_page_size (ll_ctrl l) = 0 then State_Monad.return (None, mem)
            else do {
              mem \<leftarrow> layer_vram_cmds_loop (unat n_commands) E l total_blocks dest_bar1_phys 0 mem;
              err \<leftarrow> layer_launch_kernel launch l start_lba total_blocks n_commands mem;
              State_Monad.return (Some err, mem)
            })"

definition gpunvme_layer_loader_block_size :: "gpunvme_layer_loader option \<Rightarrow> u32" where
  "gpunvme_layer_loader_block_size loader = (case loader of Some l \<Rightarrow> c_block_size (ll_ctrl l) | None \<Rightarrow> 0)"

definition gpunvme_layer_loader_max_transfer :: "gpunvme_layer_loader option \<Rightarrow> u32" where
  "gpunvme_layer_loader_max_transfer loader = (case loader of Some l \<Rightarrow> c_max_transfer_bytes (ll_ctrl l) | None \<Rightarrow> 0)"

definition gpunvme_layer_loader_ns_blocks :: "gpunvme_layer_loader option \<Rightarrow> u64" where
  "gpunvme_layer_loader_ns_blocks loader = (case loader of Some l \<Rightarrow> ucast (c_ns_size_blocks (ll_ctrl l)) | None \<Rightarrow> 0)"

section \<open>The size of a command\<close>

text \<open>What set-up establishes: whole blocks and whole pages in a full command, at most as many pages
  as PRP1 and one list page can name, and no overflow in a rounded-up byte count.\<close>

definition layer_geometry_ok :: "gpunvme_layer_loader \<Rightarrow> bool" where
  "layer_geometry_ok l \<longleftrightarrow>
    (let mt = unat (c_max_transfer_bytes (ll_ctrl l)); ps = unat (c_page_size (ll_ctrl l));
         bs = unat (c_block_size (ll_ctrl l)); bpc = unat (ll_blocks_per_cmd l)
     in 0 < bs \<and> 0 < ps \<and> 0 < bpc \<and> bpc * bs = mt \<and> ps dvd mt \<and> mt \<le> 513 * ps \<and> mt + ps < 2 ^ 32)"

abbreviation layer_bs :: "gpunvme_layer_loader \<Rightarrow> nat" where
  "layer_bs l \<equiv> unat (c_block_size (ll_ctrl l))"

abbreviation layer_ps :: "gpunvme_layer_loader \<Rightarrow> nat" where
  "layer_ps l \<equiv> unat (c_page_size (ll_ctrl l))"

abbreviation layer_bpc :: "gpunvme_layer_loader \<Rightarrow> nat" where
  "layer_bpc l \<equiv> unat (ll_blocks_per_cmd l)"

definition layer_ppc :: "gpunvme_layer_loader \<Rightarrow> nat" where
  "layer_ppc l = unat (c_max_transfer_bytes (ll_ctrl l)) div layer_ps l"

lemma layer_geometry_okD:
  assumes "layer_geometry_ok l"
  shows "0 < layer_bs l" "0 < layer_ps l" "0 < layer_bpc l" "layer_bpc l * layer_bs l = layer_ppc l * layer_ps l"
    "unat (c_max_transfer_bytes (ll_ctrl l)) = layer_ppc l * layer_ps l" "layer_ppc l \<le> 513"
    "layer_ppc l * layer_ps l + layer_ps l < 2 ^ 32"
proof -
  have ok: "0 < layer_bs l" "0 < layer_ps l" "0 < layer_bpc l"
      "layer_bpc l * layer_bs l = unat (c_max_transfer_bytes (ll_ctrl l))"
      "layer_ps l dvd unat (c_max_transfer_bytes (ll_ctrl l))"
      "unat (c_max_transfer_bytes (ll_ctrl l)) \<le> 513 * layer_ps l"
      "unat (c_max_transfer_bytes (ll_ctrl l)) + layer_ps l < 2 ^ 32"
    using assms unfolding layer_geometry_ok_def Let_def by blast+
  then show mt: "unat (c_max_transfer_bytes (ll_ctrl l)) = layer_ppc l * layer_ps l"
    by (simp add: layer_ppc_def)
  show "0 < layer_bs l" "0 < layer_ps l" "0 < layer_bpc l" by (rule ok(1-3))+
  show "layer_bpc l * layer_bs l = layer_ppc l * layer_ps l" using ok(4) mt by simp
  show "layer_ppc l \<le> 513" using ok(2,6) unfolding mt by simp
  show "layer_ppc l * layer_ps l + layer_ps l < 2 ^ 32" using ok(7) unfolding mt .
qed

lemma unat_ceil_div_u32:
  assumes "0 < unat b" and "unat (x :: u32) + unat b < 2 ^ 32"
  shows "unat ((x + b - 1) div b) = ceil_div (unat x) (unat b)"
proof -
  have "unat (x + b) = unat x + unat b" using assms(2) by (simp add: unat_word_ariths)
  moreover from this have "1 \<le> x + b" using assms(1) by (simp add: word_le_nat_alt)
  ultimately show ?thesis by (simp add: unat_sub unat_div ceil_div_def)
qed

lemma page_count_ceil: "page_count bytes ps = ceil_div (unat bytes) (unat ps)"
  by (simp add: page_count_def ceil_div_def)

lemma layer_geometry_nat:
  assumes ok: "layer_geometry_ok l" and size: "unat size_bytes + layer_bs l < 2 ^ 64"
    and fits: "ceil_div (unat size_bytes) (layer_bs l) + layer_bpc l < 2 ^ 32"
  obtains total_blocks n_commands where "layer_geometry l size_bytes = Some (total_blocks, n_commands)"
    and "unat total_blocks = ceil_div (unat size_bytes) (layer_bs l)"
    and "unat n_commands = ceil_div (unat total_blocks) (layer_bpc l)"
proof -
  note pos = layer_geometry_okD(1,3)[OF ok]
  let ?t = "ucast ((size_bytes + ucast (c_block_size (ll_ctrl l)) - 1) div ucast (c_block_size (ll_ctrl l))) :: u32"
  have t: "unat ?t = ceil_div (unat size_bytes) (layer_bs l)"
    using page_count_word[of "c_block_size (ll_ctrl l)" size_bytes] pos size fits
    by (simp add: page_count_ceil unat_gt_0)
  have "unat ((?t + ll_blocks_per_cmd l - 1) div ll_blocks_per_cmd l) = ceil_div (unat ?t) (layer_bpc l)"
    using pos(2) fits t by (intro unat_ceil_div_u32) simp_all
  then show thesis
    using that[of ?t "(?t + ll_blocks_per_cmd l - 1) div ll_blocks_per_cmd l"] t pos
    by (simp add: layer_geometry_def Let_def unat_gt_0)
qed

lemma layer_cmd_blocks_nat:
  assumes "unat i * unat bpc < unat total_blocks"
  shows "unat (layer_cmd_blocks total_blocks bpc i) = min (unat total_blocks - unat i * unat bpc) (unat bpc)"
proof -
  have "unat (i * bpc) = unat i * unat bpc"
    using assms unat_bound[of total_blocks] by (simp add: unat_word_ariths)
  then have "unat (total_blocks - i * bpc) = unat total_blocks - unat i * unat bpc"
    using assms by (simp add: unat_sub word_le_nat_alt)
  then show ?thesis by (auto simp: layer_cmd_blocks_def Let_def word_less_nat_alt)
qed

lemma layer_cmd_pages_nat:
  assumes ok: "layer_geometry_ok l" and i: "unat i * layer_bpc l < unat total_blocks"
  shows "unat (layer_cmd_pages l total_blocks i) =
    min (ceil_div (unat total_blocks * layer_bs l) (layer_ps l) - unat i * layer_ppc l) (layer_ppc l)"
proof -
  note d = layer_geometry_okD[OF ok]
  let ?b = "layer_cmd_blocks total_blocks (ll_blocks_per_cmd l) i"
  have b: "unat ?b = min (unat total_blocks - unat i * layer_bpc l) (layer_bpc l)"
    using i by (rule layer_cmd_blocks_nat)
  then have "unat ?b * layer_bs l \<le> layer_bpc l * layer_bs l" by simp
  then have le: "unat ?b * layer_bs l \<le> layer_ppc l * layer_ps l" using d(4) by simp
  then have bytes: "unat (?b * c_block_size (ll_ctrl l)) = unat ?b * layer_bs l"
    using d(7) by (simp add: unat_word_ariths)
  have "unat (layer_cmd_pages l total_blocks i) = ceil_div (unat (?b * c_block_size (ll_ctrl l))) (layer_ps l)"
    unfolding layer_cmd_pages_def Let_def using d(2,7) le bytes by (intro unat_ceil_div_u32) simp_all
  then show ?thesis unfolding bytes b using d(2,4) by (simp only: pieces_in_pages)
qed


section \<open>The PRP entries of a command\<close>

lemma run_virt_to_phys_pagemap:
  assumes "pagemap_of E pt"
  obtains r where "run_state (virt_to_phys_pagemap E v) h =
    ((case phys_of E pt v of None \<Rightarrow> 0 | Some p \<Rightarrow> p), HPread (v div he_page_size E * 8) r # h)"
proof -
  obtain e where "he_pread E h (v div he_page_size E * 8) = Some e"
      "phys_of E pt v = (if pagemap_present e then Some (pagemap_phys e (he_page_size E) v) else None)"
    using pagemap_read[OF assms] by blast
  then show thesis using that[of "Some e"] by (simp add: virt_to_phys_pagemap_def Let_def)
qed

text \<open>The pool after the loop over the pages \<open>i\<close> to \<open>i + n - 1\<close> of a command, where page \<open>k\<close> is at
  physical address \<open>ph k\<close>.\<close>

definition pool_filled :: "nat \<Rightarrow> nat \<Rightarrow> nat \<Rightarrow> (nat \<Rightarrow> u64) \<Rightarrow> (nat \<Rightarrow> u64) \<Rightarrow> nat \<Rightarrow> u64" where
  "pool_filled base i n ph pool x =
    (if base \<le> x \<and> i \<le> Suc (x - base) \<and> Suc (x - base) < i + n then ph (Suc (x - base)) else pool x)"

lemma pool_filled_0 [simp]: "pool_filled base i 0 ph pool = pool"
  by (rule ext) (auto simp: pool_filled_def)

lemma pool_filled_first [simp]: "pool_filled base (Suc 0) n ph pool = pool_filled base 0 (Suc n) ph pool"
  by (auto simp: pool_filled_def fun_eq_iff)

lemma pool_filled_step:
  "0 < i \<Longrightarrow> pool_filled base (Suc i) n ph (pool(base + (i - Suc 0) := ph i)) = pool_filled base i (Suc n) ph pool"
  by (auto simp: pool_filled_def fun_eq_iff)

lemma u32_step:
  assumes "unat (i :: u32) + Suc n < 2 ^ 32"
  shows "unat (i + 1) = Suc (unat i)" "i + 1 \<noteq> 0" "unat (i + 1) + n < 2 ^ 32"
    "i \<noteq> 0 \<Longrightarrow> unat (i - 1) = unat i - 1"
proof -
  show s: "unat (i + 1) = Suc (unat i)" using assms by (simp add: unat_word_ariths)
  then show "i + 1 \<noteq> 0" "unat (i + 1) + n < 2 ^ 32" using assms by auto
  show "unat (i - 1) = unat i - 1" if "i \<noteq> 0"
    using that unat_sub[of 1 i] by (simp add: word_le_nat_alt unat_gt_0 Suc_le_eq)
qed

lemma layer_prp_loop_run:
  assumes pt: "pagemap_of E pt"
  shows "\<lbrakk>unat i + n < 2 ^ 32; \<And>k. unat i \<le> k \<Longrightarrow> k < unat i + n \<Longrightarrow>
      phys_of E pt (page_addr chunk ps k) = Some (ph k) \<and> ph k \<noteq> 0\<rbrakk> \<Longrightarrow>
    \<exists>h'. run_state (layer_prp_loop n E chunk ps base i prp1 pool) h =
        ((Inr (if i = 0 \<and> 0 < n then ph 0 else prp1), pool_filled base (unat i) n ph pool), h')
      \<and> resources h' = resources h"
proof (induction n arbitrary: i prp1 pool h)
  case (Suc n)
  note s = u32_step[OF Suc.prems(1)]
  have v: "chunk + ucast i * ucast ps = page_addr chunk ps (unat i)" by (simp add: page_addr_def)
  have ph: "phys_of E pt (page_addr chunk ps (unat i)) = Some (ph (unat i))" "ph (unat i) \<noteq> 0"
    using Suc.prems(2)[of "unat i"] by simp_all
  obtain r where r: "run_state (virt_to_phys_pagemap E (page_addr chunk ps (unat i))) h =
      (ph (unat i), HPread (page_addr chunk ps (unat i) div he_page_size E * 8) r # h)"
    using run_virt_to_phys_pagemap[OF pt, of "page_addr chunk ps (unat i)" h] ph(1) by auto
  have pre: "phys_of E pt (page_addr chunk ps k) = Some (ph k) \<and> ph k \<noteq> 0"
    if "unat (i + 1) \<le> k" "k < unat (i + 1) + n" for k
    using that Suc.prems(2)[of k] s(1) by simp
  show ?case
    using Suc.IH[OF s(3) pre, of "if i = 0 then ph (unat i) else prp1"
        "if i = 0 then pool else pool(base + (unat i - 1) := ph (unat i))"
        "HPread (page_addr chunk ps (unat i) div he_page_size E * 8) r # h"] ph(2) s(1,2,4) r v
    by (cases "i = 0") (simp_all add: pool_filled_step unat_gt_0 del: fun_upd_apply)
qed simp

lemma layer_vram_loop_run:
  "unat i + n < 2 ^ 32 \<Longrightarrow> layer_vram_loop n chunk ps base i prp1 pool =
    ((if i = 0 \<and> 0 < n then page_addr chunk ps 0 else prp1), pool_filled base (unat i) n (page_addr chunk ps) pool)"
proof (induction n arbitrary: i prp1 pool)
  case (Suc n)
  note s = u32_step[OF Suc.prems]
  have v: "chunk + ucast i * ucast ps = page_addr chunk ps (unat i)" by (simp add: page_addr_def)
  show ?case
    using Suc.IH[OF s(3)] s(1,2,4) v
    by (cases "i = 0") (simp_all add: pool_filled_step unat_gt_0 Let_def del: fun_upd_apply)
qed simp

lemma prp_pages_filled:
  assumes "0 < n" and "unat w = n" and "\<And>j. 2 < n \<Longrightarrow> Suc j < n \<Longrightarrow> rd lp j = pool_filled base 0 n ph pool (base + j)"
  shows "prp_pages rd (ph 0) (layer_prp2 w lp base (pool_filled base 0 n ph pool)) n = map ph [0..<n]"
proof -
  have ws: "w \<le> 1 \<longleftrightarrow> n = 1" "w = 2 \<longleftrightarrow> n = 2"
    using assms(1,2) by (auto simp: word_le_nat_alt word_unat_eq_iff)
  have upt: "[0..<n] = 0 # map Suc [0..<n - 1]"
    using assms(1) by (simp add: map_Suc_upt upt_conv_Cons)
  have "rd lp j = ph (Suc j)" if "2 < n" "Suc j < n" for j
    using that assms(3)[of j] by (simp add: pool_filled_def)
  then show ?thesis
    using assms(1) upt by (auto simp: prp_pages_def layer_prp2_def ws pool_filled_def)
qed


section \<open>The PRP entries of a transfer\<close>

text \<open>What both loops over the commands compute, as a function: \<open>ph k\<close> is the address of page \<open>k\<close> of the
  destination and \<open>lp i\<close> that of list page \<open>i\<close>.\<close>

definition describe_cmd ::
    "gpunvme_layer_loader \<Rightarrow> u32 \<Rightarrow> (nat \<Rightarrow> u64) \<Rightarrow> (u32 \<Rightarrow> u64) \<Rightarrow> u32 \<Rightarrow> layer_mem \<Rightarrow> layer_mem" where
  "describe_cmd l total_blocks ph lp i mem =
    (let w = layer_cmd_pages l total_blocks i; f = (\<lambda>p. ph (unat i * layer_ppc l + p));
         pool = pool_filled (list_base i) 0 (unat w) f (lm_pool mem)
     in mem\<lparr>lm_pool := pool, lm_prp1 := (lm_prp1 mem)[unat i := f 0],
            lm_prp2 := (lm_prp2 mem)[unat i := layer_prp2 w (lp i) (list_base i) pool]\<rparr>)"

fun describe_cmds ::
    "nat \<Rightarrow> gpunvme_layer_loader \<Rightarrow> u32 \<Rightarrow> (nat \<Rightarrow> u64) \<Rightarrow> (u32 \<Rightarrow> u64) \<Rightarrow> u32 \<Rightarrow> layer_mem \<Rightarrow> layer_mem" where
  "describe_cmds 0 l total_blocks ph lp i mem = mem"
| "describe_cmds (Suc n) l total_blocks ph lp i mem =
    describe_cmds n l total_blocks ph lp (i + 1) (describe_cmd l total_blocks ph lp i mem)"

text \<open>The pages of command \<open>i\<close>, and of the transfer.\<close>

definition layer_pages :: "gpunvme_layer_loader \<Rightarrow> u32 \<Rightarrow> nat" where
  "layer_pages l total_blocks = ceil_div (unat total_blocks * layer_bs l) (layer_ps l)"

lemma layer_page_addr:
  assumes "layer_geometry_ok l"
  shows "page_addr (dest + ucast i * ucast (c_max_transfer_bytes (ll_ctrl l))) (c_page_size (ll_ctrl l)) p
    = page_addr dest (c_page_size (ll_ctrl l)) (unat i * layer_ppc l + p)"
proof -
  have "(ucast (c_max_transfer_bytes (ll_ctrl l)) :: u64) = of_nat (unat (c_max_transfer_bytes (ll_ctrl l)))"
    by simp
  also have "\<dots> = of_nat (layer_ppc l) * ucast (c_page_size (ll_ctrl l))"
    using layer_geometry_okD(5)[OF assms] by simp
  finally show ?thesis by (simp add: page_addr_def algebra_simps)
qed

lemma layer_cmd_pages_within:
  assumes "layer_geometry_ok l" and "unat i * layer_bpc l < unat total_blocks"
  shows "0 < unat (layer_cmd_pages l total_blocks i)" "unat (layer_cmd_pages l total_blocks i) \<le> 513"
    "unat i * layer_ppc l + unat (layer_cmd_pages l total_blocks i) \<le> layer_pages l total_blocks"
proof -
  note d = layer_geometry_okD[OF assms(1)]
  note w = layer_cmd_pages_nat[OF assms, folded layer_pages_def]
  have "unat i * layer_bpc l * layer_bs l < unat total_blocks * layer_bs l" using assms(2) d(1) by simp
  then have "unat i * layer_ppc l * layer_ps l < unat total_blocks * layer_bs l"
    using d(4) by (simp add: mult.assoc)
  then have lt: "unat i * layer_ppc l < layer_pages l total_blocks"
    unfolding layer_pages_def using d(2) by (simp add: less_ceil_div_iff)
  have "0 < layer_ppc l * layer_ps l" using d(1,3) unfolding d(4)[symmetric] by simp
  then have "0 < layer_ppc l" by simp
  then show "0 < unat (layer_cmd_pages l total_blocks i)" using w lt by simp
  show "unat (layer_cmd_pages l total_blocks i) \<le> 513" using w d(6) by simp
  show "unat i * layer_ppc l + unat (layer_cmd_pages l total_blocks i) \<le> layer_pages l total_blocks"
    using w lt by simp
qed

definition list_phys :: "henv \<Rightarrow> (u64 \<Rightarrow> u64 option) \<Rightarrow> gpunvme_layer_loader \<Rightarrow> u32 \<Rightarrow> u64" where
  "list_phys E pt l i = (case phys_of E pt (ll_prp_pool l + ucast i * 4096) of None \<Rightarrow> 0 | Some p \<Rightarrow> p)"

lemma layer_cmds_loop_run:
  assumes pt: "pagemap_of E pt" and ok: "layer_geometry_ok l"
    and present: "\<And>k. k < layer_pages l total_blocks \<Longrightarrow>
      phys_of E pt (page_addr dest (c_page_size (ll_ctrl l)) k) = Some (ph k) \<and> ph k \<noteq> 0"
  shows "\<lbrakk>unat i + n < 2 ^ 32; \<And>j. j < n \<Longrightarrow> (unat i + j) * layer_bpc l < unat total_blocks\<rbrakk> \<Longrightarrow>
    \<exists>h'. run_state (layer_cmds_loop n E l total_blocks dest i mem) h =
        ((GPUNVME_OK, describe_cmds n l total_blocks ph (list_phys E pt l) i mem), h')
      \<and> resources h' = resources h"
proof (induction n arbitrary: i mem h)
  case (Suc n)
  note s = u32_step[OF Suc.prems(1)]
  let ?w = "layer_cmd_pages l total_blocks i" and ?f = "\<lambda>p. ph (unat i * layer_ppc l + p)"
  let ?chunk = "dest + ucast i * ucast (c_max_transfer_bytes (ll_ctrl l))" and ?ps = "c_page_size (ll_ctrl l)"
  have i: "unat i * layer_bpc l < unat total_blocks" using Suc.prems(2)[of 0] by simp
  note w = layer_cmd_pages_within[OF ok i]
  obtain r where lp: "run_state (virt_to_phys_pagemap E (ll_prp_pool l + ucast i * 4096)) h =
      (list_phys E pt l i, HPread ((ll_prp_pool l + ucast i * 4096) div he_page_size E * 8) r # h)"
    unfolding list_phys_def by (rule run_virt_to_phys_pagemap[OF pt])
  have pages: "phys_of E pt (page_addr ?chunk ?ps k) = Some (?f k) \<and> ?f k \<noteq> 0"
    if "unat (0 :: u32) \<le> k" "k < unat (0 :: u32) + unat ?w" for k
    unfolding layer_page_addr[OF ok] using that w(3) by (intro present) simp
  obtain h1 where prp: "run_state (layer_prp_loop (unat ?w) E ?chunk ?ps (list_base i) 0 0 (lm_pool mem))
        (HPread ((ll_prp_pool l + ucast i * 4096) div he_page_size E * 8) r # h) =
        ((Inr (?f 0), pool_filled (list_base i) 0 (unat ?w) ?f (lm_pool mem)), h1)" "resources h1 = resources h"
    using layer_prp_loop_run[OF pt, of 0 "unat ?w" ?chunk ?ps ?f "list_base i" 0 "lm_pool mem"
        "HPread ((ll_prp_pool l + ucast i * 4096) div he_page_size E * 8) r # h"] pages w(1,2) by auto
  have next_lt: "(unat (i + 1) + j) * layer_bpc l < unat total_blocks" if "j < n" for j
    using Suc.prems(2)[of "Suc j"] that s(1) by simp
  show ?case
    using Suc.IH[OF s(3) next_lt, of "describe_cmd l total_blocks ph (list_phys E pt l) i mem" h1] lp prp
    by (simp add: Let_def describe_cmd_def)
qed simp


lemma layer_vram_cmds_loop_run:
  assumes pt: "pagemap_of E pt" and ok: "layer_geometry_ok l"
  shows "\<lbrakk>unat i + n < 2 ^ 32; \<And>j. j < n \<Longrightarrow> (unat i + j) * layer_bpc l < unat total_blocks\<rbrakk> \<Longrightarrow>
    \<exists>h'. run_state (layer_vram_cmds_loop n E l total_blocks dest i mem) h =
        (describe_cmds n l total_blocks (page_addr dest (c_page_size (ll_ctrl l))) (list_phys E pt l) i mem, h')
      \<and> resources h' = resources h"
proof (induction n arbitrary: i mem h)
  case (Suc n)
  note s = u32_step[OF Suc.prems(1)]
  let ?w = "layer_cmd_pages l total_blocks i" and ?ps = "c_page_size (ll_ctrl l)"
  let ?chunk = "dest + ucast i * ucast (c_max_transfer_bytes (ll_ctrl l))"
  have i: "unat i * layer_bpc l < unat total_blocks" using Suc.prems(2)[of 0] by simp
  note w = layer_cmd_pages_within[OF ok i]
  obtain r where lp: "run_state (virt_to_phys_pagemap E (ll_prp_pool l + ucast i * 4096)) h =
      (list_phys E pt l i, HPread ((ll_prp_pool l + ucast i * 4096) div he_page_size E * 8) r # h)"
    unfolding list_phys_def by (rule run_virt_to_phys_pagemap[OF pt])
  have addr: "page_addr ?chunk ?ps = (\<lambda>p. page_addr dest ?ps (unat i * layer_ppc l + p))"
    by (rule ext) (rule layer_page_addr[OF ok])
  have prp: "layer_vram_loop (unat ?w) ?chunk ?ps (list_base i) 0 0 (lm_pool mem) =
      (page_addr dest ?ps (unat i * layer_ppc l + 0),
       pool_filled (list_base i) 0 (unat ?w) (\<lambda>p. page_addr dest ?ps (unat i * layer_ppc l + p)) (lm_pool mem))"
    using layer_vram_loop_run[of 0 "unat ?w" ?chunk ?ps "list_base i" 0 "lm_pool mem"] w(1,2) unfolding addr by simp
  have next_lt: "(unat (i + 1) + j) * layer_bpc l < unat total_blocks" if "j < n" for j
    using Suc.prems(2)[of "Suc j"] that s(1) by simp
  show ?case
    using Suc.IH[OF s(3) next_lt, of "describe_cmd l total_blocks (page_addr dest ?ps) (list_phys E pt l) i mem"
        "HPread ((ll_prp_pool l + ucast i * 4096) div he_page_size E * 8) r # h"] lp prp
    by (simp add: Let_def describe_cmd_def)
qed simp

text \<open>Each command keeps the entries of the earlier ones: its list fits its own page of the pool.\<close>

lemma describe_cmds_keeps:
  assumes ok: "layer_geometry_ok l"
  shows "\<lbrakk>unat i + n < 2 ^ 32; \<And>j. j < n \<Longrightarrow> (unat i + j) * layer_bpc l < unat total_blocks\<rbrakk> \<Longrightarrow>
    (\<forall>x < list_base i. lm_pool (describe_cmds n l total_blocks ph lp i mem) x = lm_pool mem x)
    \<and> (\<forall>j < unat i. lm_prp1 (describe_cmds n l total_blocks ph lp i mem) ! j = lm_prp1 mem ! j
        \<and> lm_prp2 (describe_cmds n l total_blocks ph lp i mem) ! j = lm_prp2 mem ! j)"
proof (induction n arbitrary: i mem)
  case (Suc n)
  note s = u32_step[OF Suc.prems(1)]
  have next_lt: "(unat (i + 1) + j) * layer_bpc l < unat total_blocks" if "j < n" for j
    using Suc.prems(2)[of "Suc j"] that s(1) by simp
  note ih = Suc.IH[OF s(3) next_lt, of "describe_cmd l total_blocks ph lp i mem"]
  have "lm_pool (describe_cmd l total_blocks ph lp i mem) x = lm_pool mem x" if "x < list_base i" for x
    using that by (simp add: describe_cmd_def Let_def pool_filled_def)
  then show ?case using ih s(1) by (simp add: list_base_def describe_cmd_def Let_def)
qed simp

lemma describe_cmds_nth:
  assumes ok: "layer_geometry_ok l"
  shows "\<lbrakk>unat i + n < 2 ^ 32; \<And>j. j < n \<Longrightarrow> (unat i + j) * layer_bpc l < unat total_blocks;
     unat i + n \<le> length (lm_prp1 mem); unat i + n \<le> length (lm_prp2 mem);
     unat i \<le> j; j < unat i + n; mem' = describe_cmds n l total_blocks ph lp i mem; w = layer_cmd_pages l total_blocks (of_nat j);
     f = (\<lambda>p. ph (j * layer_ppc l + p))\<rbrakk> \<Longrightarrow>
    lm_prp1 mem' ! j = f 0
    \<and> lm_prp2 mem' ! j = layer_prp2 w (lp (of_nat j)) (512 * j) (pool_filled (512 * j) 0 (unat w) f (\<lambda>_. 0))
    \<and> (\<forall>k. Suc k < unat w \<longrightarrow> lm_pool mem' (512 * j + k) = pool_filled (512 * j) 0 (unat w) f (\<lambda>_. 0) (512 * j + k))"
proof (induction n arbitrary: i mem)
  case (Suc n)
  note s = u32_step[OF Suc.prems(1)]
  have next_lt: "(unat (i + 1) + j) * layer_bpc l < unat total_blocks" if "j < n" for j
    using Suc.prems(2)[of "Suc j"] that s(1) by simp
  let ?m1 = "describe_cmd l total_blocks ph lp i mem"
  have mem': "mem' = describe_cmds n l total_blocks ph lp (i + 1) ?m1" using Suc.prems(7) by simp
  show ?case
  proof (cases "j = unat i")
    case False
    then show ?thesis
      using Suc.IH[OF s(3) next_lt _ _ _ _ mem' Suc.prems(8,9)] Suc.prems(3-6) s(1)
      by (simp add: describe_cmd_def Let_def)
  next
    case True
    have i: "unat i * layer_bpc l < unat total_blocks" using Suc.prems(2)[of 0] by simp
    note w = layer_cmd_pages_within[OF ok i]
    have eq: "of_nat j = i" "w = layer_cmd_pages l total_blocks i" "f = (\<lambda>p. ph (unat i * layer_ppc l + p))"
      using True Suc.prems(8,9) by simp_all
    note keep = describe_cmds_keeps[OF ok s(3) next_lt, of ph lp ?m1, folded mem']
    have pool: "lm_pool mem' (512 * j + k) = pool_filled (512 * j) 0 (unat w) f (\<lambda>_. 0) (512 * j + k)"
      if "Suc k < unat w" for k
      using keep that w(2) s(1) True unfolding eq
      by (simp add: list_base_def describe_cmd_def Let_def pool_filled_def)
    have "lm_prp1 mem' ! j = f 0" "lm_prp2 mem' ! j = layer_prp2 w (lp i) (512 * j) (pool_filled (512 * j) 0 (unat w) f (lm_pool mem))"
      using keep True Suc.prems(3,4) s(1) unfolding eq by (simp_all add: describe_cmd_def Let_def list_base_def)
    moreover have "layer_prp2 w (lp i) (512 * j) (pool_filled (512 * j) 0 (unat w) f (lm_pool mem))
        = layer_prp2 w (lp i) (512 * j) (pool_filled (512 * j) 0 (unat w) f (\<lambda>_. 0))"
      by (simp add: layer_prp2_def pool_filled_def)
    ultimately show ?thesis using pool eq(1) by simp
  qed
qed simp


text \<open>A view of physical memory in which the list pages are where the page table has them.\<close>

definition reads_lists ::
    "henv \<Rightarrow> (u64 \<Rightarrow> u64 option) \<Rightarrow> gpunvme_layer_loader \<Rightarrow> layer_mem \<Rightarrow> nat \<Rightarrow> (u64 \<Rightarrow> nat \<Rightarrow> u64) \<Rightarrow> bool" where
  "reads_lists E pt l mem n rd \<longleftrightarrow>
    (\<forall>i < n. \<forall>j < 512. rd (list_phys E pt l (of_nat i)) j = lm_pool mem (512 * i + j))"

text \<open>The pages that a controller derives from the entries of all commands, in order.\<close>

definition transfer_pages ::
    "(u64 \<Rightarrow> nat \<Rightarrow> u64) \<Rightarrow> gpunvme_layer_loader \<Rightarrow> u32 \<Rightarrow> layer_mem \<Rightarrow> nat \<Rightarrow> u64 list" where
  "transfer_pages rd l total_blocks mem n =
    concat (map (\<lambda>i. prp_pages rd (lm_prp1 mem ! i) (lm_prp2 mem ! i) (unat (layer_cmd_pages l total_blocks (of_nat i)))) [0..<n])"

lemma describe_cmds_pages:
  assumes ok: "layer_geometry_ok l" and n: "n = ceil_div (unat total_blocks) (layer_bpc l)" "n < 2 ^ 32"
    and len: "n \<le> length (lm_prp1 mem)" "n \<le> length (lm_prp2 mem)"
    and mem': "mem' = describe_cmds n l total_blocks ph (list_phys E pt l) 0 mem"
    and rd: "reads_lists E pt l mem' n rd"
  shows "transfer_pages rd l total_blocks mem' n = map ph [0..<layer_pages l total_blocks]"
proof -
  note d = layer_geometry_okD[OF ok]
  have lt: "(unat (0 :: u32) + i) * layer_bpc l < unat total_blocks" if "i < n" for i
    using that n(1) d(3) by (simp add: less_ceil_div_iff)
  have "prp_pages rd (lm_prp1 mem' ! i) (lm_prp2 mem' ! i) (unat (layer_cmd_pages l total_blocks (of_nat i)))
      = map (\<lambda>k. ph (i * layer_ppc l + k)) [0..<min (layer_pages l total_blocks - i * layer_ppc l) (layer_ppc l)]"
    if i: "i < n" for i
  proof -
    define w where "w = layer_cmd_pages l total_blocks (of_nat i)"
    let ?f = "\<lambda>p. ph (i * layer_ppc l + p)"
    have u: "unat (of_nat i :: u32) = i" using i n(2) by (simp add: unat_of_nat)
    have ub: "unat (of_nat i :: u32) * layer_bpc l < unat total_blocks" using lt[OF i] u by simp
    note w = layer_cmd_pages_within[OF ok ub, folded w_def]
    have e: "lm_prp1 mem' ! i = ?f 0"
        "lm_prp2 mem' ! i = layer_prp2 w (list_phys E pt l (of_nat i)) (512 * i) (pool_filled (512 * i) 0 (unat w) ?f (\<lambda>_. 0))"
        "\<And>k. Suc k < unat w \<Longrightarrow> lm_pool mem' (512 * i + k) = pool_filled (512 * i) 0 (unat w) ?f (\<lambda>_. 0) (512 * i + k)"
      using describe_cmds_nth[OF ok _ lt _ _ _ _ mem' w_def refl] n(2) len i by simp_all
    have "prp_pages rd (?f 0) (lm_prp2 mem' ! i) (unat w) = map ?f [0..<unat w]"
      unfolding e(2)
    proof (rule prp_pages_filled[OF w(1) refl])
      fix j assume "Suc j < unat w"
      then show "rd (list_phys E pt l (of_nat i)) j = pool_filled (512 * i) 0 (unat w) ?f (\<lambda>_. 0) (512 * i + j)"
        using rd i w(2) e(3)[of j] by (simp add: reads_lists_def)
    qed
    then show ?thesis
      unfolding e(1) w_def using layer_cmd_pages_nat[OF ok ub] u by (simp add: layer_pages_def)
  qed
  then have "transfer_pages rd l total_blocks mem' n = concat (map (\<lambda>i. map (\<lambda>k. ph (i * layer_ppc l + k))
      [0..<min (layer_pages l total_blocks - i * layer_ppc l) (layer_ppc l)]) [0..<n])"
    unfolding transfer_pages_def by (intro arg_cong[of _ _ concat] map_cong) auto
  moreover have "unat total_blocks \<le> n * layer_bpc l" using n(1) d(3) by (simp flip: ceil_div_le_iff)
  then have "unat total_blocks * layer_bs l \<le> n * (layer_bpc l * layer_bs l)" by simp
  then have "layer_pages l total_blocks \<le> n * layer_ppc l"
    unfolding layer_pages_def d(4) using d(2) by (simp add: ceil_div_le_iff)
  ultimately show ?thesis by (simp add: concat_shifted)
qed

section \<open>Running a load\<close>

text \<open>A request that set-up has room for.\<close>

definition layer_request_ok :: "gpunvme_layer_loader \<Rightarrow> u64 \<Rightarrow> layer_mem \<Rightarrow> bool" where
  "layer_request_ok l size_bytes mem \<longleftrightarrow>
    (let total = ceil_div (unat size_bytes) (layer_bs l); n = ceil_div total (layer_bpc l)
     in layer_geometry_ok l \<and> size_bytes \<noteq> 0 \<and> unat size_bytes + layer_bs l < 2 ^ 64 \<and> total + layer_bpc l < 2 ^ 32
        \<and> n \<le> unat (ll_max_commands l) \<and> n < 2 ^ 32 \<and> n \<le> length (lm_prp1 mem) \<and> n \<le> length (lm_prp2 mem))"

lemma layer_request_geometry:
  assumes "layer_request_ok l size_bytes mem"
  obtains total_blocks n_commands where "layer_geometry l size_bytes = Some (total_blocks, n_commands)"
    and "unat total_blocks = ceil_div (unat size_bytes) (layer_bs l)"
    and "unat n_commands = ceil_div (unat total_blocks) (layer_bpc l)"
proof -
  have ok: "layer_geometry_ok l" "unat size_bytes + layer_bs l < 2 ^ 64"
      "ceil_div (unat size_bytes) (layer_bs l) + layer_bpc l < 2 ^ 32"
    using assms unfolding layer_request_ok_def Let_def by blast+
  show thesis by (rule layer_geometry_nat[OF ok that])
qed

lemma layer_requestD:
  assumes req: "layer_request_ok l size_bytes mem" and g: "layer_geometry l size_bytes = Some (total_blocks, n_commands)"
  shows "unat total_blocks = ceil_div (unat size_bytes) (layer_bs l)"
    and "unat n_commands = ceil_div (unat total_blocks) (layer_bpc l)" and "\<not> n_commands > ll_max_commands l"
    and "layer_geometry_ok l" and "c_page_size (ll_ctrl l) \<noteq> 0" and "size_bytes \<noteq> 0"
    and "\<And>j. j < unat n_commands \<Longrightarrow> (unat (0 :: u32) + j) * layer_bpc l < unat total_blocks"
    and "unat n_commands \<le> length (lm_prp1 mem)" and "unat n_commands \<le> length (lm_prp2 mem)"
proof -
  show t: "unat total_blocks = ceil_div (unat size_bytes) (layer_bs l)"
    and n: "unat n_commands = ceil_div (unat total_blocks) (layer_bpc l)"
    using g by (auto intro: layer_request_geometry[OF req])
  note r = req[unfolded layer_request_ok_def Let_def, folded t, folded n]
  then show ok: "layer_geometry_ok l" and "size_bytes \<noteq> 0" and "unat n_commands \<le> length (lm_prp1 mem)"
    and "unat n_commands \<le> length (lm_prp2 mem)" by blast+
  show "\<not> n_commands > ll_max_commands l" using r by (simp add: word_less_nat_alt)
  show "c_page_size (ll_ctrl l) \<noteq> 0" using layer_geometry_okD(2)[OF ok] by (simp add: unat_gt_0)
  show "(unat (0 :: u32) + j) * layer_bpc l < unat total_blocks" if "j < unat n_commands" for j
    using that layer_geometry_okD(3)[OF ok] unfolding n by (simp add: less_ceil_div_iff)
qed

lemma load_layer_run:
  assumes pt: "pagemap_of E pt" and req: "layer_request_ok l size_bytes mem" and "dest \<noteq> 0"
    and g: "layer_geometry l size_bytes = Some (total_blocks, n_commands)"
    and present: "\<And>k. k < layer_pages l total_blocks \<Longrightarrow>
      phys_of E pt (page_addr dest (c_page_size (ll_ctrl l)) k) = Some (ph k) \<and> ph k \<noteq> 0"
    and mem': "mem' = describe_cmds (unat n_commands) l total_blocks ph (list_phys E pt l) 0 mem"
  shows "\<exists>h'. run_state (gpunvme_load_layer E launch (Some l) start_lba size_bytes dest mem) h =
      ((Some (layer_finish (launch h' (layer_params l start_lba total_blocks n_commands mem'))), mem'), h')
    \<and> resources h' = resources h"
proof -
  note r = layer_requestD[OF req g]
  have b: "unat (0 :: u32) + unat n_commands < 2 ^ 32" using unat_bound[of n_commands] by simp
  obtain h' where "run_state (layer_cmds_loop (unat n_commands) E l total_blocks dest 0 mem) h = ((GPUNVME_OK, mem'), h')"
      "resources h' = resources h"
    using layer_cmds_loop_run[OF pt r(4) present b r(7), of mem h] mem' by blast
  then show ?thesis
    using g assms(3) r(3,5,6) by (simp add: gpunvme_load_layer_def layer_launch_kernel_def)
qed

lemma load_layer_vram_run:
  assumes pt: "pagemap_of E pt" and req: "layer_request_ok l size_bytes mem" and "ll_bar1_enabled l"
    and g: "layer_geometry l size_bytes = Some (total_blocks, n_commands)"
    and mem': "mem' = describe_cmds (unat n_commands) l total_blocks (page_addr dest (c_page_size (ll_ctrl l))) (list_phys E pt l) 0 mem"
  shows "\<exists>h'. run_state (gpunvme_load_layer_vram E launch (Some l) start_lba size_bytes dest mem) h =
      ((Some (layer_finish (launch h' (layer_params l start_lba total_blocks n_commands mem'))), mem'), h')
    \<and> resources h' = resources h"
proof -
  note r = layer_requestD[OF req g]
  have b: "unat (0 :: u32) + unat n_commands < 2 ^ 32" using unat_bound[of n_commands] by simp
  obtain h' where "run_state (layer_vram_cmds_loop (unat n_commands) E l total_blocks dest 0 mem) h = (mem', h')"
      "resources h' = resources h"
    using layer_vram_cmds_loop_run[OF pt r(4) b r(7), of dest mem h] mem' by blast
  then show ?thesis
    using g assms(3) r(3,5,6) by (simp add: gpunvme_load_layer_vram_def layer_launch_kernel_def)
qed

end
