(* ===== verification/Loader_Setup.thy ===== *)
theory Loader_Setup
  imports Layer_Loader "HOL-Library.Multiset"
begin

text \<open>
  Set-up and tear-down of the layer loader (\<^verbatim>\<open>gpunvme_layer_loader_init\<close> with its labels and
  \<^verbatim>\<open>gpunvme_layer_loader_destroy\<close> in \<^verbatim>\<open>src/host/layer_loader.cu\<close>), with an account of the memory,
  registrations and file descriptors that a loader owns. As in \<^verbatim>\<open>Layer_Loader\<close>, a division by zero is
  the result \<open>None\<close>.
\<close>

section \<open>Files and BARs\<close>

text \<open>What the operating system and CUDA answer: whether a path can be opened, the size that seeking
  to the end of the file reports, and the device pointer of a registered range (NULL when
  \<^verbatim>\<open>cudaHostGetDevicePointer\<close> fails, whose result the code ignores).\<close>

record file_env =
  fe_open :: "hev list \<Rightarrow> string \<Rightarrow> bool"
  fe_size :: "hev list \<Rightarrow> u64"
  fe_device_pointer :: "hev list \<Rightarrow> u64 \<Rightarrow> u64"

definition sysfs_path :: "string \<Rightarrow> string \<Rightarrow> string" where
  "sysfs_path bdf leaf = take 255 (''/sys/bus/pci/devices/'' @ bdf @ ''/'' @ leaf)"

definition open_path :: "file_env \<Rightarrow> string \<Rightarrow> bool host" where
  "open_path F path = ask (\<lambda>h. fe_open F h path) HOpen"

section \<open>Failure labels\<close>

definition ll_fail_bar0 ::
    "gpunvme_layer_loader \<Rightarrow> gpunvme_err \<Rightarrow> (gpunvme_err option \<times> gpunvme_layer_loader option) host" where
  "ll_fail_bar0 l err = do {
     log_ev (HUnregister (ll_bar0 l));
     host_free Mapping (ll_bar0 l);
     log_ev HClose;
     State_Monad.return (Some err, Some (l\<lparr>ll_bar0 := 0, ll_bar0_fd := False\<rparr>))
   }"

definition ll_shutdown :: "henv \<Rightarrow> gpunvme_layer_loader \<Rightarrow> gpunvme_layer_loader host" where
  "ll_shutdown E l = do {
     (_, c) \<leftarrow> gpunvme_ctrl_shutdown E (Some (ll_ctrl l));
     State_Monad.return (l\<lparr>ll_ctrl := the c\<rparr>)
   }"

definition ll_delete_queue :: "henv \<Rightarrow> gpunvme_layer_loader \<Rightarrow> gpunvme_layer_loader host" where
  "ll_delete_queue E l = do {
     (_, c, q) \<leftarrow> gpunvme_delete_io_queue E (Some (ll_ctrl l)) (Some (ll_ioq l));
     State_Monad.return (l\<lparr>ll_ctrl := the c, ll_ioq := the q\<rparr>)
   }"

definition ll_fail_ioq ::
    "henv \<Rightarrow> gpunvme_layer_loader \<Rightarrow> gpunvme_err \<Rightarrow> (gpunvme_err option \<times> gpunvme_layer_loader option) host" where
  "ll_fail_ioq E l err = do {
     l \<leftarrow> ll_delete_queue E l;
     l \<leftarrow> ll_shutdown E l;
     ll_fail_bar0 l err
   }"

text \<open>The buffers of a loader, in the order in which the label and the destructor free them.\<close>

definition ll_free_arrays :: "gpunvme_layer_loader \<Rightarrow> unit host" where
  "ll_free_arrays l = do {
     host_when (ll_kernel_result l \<noteq> 0) (host_free Pinned (ll_kernel_result l));
     host_when (ll_kernel_params l \<noteq> 0) (host_free Pinned (ll_kernel_params l));
     host_when (ll_prp2_array l \<noteq> 0) (host_free Pinned (ll_prp2_array l));
     host_when (ll_prp1_array l \<noteq> 0) (host_free Pinned (ll_prp1_array l))
   }"

definition unpin_buffer :: "u64 \<Rightarrow> u64 \<Rightarrow> unit host" where
  "unpin_buffer p n =
     host_when (p \<noteq> 0) (do { log_ev (HUnregister p); log_ev (HMunlock p n); host_free Aligned p })"

definition ll_free_pool :: "gpunvme_layer_loader \<Rightarrow> unit host" where
  "ll_free_pool l = unpin_buffer (ll_prp_pool l) (ll_prp_pool_bytes l)"

definition ll_free_buffers :: "gpunvme_layer_loader \<Rightarrow> unit host" where
  "ll_free_buffers l = do { ll_free_arrays l; ll_free_pool l }"

definition ll_fail_prp ::
    "henv \<Rightarrow> gpunvme_layer_loader \<Rightarrow> gpunvme_err \<Rightarrow> (gpunvme_err option \<times> gpunvme_layer_loader option) host" where
  "ll_fail_prp E l err = do {
     ll_free_buffers l;
     ll_fail_ioq E l err
   }"

section \<open>Set-up\<close>

definition sizeof_layer_read_params :: u64 where "sizeof_layer_read_params = 40"
definition sizeof_layer_read_result :: u64 where "sizeof_layer_read_result = 24"

text \<open>The kernel parameters and result, and the page map. The parameters are not yet known to the
  loader when the allocation of the result fails.\<close>

definition ll_alloc_kernel ::
    "henv \<Rightarrow> gpunvme_layer_loader \<Rightarrow> (gpunvme_err option \<times> gpunvme_layer_loader option) host" where
  "ll_alloc_kernel E l = do {
     r \<leftarrow> host_alloc E Pinned sizeof_layer_read_params;
     case r of
       None \<Rightarrow> ll_fail_prp E l GPUNVME_ERR_NOMEM
     | Some params \<Rightarrow> do {
         r \<leftarrow> host_alloc E Pinned sizeof_layer_read_result;
         case r of
           None \<Rightarrow> ll_fail_prp E l GPUNVME_ERR_NOMEM
         | Some result \<Rightarrow> do {
             let l = l\<lparr>ll_kernel_params := params, ll_kernel_result := result\<rparr>;
             opened \<leftarrow> ask (he_pagemap E) HOpen;
             if \<not> opened then ll_fail_prp E l GPUNVME_ERR_IO
             else State_Monad.return (Some GPUNVME_OK, Some (l\<lparr>ll_pagemap_fd := True\<rparr>))
           }
       }
   }"

definition ll_alloc_prp ::
    "henv \<Rightarrow> gpunvme_layer_loader \<Rightarrow> (gpunvme_err option \<times> gpunvme_layer_loader option) host" where
  "ll_alloc_prp E l = do {
     let l = l\<lparr>ll_prp_pool_bytes := ucast (ll_max_commands l) * 4096\<rparr>;
     r \<leftarrow> host_alloc E Aligned (ll_prp_pool_bytes l);
     case r of
       None \<Rightarrow> ll_fail_ioq E l GPUNVME_ERR_NOMEM
     | Some pool \<Rightarrow> do {
         let l = l\<lparr>ll_prp_pool := pool\<rparr>;
         log_ev (HMlock pool (ll_prp_pool_bytes l));
         _ \<leftarrow> cuda_host_register E pool (ll_prp_pool_bytes l);
         log_ev (HMemset pool (ll_prp_pool_bytes l));
         r \<leftarrow> host_alloc E Pinned (ucast (ll_max_commands l) * 8);
         case r of
           None \<Rightarrow> ll_fail_prp E l GPUNVME_ERR_NOMEM
         | Some prp1 \<Rightarrow> do {
             let l = l\<lparr>ll_prp1_array := prp1\<rparr>;
             r \<leftarrow> host_alloc E Pinned (ucast (ll_max_commands l) * 8);
             case r of
               None \<Rightarrow> ll_fail_prp E l GPUNVME_ERR_NOMEM
             | Some prp2 \<Rightarrow> ll_alloc_kernel E (l\<lparr>ll_prp2_array := prp2\<rparr>)
           }
       }
   }"

text \<open>The sizes; \<open>None\<close> when the code divides by zero.\<close>

definition ll_sizes :: "u64 \<Rightarrow> u32 \<Rightarrow> gpunvme_layer_loader \<Rightarrow> gpunvme_layer_loader option" where
  "ll_sizes max_layer_bytes pipeline_depth l =
    (let mt = c_max_transfer_bytes (ll_ctrl l)
     in if c_block_size (ll_ctrl l) = 0 \<or> mt = 0 then None
        else Some (l\<lparr>ll_blocks_per_cmd := mt div c_block_size (ll_ctrl l),
          ll_max_commands := ucast ((max_layer_bytes + ucast mt - 1) div ucast mt),
          ll_pipeline_depth := (if pipeline_depth > 60 then 60 else pipeline_depth)\<rparr>))"

definition ll_init_ctrl ::
    "henv \<Rightarrow> u64 \<Rightarrow> u32 \<Rightarrow> gpunvme_layer_loader \<Rightarrow> (gpunvme_err option \<times> gpunvme_layer_loader option) host" where
  "ll_init_ctrl E max_layer_bytes pipeline_depth l = do {
     (err, c) \<leftarrow> gpunvme_ctrl_init E (Some (ll_ctrl l)) (ll_bar0 l) (ll_bar0_size l);
     let l = l\<lparr>ll_ctrl := the c\<rparr>;
     if err \<noteq> GPUNVME_OK then ll_fail_bar0 l err
     else case ll_sizes max_layer_bytes pipeline_depth (l\<lparr>ll_ctrl := (ll_ctrl l)\<lparr>c_bar0_gpu := ll_bar0_gpu l\<rparr>\<rparr>) of
       None \<Rightarrow> State_Monad.return (None, Some (l\<lparr>ll_ctrl := (ll_ctrl l)\<lparr>c_bar0_gpu := ll_bar0_gpu l\<rparr>\<rparr>))
     | Some l \<Rightarrow> do {
         (err, c, q) \<leftarrow> gpunvme_create_io_queue E (Some (ll_ctrl l)) 1 64 4096 GPUNVME_TIER1 (Some (ll_ioq l));
         let l = l\<lparr>ll_ctrl := the c, ll_ioq := the q\<rparr>;
         if err \<noteq> GPUNVME_OK then do {
           l \<leftarrow> ll_shutdown E l;
           ll_fail_bar0 l err
         } else ll_alloc_prp E l
       }
   }"

definition gpunvme_layer_loader_init ::
    "henv \<Rightarrow> file_env \<Rightarrow> gpunvme_layer_loader option \<Rightarrow> string option \<Rightarrow> u64 \<Rightarrow> u32 \<Rightarrow>
     (gpunvme_err option \<times> gpunvme_layer_loader option) host" where
  "gpunvme_layer_loader_init E F loader pci_bdf max_layer_bytes pipeline_depth =
    (case (loader, pci_bdf) of
       (Some _, Some bdf) \<Rightarrow>
         if max_layer_bytes = 0 \<or> pipeline_depth = 0
         then State_Monad.return (Some GPUNVME_ERR_INVALID_PARAM, loader)
         else do {
           opened \<leftarrow> open_path F (sysfs_path bdf ''resource0'');
           if \<not> opened then State_Monad.return (Some GPUNVME_ERR_BAR_MAP, Some loader_zero)
           else do {
             h \<leftarrow> State_Monad.get;
             let bar0_size = fe_size F h;
             let l = loader_zero\<lparr>ll_bar0_size := bar0_size\<rparr>;
             r \<leftarrow> host_alloc E Mapping bar0_size;
             case r of
               None \<Rightarrow> do { log_ev HClose; State_Monad.return (Some GPUNVME_ERR_BAR_MAP, Some l) }
             | Some bar0 \<Rightarrow> do {
                 registered \<leftarrow> cuda_host_register E bar0 bar0_size;
                 if \<not> registered then do {
                   host_free Mapping bar0;
                   log_ev HClose;
                   State_Monad.return (Some GPUNVME_ERR_CUDA, Some l)
                 } else do {
                   h \<leftarrow> State_Monad.get;
                   ll_init_ctrl E max_layer_bytes pipeline_depth
                     (l\<lparr>ll_bar0_fd := True, ll_bar0 := bar0, ll_bar0_gpu := fe_device_pointer F h bar0\<rparr>)
                 }
               }
           }
         }
     | _ \<Rightarrow> State_Monad.return (Some GPUNVME_ERR_INVALID_PARAM, loader))"

section \<open>Tear-down\<close>

definition gpunvme_layer_loader_destroy ::
    "henv \<Rightarrow> gpunvme_layer_loader option \<Rightarrow> gpunvme_layer_loader option host" where
  "gpunvme_layer_loader_destroy E loader =
    (case loader of
       None \<Rightarrow> State_Monad.return None
     | Some l \<Rightarrow> do {
         host_when (ll_pagemap_fd l) (log_ev HClose);
         ll_free_buffers l;
         l \<leftarrow> ll_delete_queue E l;
         l \<leftarrow> ll_shutdown E l;
         host_when (ll_bar1_fd l) (log_ev HClose);
         host_when (ll_bar0 l \<noteq> 0) (do {
           log_ev (HUnregister (ll_bar0 l));
           host_free Mapping (ll_bar0 l)
         });
         host_when (ll_bar0_fd l) (log_ev HClose);
         State_Monad.return (Some loader_zero)
       })"

section \<open>Ownership\<close>

text \<open>Beyond a history \<open>h\<close>, the history \<open>h'\<close> holds the memory \<open>M\<close>, the registrations \<open>R\<close> and \<open>f\<close> more
  files, whatever the order in which they were taken.\<close>

definition owns :: "(mem_kind \<times> u64) multiset \<Rightarrow> u64 multiset \<Rightarrow> int \<Rightarrow> hev list \<Rightarrow> hev list \<Rightarrow> bool" where
  "owns M R f h h' \<longleftrightarrow> mset (held h') = M + mset (held h) \<and> mset (registered h') = R + mset (registered h)
     \<and> open_files h' = f + open_files h"

lemma owns_refl: "owns {#} {#} 0 h h"
  by (simp add: owns_def)

lemma owns_resources: "resources h2 = resources h1 \<Longrightarrow> owns M R f h h2 \<longleftrightarrow> owns M R f h h1"
  by (simp add: owns_def resources_def)

lemma owns_silent [simp]:
  "owns M R f h (HMlock a n # h') = owns M R f h h'" "owns M R f h (HMunlock a n # h') = owns M R f h h'"
  "owns M R f h (HMemset a n # h') = owns M R f h h'"
  by (simp_all add: owns_def)

lemma owns_none [simp]:
  "owns M R f h (HAlloc k n None # h') = owns M R f h h'" "owns M R f h (HOpen False # h') = owns M R f h h'"
  "owns M R f h (HRegister p n False # h') = owns M R f h h'"
  by (simp_all add: owns_def)

lemma owns_alloc: "owns M R f h h' \<Longrightarrow> owns (add_mset (k, p) M) R f h (HAlloc k n (Some p) # h')"
  by (simp add: owns_def)

lemma owns_free: "owns (add_mset (k, p) M) R f h h' \<Longrightarrow> owns M R f h (HFree k p # h')"
  by (simp add: owns_def)

lemma owns_register: "owns M R f h h' \<Longrightarrow> owns M (add_mset p R) f h (HRegister p n True # h')"
  by (simp add: owns_def)

lemma owns_unregister: "owns M (add_mset p R) f h h' \<Longrightarrow> owns M R f h (HUnregister p # h')"
  by (simp add: owns_def)

lemma owns_open: "owns M R f h h' \<Longrightarrow> owns M R (f + 1) h (HOpen True # h')"
  by (simp add: owns_def)

lemma owns_close: "owns M R (f + 1) h h' \<Longrightarrow> owns M R f h (HClose # h')"
  by (simp add: owns_def)

text \<open>A computation that gives up memory \<open>M\<close>, registrations \<open>R\<close> and \<open>f\<close> files, whatever else is held.\<close>

definition releases :: "'a host \<Rightarrow> (mem_kind \<times> u64) multiset \<Rightarrow> u64 multiset \<Rightarrow> int \<Rightarrow> bool" where
  "releases m M R f \<longleftrightarrow> (\<forall>h h1 M' R' f'. owns (M + M') (R + R') (f + f') h h1 \<longrightarrow> owns M' R' f' h (snd (run_state m h1)))"

lemma releasesD:
  "releases m M R f \<Longrightarrow> owns (M + M') (R + R') (f + f') h h1 \<Longrightarrow> run_state m h1 = (x, h2) \<Longrightarrow> owns M' R' f' h h2"
  by (metis releases_def snd_conv)

lemma releases_bind:
  assumes "releases m M R f" and "\<And>x. releases (k x) M' R' f'"
  shows "releases (State_Monad.bind m k) (M + M') (R + R') (f + f')"
  unfolding releases_def
proof (intro allI impI)
  fix h h1 M2 R2 f2
  assume o: "owns (M + M' + M2) (R + R' + R2) (f + f' + f2) h h1"
  obtain x h2 where m: "run_state m h1 = (x, h2)" by (metis surj_pair)
  have "owns (M' + M2) (R' + R2) (f' + f2) h h2"
    using o by (intro releasesD[OF assms(1) _ m]) (simp add: ac_simps)
  then show "owns M2 R2 f2 h (snd (run_state (State_Monad.bind m k) h1))"
    using assms(2)[of x] m unfolding releases_def by simp
qed

lemma releases_return [simp]: "releases (State_Monad.return x) {#} {#} 0"
  by (simp add: releases_def)

lemma releases_free: "releases (host_free k p) {#(k, p)#} {#} 0"
  by (simp add: releases_def host_free_def owns_free)

lemma releases_unregister: "releases (log_ev (HUnregister p)) {#} {#p#} 0"
  by (simp add: releases_def owns_unregister)

lemma releases_close: "releases (log_ev HClose) {#} {#} 1"
  by (simp add: releases_def owns_def)

lemma releases_munlock: "releases (log_ev (HMunlock p n)) {#} {#} 0"
  by (simp add: releases_def)

lemma releases_when: "releases m M R f \<Longrightarrow> releases (host_when b m) (if b then M else {#}) (if b then R else {#}) (if b then f else 0)"
  by (auto simp: host_when_def)

lemma releases_keep:
  "(\<And>h. resources (snd (run_state m h)) = resources h) \<Longrightarrow> releases m {#} {#} 0"
  by (auto simp: releases_def intro: owns_resources[THEN iffD2])


section \<open>What a loader owns\<close>

definition opt_mem :: "mem_kind \<Rightarrow> u64 \<Rightarrow> (mem_kind \<times> u64) multiset" where
  "opt_mem k p = (if p \<noteq> 0 then {#(k, p)#} else {#})"

definition ll_buffers :: "gpunvme_layer_loader \<Rightarrow> (mem_kind \<times> u64) multiset" where
  "ll_buffers l = opt_mem Pinned (ll_kernel_result l) + opt_mem Pinned (ll_kernel_params l)
     + opt_mem Pinned (ll_prp2_array l) + opt_mem Pinned (ll_prp1_array l) + opt_mem Aligned (ll_prp_pool l)"

definition iq_memory :: "gpunvme_io_queue \<Rightarrow> (mem_kind \<times> u64) multiset" where
  "iq_memory q = (case iq_gpu_queue q of Some (p, _) \<Rightarrow> {#(Pinned, p)#} | None \<Rightarrow> {#})
     + opt_mem Pinned (iq_data_buf q) + {#(Aligned, iq_sq q), (Aligned, iq_cq q)#}"

definition iq_registrations :: "gpunvme_io_queue \<Rightarrow> u64 multiset" where
  "iq_registrations q = {#iq_sq q, iq_cq q#}"

definition admin_memory :: "gpunvme_ctrl \<Rightarrow> (mem_kind \<times> u64) multiset" where
  "admin_memory c = {#(Pinned, c_admin_sq c), (Pinned, c_admin_cq c)#}"

lemma releases_free_opt: "releases (host_when (p \<noteq> 0) (host_free k p)) (opt_mem k p) {#} 0"
  using releases_when[OF releases_free, of "p \<noteq> 0" k p] by (simp add: opt_mem_def)

lemma releases_eq: "releases m M R f \<Longrightarrow> M = M' \<Longrightarrow> R = R' \<Longrightarrow> f = f' \<Longrightarrow> releases m M' R' f'"
  by simp

text \<open>The registration of a locked buffer may have failed, which nobody looks at: unregistering it then
  does nothing, provided that nothing else at this address is registered.\<close>

definition buffer_registration :: "u64 \<Rightarrow> u64 multiset \<Rightarrow> u64 multiset \<Rightarrow> bool" where
  "buffer_registration p Rp R \<longleftrightarrow> (if p = 0 then Rp = {#} else Rp = {#p#} \<or> Rp = {#} \<and> p \<notin># R)"

lemma unpin_buffer_owns:
  assumes o: "owns (opt_mem Aligned p + M) (Rp + R) f h h1" and rp: "buffer_registration p Rp (R + mset (registered h))"
  shows "owns M R f h (snd (run_state (unpin_buffer p n) h1))"
proof (cases "p = 0 \<or> Rp = {#p#}")
  case True
  then show ?thesis
    using o rp by (auto simp: unpin_buffer_def host_when_def host_free_def opt_mem_def buffer_registration_def
        intro!: owns_free owns_unregister)
next
  case False
  then have "p \<notin># mset (registered h1)" "Rp = {#}" using o rp by (auto simp: owns_def buffer_registration_def)
  then have "remove1 p (registered h1) = registered h1" by (simp add: remove1_idem)
  then show ?thesis
    using o False \<open>Rp = {#}\<close> by (simp add: unpin_buffer_def host_when_def host_free_def opt_mem_def owns_def)
qed

definition pool_registration :: "gpunvme_layer_loader \<Rightarrow> u64 multiset \<Rightarrow> u64 multiset \<Rightarrow> bool" where
  "pool_registration l = buffer_registration (ll_prp_pool l)"

lemma ll_free_buffers_owns:
  assumes "owns (ll_buffers l + M) (Rp + R) f h h1" and "pool_registration l Rp (R + mset (registered h))"
  shows "owns M R f h (snd (run_state (ll_free_buffers l) h1))"
proof -
  have "releases (ll_free_arrays l) (opt_mem Pinned (ll_kernel_result l) + (opt_mem Pinned (ll_kernel_params l)
     + (opt_mem Pinned (ll_prp2_array l) + opt_mem Pinned (ll_prp1_array l)))) ({#} + ({#} + ({#} + {#}))) (0 + (0 + (0 + 0)))"
    unfolding ll_free_arrays_def by (intro releases_bind releases_free_opt)
  moreover obtain h2 where h2: "run_state (ll_free_arrays l) h1 = ((), h2)" by (cases "run_state (ll_free_arrays l) h1") auto
  ultimately have o: "owns (opt_mem Aligned (ll_prp_pool l) + M) (Rp + R) f h h2"
    using assms(1) by (elim releasesD[where f' = f and R' = "Rp + R"]) (simp_all add: ll_buffers_def ac_simps)
  have "run_state (ll_free_buffers l) h1 = run_state (unpin_buffer (ll_prp_pool l) (ll_prp_pool_bytes l)) h2"
    using h2 by (simp add: ll_free_buffers_def ll_free_pool_def)
  then show ?thesis using unpin_buffer_owns[OF o] assms(2) by (simp add: pool_registration_def)
qed

lemma releases_core: "resources h2 = resources h1 \<Longrightarrow> owns M R f h h1 \<Longrightarrow> owns M R f h h2"
  by (simp add: owns_def resources_def)

lemma delete_queue_owns:
  assumes "owns (iq_memory q + M) (iq_registrations q + R) f h h1"
    and "iq_sq q \<noteq> 0" and "iq_cq q \<noteq> 0" and "iq_tier q = GPUNVME_TIER1"
  obtains e c2 h2 where "run_state (gpunvme_delete_io_queue E (Some c) (Some q)) h1 = ((e, Some c2, Some io_queue_zero), h2)"
    and "ctrl_core c2 = ctrl_core c" and "owns M R f h h2"
proof -
  obtain e1 c1 h2 where 1: "run_state (gpunvme_admin_delete_io_sq (iq_qid q) E c) h1 = ((e1, c1), h2)" by (metis surj_pair)
  obtain e2 c2 h3 where 2: "run_state (gpunvme_admin_delete_io_cq (iq_qid q) E c1) h2 = ((e2, c2), h3)" by (metis surj_pair)
  note ch = admin_call_chain[OF adm_delete_sq.oper_call[OF 1] adm_delete_cq.oper_call[OF 2]]
  have o: "owns (iq_memory q + M) (iq_registrations q + R) f h h3" using ch(2) assms(1) by (rule releases_core)
  have "\<exists>h4. run_state (iq_delete_body E c q) h1 = ((c2, io_queue_zero), h4) \<and> owns M R f h h4"
    using 1 2 assms(2-4) o
    by (simp add: iq_delete_body_def iq_release_ring_def host_tier_def host_free_def host_when_def owns_def
        iq_memory_def iq_registrations_def opt_mem_def split: option.splits prod.splits)
  then show thesis
    using that[of _ c2] ch(3) by (auto simp: gpunvme_delete_io_queue_def)
qed

lemma ll_delete_queue_owns:
  assumes "owns (iq_memory (ll_ioq l) + M) (iq_registrations (ll_ioq l) + R) f h h1"
    and "iq_sq (ll_ioq l) \<noteq> 0" and "iq_cq (ll_ioq l) \<noteq> 0" and "iq_tier (ll_ioq l) = GPUNVME_TIER1"
  obtains c2 h2 where "run_state (ll_delete_queue E l) h1 = (l\<lparr>ll_ctrl := c2, ll_ioq := io_queue_zero\<rparr>, h2)"
    and "ctrl_core c2 = ctrl_core (ll_ctrl l)" and "owns M R f h h2"
proof (rule delete_queue_owns[OF assms, of E "ll_ctrl l"])
  fix e c2 h2
  assume run: "run_state (gpunvme_delete_io_queue E (Some (ll_ctrl l)) (Some (ll_ioq l))) h1 = ((e, Some c2, Some io_queue_zero), h2)"
    and h2: "ctrl_core c2 = ctrl_core (ll_ctrl l)" "owns M R f h h2"
  show thesis by (rule that[OF _ h2]) (simp add: ll_delete_queue_def run)
qed

lemma shutdown_owns:
  assumes "owns (admin_memory c + M) R f h h1" and "c_bar0 c \<noteq> 0" and "c_admin_sq c \<noteq> 0" and "c_admin_cq c \<noteq> 0"
  obtains c2 h2 where "run_state (gpunvme_ctrl_shutdown E (Some c)) h1 = ((GPUNVME_OK, Some c2), h2)" and "owns M R f h h2"
proof -
  let ?r = "nvme_reg_ptr (c_bar0 c) NVME_REG_CC"
  let ?v = "he_read32 E h1 ?r"
  let ?h1 = "HWrite32 ?r (fld_set cc_shn NVME_CC_SHN_NORMAL ?v) # HRead32 ?r ?v # h1"
  obtain h2 where h2: "run_state (wait_shutdown_loop (unat (c_timeout_ms c)) E (c_bar0 c)) ?h1 = ((), h2)"
      "resources h2 = resources h1"
    using wait_shutdown_loop_keeps(1)[of "unat (c_timeout_ms c)" E "c_bar0 c" ?h1]
    by (cases "run_state (wait_shutdown_loop (unat (c_timeout_ms c)) E (c_bar0 c)) ?h1") simp
  have "owns (admin_memory c + M) R f h h2" using h2(2) assms(1) by (rule releases_core)
  then have "\<exists>c2 h3. run_state (gpunvme_ctrl_shutdown E (Some c)) h1 = ((GPUNVME_OK, Some c2), h3) \<and> owns M R f h h3"
    using assms(2-4) h2(1)
    by (simp add: gpunvme_ctrl_shutdown_def host_mmio_read32_def host_mmio_write32_def host_free_def owns_def admin_memory_def)
  then show thesis using that by blast
qed

lemma ll_shutdown_owns:
  assumes "owns (admin_memory (ll_ctrl l) + M) R f h h1" and "c_bar0 (ll_ctrl l) \<noteq> 0"
    and "c_admin_sq (ll_ctrl l) \<noteq> 0" and "c_admin_cq (ll_ctrl l) \<noteq> 0"
  obtains c2 h2 where "run_state (ll_shutdown E l) h1 = (l\<lparr>ll_ctrl := c2\<rparr>, h2)" and "owns M R f h h2"
proof (rule shutdown_owns[OF assms, of E])
  fix c2 h2
  assume run: "run_state (gpunvme_ctrl_shutdown E (Some (ll_ctrl l))) h1 = ((GPUNVME_OK, Some c2), h2)" and h2: "owns M R f h h2"
  show thesis by (rule that[OF _ h2]) (simp add: ll_shutdown_def run)
qed


definition loader_linked :: "gpunvme_layer_loader \<Rightarrow> bool" where
  "loader_linked l \<longleftrightarrow> ll_bar0 l \<noteq> 0 \<and> c_bar0 (ll_ctrl l) \<noteq> 0 \<and> c_admin_sq (ll_ctrl l) \<noteq> 0 \<and> c_admin_cq (ll_ctrl l) \<noteq> 0
     \<and> iq_sq (ll_ioq l) \<noteq> 0 \<and> iq_cq (ll_ioq l) \<noteq> 0 \<and> iq_tier (ll_ioq l) = GPUNVME_TIER1"

text \<open>The BAR mapping, the admin queues and the I/O queue pair.\<close>

definition ll_base_memory :: "gpunvme_layer_loader \<Rightarrow> (mem_kind \<times> u64) multiset" where
  "ll_base_memory l = iq_memory (ll_ioq l) + (admin_memory (ll_ctrl l) + {#(Mapping, ll_bar0 l)#})"

definition ll_base_registrations :: "gpunvme_layer_loader \<Rightarrow> u64 multiset" where
  "ll_base_registrations l = iq_registrations (ll_ioq l) + {#ll_bar0 l#}"

lemma ll_base_update [simp]:
  "ll_base_memory (l\<lparr>ll_prp_pool_bytes := n\<rparr>) = ll_base_memory l" "ll_base_memory (l\<lparr>ll_prp_pool := p\<rparr>) = ll_base_memory l"
  "ll_base_memory (l\<lparr>ll_prp1_array := p\<rparr>) = ll_base_memory l" "ll_base_memory (l\<lparr>ll_prp2_array := p\<rparr>) = ll_base_memory l"
  "ll_base_memory (l\<lparr>ll_kernel_params := p, ll_kernel_result := r\<rparr>) = ll_base_memory l"
  "ll_base_registrations (l\<lparr>ll_prp_pool_bytes := n\<rparr>) = ll_base_registrations l"
  "ll_base_registrations (l\<lparr>ll_prp_pool := p\<rparr>) = ll_base_registrations l"
  "ll_base_registrations (l\<lparr>ll_prp1_array := p\<rparr>) = ll_base_registrations l"
  "ll_base_registrations (l\<lparr>ll_prp2_array := p\<rparr>) = ll_base_registrations l"
  "ll_base_registrations (l\<lparr>ll_kernel_params := p, ll_kernel_result := r\<rparr>) = ll_base_registrations l"
  "loader_linked (l\<lparr>ll_prp_pool_bytes := n\<rparr>) = loader_linked l" "loader_linked (l\<lparr>ll_prp_pool := p\<rparr>) = loader_linked l"
  "loader_linked (l\<lparr>ll_prp1_array := p\<rparr>) = loader_linked l" "loader_linked (l\<lparr>ll_prp2_array := p\<rparr>) = loader_linked l"
  "loader_linked (l\<lparr>ll_kernel_params := p, ll_kernel_result := r\<rparr>) = loader_linked l"
  "ll_base_memory (l\<lparr>ll_pagemap_fd := b\<rparr>) = ll_base_memory l" "ll_base_registrations (l\<lparr>ll_pagemap_fd := b\<rparr>) = ll_base_registrations l"
  "loader_linked (l\<lparr>ll_pagemap_fd := b\<rparr>) = loader_linked l" "ll_buffers (l\<lparr>ll_pagemap_fd := b\<rparr>) = ll_buffers l"
  by (simp_all add: ll_base_memory_def ll_base_registrations_def loader_linked_def ll_buffers_def)

lemma ll_fail_bar0_run:
  assumes "owns (add_mset (Mapping, ll_bar0 l) M) (add_mset (ll_bar0 l) R) (f + 1) h h1"
  obtains l' h2 where "run_state (ll_fail_bar0 l err) h1 = ((Some err, Some l'), h2)" and "owns M R f h h2"
  using assms that by (simp add: ll_fail_bar0_def host_free_def owns_def)

lemma ll_fail_ioq_run:
  assumes "owns (ll_base_memory l + M) (ll_base_registrations l + R) (f + 1) h h1" and "loader_linked l"
  obtains l' h2 where "run_state (ll_fail_ioq E l err) h1 = ((Some err, Some l'), h2)" and "owns M R f h h2"
proof -
  have o: "owns (iq_memory (ll_ioq l) + (admin_memory (ll_ctrl l) + add_mset (Mapping, ll_bar0 l) M))
      (iq_registrations (ll_ioq l) + add_mset (ll_bar0 l) R) (f + 1) h h1"
    using assms(1) by (simp add: ll_base_memory_def ll_base_registrations_def ac_simps)
  obtain c2 h2 where 1: "run_state (ll_delete_queue E l) h1 = (l\<lparr>ll_ctrl := c2, ll_ioq := io_queue_zero\<rparr>, h2)"
      "ctrl_core c2 = ctrl_core (ll_ctrl l)"
      "owns (admin_memory (ll_ctrl l) + add_mset (Mapping, ll_bar0 l) M) (add_mset (ll_bar0 l) R) (f + 1) h h2"
    by (rule ll_delete_queue_owns[OF o, of E]) (use assms(2) in \<open>simp_all add: loader_linked_def\<close>)
  let ?l = "l\<lparr>ll_ctrl := c2, ll_ioq := io_queue_zero\<rparr>"
  have c2: "admin_memory (ll_ctrl ?l) = admin_memory (ll_ctrl l)" "c_bar0 (ll_ctrl ?l) \<noteq> 0" "c_admin_sq (ll_ctrl ?l) \<noteq> 0"
      "c_admin_cq (ll_ctrl ?l) \<noteq> 0"
    using assms(2) ctrl_core_eqD[OF 1(2)] by (simp_all add: loader_linked_def admin_memory_def)
  obtain c3 h3 where 2: "run_state (ll_shutdown E ?l) h2 = (?l\<lparr>ll_ctrl := c3\<rparr>, h3)"
      "owns (add_mset (Mapping, ll_bar0 l) M) (add_mset (ll_bar0 l) R) (f + 1) h h3"
    by (rule ll_shutdown_owns[OF 1(3)[folded c2(1)] c2(2-4), of E])
  let ?l3 = "?l\<lparr>ll_ctrl := c3\<rparr>"
  obtain l' h4 where 3: "run_state (ll_fail_bar0 ?l3 err) h3 = ((Some err, Some l'), h4)" "owns M R f h h4"
    by (rule ll_fail_bar0_run[of ?l3 M R f h h3 err]) (use 2(2) in simp_all)
  show thesis
    by (rule that[OF _ 3(2), of l']) (use 1(1) 2(1) 3(1) in \<open>simp add: ll_fail_ioq_def\<close>)
qed

lemma ll_fail_prp_run:
  assumes "owns (ll_buffers l + (ll_base_memory l + M)) (Rp + (ll_base_registrations l + R)) (f + 1) h h1" and "loader_linked l"
    and "pool_registration l Rp (ll_base_registrations l + R + mset (registered h))"
  obtains l' h2 where "run_state (ll_fail_prp E l err) h1 = ((Some err, Some l'), h2)" and "owns M R f h h2"
proof -
  obtain h2 where h2: "run_state (ll_free_buffers l) h1 = ((), h2)" by (cases "run_state (ll_free_buffers l) h1") auto
  have "owns (ll_base_memory l + M) (ll_base_registrations l + R) (f + 1) h h2"
    using ll_free_buffers_owns[OF assms(1,3)] h2 by simp
  from ll_fail_ioq_run[OF this assms(2), of E err] obtain l' h3
    where "run_state (ll_fail_ioq E l err) h2 = ((Some err, Some l'), h3)" "owns M R f h h3" by blast
  then show thesis using that h2 by (simp add: ll_fail_prp_def)
qed


section \<open>Every way a set-up ends\<close>

definition loader_owns :: "hev list \<Rightarrow> gpunvme_layer_loader \<Rightarrow> hev list \<Rightarrow> bool" where
  "loader_owns h l h' \<longleftrightarrow> loader_linked l \<and> ll_bar0_fd l
     \<and> (\<exists>Rp. owns (ll_buffers l + ll_base_memory l) (Rp + ll_base_registrations l)
           (1 + of_bool (ll_pagemap_fd l) + of_bool (ll_bar1_fd l)) h h'
         \<and> pool_registration l Rp (ll_base_registrations l + mset (registered h)))"

text \<open>What a failed set-up may leave: nothing, the kernel parameters, or the admin queues.\<close>

definition init_leak :: "(mem_kind \<times> u64) multiset \<Rightarrow> bool" where
  "init_leak M \<longleftrightarrow> M = {#} \<or> (\<exists>p. M = {#(Pinned, p)#}) \<or> (\<exists>c. M = admin_memory c)"

definition init_ended :: "hev list \<Rightarrow> (gpunvme_err option \<times> gpunvme_layer_loader option) \<times> hev list \<Rightarrow> bool" where
  "init_ended h z \<longleftrightarrow> (case z of ((r, l), h') \<Rightarrow>
     case r of None \<Rightarrow> True
     | Some err \<Rightarrow> if err = GPUNVME_OK then \<exists>l'. l = Some l' \<and> loader_owns h l' h' \<and> \<not> ll_bar1_fd l'
         else \<exists>M. init_leak M \<and> owns M {#} 0 h h')"

lemma init_ended_error:
  "err \<noteq> GPUNVME_OK \<Longrightarrow> init_leak M \<Longrightarrow> owns M {#} 0 h h2 \<Longrightarrow> init_ended h ((Some err, l), h2)"
  by (auto simp: init_ended_def)

lemma ll_fail_prp_ended:
  assumes "owns (ll_buffers l + (ll_base_memory l + M)) (Rp + ll_base_registrations l) 1 h h1" and "loader_linked l"
    and "pool_registration l Rp (ll_base_registrations l + mset (registered h))" and "err \<noteq> GPUNVME_OK" and "init_leak M"
  shows "init_ended h (run_state (ll_fail_prp E l err) h1)"
proof -
  obtain l' h2 where "run_state (ll_fail_prp E l err) h1 = ((Some err, Some l'), h2)" "owns M {#} 0 h h2"
    by (rule ll_fail_prp_run[of l M Rp "{#}" 0 h h1 E err]) (use assms(1-3) in simp_all)
  then show ?thesis using assms(4,5) by (simp add: init_ended_error)
qed

lemma ll_buffers_update:
  "ll_kernel_params l = 0 \<Longrightarrow> ll_kernel_result l = 0 \<Longrightarrow> p \<noteq> 0 \<Longrightarrow> r \<noteq> 0 \<Longrightarrow>
    ll_buffers (l\<lparr>ll_kernel_params := p, ll_kernel_result := r\<rparr>) = add_mset (Pinned, r) (add_mset (Pinned, p) (ll_buffers l))"
  "ll_prp2_array l = 0 \<Longrightarrow> p \<noteq> 0 \<Longrightarrow> ll_buffers (l\<lparr>ll_prp2_array := p\<rparr>) = add_mset (Pinned, p) (ll_buffers l)"
  "ll_prp1_array l = 0 \<Longrightarrow> p \<noteq> 0 \<Longrightarrow> ll_buffers (l\<lparr>ll_prp1_array := p\<rparr>) = add_mset (Pinned, p) (ll_buffers l)"
  "ll_prp_pool l = 0 \<Longrightarrow> p \<noteq> 0 \<Longrightarrow> ll_buffers (l\<lparr>ll_prp_pool := p\<rparr>) = add_mset (Aligned, p) (ll_buffers l)"
  by (simp_all add: ll_buffers_def opt_mem_def)

lemma pool_registration_update [simp]:
  "pool_registration (l\<lparr>ll_kernel_params := p, ll_kernel_result := r\<rparr>) = pool_registration l"
  "pool_registration (l\<lparr>ll_pagemap_fd := b\<rparr>) = pool_registration l"
  "pool_registration (l\<lparr>ll_prp1_array := p\<rparr>) = pool_registration l" "pool_registration (l\<lparr>ll_prp2_array := p\<rparr>) = pool_registration l"
  by (simp_all add: pool_registration_def)

lemma ll_alloc_kernel_ended:
  assumes o: "owns (ll_buffers l + ll_base_memory l) (Rp + ll_base_registrations l) 1 h h1" and lk: "loader_linked l"
    and rp: "pool_registration l Rp (ll_base_registrations l + mset (registered h))"
    and z: "ll_kernel_params l = 0" "ll_kernel_result l = 0" "ll_bar0_fd l" "\<not> ll_bar1_fd l" and nz: "nonnull_alloc E"
  shows "init_ended h (run_state (ll_alloc_kernel E l) h1)"
proof (cases "he_alloc E h1 Pinned sizeof_layer_read_params")
  case None
  have "init_ended h (run_state (ll_fail_prp E l GPUNVME_ERR_NOMEM) (HAlloc Pinned sizeof_layer_read_params None # h1))"
    by (rule ll_fail_prp_ended[of l "{#}" Rp]) (use o lk rp in \<open>simp_all add: init_leak_def\<close>)
  then show ?thesis using None by (simp add: ll_alloc_kernel_def host_alloc_def)
next
  case (Some params)
  have p0: "params \<noteq> 0" using nonnull_allocD[OF nz Some] .
  let ?h1 = "HAlloc Pinned sizeof_layer_read_params (Some params) # h1"
  have o1: "owns (add_mset (Pinned, params) (ll_buffers l + ll_base_memory l)) (Rp + ll_base_registrations l) 1 h ?h1"
    using o by (rule owns_alloc)
  show ?thesis
  proof (cases "he_alloc E ?h1 Pinned sizeof_layer_read_result")
    case None
    have "init_ended h (run_state (ll_fail_prp E l GPUNVME_ERR_NOMEM) (HAlloc Pinned sizeof_layer_read_result None # ?h1))"
      by (rule ll_fail_prp_ended[of l "{#(Pinned, params)#}" Rp]) (use o1 lk rp in \<open>auto simp: init_leak_def\<close>)
    then show ?thesis using None Some by (simp add: ll_alloc_kernel_def host_alloc_def)
  next
    case res: (Some result)
    have r0: "result \<noteq> 0" using nonnull_allocD[OF nz res] .
    let ?l = "l\<lparr>ll_kernel_params := params, ll_kernel_result := result\<rparr>"
    let ?h2 = "HAlloc Pinned sizeof_layer_read_result (Some result) # ?h1"
    have o2: "owns (ll_buffers ?l + ll_base_memory ?l) (Rp + ll_base_registrations ?l) 1 h ?h2"
      using owns_alloc[OF o1, of Pinned result sizeof_layer_read_result] z p0 r0 by (simp add: ll_buffers_update)
    show ?thesis
    proof (cases "he_pagemap E ?h2")
      case True
      have "owns (ll_buffers ?l + ll_base_memory ?l) (Rp + ll_base_registrations ?l) 2 h (HOpen True # ?h2)"
        using owns_open[OF o2] by simp
      then have "loader_owns h (?l\<lparr>ll_pagemap_fd := True\<rparr>) (HOpen True # ?h2)"
        using lk rp z unfolding loader_owns_def by (intro conjI exI[of _ Rp]) simp_all
      then show ?thesis using Some res True z by (simp add: ll_alloc_kernel_def host_alloc_def init_ended_def Let_def)
    next
      case False
      have "init_ended h (run_state (ll_fail_prp E ?l GPUNVME_ERR_IO) (HOpen False # ?h2))"
        by (rule ll_fail_prp_ended[of ?l "{#}" Rp]) (use o2 lk rp in \<open>simp_all add: init_leak_def\<close>)
      then show ?thesis using Some res False by (simp add: ll_alloc_kernel_def host_alloc_def Let_def)
    qed
  qed
qed


text \<open>Aligned memory that is handed out can be registered, or it is not registered already.\<close>

definition fresh_alloc :: "henv \<Rightarrow> bool" where
  "fresh_alloc E \<longleftrightarrow> (\<forall>h n p. he_alloc E h Aligned n = Some p \<longrightarrow>
     he_register E (HMlock p n # HAlloc Aligned n (Some p) # h) p \<or> p \<notin> set (registered h))"

definition no_buffers :: "gpunvme_layer_loader \<Rightarrow> bool" where
  "no_buffers l \<longleftrightarrow> ll_prp_pool l = 0 \<and> ll_prp1_array l = 0 \<and> ll_prp2_array l = 0 \<and> ll_kernel_params l = 0
     \<and> ll_kernel_result l = 0 \<and> ll_bar0_fd l \<and> \<not> ll_bar1_fd l"

lemma ll_alloc_prp_ended:
  assumes o: "owns (ll_base_memory l) (ll_base_registrations l) 1 h h1" and lk: "loader_linked l" and nb: "no_buffers l"
    and nz: "nonnull_alloc E" and fresh: "fresh_alloc E"
  shows "init_ended h (run_state (ll_alloc_prp E l) h1)"
proof -
  let ?n = "ucast (ll_max_commands l) * 4096 :: u64"
  let ?l = "l\<lparr>ll_prp_pool_bytes := ?n\<rparr>"
  show ?thesis
  proof (cases "he_alloc E h1 Aligned ?n")
    case None
    obtain l' h2 where "run_state (ll_fail_ioq E ?l GPUNVME_ERR_NOMEM) (HAlloc Aligned ?n None # h1) = ((Some GPUNVME_ERR_NOMEM, Some l'), h2)"
        "owns {#} {#} 0 h h2"
      by (rule ll_fail_ioq_run[of ?l "{#}" "{#}" 0 h "HAlloc Aligned ?n None # h1" E GPUNVME_ERR_NOMEM]) (use o lk in simp_all)
    then show ?thesis
      using None init_ended_error[of GPUNVME_ERR_NOMEM "{#}" h h2] by (simp add: ll_alloc_prp_def host_alloc_def init_leak_def Let_def)
  next
    case (Some pool)
    let ?b = "he_register E (HMlock pool ?n # HAlloc Aligned ?n (Some pool) # h1) pool"
    let ?h2 = "HMemset pool ?n # HRegister pool ?n ?b # HMlock pool ?n # HAlloc Aligned ?n (Some pool) # h1"
    let ?l2 = "?l\<lparr>ll_prp_pool := pool\<rparr>" and ?Rp = "if ?b then {#pool#} else {#}"
    have p0: "pool \<noteq> 0" using nonnull_allocD[OF nz Some] .
    have buf: "ll_buffers ?l2 = {#(Aligned, pool)#}" using nb p0 by (simp add: no_buffers_def ll_buffers_def opt_mem_def)
    have "?b \<or> pool \<notin># mset (registered h1)" using fresh Some by (auto simp: fresh_alloc_def)
    moreover have "mset (registered h1) = ll_base_registrations l + mset (registered h)" using o by (simp add: owns_def)
    ultimately have rp: "pool_registration ?l2 ?Rp (ll_base_registrations ?l2 + mset (registered h))"
      using p0 by (auto simp: pool_registration_def buffer_registration_def)
    have o2: "owns (ll_buffers ?l2 + ll_base_memory ?l2) (?Rp + ll_base_registrations ?l2) 1 h ?h2"
      using o unfolding buf by (auto intro!: owns_register owns_alloc)
    have lk2: "loader_linked ?l2" using lk by simp
    have fail: "init_ended h (run_state (ll_fail_prp E l' GPUNVME_ERR_NOMEM) (HAlloc Pinned m None # h'))"
      if "owns (ll_buffers l' + ll_base_memory l') (?Rp + ll_base_registrations l') 1 h h'" "loader_linked l'"
        "pool_registration l' ?Rp (ll_base_registrations l' + mset (registered h))" for l' h' m
      by (rule ll_fail_prp_ended[of l' "{#}" ?Rp]) (use that in \<open>simp_all add: init_leak_def\<close>)
    let ?m = "ucast (ll_max_commands l) * 8 :: u64"
    have run: "run_state (ll_alloc_prp E l) h1 = (case he_alloc E ?h2 Pinned ?m of
        None \<Rightarrow> run_state (ll_fail_prp E ?l2 GPUNVME_ERR_NOMEM) (HAlloc Pinned ?m None # ?h2)
      | Some prp1 \<Rightarrow> case he_alloc E (HAlloc Pinned ?m (Some prp1) # ?h2) Pinned ?m of
          None \<Rightarrow> run_state (ll_fail_prp E (?l2\<lparr>ll_prp1_array := prp1\<rparr>) GPUNVME_ERR_NOMEM)
                    (HAlloc Pinned ?m None # HAlloc Pinned ?m (Some prp1) # ?h2)
        | Some prp2 \<Rightarrow> run_state (ll_alloc_kernel E (?l2\<lparr>ll_prp1_array := prp1, ll_prp2_array := prp2\<rparr>))
                    (HAlloc Pinned ?m (Some prp2) # HAlloc Pinned ?m (Some prp1) # ?h2))"
      using Some by (simp add: ll_alloc_prp_def host_alloc_def cuda_host_register_def Let_def split: option.splits)
    show ?thesis
    proof (cases "he_alloc E ?h2 Pinned ?m")
      case None
      then show ?thesis unfolding run using fail[OF o2 lk2 rp] by simp
    next
      case p1: (Some prp1)
      let ?l3 = "?l2\<lparr>ll_prp1_array := prp1\<rparr>" and ?h3 = "HAlloc Pinned ?m (Some prp1) # ?h2"
      have z1: "prp1 \<noteq> 0" "ll_prp1_array ?l2 = 0" using nonnull_allocD[OF nz p1] nb by (auto simp: no_buffers_def)
      have o3: "owns (ll_buffers ?l3 + ll_base_memory ?l3) (?Rp + ll_base_registrations ?l3) 1 h ?h3"
        using owns_alloc[OF o2, of Pinned prp1 ?m] unfolding ll_buffers_update(3)[OF z1(2,1)] by simp
      have rp3: "pool_registration ?l3 ?Rp (ll_base_registrations ?l3 + mset (registered h))" using rp by simp
      have lk3: "loader_linked ?l3" using lk by simp
      show ?thesis
      proof (cases "he_alloc E ?h3 Pinned ?m")
        case None
        then show ?thesis unfolding run using p1 fail[OF o3 lk3 rp3] by simp
      next
        case p2: (Some prp2)
        let ?l4 = "?l3\<lparr>ll_prp2_array := prp2\<rparr>" and ?h4 = "HAlloc Pinned ?m (Some prp2) # ?h3"
        have z2: "prp2 \<noteq> 0" "ll_prp2_array ?l3 = 0" using nonnull_allocD[OF nz p2] nb by (auto simp: no_buffers_def)
        have o4: "owns (ll_buffers ?l4 + ll_base_memory ?l4) (?Rp + ll_base_registrations ?l4) 1 h ?h4"
          using owns_alloc[OF o3, of Pinned prp2 ?m] unfolding ll_buffers_update(2)[OF z2(2,1)] by simp
        have "init_ended h (run_state (ll_alloc_kernel E ?l4) ?h4)"
          by (rule ll_alloc_kernel_ended[OF o4 _ _ _ _ _ _ nz]) (use lk3 rp3 nb in \<open>simp_all add: no_buffers_def\<close>)
        then show ?thesis unfolding run using p1 p2 by simp
      qed
    qed
  qed
qed


lemma holds_admin_owns: "holds_admin h1 c h2 \<Longrightarrow> owns M R f h h1 \<Longrightarrow> owns (admin_memory c + M) R f h h2"
  by (simp add: holds_admin_def resources_def owns_def admin_memory_def)

lemma iq_resources_owns:
  "resources h2 = iq_resources GPUNVME_TIER1 q h1 \<Longrightarrow> owns M R f h h1 \<Longrightarrow> owns (iq_memory q + M) (iq_registrations q + R) f h h2"
  by (simp add: resources_def iq_resources_def owns_def iq_memory_def iq_registrations_def opt_mem_def data_kind_def
      ring_kind_def host_tier_def split: option.splits prod.splits)

lemma ll_sizes_keeps:
  assumes "ll_sizes n d l = Some l'"
  shows "ll_ctrl l' = ll_ctrl l" "ll_ioq l' = ll_ioq l" "ll_bar0 l' = ll_bar0 l" "no_buffers l' = no_buffers l"
  using assms by (auto simp: ll_sizes_def Let_def no_buffers_def split: if_splits)

lemma ll_init_ctrl_ended:
  assumes o: "owns {#(Mapping, ll_bar0 l)#} {#ll_bar0 l#} 1 h h1" and b0: "ll_bar0 l \<noteq> 0" and nb: "no_buffers l"
    and nz: "nonnull_alloc E" and fresh: "fresh_alloc E"
  shows "init_ended h (run_state (ll_init_ctrl E n d l) h1)"
proof -
  obtain err r h2 where init: "run_state (gpunvme_ctrl_init E (Some (ll_ctrl l)) (ll_bar0 l) (ll_bar0_size l)) h1 = ((err, r), h2)"
    by (metis surj_pair)
  have fail: "init_ended h (run_state (ll_fail_bar0 l' e) h')"
    if ow: "owns (add_mset (Mapping, ll_bar0 l') M) {#ll_bar0 l'#} 1 h h'" "e \<noteq> GPUNVME_OK" "init_leak M" for l' e h' M
  proof -
    obtain l2 h4 where "run_state (ll_fail_bar0 l' e) h' = ((Some e, Some l2), h4)" "owns M {#} 0 h h4"
      by (rule ll_fail_bar0_run[of l' M "{#}" 0 h h' e]) (use ow(1) in simp_all)
    then show ?thesis using init_ended_error ow by simp
  qed
  show ?thesis
  proof (cases "err = GPUNVME_OK")
    case False
    have "\<exists>M. init_leak M \<and> owns (add_mset (Mapping, ll_bar0 l) M) {#ll_bar0 l#} 1 h h2"
      using ctrl_init_resources[OF init b0]
    proof (elim disjE conjE exE)
      assume "resources h2 = resources h1"
      then have "owns {#(Mapping, ll_bar0 l)#} {#ll_bar0 l#} 1 h h2" using o by (rule releases_core)
      then show ?thesis by (intro exI[of _ "{#}"]) (simp add: init_leak_def)
    next
      fix c assume "holds_admin h1 c h2"
      from holds_admin_owns[OF this o] show ?thesis by (intro exI[of _ "admin_memory c"]) (auto simp: init_leak_def)
    qed
    then show ?thesis using init False fail[of "l\<lparr>ll_ctrl := the r\<rparr>"] by (auto simp: ll_init_ctrl_def Let_def)
  next
    case True
    note init' = init[unfolded True]
    obtain c where c: "r = Some c" "c_bar0 c = ll_bar0 l" "holds_admin h1 c h2"
      using ctrl_init_ok[OF init' b0] ctrl_init_resources[OF init' b0] by auto
    have adm: "c_admin_sq c \<noteq> 0" "c_admin_cq c \<noteq> 0" using ctrl_init_nonnull[OF _ b0 nz] init' c(1) by auto
    let ?l = "l\<lparr>ll_ctrl := c\<lparr>c_bar0_gpu := ll_bar0_gpu l\<rparr>\<rparr>"
    have o2: "owns (admin_memory (ll_ctrl ?l) + {#(Mapping, ll_bar0 l)#}) {#ll_bar0 l#} 1 h h2"
      using holds_admin_owns[OF c(3) o] by (simp add: admin_memory_def)
    show ?thesis
    proof (cases "ll_sizes n d ?l")
      case None
      then show ?thesis using init' c(1) by (simp add: ll_init_ctrl_def Let_def init_ended_def)
    next
      case (Some l1)
      note k = ll_sizes_keeps[OF Some]
      obtain err c' q' h3 where create:
          "run_state (gpunvme_create_io_queue E (Some (ll_ctrl l1)) 1 64 4096 GPUNVME_TIER1 (Some (ll_ioq l1))) h2
            = ((err, Some c', Some q'), h3)"
        by (cases "run_state (iq_create_body E (ll_ctrl l1) 1 64 4096 GPUNVME_TIER1) h2")
          (auto simp: gpunvme_create_io_queue_def split: prod.splits)
      have core: "ctrl_core c' = ctrl_core (ll_ctrl l1)"
        using create_queue_body[OF create] iq_create_core nz by simp
      let ?l2 = "l1\<lparr>ll_ctrl := c', ll_ioq := q'\<rparr>"
      have adm2: "admin_memory (ll_ctrl ?l2) = admin_memory (ll_ctrl ?l)" "c_bar0 c' \<noteq> 0" "c_admin_sq c' \<noteq> 0" "c_admin_cq c' \<noteq> 0"
        using ctrl_core_eqD[OF core] k(1) c(2) adm b0 by (simp_all add: admin_memory_def)
      have run: "run_state (ll_init_ctrl E n d l) h1 = (if err \<noteq> GPUNVME_OK
          then run_state (do { l \<leftarrow> ll_shutdown E ?l2; ll_fail_bar0 l err }) h3 else run_state (ll_alloc_prp E ?l2) h3)"
        using init' c(1) Some create by (simp add: ll_init_ctrl_def Let_def)
      show ?thesis
      proof (cases "err = GPUNVME_OK")
        case True
        note iq = iq_created[OF create[unfolded True] nz]
        have "owns (ll_base_memory ?l2) (ll_base_registrations ?l2) 1 h h3"
          using iq_resources_owns[of h3 q' h2, OF _ o2] iq adm2(1) k(3)
          by (simp add: ll_base_memory_def ll_base_registrations_def)
        moreover have "loader_linked ?l2" using iq adm2 b0 k(3) by (auto simp: loader_linked_def)
        moreover have "no_buffers ?l2" using nb k(4) by (simp add: no_buffers_def)
        ultimately show ?thesis unfolding run using True ll_alloc_prp_ended nz fresh by simp
      next
        case False
        have "resources h3 = resources h2" using create_fails[OF create False nz] by blast
        then have "owns (admin_memory (ll_ctrl ?l2) + {#(Mapping, ll_bar0 l)#}) {#ll_bar0 l#} 1 h h3"
          using o2 unfolding adm2(1) by (rule releases_core)
        then obtain c3 h4 where "run_state (ll_shutdown E ?l2) h3 = (?l2\<lparr>ll_ctrl := c3\<rparr>, h4)"
            "owns {#(Mapping, ll_bar0 l)#} {#ll_bar0 l#} 1 h h4"
          by (rule ll_shutdown_owns[where E = E]) (use adm2 in simp_all)
        then show ?thesis
          unfolding run using False fail[of "?l2\<lparr>ll_ctrl := c3\<rparr>" "{#}"] k(3) by (simp add: init_leak_def)
      qed
    qed
  qed
qed

lemma loader_init_ended:
  assumes nz: "nonnull_alloc E" and fresh: "fresh_alloc E"
  shows "init_ended h (run_state (gpunvme_layer_loader_init E F loader bdf n d) h)"
proof (cases "loader = None \<or> bdf = None \<or> n = 0 \<or> d = 0")
  case True
  then show ?thesis
    by (auto simp: gpunvme_layer_loader_init_def init_leak_def split: option.splits intro!: init_ended_error[OF _ _ owns_refl])
next
  case False
  then obtain l0 path where lb: "loader = Some l0" "bdf = Some path" "n \<noteq> 0" "d \<noteq> 0" by auto
  let ?path = "sysfs_path path ''resource0''"
  note def = gpunvme_layer_loader_init_def open_path_def host_alloc_def cuda_host_register_def host_free_def Let_def
  have leak: "init_leak {#}" by (simp add: init_leak_def)
  show ?thesis
  proof (cases "fe_open F h ?path")
    case False
    then show ?thesis using lb init_ended_error[OF _ leak] by (simp add: def owns_refl)
  next
    case op: True
    let ?s = "fe_size F (HOpen True # h)"
    have o1: "owns {#} {#} 1 h (HOpen True # h)" using owns_open[OF owns_refl] by simp
    show ?thesis
    proof (cases "he_alloc E (HOpen True # h) Mapping ?s")
      case None
      have "owns {#} {#} 0 h (HClose # HAlloc Mapping ?s None # HOpen True # h)" using o1 by (simp add: owns_def)
      then show ?thesis using lb op None init_ended_error[OF _ leak] by (simp add: def)
    next
      case (Some bar0)
      let ?h2 = "HAlloc Mapping ?s (Some bar0) # HOpen True # h"
      have o2: "owns {#(Mapping, bar0)#} {#} 1 h ?h2" using o1 by (rule owns_alloc)
      have b0: "bar0 \<noteq> 0" using nonnull_allocD[OF nz Some] .
      show ?thesis
      proof (cases "he_register E ?h2 bar0")
        case False
        have "owns {#} {#} 0 h (HClose # HFree Mapping bar0 # HRegister bar0 ?s False # ?h2)" using o2 by (simp add: owns_def)
        then show ?thesis using lb op Some False init_ended_error[OF _ leak] by (simp add: def)
      next
        case True
        let ?h3 = "HRegister bar0 ?s True # ?h2"
        let ?l = "loader_zero\<lparr>ll_bar0_size := ?s, ll_bar0_fd := True, ll_bar0 := bar0, ll_bar0_gpu := fe_device_pointer F ?h3 bar0\<rparr>"
        have "owns {#(Mapping, ll_bar0 ?l)#} {#ll_bar0 ?l#} 1 h ?h3" using owns_register[OF o2] by simp
        then have "init_ended h (run_state (ll_init_ctrl E n d ?l) ?h3)"
          by (rule ll_init_ctrl_ended) (use b0 nz fresh in \<open>simp_all add: no_buffers_def loader_zero_def\<close>)
        then show ?thesis using lb op Some True by (simp add: def)
      qed
    qed
  qed
qed

section \<open>Tear-down releases\<close>

lemma destroy_releases:
  assumes "loader_owns h l h1"
  shows "\<exists>h2. run_state (gpunvme_layer_loader_destroy E (Some l)) h1 = (Some loader_zero, h2) \<and> owns {#} {#} 0 h h2"
proof -
  have lk: "loader_linked l" "ll_bar0_fd l" using assms by (simp_all add: loader_owns_def)
  obtain Rp where o: "owns (ll_buffers l + ll_base_memory l) (Rp + ll_base_registrations l)
        (1 + of_bool (ll_pagemap_fd l) + of_bool (ll_bar1_fd l)) h h1"
      "pool_registration l Rp (ll_base_registrations l + mset (registered h))"
    using assms by (auto simp: loader_owns_def)
  let ?f = "1 + of_bool (ll_bar1_fd l) :: int"
  obtain ha where a: "run_state (host_when (ll_pagemap_fd l) (log_ev HClose)) h1 = ((), ha)"
      "owns (ll_buffers l + ll_base_memory l) (Rp + ll_base_registrations l) ?f h ha"
    using o(1) by (cases "ll_pagemap_fd l") (simp_all add: host_when_def owns_def)
  obtain hb where b: "run_state (ll_free_buffers l) ha = ((), hb)" by (cases "run_state (ll_free_buffers l) ha") auto
  have ob: "owns (ll_base_memory l) (ll_base_registrations l) ?f h hb"
    using ll_free_buffers_owns[OF a(2) o(2)] b by simp
  have "owns (iq_memory (ll_ioq l) + (admin_memory (ll_ctrl l) + {#(Mapping, ll_bar0 l)#})) (iq_registrations (ll_ioq l) + {#ll_bar0 l#}) ?f h hb"
    using ob by (simp add: ll_base_memory_def ll_base_registrations_def)
  then obtain c2 hc where c: "run_state (ll_delete_queue E l) hb = (l\<lparr>ll_ctrl := c2, ll_ioq := io_queue_zero\<rparr>, hc)"
      "ctrl_core c2 = ctrl_core (ll_ctrl l)" "owns (admin_memory (ll_ctrl l) + {#(Mapping, ll_bar0 l)#}) {#ll_bar0 l#} ?f h hc"
    by (rule ll_delete_queue_owns[where E = E]) (use lk in \<open>simp_all add: loader_linked_def\<close>)
  let ?l = "l\<lparr>ll_ctrl := c2, ll_ioq := io_queue_zero\<rparr>"
  have adm: "admin_memory (ll_ctrl ?l) = admin_memory (ll_ctrl l)" "c_bar0 (ll_ctrl ?l) \<noteq> 0" "c_admin_sq (ll_ctrl ?l) \<noteq> 0"
      "c_admin_cq (ll_ctrl ?l) \<noteq> 0"
    using lk ctrl_core_eqD[OF c(2)] by (simp_all add: loader_linked_def admin_memory_def)
  obtain c3 hd where d: "run_state (ll_shutdown E ?l) hc = (?l\<lparr>ll_ctrl := c3\<rparr>, hd)" "owns {#(Mapping, ll_bar0 l)#} {#ll_bar0 l#} ?f h hd"
    by (rule ll_shutdown_owns[OF c(3)[folded adm(1)] adm(2-4), of E])
  show ?thesis
    using a(1) b c(1) d lk
    by (cases "ll_bar1_fd l")
      (simp_all add: gpunvme_layer_loader_destroy_def host_when_def host_free_def owns_def loader_linked_def)
qed

section \<open>Loading leaves the resources alone\<close>

lemma virt_to_phys_pagemap_keeps [simp]: "resources (snd (run_state (virt_to_phys_pagemap E v) h)) = resources h"
  by (simp add: virt_to_phys_pagemap_def Let_def)

lemma keeps_bind:
  assumes "\<And>h. resources (snd (run_state m h)) = resources h" and "\<And>x h. resources (snd (run_state (k x) h)) = resources h"
  shows "resources (snd (run_state (State_Monad.bind m k) h)) = resources h"
  using assms by (cases "run_state m h") (metis (no_types, lifting) run_state_bind prod.case snd_conv)

end
