(* ===== verification/Bar1.thy ===== *)
theory Bar1
  imports Loader_Setup
begin

text \<open>
  Direct access to GPU memory through BAR1 in the layer loader (\<^verbatim>\<open>parse_bar1_phys\<close>,
  \<^verbatim>\<open>gpunvme_bar1_init\<close>, \<^verbatim>\<open>bar1_fill_pattern\<close> and \<^verbatim>\<open>gpunvme_bar1_resolve\<close> in \<^verbatim>\<open>src/host/layer_loader.cu\<close>): the
  physical address of BAR1 is read from sysfs, and the place of a VRAM allocation in BAR1 is found by
  writing a pattern from the GPU and scanning BAR1 for it.
\<close>

section \<open>The environment\<close>

text \<open>The contents of a text file (\<open>None\<close>: it cannot be opened), and the 64-bit word that a mapping of
  the GPU's resource file shows at an offset of BAR1, for the current contents of GPU memory (words,
  by their device address).\<close>

record bar1_env =
  be_text :: "hev list \<Rightarrow> string \<Rightarrow> string option"
  be_word :: "hev list \<Rightarrow> (u64 \<Rightarrow> u64) \<Rightarrow> u64 \<Rightarrow> u64"

section \<open>Reading the address of BAR1\<close>

text \<open>One \<^verbatim>\<open>fgets\<close> with room for \<open>n\<close> characters: the line and the rest of the file.\<close>

fun fgets :: "nat \<Rightarrow> string \<Rightarrow> string \<times> string" where
  "fgets 0 s = ([], s)"
| "fgets (Suc n) [] = ([], [])"
| "fgets (Suc n) (c # s) = (if c = CHR 0x0A then ([c], s) else let (line, rest) = fgets n s in (c # line, rest))"

definition isspace :: "char \<Rightarrow> bool" where
  "isspace c \<longleftrightarrow> c \<in> {CHR '' '', CHR 0x09, CHR 0x0A, CHR 0x0B, CHR 0x0C, CHR 0x0D}"

definition hex_value :: "char \<Rightarrow> nat option" where
  "hex_value c =
    (let n = of_char c :: nat
     in if 48 \<le> n \<and> n \<le> 57 then Some (n - 48)
        else if 97 \<le> n \<and> n \<le> 102 then Some (n - 87)
        else if 65 \<le> n \<and> n \<le> 70 then Some (n - 55) else None)"

text \<open>The hexadecimal digits at the start of a string, as a number, how many there are, and the rest.\<close>

fun scan_digits :: "nat \<Rightarrow> nat \<Rightarrow> string \<Rightarrow> nat \<times> nat \<times> string" where
  "scan_digits acc k [] = (acc, k, [])"
| "scan_digits acc k (c # s) =
    (case hex_value c of None \<Rightarrow> (acc, k, c # s) | Some d \<Rightarrow> scan_digits (16 * acc + d) (Suc k) s)"

text \<open>The conversion \<^verbatim>\<open>%llx\<close>: white space, a sign, a prefix and digits; a value out of range is the
  largest one.\<close>

definition scan_llx :: "string \<Rightarrow> (u64 \<times> string) option" where
  "scan_llx s =
    (let s = dropWhile isspace s;
         (negative, s) = (case s of [] \<Rightarrow> (False, s)
           | c # s' \<Rightarrow> if c = CHR ''-'' then (True, s') else if c = CHR ''+'' then (False, s') else (False, s));
         s = (if take 2 s = ''0x'' \<or> take 2 s = ''0X'' then drop 2 s else s);
         (v, k, rest) = scan_digits 0 0 s
     in if k = 0 then None
        else if v \<ge> 2 ^ 64 then Some (- 1, rest)
        else Some (if negative then - of_nat v else of_nat v, rest))"

text \<open>The directives \<^verbatim>\<open>0x%llx\<close>, and white space between two of them.\<close>

definition scan_0x :: "string \<Rightarrow> (u64 \<times> string) option" where
  "scan_0x s = (if take 2 s = ''0x'' then scan_llx (drop 2 s) else None)"

text \<open>The first number, when at least two of the three conversions succeed.\<close>

definition scan_bar_line :: "string \<Rightarrow> u64 option" where
  "scan_bar_line line =
    (case scan_0x line of
       None \<Rightarrow> None
     | Some (start, s) \<Rightarrow> (case scan_0x (dropWhile isspace s) of None \<Rightarrow> None | Some _ \<Rightarrow> Some start))"

lemma fgets_shorter: "s \<noteq> [] \<Longrightarrow> 0 < n \<Longrightarrow> length (snd (fgets n s)) < length s"
proof (induction n s rule: fgets.induct)
  case (3 n c s)
  then show ?case by (cases n; cases s) (auto split: prod.splits intro: less_SucI)
qed auto

function parse_bar1_lines :: "nat \<Rightarrow> string \<Rightarrow> u64" where
  "parse_bar1_lines lineno s =
    (if s = [] then 0
     else let (line, rest) = fgets 255 s
          in if lineno = 1 then (case scan_bar_line line of None \<Rightarrow> 0 | Some start \<Rightarrow> start)
             else parse_bar1_lines (lineno + 1) rest)"
  by pat_completeness auto
termination
proof (relation "measure (\<lambda>(_, s). length s)", goal_cases)
  case (2 lineno s x line rest)
  then have "snd (fgets 255 s) = rest" by (metis snd_conv)
  then show ?case using fgets_shorter[of s 255] 2(1) by simp
qed simp

declare parse_bar1_lines.simps [simp del]

definition parse_bar1_phys :: "bar1_env \<Rightarrow> string \<Rightarrow> u64 host" where
  "parse_bar1_phys B gpu_bdf = do {
     f \<leftarrow> ask (\<lambda>h. be_text B h (sysfs_path gpu_bdf ''resource'')) (\<lambda>r. HOpen (r \<noteq> None));
     case f of
       None \<Rightarrow> State_Monad.return 0
     | Some text \<Rightarrow> do { log_ev HClose; State_Monad.return (parse_bar1_lines 0 text) }
   }"

section \<open>Enabling BAR1\<close>

definition gpunvme_bar1_init ::
    "file_env \<Rightarrow> bar1_env \<Rightarrow> gpunvme_layer_loader option \<Rightarrow> string option \<Rightarrow> u64 \<Rightarrow>
     (gpunvme_err \<times> gpunvme_layer_loader option) host" where
  "gpunvme_bar1_init F B loader gpu_bdf static_bar1_offset =
    (case (loader, gpu_bdf) of
       (Some l, Some bdf) \<Rightarrow> do {
         bar1_phys \<leftarrow> parse_bar1_phys B bdf;
         if bar1_phys = 0 then State_Monad.return (GPUNVME_ERR_BAR_MAP, loader)
         else do {
           opened \<leftarrow> open_path F (sysfs_path bdf ''resource1_wc'');
           opened \<leftarrow> (if opened then State_Monad.return True else open_path F (sysfs_path bdf ''resource1''));
           if \<not> opened then State_Monad.return (GPUNVME_ERR_BAR_MAP, loader)
           else State_Monad.return (GPUNVME_OK, Some (l\<lparr>ll_bar1_fd := True, ll_gpu_bar1_phys := bar1_phys,
                  ll_bar1_vram_offset := static_bar1_offset, ll_bar1_enabled := True\<rparr>))
         }
       }
     | _ \<Rightarrow> State_Monad.return (GPUNVME_ERR_INVALID_PARAM, loader))"

section \<open>Finding an allocation in BAR1\<close>

text \<open>The kernel that writes the pattern, one thread, and its launch with a single block.\<close>

definition bar1_fill_pattern :: "nat \<Rightarrow> nat \<Rightarrow> nat \<Rightarrow> u64 \<Rightarrow> u64 \<Rightarrow> nat \<Rightarrow> (u64 \<Rightarrow> u64) \<Rightarrow> u64 \<Rightarrow> u64" where
  "bar1_fill_pattern tid bid bdim addr pattern n vram =
    (let i = tid + bid * bdim in if i < n then vram(addr + 8 * of_nat i := pattern) else vram)"

definition bar1_launch_fill :: "u64 \<Rightarrow> u64 \<Rightarrow> nat \<Rightarrow> (u64 \<Rightarrow> u64) \<Rightarrow> u64 \<Rightarrow> u64" where
  "bar1_launch_fill addr pattern nwords vram =
    fold (\<lambda>tid. bar1_fill_pattern tid 0 nwords addr pattern nwords) [0..<nwords] vram"

definition BAR1_NWORDS :: nat where "BAR1_NWORDS = 8"
definition BAR1_STRIDE :: u64 where "BAR1_STRIDE = 2 * 1024 * 1024"
definition BAR1_WINDOW :: u64 where "BAR1_WINDOW = 256 * 1024 * 1024"
definition BAR1_SCAN :: u64 where "BAR1_SCAN = 24 * 1024 * 1024 * 1024"

definition bar1_pattern :: "u64 \<Rightarrow> u64" where
  "bar1_pattern vram_ptr = 0xBA01CAFE00000000 OR (vram_ptr AND 0xFFFFFFFF)"

text \<open>One probe: the first word, and then at least four of the eight.\<close>

definition bar1_hit :: "(u64 \<Rightarrow> u64) \<Rightarrow> u64 \<Rightarrow> u64 \<Rightarrow> bool" where
  "bar1_hit rd pattern off \<longleftrightarrow> rd off = pattern
     \<and> 4 \<le> length (filter (\<lambda>j. rd (off + 8 * of_nat j) = pattern) [0..<BAR1_NWORDS])"

text \<open>The probes of a window, with \<open>n\<close> probes of fuel.\<close>

fun bar1_probe_loop :: "nat \<Rightarrow> (u64 \<Rightarrow> u64) \<Rightarrow> u64 \<Rightarrow> u64 \<Rightarrow> u64 \<Rightarrow> u64 \<Rightarrow> u64 option" where
  "bar1_probe_loop 0 rd pattern win_start map_size off = None"
| "bar1_probe_loop (Suc n) rd pattern win_start map_size off =
    (if off < map_size
     then if bar1_hit rd pattern (win_start + off) then Some (win_start + off)
          else bar1_probe_loop n rd pattern win_start map_size (off + BAR1_STRIDE)
     else None)"

fun bar1_scan_loop ::
    "nat \<Rightarrow> henv \<Rightarrow> bar1_env \<Rightarrow> (u64 \<Rightarrow> u64) \<Rightarrow> u64 \<Rightarrow> u64 \<Rightarrow> u64 \<Rightarrow> u64 option host" where
  "bar1_scan_loop 0 E B vram pattern win_start scan_end = State_Monad.return None"
| "bar1_scan_loop (Suc n) E B vram pattern win_start scan_end =
    (if win_start < scan_end
     then do {
       let map_size = (if win_start + BAR1_WINDOW > scan_end then scan_end - win_start else BAR1_WINDOW);
       r \<leftarrow> host_alloc E Mapping map_size;
       case r of
         None \<Rightarrow> bar1_scan_loop n E B vram pattern (win_start + BAR1_WINDOW) scan_end
       | Some window \<Rightarrow> do {
           h \<leftarrow> State_Monad.get;
           let found = bar1_probe_loop (unat (map_size div BAR1_STRIDE) + 1) (be_word B h vram) pattern win_start map_size 0;
           host_free Mapping window;
           case found of
             Some off \<Rightarrow> State_Monad.return (Some off)
           | None \<Rightarrow> bar1_scan_loop n E B vram pattern (win_start + BAR1_WINDOW) scan_end
         }
     } else State_Monad.return None)"

text \<open>The second pattern in the middle of the allocation; \<open>True\<close> when it does not contradict the offset.\<close>

definition bar1_contiguous ::
    "henv \<Rightarrow> bar1_env \<Rightarrow> u64 \<Rightarrow> u64 \<Rightarrow> u64 \<Rightarrow> u64 \<Rightarrow> (u64 \<Rightarrow> u64) \<Rightarrow> (bool \<times> (u64 \<Rightarrow> u64)) host" where
  "bar1_contiguous E B vram_ptr vram_size pattern found_offset vram =
    (if vram_size \<ge> 2 * BAR1_STRIDE
     then do {
       let check_offset = vram_size div 2 AND NOT (BAR1_STRIDE - 1);
       let pattern2 = pattern XOR 0xFFFFFFFF;
       let vram = bar1_launch_fill (vram_ptr + check_offset) pattern2 BAR1_NWORDS vram;
       r \<leftarrow> host_alloc E Mapping (he_page_size E);
       case r of
         None \<Rightarrow> State_Monad.return (True, vram)
       | Some window \<Rightarrow> do {
           h \<leftarrow> State_Monad.get;
           let ok = (be_word B h vram (found_offset + check_offset) = pattern2);
           host_free Mapping window;
           State_Monad.return (ok, vram)
         }
     } else State_Monad.return (True, vram))"

definition gpunvme_bar1_resolve ::
    "henv \<Rightarrow> bar1_env \<Rightarrow> gpunvme_layer_loader option \<Rightarrow> u64 \<Rightarrow> u64 \<Rightarrow> u64 option \<Rightarrow> (u64 \<Rightarrow> u64) \<Rightarrow>
     (gpunvme_err \<times> u64 option \<times> (u64 \<Rightarrow> u64)) host" where
  "gpunvme_bar1_resolve E B loader vram_ptr vram_size bar1_phys_out vram =
    (case loader of
       None \<Rightarrow> State_Monad.return (GPUNVME_ERR_INVALID_PARAM, bar1_phys_out, vram)
     | Some l \<Rightarrow>
        if \<not> ll_bar1_enabled l \<or> vram_ptr = 0 \<or> bar1_phys_out = None
        then State_Monad.return (GPUNVME_ERR_INVALID_PARAM, bar1_phys_out, vram)
        else do {
          let pattern = bar1_pattern vram_ptr;
          let vram = bar1_launch_fill vram_ptr pattern BAR1_NWORDS vram;
          let scan_start = ll_bar1_vram_offset l;
          found \<leftarrow> bar1_scan_loop (unat (BAR1_SCAN div BAR1_WINDOW) + 1) E B vram pattern scan_start (scan_start + BAR1_SCAN);
          case found of
            None \<Rightarrow> State_Monad.return (GPUNVME_ERR_DMA, bar1_phys_out, vram)
          | Some found_offset \<Rightarrow> do {
              (ok, vram) \<leftarrow> bar1_contiguous E B vram_ptr vram_size pattern found_offset vram;
              State_Monad.return (if ok then (GPUNVME_OK, Some (ll_gpu_bar1_phys l + found_offset), vram)
                else (GPUNVME_ERR_DMA, bar1_phys_out, vram))
            }
        })"

section \<open>The scan as a linear search\<close>

lemmas bar1_sizes = BAR1_STRIDE_def BAR1_WINDOW_def BAR1_SCAN_def

definition bar1_place :: "u64 \<Rightarrow> nat \<Rightarrow> u64" where
  "bar1_place start k = start + of_nat k * BAR1_STRIDE"

lemma find_append: "List.find P (xs @ ys) = (case List.find P xs of None \<Rightarrow> List.find P ys | Some x \<Rightarrow> Some x)"
  by (induction xs) auto

lemma bar1_probe_loop_find:
  "j \<le> 128 \<Longrightarrow> 128 - j \<le> n \<Longrightarrow> bar1_probe_loop n rd pattern win BAR1_WINDOW (of_nat j * BAR1_STRIDE) =
    List.find (bar1_hit rd pattern) (map (bar1_place win) [j..<128])"
proof (induction n arbitrary: j)
  case (Suc n)
  have u: "unat (of_nat j * BAR1_STRIDE :: u64) = j * 2097152"
    using Suc.prems(1) by (simp add: bar1_sizes unat_word_ariths unat_of_nat)
  have lt: "of_nat j * BAR1_STRIDE < BAR1_WINDOW \<longleftrightarrow> j < 128"
    by (simp add: word_less_nat_alt u) (simp add: bar1_sizes)
  have step: "of_nat j * BAR1_STRIDE + BAR1_STRIDE = of_nat (Suc j) * BAR1_STRIDE" by (simp add: algebra_simps)
  show ?case
  proof (cases "j < 128")
    case True
    then show ?thesis
      using Suc.IH[of "Suc j"] Suc.prems lt step by (simp add: upt_conv_Cons bar1_place_def)
  qed (use lt in simp)
qed simp

lemma bar1_scan_loop_find:
  assumes stable: "\<And>h vram. be_word B h vram = view vram" and mmap: "\<And>h n. \<exists>p. he_alloc E h Mapping n = Some p"
    and room: "unat start + 24 * 2 ^ 30 + 2 ^ 28 < 2 ^ 64"
  shows "i \<le> 96 \<Longrightarrow> 96 - i \<le> n \<Longrightarrow>
    \<exists>h'. run_state (bar1_scan_loop n E B vram pattern (start + of_nat i * BAR1_WINDOW) (start + BAR1_SCAN)) h =
      (List.find (bar1_hit (view vram) pattern) (map (bar1_place start) [128 * i..<12288]), h') \<and> resources h' = resources h"
proof (induction n arbitrary: i h)
  case (Suc n)
  have u: "unat (start + of_nat i * BAR1_WINDOW) = unat start + i * 2 ^ 28" "unat (start + BAR1_SCAN) = unat start + 24 * 2 ^ 30"
      "unat (start + of_nat i * BAR1_WINDOW + BAR1_WINDOW) = unat start + Suc i * 2 ^ 28"
    using Suc.prems(1) room by (simp_all add: bar1_sizes unat_word_ariths unat_of_nat)
  show ?case
  proof (cases "i < 96")
    case False
    then show ?thesis using Suc.prems u by (simp add: word_less_nat_alt)
  next
    case True
    let ?win = "start + of_nat i * BAR1_WINDOW"
    have lt: "?win < start + BAR1_SCAN" "\<not> ?win + BAR1_WINDOW > start + BAR1_SCAN"
      using True u by (simp_all add: word_less_nat_alt)
    obtain p where p: "he_alloc E h Mapping BAR1_WINDOW = Some p" using mmap by blast
    let ?h = "HFree Mapping p # HAlloc Mapping BAR1_WINDOW (Some p) # h"
    have res: "resources ?h = resources h" by (simp add: resources_def)
    have "unat (BAR1_WINDOW div BAR1_STRIDE) + 1 = 129" by (simp add: bar1_sizes)
    then have probe: "bar1_probe_loop (unat (BAR1_WINDOW div BAR1_STRIDE) + 1) (view vram) pattern ?win BAR1_WINDOW 0 =
        List.find (bar1_hit (view vram) pattern) (map (bar1_place ?win) [0..<128])"
      using bar1_probe_loop_find[of 0 129 "view vram" pattern ?win] by simp
    have shift: "map (bar1_place ?win) [0..<128] = map (bar1_place start) [128 * i..<128 * Suc i]"
      by (rule nth_equalityI) (simp_all add: bar1_place_def bar1_sizes algebra_simps)
    have split: "[128 * i..<12288] = [128 * i..<128 * Suc i] @ [128 * Suc i..<12288]"
      using True upt_add_eq_append[of "128 * i" "128 * Suc i" "12288 - 128 * Suc i"] by simp
    have nxt: "?win + BAR1_WINDOW = start + of_nat (Suc i) * BAR1_WINDOW" by (simp add: algebra_simps)
    have pre: "Suc i \<le> 96" "96 - Suc i \<le> n" using Suc.prems True by linarith+
    obtain h' where ih: "run_state (bar1_scan_loop n E B vram pattern (?win + BAR1_WINDOW) (start + BAR1_SCAN)) ?h =
        (List.find (bar1_hit (view vram) pattern) (map (bar1_place start) [128 * Suc i..<12288]), h')" "resources h' = resources ?h"
      using Suc.IH[OF pre, of ?h] unfolding nxt by blast
    show ?thesis
      using lt p probe ih res unfolding split map_append find_append shift
      by (auto simp: host_alloc_def host_free_def stable Let_def split: option.splits)
  qed
qed simp

lemma bar1_launch_fill_word:
  "bar1_launch_fill addr pattern n vram x = (if \<exists>j < n. x = addr + 8 * of_nat j then pattern else vram x)"
proof -
  have "fold (\<lambda>tid. bar1_fill_pattern tid 0 n addr pattern n) [0..<m] vram x =
      (if \<exists>j < m. x = addr + 8 * of_nat j then pattern else vram x)" if "m \<le> n" for m
    using that by (induction m) (auto simp: bar1_fill_pattern_def Let_def less_Suc_eq)
  then show ?thesis by (simp add: bar1_launch_fill_def)
qed

lemma bar1_launch_fill_first: "0 < n \<Longrightarrow> bar1_launch_fill addr pattern n vram addr = pattern"
proof -
  assume "0 < n"
  then have "\<exists>j < n. addr = addr + 8 * of_nat j" by (intro exI[of _ 0]) simp
  then show ?thesis unfolding bar1_launch_fill_word by (rule if_P)
qed

lemma find_unique:
  assumes "k < n" and "P (f k)" and "\<And>i. i < n \<Longrightarrow> i \<noteq> k \<Longrightarrow> \<not> P (f i)"
  shows "List.find P (map f [0..<n]) = Some (f k)"
proof (cases "List.find P (map f [0..<n])")
  case None
  then show ?thesis using assms(1,2) by (auto simp: find_None_iff)
next
  case (Some x)
  then obtain i where "i < n" "P (f i)" "x = f i" by (auto simp: find_Some_iff)
  then show ?thesis using Some assms(3) by blast
qed


section \<open>Properties of BAR1 access\<close>

definition bar1_check_offset :: "u64 \<Rightarrow> u64" where
  "bar1_check_offset vram_size = vram_size div 2 AND NOT (BAR1_STRIDE - 1)"

lemma bar1_contiguous_ok:
  assumes "\<And>h vram off. be_word B h vram off = vram (va off)"
    and "2 * BAR1_STRIDE \<le> vram_size \<Longrightarrow> va (off + bar1_check_offset vram_size) = vram_ptr + bar1_check_offset vram_size"
  shows "\<exists>vram' h'. run_state (bar1_contiguous E B vram_ptr vram_size pattern off vram) h = ((True, vram'), h') \<and> resources h' = resources h"
proof (cases "2 * BAR1_STRIDE \<le> vram_size")
  case False
  then show ?thesis by (simp add: bar1_contiguous_def)
next
  case True
  let ?c = "bar1_check_offset vram_size"
  let ?v = "bar1_launch_fill (vram_ptr + ?c) (pattern XOR 0xFFFFFFFF) BAR1_NWORDS vram"
  have "?v (va (off + ?c)) = pattern XOR 0xFFFFFFFF"
    unfolding assms(2)[OF True] by (rule bar1_launch_fill_first) (simp add: BAR1_NWORDS_def)
  then show ?thesis
    using True by (cases "he_alloc E h Mapping (he_page_size E)")
      (simp_all add: bar1_contiguous_def host_alloc_def host_free_def Let_def assms(1) resources_def flip: bar1_check_offset_def)
qed

text \<open>C33. Resolving a VRAM pointer finds its place in BAR1: when BAR1 shows GPU memory, the allocation
  starts at a 2 MiB boundary within the 24 GiB that are scanned, no other probed word holds the
  pattern or is part of the allocation's first words, mappings succeed and the middle of the
  allocation is where a contiguous one has it, the call returns OK with the physical address of
  exactly that place and leaves no mapping behind.\<close>

theorem bar1_resolve_finds:
  assumes "\<And>h vram off. be_word B h vram off = vram (va off)" and "\<And>h n. \<exists>p. he_alloc E h Mapping n = Some p"
    and "unat (ll_bar1_vram_offset l) + 24 * 2 ^ 30 + 2 ^ 28 < 2 ^ 64" and "ll_bar1_enabled l" and "vram_ptr \<noteq> 0"
    and "k < 12288" and "place = ll_bar1_vram_offset l + of_nat k * 0x200000"
    and "\<And>j. j < 8 \<Longrightarrow> va (place + 8 * of_nat j) = vram_ptr + 8 * of_nat j"
    and "\<And>i. i < 12288 \<Longrightarrow> i \<noteq> k \<Longrightarrow> vram (va (ll_bar1_vram_offset l + of_nat i * 0x200000)) \<noteq> bar1_pattern vram_ptr
       \<and> (\<forall>j < 8. va (ll_bar1_vram_offset l + of_nat i * 0x200000) \<noteq> vram_ptr + 8 * of_nat j)"
    and "2 * BAR1_STRIDE \<le> vram_size \<Longrightarrow> va (place + bar1_check_offset vram_size) = vram_ptr + bar1_check_offset vram_size"
  shows "\<exists>vram' h'. run_state (gpunvme_bar1_resolve E B (Some l) vram_ptr vram_size (Some out) vram) h =
      ((GPUNVME_OK, Some (ll_gpu_bar1_phys l + place), vram'), h') \<and> resources h' = resources h"
proof -
  let ?s = "ll_bar1_vram_offset l" and ?p = "bar1_pattern vram_ptr"
  let ?v = "bar1_launch_fill vram_ptr ?p BAR1_NWORDS vram"
  have pl: "bar1_place ?s i = ?s + of_nat i * 0x200000" for i by (simp add: bar1_place_def BAR1_STRIDE_def)
  have rd: "be_word B h vram = (\<lambda>off. vram (va off))" for h vram using assms(1) by blast
  have w: "?v x = (if \<exists>j < 8. x = vram_ptr + 8 * of_nat j then ?p else vram x)" for x
    by (simp add: bar1_launch_fill_word BAR1_NWORDS_def)
  have all: "?v (va (place + 8 * of_nat j)) = ?p" if "j < 8" for j unfolding w using assms(8)[OF that] that by auto
  then have "filter (\<lambda>j. ?v (va (place + 8 * of_nat j)) = ?p) [0..<BAR1_NWORDS] = [0..<BAR1_NWORDS]"
    by (simp add: filter_id_conv BAR1_NWORDS_def)
  then have hit: "bar1_hit (\<lambda>off. ?v (va off)) ?p (bar1_place ?s k)"
    unfolding pl assms(7)[symmetric] bar1_hit_def using all[of 0] by (simp add: BAR1_NWORDS_def)
  have miss: "\<not> bar1_hit (\<lambda>off. ?v (va off)) ?p (bar1_place ?s i)" if "i < 12288" "i \<noteq> k" for i
    unfolding bar1_hit_def pl w using assms(9)[OF that] by auto
  have find: "List.find (bar1_hit (\<lambda>off. ?v (va off)) ?p) (map (bar1_place ?s) [0..<12288]) = Some place"
    using find_unique[of k 12288 "bar1_hit (\<lambda>off. ?v (va off)) ?p" "bar1_place ?s"] assms(6) hit miss pl[of k] assms(7) by simp
  have n: "unat (BAR1_SCAN div BAR1_WINDOW) + 1 = 97" by (simp add: bar1_sizes)
  obtain h1 where scan: "run_state (bar1_scan_loop 97 E B ?v ?p ?s (?s + BAR1_SCAN)) h = (Some place, h1)" "resources h1 = resources h"
    using bar1_scan_loop_find[of B "\<lambda>vram off. vram (va off)" E ?s 0 97 ?v ?p h, OF rd assms(2,3)] find by auto
  obtain vram' h2 where "run_state (bar1_contiguous E B vram_ptr vram_size ?p place ?v) h1 = ((True, vram'), h2)" "resources h2 = resources h1"
    using bar1_contiguous_ok[OF assms(1,10)] by blast
  then show ?thesis
    using scan assms(4,5) unfolding gpunvme_bar1_resolve_def n by (simp add: Let_def)
qed

definition example_bar1 :: bar1_env where
  "example_bar1 = \<lparr>be_text = (\<lambda>h path. None), be_word = (\<lambda>h vram off. vram (off - 0x20000000 + 0x1000000000))\<rparr>"

definition example_bar1_loader :: gpunvme_layer_loader where
  "example_bar1_loader = loader_zero\<lparr>ll_bar1_enabled := True, ll_bar1_fd := True, ll_gpu_bar1_phys := 0x7000000000, ll_bar1_vram_offset := 0x20000000\<rparr>"

theorem bar1_resolve_finds_witness:
  "\<exists>vram' h'. run_state (gpunvme_bar1_resolve example_host example_bar1 (Some example_bar1_loader) 0x1000600000 0x800000 (Some 0) (\<lambda>_. 0)) [] =
      ((GPUNVME_OK, Some 0x7020600000, vram'), h')"
proof -
  have mm: "\<exists>p. he_alloc example_host h Mapping n = Some p" for h n by (simp add: example_host_def)
  have word: "be_word example_bar1 h vram off = vram (off - 0x20000000 + 0x1000000000)" for h vram off by (simp add: example_bar1_def)
  have neq: "0x1000000000 + of_nat i * 0x200000 \<noteq> (0x1000600000 + 8 * of_nat j :: u64)" if "i < 12288" "i \<noteq> 3" "j < 8" for i j :: nat
  proof -
    have "unat (0x1000000000 + of_nat i * 0x200000 :: u64) = 0x1000000000 + i * 0x200000"
        "unat (0x1000600000 + 8 * of_nat j :: u64) = 0x1000600000 + 8 * j"
      using that by (simp_all add: unat_word_ariths unat_of_nat)
    moreover have "i \<le> 2 \<or> 4 \<le> i" using that by linarith
    then have "0x1000000000 + i * 0x200000 \<noteq> 0x1000600000 + 8 * (j :: nat)" using that by linarith
    ultimately show ?thesis by metis
  qed
  have pat: "bar1_pattern 0x1000600000 \<noteq> 0" by (simp add: bar1_pattern_def)
  show ?thesis
    using bar1_resolve_finds[OF word mm, of example_bar1_loader "0x1000600000" 3 "0x20600000" "\<lambda>_. 0" "0x800000" 0 "[]"] neq pat
    by (auto simp: example_bar1_loader_def)
qed


section \<open>The sysfs format\<close>

text \<open>A line of a PCI resource file as Linux prints it: three 16-digit numbers.\<close>

definition hex_char :: "nat \<Rightarrow> char" where
  "hex_char d = ''0123456789abcdef'' ! d"

fun hex_digits :: "nat \<Rightarrow> nat \<Rightarrow> nat list" where
  "hex_digits 0 v = []"
| "hex_digits (Suc n) v = hex_digits n (v div 16) @ [v mod 16]"

definition print_hex16 :: "u64 \<Rightarrow> string" where
  "print_hex16 w = ''0x'' @ map hex_char (hex_digits 16 (unat w))"

definition print_resource_line :: "u64 \<Rightarrow> u64 \<Rightarrow> u64 \<Rightarrow> string" where
  "print_resource_line start stop flags = print_hex16 start @ '' '' @ print_hex16 stop @ '' '' @ print_hex16 flags @ [CHR 0x0A]"

lemma nat_below_16: "d < 16 \<Longrightarrow> d \<in> {0, 1, 2, 3, 4, 5, 6, 7, 8, 9, 10, 11, 12, 13, 14, 15 :: nat}"
  by (simp, presburger)

lemma hex_char_facts:
  assumes "d < 16"
  shows "hex_value (hex_char d) = Some d" "\<not> isspace (hex_char d)" "hex_char d \<notin> {CHR ''-'', CHR ''+'', CHR ''x'', CHR ''X'', CHR 0x0A}"
  using nat_below_16[OF assms] by (auto simp: hex_char_def hex_value_def isspace_def Let_def)

lemma hex_digits_below: "d \<in> set (hex_digits n v) \<Longrightarrow> d < 16"
  by (induction n arbitrary: v) auto

lemma length_hex_digits [simp]: "length (hex_digits n v) = n"
  by (induction n arbitrary: v) auto

lemma foldl_hex_digits: "foldl (\<lambda>a d. 16 * a + d) acc (hex_digits n v) = acc * 16 ^ n + v mod 16 ^ n"
proof (induction n arbitrary: v)
  case (Suc n)
  have "v mod (16 * 16 ^ n) = 16 * (v div 16 mod 16 ^ n) + v mod 16" by (rule mod_mult2_eq)
  then show ?case using Suc by (simp add: algebra_simps)
qed simp

lemma scan_digits_print:
  "(\<forall>d \<in> set ds. d < 16) \<Longrightarrow> hex_value c = None \<Longrightarrow>
    scan_digits acc k (map hex_char ds @ c # rest) = (foldl (\<lambda>a d. 16 * a + d) acc ds, k + length ds, c # rest)"
  by (induction ds arbitrary: acc k) (simp_all add: hex_char_facts)

lemma scan_0x_print:
  assumes "hex_value c = None"
  shows "scan_0x (print_hex16 w @ c # rest) = Some (w, c # rest)"
proof -
  obtain d0 d1 ds where ds: "hex_digits 16 (unat w) = d0 # d1 # ds" "length ds = 14"
    using length_hex_digits[of 16 "unat w"] by (cases "hex_digits 16 (unat w)"; cases "tl (hex_digits 16 (unat w))") auto
  have lt: "\<forall>d \<in> set (d0 # d1 # ds). d < 16" using hex_digits_below[of _ 16 "unat w"] unfolding ds(1) by blast
  let ?s = "map hex_char (d0 # d1 # ds) @ c # rest"
  have "unat w < 16 ^ 16" using unat_bound[of w] by simp
  then have sc: "scan_digits 0 0 ?s = (unat w, 16, c # rest)"
    using scan_digits_print[OF lt assms, of 0 0 rest] foldl_hex_digits[of 0 16 "unat w"] ds by simp
  have f: "hex_char d0 \<notin> {CHR ''-'', CHR ''+''}" "\<not> isspace (hex_char d0)" "hex_char d1 \<notin> {CHR ''x'', CHR ''X''}"
    using hex_char_facts[of d0] hex_char_facts[of d1] lt by auto
  have "scan_llx ?s = Some (w, c # rest)"
    using f sc unat_bound[of w] by (simp add: scan_llx_def Let_def not_le)
  moreover have "print_hex16 w @ c # rest = ''0x'' @ ?s" by (simp add: print_hex16_def ds(1))
  ultimately show ?thesis by (simp add: scan_0x_def)
qed

lemma scan_bar_line_print: "scan_bar_line (print_resource_line start stop flags) = Some start"
proof -
  have sp: "hex_value CHR '' '' = None" by (simp add: hex_value_def)
  have "dropWhile isspace (CHR '' '' # print_hex16 stop @ s) = print_hex16 stop @ s" for s
    by (simp add: isspace_def print_hex16_def)
  then show ?thesis
    using scan_0x_print[OF sp, of start "print_hex16 stop @ '' '' @ print_hex16 flags @ [CHR 0x0A]"]
      scan_0x_print[OF sp, of stop "print_hex16 flags @ [CHR 0x0A]"]
    by (simp add: scan_bar_line_def print_resource_line_def)
qed

lemma fgets_line: "CHR 0x0A \<notin> set line \<Longrightarrow> length line < n \<Longrightarrow> fgets n (line @ CHR 0x0A # rest) = (line @ [CHR 0x0A], rest)"
proof (induction line arbitrary: n)
  case Nil
  then show ?case by (cases n) auto
next
  case (Cons c line)
  then show ?case by (cases n) auto
qed

lemma fgets_resource_line: "fgets 255 (print_resource_line a b c @ rest) = (print_resource_line a b c, rest)"
proof -
  let ?l = "print_hex16 a @ '' '' @ print_hex16 b @ '' '' @ print_hex16 c"
  have nl: "CHR 0x0A \<notin> set (print_hex16 w)" for w
    using hex_char_facts(3) hex_digits_below by (fastforce simp: print_hex16_def)
  have "CHR 0x0A \<notin> set ?l" using nl by simp
  moreover have "length ?l < 255" by (simp add: print_hex16_def)
  ultimately show ?thesis using fgets_line[of ?l 255 rest] by (simp add: print_resource_line_def)
qed

lemma print_resource_line_nonempty [simp]: "print_resource_line a b c \<noteq> []"
  by (simp add: print_resource_line_def)

text \<open>The address of BAR1 that the loader reads from sysfs is the one that the kernel printed: for
  a resource file whose first two lines are in the format of Linux, whatever follows, the start of
  the second line comes back.\<close>

theorem parse_bar1_roundtrip:
  "parse_bar1_lines 0 (print_resource_line a b c @ print_resource_line start stop flags @ rest) = start"
proof -
  have "parse_bar1_lines 1 (print_resource_line start stop flags @ rest) = start"
    by (subst parse_bar1_lines.simps) (simp add: fgets_resource_line scan_bar_line_print del: fgets.simps)
  then show ?thesis
    by (subst parse_bar1_lines.simps) (simp add: fgets_resource_line del: fgets.simps)
qed

end
