(* ===== verification/Layer_Transfer.thy ===== *)
theory Layer_Transfer
  imports Layer_Loader
begin

text \<open>
  What a load of the layer loader transfers: the commands that the parameters stand for cover the
  requested blocks, the PRP entries cover the destination, and host code and kernel together, run on
  the simulated controller, move the bytes.
\<close>

section \<open>The blocks of a transfer\<close>

text \<open>Parameters that cut \<open>lp_total_blocks\<close> blocks into commands, no more than 65536 blocks each.\<close>

definition layer_cuts :: "layer_read_params \<Rightarrow> bool" where
  "layer_cuts p \<longleftrightarrow> 0 < unat (lp_blocks_per_cmd p) \<and> unat (lp_blocks_per_cmd p) \<le> 65536
     \<and> unat (lp_n_commands p) = ceil_div (unat (lp_total_blocks p)) (unat (lp_blocks_per_cmd p))
     \<and> unat (lp_start_lba p) + unat (lp_total_blocks p) < 2 ^ 64"

lemma layer_nlb_blocks: "layer_nlb p i = layer_cmd_blocks (lp_total_blocks p) (lp_blocks_per_cmd p) i"
  by (simp add: layer_nlb_def layer_cmd_blocks_def)

lemma nlb_field:
  assumes "0 < unat b" and "unat (b :: u32) \<le> 65536"
  shows "unat (ucast (ucast (b - 1) :: u16) + 1 :: u32) = unat b"
proof -
  have "unat (b - 1) = unat b - 1" using assms by (simp add: unat_sub word_le_nat_alt)
  then have "unat (ucast (b - 1) :: u16) = unat b - 1"
    using assms by (simp add: unsigned_ucast_eq take_bit_eq_mod)
  then show ?thesis using assms by simp
qed

lemma layer_command_range:
  assumes cut: "layer_cuts p" and i: "i < unat (lp_n_commands p)"
  shows "unat (cmd_slba (layer_command p cid nsid i)) = unat (lp_start_lba p) + i * unat (lp_blocks_per_cmd p)"
    and "unat (cmd_nlb (layer_command p cid nsid i)) =
      min (unat (lp_total_blocks p) - i * unat (lp_blocks_per_cmd p)) (unat (lp_blocks_per_cmd p))"
    and "i * unat (lp_blocks_per_cmd p) < unat (lp_total_blocks p)"
proof -
  let ?b = "unat (lp_blocks_per_cmd p)" and ?t = "unat (lp_total_blocks p)"
  have u: "unat (of_nat i :: u32) = i" using i unat_bound[of "lp_n_commands p"] by (simp add: unat_of_nat)
  show lt: "i * ?b < ?t" using cut i by (simp add: layer_cuts_def less_ceil_div_iff)
  have prod: "unat (of_nat i * ucast (lp_blocks_per_cmd p) :: u64) = i * ?b"
    using lt unat_bound[of "lp_total_blocks p"] i unat_bound[of "lp_n_commands p"]
    by (simp add: unat_word_ariths unat_of_nat)
  show "unat (cmd_slba (layer_command p cid nsid i)) = unat (lp_start_lba p) + i * ?b"
    using prod lt cut u by (simp add: layer_command_def layer_lba_def layer_cuts_def unat_word_ariths)
  have n: "unat (layer_nlb p (of_nat i)) = min (?t - i * ?b) ?b"
    unfolding layer_nlb_blocks using layer_cmd_blocks_nat[of "of_nat i"] lt u by simp
  then have "0 < unat (layer_nlb p (of_nat i))" "unat (layer_nlb p (of_nat i)) \<le> 65536"
    using lt cut by (auto simp: layer_cuts_def)
  then show "unat (cmd_nlb (layer_command p cid nsid i)) = min (?t - i * ?b) ?b"
    unfolding layer_command_def io_command_decode using nlb_field n by simp
qed

text \<open>The blocks that a command names.\<close>

definition cmd_block_range :: "nvme_sq_entry \<Rightarrow> nat list" where
  "cmd_block_range e = [unat (cmd_slba e)..<unat (cmd_slba e) + unat (cmd_nlb e)]"

lemma layer_plan_blocks:
  assumes cut: "layer_cuts p"
  shows "concat (map cmd_block_range (layer_plan p cid nsid)) =
    [unat (lp_start_lba p)..<unat (lp_start_lba p) + unat (lp_total_blocks p)]"
proof -
  let ?b = "unat (lp_blocks_per_cmd p)" and ?t = "unat (lp_total_blocks p)" and ?s = "unat (lp_start_lba p)"
  have "cmd_block_range (layer_command p cid nsid i) = map (\<lambda>k. ?s + (i * ?b + k)) [0..<min (?t - i * ?b) ?b]"
    if "i < unat (lp_n_commands p)" for i
    unfolding cmd_block_range_def layer_command_range[OF cut that] by (rule nth_equalityI) auto
  then have "concat (map cmd_block_range (layer_plan p cid nsid)) =
      concat (map (\<lambda>i. map (\<lambda>k. ?s + (i * ?b + k)) [0..<min (?t - i * ?b) ?b]) [0..<unat (lp_n_commands p)])"
    unfolding layer_plan_def map_map comp_def by (intro arg_cong[of _ _ concat] map_cong) auto
  also have "\<dots> = map (\<lambda>k. ?s + k) [0..<?t]"
    using cut by (intro concat_shifted) (simp add: layer_cuts_def flip: ceil_div_le_iff)
  also have "\<dots> = [?s..<?s + ?t]" by (rule nth_equalityI) auto
  finally show ?thesis .
qed

lemma range_below_iff: "0 < n \<Longrightarrow> (\<forall>k \<in> {a..<a + n}. k < (m :: nat)) \<longleftrightarrow> a + n \<le> m"
  by (auto dest: bspec[of _ _ "a + n - 1"])

text \<open>The whole transfer is on the device exactly when every command is.\<close>

lemma layer_plan_in_range:
  assumes cut: "layer_cuts p"
  shows "(\<forall>e \<in> set (layer_plan p cid nsid). cmd_in_range cfg e)
    \<longleftrightarrow> lp_total_blocks p = 0 \<or> unat (lp_start_lba p) + unat (lp_total_blocks p) \<le> unat (cfg_num_blocks cfg)"
proof -
  have pos: "0 < unat (cmd_nlb e)" if "e \<in> set (layer_plan p cid nsid)" for e
    using that layer_command_range(2,3)[OF cut] cut by (auto simp: layer_plan_def layer_cuts_def)
  have "cmd_in_range cfg e \<longleftrightarrow> (\<forall>k \<in> set (cmd_block_range e). k < unat (cfg_num_blocks cfg))"
    if "e \<in> set (layer_plan p cid nsid)" for e
    using range_below_iff[OF pos[OF that]] by (simp add: cmd_in_range_def cmd_block_range_def)
  then have "(\<forall>e \<in> set (layer_plan p cid nsid). cmd_in_range cfg e) \<longleftrightarrow>
      (\<forall>k \<in> set (concat (map cmd_block_range (layer_plan p cid nsid))). k < unat (cfg_num_blocks cfg))"
    by simp
  also have "\<dots> \<longleftrightarrow> lp_total_blocks p = 0 \<or> unat (lp_start_lba p) + unat (lp_total_blocks p) \<le> unat (cfg_num_blocks cfg)"
    unfolding layer_plan_blocks[OF cut] using unat_gt_0[of "lp_total_blocks p"]
    by (cases "lp_total_blocks p = 0") (simp_all add: range_below_iff)
  finally show ?thesis .
qed

text \<open>What the plan does to a destination that is contiguous in physical memory.\<close>

lemma layer_plan_effect:
  assumes cut: "layer_cuts p" and dev: "unat (lp_start_lba p) + unat (lp_total_blocks p) \<le> unat (cfg_num_blocks cfg)"
      "length vdev = unat (cfg_num_blocks cfg) * unat (cfg_block_size cfg)" "length vdev < 2 ^ 64"
    and prp1: "\<And>i. i < unat (lp_n_commands p) \<Longrightarrow>
      lp_prp1_array p ! i = dest + of_nat (i * unat (lp_blocks_per_cmd p) * unat (cfg_block_size cfg))"
  shows "n \<le> unat (lp_n_commands p) \<Longrightarrow>
    fold view_effect (map (layer_command p cid nsid) [0..<n]) (cfg, vdev, d) =
    (cfg, vdev, mem_store d dest (take (min (n * unat (lp_blocks_per_cmd p)) (unat (lp_total_blocks p)) * unat (cfg_block_size cfg))
       (drop (unat (lp_start_lba p) * unat (cfg_block_size cfg)) vdev)))"
proof (induction n)
  case (Suc n)
  let ?b = "unat (lp_blocks_per_cmd p)" and ?t = "unat (lp_total_blocks p)" and ?s = "unat (lp_start_lba p)"
  let ?bs = "unat (cfg_block_size cfg)" and ?e = "layer_command p cid nsid n"
  have n: "n < unat (lp_n_commands p)" using Suc.prems by simp
  note r = layer_command_range(1,2)[OF cut n, of cid nsid] layer_command_range(3)[OF cut n]
  have rng: "cmd_in_range cfg ?e" unfolding cmd_in_range_def r using r(3) dev(1) by simp
  have eff: "view_effect ?e (cfg, vdev, m) =
      (cfg, vdev, mem_store m (dest + of_nat (n * ?b * ?bs)) (take (min (?t - n * ?b) ?b * ?bs) (drop ((?s + n * ?b) * ?bs) vdev)))" for m
  proof -
    have "is_data_cmd ?e" "sqe_opc ?e = NVME_IO_OPC_READ" "sqe_prp1 ?e = dest + of_nat (n * ?b * ?bs)"
      using prp1[OF n] by (simp_all add: layer_command_def is_data_cmd_def)
    then show ?thesis using rng by (simp only: view_effect_def prod.case Let_def r simp_thms if_True)
  qed
  have sum: "n * ?b + min (?t - n * ?b) ?b = min (Suc n * ?b) ?t" using r(3) by (auto simp: min_def)
  have "?s + min (Suc n * ?b) ?t \<le> unat (cfg_num_blocks cfg)" using dev(1) by linarith
  then have "(?s + min (Suc n * ?b) ?t) * ?bs \<le> length vdev" unfolding dev(2) by (rule mult_le_mono1)
  then have le: "?s * ?bs + (n * ?b * ?bs + min (?t - n * ?b) ?b * ?bs) \<le> length vdev"
    unfolding sum[symmetric] by (simp add: algebra_simps)
  have "mem_store (mem_store d dest (take (n * ?b * ?bs) (drop (?s * ?bs) vdev))) (dest + of_nat (n * ?b * ?bs))
        (take (min (?t - n * ?b) ?b * ?bs) (drop ((?s + n * ?b) * ?bs) vdev)) =
      mem_store d dest (take (min (Suc n * ?b) ?t * ?bs) (drop (?s * ?bs) vdev))"
    using mem_store_slices[OF le dev(3), of d dest] unfolding sum[symmetric] by (simp add: algebra_simps)
  then show ?case using Suc.IH n r(3) eff by (simp add: min_absorb1)
qed simp


section \<open>Properties of loading\<close>

text \<open>Physical memory as far as the list pages go.\<close>

definition list_reader ::
    "henv \<Rightarrow> (u64 \<Rightarrow> u64 option) \<Rightarrow> gpunvme_layer_loader \<Rightarrow> layer_mem \<Rightarrow> nat \<Rightarrow> u64 \<Rightarrow> nat \<Rightarrow> u64" where
  "list_reader E pt l mem n a j =
    (case List.find (\<lambda>i. list_phys E pt l (of_nat i) = a) [0..<n] of None \<Rightarrow> 0 | Some i \<Rightarrow> lm_pool mem (512 * i + j))"

lemma reads_lists_reader:
  assumes "distinct (map (\<lambda>i. list_phys E pt l (of_nat i)) [0..<n])"
  shows "reads_lists E pt l mem n (list_reader E pt l mem n)"
proof -
  have "List.find (\<lambda>k. list_phys E pt l (of_nat k) = list_phys E pt l (of_nat i)) [0..<n] = Some i" if "i < n" for i
  proof (cases "List.find (\<lambda>k. list_phys E pt l (of_nat k) = list_phys E pt l (of_nat i)) [0..<n]")
    case None
    then show ?thesis using that by (auto simp: find_None_iff)
  next
    case (Some k)
    then have "k < n" "list_phys E pt l (of_nat k) = list_phys E pt l (of_nat i)"
      by (auto simp: find_Some_iff)
    then show ?thesis using Some assms that by (auto simp: distinct_map inj_on_def)
  qed
  then show ?thesis by (simp add: reads_lists_def list_reader_def)
qed

lemma layer_params_sel [simp]:
  "lp_start_lba (layer_params l start_lba t n mem) = start_lba" "lp_total_blocks (layer_params l start_lba t n mem) = t"
  "lp_blocks_per_cmd (layer_params l start_lba t n mem) = ll_blocks_per_cmd l"
  "lp_n_commands (layer_params l start_lba t n mem) = n" "lp_pipeline_depth (layer_params l start_lba t n mem) = ll_pipeline_depth l"
  "lp_prp1_array (layer_params l start_lba t n mem) = lm_prp1 mem" "lp_prp2_array (layer_params l start_lba t n mem) = lm_prp2 mem"
  by (simp_all add: layer_params_def)

lemma layer_params_cut:
  assumes "layer_request_ok l size_bytes mem" and "layer_geometry l size_bytes = Some (total_blocks, n_commands)"
    and "layer_bpc l \<le> 65536" and "unat start_lba + unat total_blocks < 2 ^ 64"
  shows "layer_cuts (layer_params l start_lba total_blocks n_commands mem')"
  using layer_requestD(2,4)[OF assms(1,2)] layer_geometry_okD(3)[of l] assms(3,4)
  by (simp add: layer_cuts_def)


definition example_loader :: gpunvme_layer_loader where
  "example_loader = loader_zero\<lparr>ll_ctrl := ctrl_zero\<lparr>c_block_size := 512, c_page_size := 4096, c_max_transfer_bytes := 12288\<rparr>,
     ll_prp_pool := 0x400000, ll_max_commands := 4, ll_blocks_per_cmd := 24, ll_pipeline_depth := 2\<rparr>"

definition example_layer_mem :: layer_mem where
  "example_layer_mem = \<lparr>lm_pool = (\<lambda>_. 0), lm_prp1 = replicate 4 0, lm_prp2 = replicate 4 0\<rparr>"




text \<open>The launch when the GPU runs the kernel on the simulated controller.\<close>

definition kernel_launch :: "nat \<Rightarrow> nvme_sim gpu_env \<Rightarrow> gpu_nvme_queue \<Rightarrow> nvme_sim \<Rightarrow> nat \<Rightarrow> layer_launch" where
  "kernel_launch fuel G q s t h p = map_option fst (gpu_layer_read fuel G 0 0 q p layer_result_zero s t)"

lemma sim_kernel_finish:
  assumes "drained q s" and "layer_env fuel G" and fits: "pipe_fits p (q_nsid q) q" and cut: "layer_cuts p"
    and total: "lp_total_blocks p \<noteq> 0" and view: "sim_view s = (cfg, vdev, d)"
    and dev: "length vdev = unat (cfg_num_blocks cfg) * unat (cfg_block_size cfg)"
    and prp1: "\<And>i. i < unat (lp_n_commands p) \<Longrightarrow>
      lp_prp1_array p ! i = dest + of_nat (i * unat (lp_blocks_per_cmd p) * unat (cfg_block_size cfg))"
  shows "\<exists>r q' s' t'. gpu_layer_read fuel G 0 0 q p layer_result_zero s t = Some (r, q', s', t')
    \<and> (if unat (lp_start_lba p) + unat (lp_total_blocks p) \<le> unat (cfg_num_blocks cfg)
       then layer_finish (Some r) = GPUNVME_OK \<and> drained q' s'
         \<and> sim_view s' = (cfg, vdev, mem_store d dest (take (unat (lp_total_blocks p) * unat (cfg_block_size cfg))
              (drop (unat (lp_start_lba p) * unat (cfg_block_size cfg)) vdev)))
       else layer_finish (Some r) = GPUNVME_ERR_NVME_STATUS)"
proof -
  let ?plan = "layer_plan p (q_cid_counter q) (q_nsid q)"
  have "cmd_nowrap e" if "e \<in> set ?plan" for e
    using that layer_command_range[OF cut] cut by (fastforce simp: layer_plan_def cmd_nowrap_def layer_cuts_def)
  then have nw: "list_all cmd_nowrap ?plan" by (simp add: list_all_iff)
  obtain r q' s' t' where run: "gpu_layer_read fuel G 0 0 q p layer_result_zero s t = Some (r, q', s', t')"
      "plan_outcome view_status view_effect (unat (lp_pipeline_depth p)) ?plan (sim_view s) r (sim_view s')"
      "lr_status r = 0 \<longrightarrow> drained q' s'"
    using sim_layer_read[OF assms(1,2) fits refl nw] by blast
  have read: "is_data_cmd e" if "e \<in> set ?plan" for e
    using that by (auto simp: layer_plan_def layer_command_def is_data_cmd_def)
  then have st: "view_status (sim_view s) e = 0 \<longleftrightarrow> cmd_in_range cfg e" if "e \<in> set ?plan" for e
    using that by (simp add: view view_status_def sim_status_def NVME_SC_SUCCESS_def NVME_SC_INVALID_FIELD_def)
  note rng = layer_plan_in_range[OF cut, of "q_cid_counter q" "q_nsid q" cfg]
  have all: "(\<forall>i < length ?plan. view_status (sim_view s) (?plan ! i) = 0) \<longleftrightarrow>
      unat (lp_start_lba p) + unat (lp_total_blocks p) \<le> unat (cfg_num_blocks cfg)"
    using st rng total by (metis (no_types, lifting) in_set_conv_nth)
  show ?thesis
  proof (cases "unat (lp_start_lba p) + unat (lp_total_blocks p) \<le> unat (cfg_num_blocks cfg)")
    case True
    then have ok: "lr_status r = 0" "sim_view s' = fold view_effect ?plan (sim_view s)"
      using run(2) all by (auto simp: plan_outcome_def)
    have "unat (lp_total_blocks p) \<le> unat (lp_n_commands p) * unat (lp_blocks_per_cmd p)"
      using cut by (simp add: layer_cuts_def flip: ceil_div_le_iff)
    then have "fold view_effect ?plan (sim_view s) = (cfg, vdev, mem_store d dest (take (unat (lp_total_blocks p) *
        unat (cfg_block_size cfg)) (drop (unat (lp_start_lba p) * unat (cfg_block_size cfg)) vdev)))"
      unfolding layer_plan_def view using True dev u32_mult_lt_u64
      by (subst layer_plan_effect[OF cut _ _ _ prp1]) (simp_all add: min_absorb2)
    then show ?thesis using True ok run by (simp add: layer_finish_def)
  next
    case False
    then have "lr_status r = 1" "lr_error_code r = 3" using run(2) all by (auto simp: plan_outcome_def)
    then show ?thesis using False run(1) by (simp add: layer_finish_def)
  qed
qed

text \<open>C30. Loading a layer into GPU memory, end to end: when the host code has built the PRP entries for a
  destination behind BAR1 and the GPU runs the kernel on the simulated controller under any fair
  schedule, the call returns OK exactly when the requested blocks lie on the device, and then the
  destination holds the bytes of these blocks, nothing else in memory or on the device has changed
  and the queue pair is drained; otherwise it returns the NVMe status error.\<close>

theorem load_layer_vram_end_to_end:
  assumes "pagemap_of E pt" and "layer_request_ok l size_bytes mem" and "ll_bar1_enabled l"
    and "drained q s" and "layer_env fuel G" and "layer_bpc l \<le> 65536"
    and "0 < unat (ll_pipeline_depth l)" and "unat (ll_pipeline_depth l) < unat (q_sq_size q)"
    and "unat (ll_pipeline_depth l) \<le> unat (q_cq_size q)" and "cfg_block_size (s_cfg s) = c_block_size (ll_ctrl l)"
    and "blocks = ceil_div (unat size_bytes) (unat (c_block_size (ll_ctrl l)))" and "unat start_lba + blocks < 2 ^ 64"
  shows "\<exists>err mem' h' r q' s' t'.
      run_state (gpunvme_load_layer_vram E (kernel_launch fuel G q s t) (Some l) start_lba size_bytes dest mem) h =
        ((Some err, mem'), h')
    \<and> gpu_layer_read fuel G 0 0 q (layer_params l start_lba (of_nat blocks) (of_nat (ceil_div blocks (layer_bpc l))) mem')
        layer_result_zero s t = Some (r, q', s', t')
    \<and> (if unat start_lba + blocks \<le> unat (cfg_num_blocks (s_cfg s))
       then err = GPUNVME_OK \<and> drained q' s' \<and> s_vdev s' = s_vdev s
         \<and> m_data s' = mem_store (m_data s) dest (block_bytes s (unat start_lba) blocks)
       else err = GPUNVME_ERR_NVME_STATUS)"
proof -
  obtain total_blocks n_commands where g: "layer_geometry l size_bytes = Some (total_blocks, n_commands)"
    by (rule layer_request_geometry[OF assms(2)])
  note r = layer_requestD[OF assms(2) g]
  note d = layer_geometry_okD[OF r(4)]
  have t1: "unat total_blocks = blocks" using r(1) assms(11) by simp
  have "of_nat blocks = total_blocks" "of_nat (ceil_div blocks (layer_bpc l)) = n_commands"
    unfolding t1[symmetric] r(2)[symmetric] by simp_all
  note t = t1 this
  define ph where "ph = page_addr dest (c_page_size (ll_ctrl l))"
  define mem' where "mem' = describe_cmds (unat n_commands) l total_blocks ph (list_phys E pt l) 0 mem"
  let ?p = "layer_params l start_lba total_blocks n_commands mem'"
  obtain h' where run: "run_state (gpunvme_load_layer_vram E (kernel_launch fuel G q s t) (Some l) start_lba size_bytes dest mem) h =
      ((Some (layer_finish (kernel_launch fuel G q s t h' ?p)), mem'), h')"
    using load_layer_vram_run[OF assms(1-3) g mem'_def[unfolded ph_def], of "kernel_launch fuel G q s t" start_lba h]
    by blast
  have cut: "layer_cuts ?p" using layer_params_cut[OF assms(2) g assms(6)] assms(12) t(1) by simp
  have fits: "pipe_fits ?p (q_nsid q) q" using assms(7-9) by (simp add: pipe_fits_def)
  have "0 < ceil_div (unat size_bytes) (layer_bs l)" using d(1) r(6) by (simp add: less_ceil_div_iff unat_gt_0)
  then have pos: "lp_total_blocks ?p \<noteq> 0" using r(1) by auto
  have b: "unat (0 :: u32) + unat n_commands < 2 ^ 32" using unat_bound[of n_commands] by simp
  have prp1: "lp_prp1_array ?p ! i = dest + of_nat (i * unat (lp_blocks_per_cmd ?p) * unat (cfg_block_size (s_cfg s)))"
    if "i < unat (lp_n_commands ?p)" for i
  proof -
    have i: "i < unat n_commands" using that by simp
    have "lm_prp1 mem' ! i = ph (i * layer_ppc l)"
      using describe_cmds_nth[OF r(4) b r(7) _ _ _ _ mem'_def refl refl, of i] r(8,9) i by simp
    moreover have "(of_nat (i * layer_ppc l) * ucast (c_page_size (ll_ctrl l)) :: u64) = of_nat (i * (layer_ppc l * layer_ps l))"
      by simp
    ultimately show ?thesis
      unfolding assms(10) ph_def page_addr_def using d(4) by (simp add: mult.assoc)
  qed
  have dev: "length (s_vdev s) = unat (cfg_num_blocks (s_cfg s)) * unat (cfg_block_size (s_cfg s))"
    using assms(4) by (auto simp: drained_def proto_inv_def sim_wf_def)
  obtain r q' s' t' where k: "gpu_layer_read fuel G 0 0 q ?p layer_result_zero s t = Some (r, q', s', t')"
      "if unat start_lba + blocks \<le> unat (cfg_num_blocks (s_cfg s))
       then layer_finish (Some r) = GPUNVME_OK \<and> drained q' s'
         \<and> sim_view s' = (s_cfg s, s_vdev s, mem_store (m_data s) dest (block_bytes s (unat start_lba) blocks))
       else layer_finish (Some r) = GPUNVME_ERR_NVME_STATUS"
    using sim_kernel_finish[OF assms(4,5) fits cut pos sim_view_def dev prp1, of t] t(1) by (auto simp: block_bytes_def)
  show ?thesis
    by (rule exI[of _ "layer_finish (Some r)"], rule exI[of _ mem'], rule exI[of _ h'], rule exI[of _ r], rule exI[of _ q'],
        rule exI[of _ s'], rule exI[of _ t']) (use run t k in \<open>simp add: kernel_launch_def sim_view_eq_iff split: if_splits\<close>)
qed


definition example_vram_loader :: gpunvme_layer_loader where
  "example_vram_loader = loader_zero\<lparr>ll_ctrl := ctrl_zero\<lparr>c_block_size := 512, c_page_size := 512, c_max_transfer_bytes := 1024\<rparr>,
     ll_prp_pool := 0x400000, ll_max_commands := 4, ll_blocks_per_cmd := 2, ll_pipeline_depth := 2, ll_bar1_enabled := True\<rparr>"

theorem load_layer_vram_end_to_end_witness:
  "\<exists>mem' h'. run_state (gpunvme_load_layer_vram example_host (kernel_launch 1 example_env example_queue example_sim 0)
      (Some example_vram_loader) 1 1300 0x10000 example_layer_mem) [] = ((Some GPUNVME_OK, mem'), h')"
proof -
  have req: "layer_request_ok example_vram_loader 1300 example_layer_mem"
    by (simp add: layer_request_ok_def layer_geometry_ok_def example_vram_loader_def example_layer_mem_def ceil_div_def)
  have cfg: "cfg_block_size (s_cfg example_sim) = 512" "cfg_num_blocks (s_cfg example_sim) = 4"
    by (simp_all add: example_sim_cfg example_cfg_def)
  show ?thesis
    using load_layer_vram_end_to_end[OF example_pagemap req _ example_drained example_layer_env, of 3 1 0 "0x10000" "[]"] cfg
    by (auto simp: example_vram_loader_def example_queue_def ceil_div_def)
qed

end
