(* ===== verification/Loader_Session.thy ===== *)
theory Loader_Session
  imports Bar1 Layer_Transfer
begin

text \<open>
  The life of a layer loader: set-up, any sequence of loads into host memory or VRAM, enabling BAR1 and
  resolving pointers, tear-down. The step relation has one rule per call; its invariant is that the
  loader owns exactly what it will release.
\<close>

section \<open>Calls that keep the resources\<close>

lemma layer_prp_loop_keeps: "resources (snd (run_state (layer_prp_loop n E chunk ps base p prp1 pool) h)) = resources h"
  by (induction n arbitrary: p prp1 pool h) (simp_all add: virt_to_phys_pagemap_def Let_def)

lemma layer_cmds_loop_keeps: "resources (snd (run_state (layer_cmds_loop n E l t dest i mem) h)) = resources h"
proof (induction n arbitrary: i mem h)
  case (Suc n)
  let ?h = "snd (run_state (virt_to_phys_pagemap E (ll_prp_pool l + ucast i * 4096)) h)"
  let ?r = "run_state (layer_prp_loop (unat (layer_cmd_pages l t i)) E (dest + ucast i * ucast (c_max_transfer_bytes (ll_ctrl l)))
      (c_page_size (ll_ctrl l)) (list_base i) 0 0 (lm_pool mem)) ?h"
  have "resources (snd ?r) = resources h"
    by (simp add: layer_prp_loop_keeps)
  then show ?case
    using Suc by (cases ?r) (auto simp: Let_def split_def split: sum.splits)
qed simp

lemma layer_vram_cmds_loop_keeps: "resources (snd (run_state (layer_vram_cmds_loop n E l t dest i mem) h)) = resources h"
proof (induction n arbitrary: i mem h)
  case (Suc n)
  then show ?case by (simp add: Let_def split_def)
qed simp

lemma load_layer_keeps: "resources (snd (run_state (gpunvme_load_layer E launch loader lba n dest mem) h)) = resources h"
proof -
  have "resources (snd (run_state (layer_cmds_loop k E l t dest 0 mem) h)) = resources h" for k l t by (rule layer_cmds_loop_keeps)
  then show ?thesis
    by (auto simp: gpunvme_load_layer_def layer_launch_kernel_def split_def split: option.splits)
qed

lemma load_layer_vram_keeps: "resources (snd (run_state (gpunvme_load_layer_vram E launch loader lba n dest mem) h)) = resources h"
proof -
  have "resources (snd (run_state (layer_vram_cmds_loop k E l t dest 0 mem) h)) = resources h" for k l t by (rule layer_vram_cmds_loop_keeps)
  then show ?thesis
    by (auto simp: gpunvme_load_layer_vram_def layer_launch_kernel_def split_def split: option.splits)
qed

lemma bar1_scan_loop_keeps: "resources (snd (run_state (bar1_scan_loop n E B vram pattern win stop) h)) = resources h"
proof (induction n arbitrary: win h)
  case (Suc n)
  then show ?case
    by (auto simp: host_alloc_def host_free_def Let_def resources_def split: option.splits)
qed simp

lemma bar1_contiguous_keeps: "resources (snd (run_state (bar1_contiguous E B p n pattern off vram) h)) = resources h"
  by (auto simp: bar1_contiguous_def host_alloc_def host_free_def Let_def resources_def split: option.splits)

lemma bar1_resolve_keeps: "resources (snd (run_state (gpunvme_bar1_resolve E B loader p n out vram) h)) = resources h"
proof (cases loader)
  case (Some l)
  let ?v = "bar1_launch_fill p (bar1_pattern p) BAR1_NWORDS vram" and ?s = "ll_bar1_vram_offset l"
  let ?r = "run_state (bar1_scan_loop (unat (BAR1_SCAN div BAR1_WINDOW) + 1) E B ?v (bar1_pattern p) ?s (?s + BAR1_SCAN)) h"
  have "resources (snd ?r) = resources h" by (rule bar1_scan_loop_keeps)
  then show ?thesis
    using Some bar1_contiguous_keeps
    by (cases ?r) (auto simp: gpunvme_bar1_resolve_def Let_def split_def split: option.splits)
qed (simp add: gpunvme_bar1_resolve_def)

section \<open>Set-up on a working machine\<close>

text \<open>A machine on which everything can be opened, mapped, allocated and registered, whose controller
  follows CC.EN, answers admin commands and identifies with a block size and a transfer size.\<close>

definition loader_machine :: "henv \<Rightarrow> file_env \<Rightarrow> u64 \<Rightarrow> nat \<Rightarrow> bool" where
  "loader_machine E F bar0 d \<longleftrightarrow> memory_available E \<and> (\<forall>h p. he_register E h p) \<and> (\<forall>h. he_pagemap E h)
     \<and> (\<forall>h path. fe_open F h path) \<and> (\<forall>h n. he_alloc E h Mapping n = Some bar0) \<and> bar0 \<noteq> 0
     \<and> rdy_follows E bar0 d \<and> admin_answers E bar0 d
     \<and> (\<forall>h. d < 500 * unat (fld_get cap_to (he_read64 E h (nvme_reg_ptr bar0 NVME_REG_CAP))))
     \<and> (\<forall>h b. let ns = he_bytes E h b 4096
          in (push_bit (unat (drop_bit 16 (bytes_u32 ns (128 + unat (ns ! 26 AND 0x0F) * 4)) AND 0xFF)) 1 :: u32) \<noteq> 0)
     \<and> (\<forall>h b ps. ctrl_max_transfer ps (he_bytes E h b 4096 ! 77) \<noteq> 0)"

lemma ll_alloc_prp_works:
  assumes "\<And>h k n. \<exists>p. he_alloc E h k n = Some p" and "\<And>h. he_pagemap E h"
  shows "\<exists>l' h'. run_state (ll_alloc_prp E l) h = ((Some GPUNVME_OK, Some l'), h')"
proof -
  have kernel: "\<exists>l' h'. run_state (ll_alloc_kernel E l) h = ((Some GPUNVME_OK, Some l'), h')" for l h
  proof -
    let ?p = "sizeof_layer_read_params" and ?r = "sizeof_layer_read_result"
    obtain p where p: "he_alloc E h Pinned ?p = Some p" using assms(1) by blast
    obtain r where "he_alloc E (HAlloc Pinned ?p (Some p) # h) Pinned ?r = Some r" using assms(1) by blast
    with p show ?thesis using assms(2) by (simp add: ll_alloc_kernel_def host_alloc_def Let_def)
  qed
  let ?n = "ucast (ll_max_commands l) * 4096 :: u64" and ?m = "ucast (ll_max_commands l) * 8 :: u64"
  obtain pool where pool: "he_alloc E h Aligned ?n = Some pool" using assms(1) by blast
  let ?h1 = "HMlock pool ?n # HAlloc Aligned ?n (Some pool) # h"
  let ?h2 = "HMemset pool ?n # HRegister pool ?n (he_register E ?h1 pool) # ?h1"
  obtain p1 where p1: "he_alloc E ?h2 Pinned ?m = Some p1" using assms(1) by blast
  obtain p2 where "he_alloc E (HAlloc Pinned ?m (Some p1) # ?h2) Pinned ?m = Some p2" using assms(1) by blast
  then show ?thesis
    using pool p1 kernel by (simp add: ll_alloc_prp_def host_alloc_def cuda_host_register_def Let_def)
qed

lemma loader_init_works:
  assumes m: "loader_machine E F bar0 d" and "n \<noteq> 0" and "depth \<noteq> 0"
  shows "\<exists>l h'. run_state (gpunvme_layer_loader_init E F (Some l0) (Some bdf) n depth) h = ((Some GPUNVME_OK, Some l), h')"
proof -
  have ma: "memory_available E" and reg: "\<And>h p. he_register E h p" and pm: "\<And>h. he_pagemap E h"
    and fo: "\<And>h path. fe_open F h path" and mp: "\<And>h n. he_alloc E h Mapping n = Some bar0" and b0: "bar0 \<noteq> 0"
    and rdy: "rdy_follows E bar0 d" and ans: "admin_answers E bar0 d"
    and to: "\<And>h. d < 500 * unat (fld_get cap_to (he_read64 E h (nvme_reg_ptr bar0 NVME_REG_CAP)))"
    using m unfolding loader_machine_def by blast+
  have bs: "(let ns = he_bytes E h b 4096
          in (push_bit (unat (drop_bit 16 (bytes_u32 ns (128 + unat (ns ! 26 AND 0x0F) * 4)) AND 0xFF)) 1 :: u32)) \<noteq> 0" for h b
    using m unfolding loader_machine_def Let_def by blast
  have mt: "ctrl_max_transfer ps (he_bytes E h b 4096 ! 77) \<noteq> 0" for h b ps
    using m unfolding loader_machine_def by blast
  have mem: "\<exists>p. he_alloc E h k n = Some p" for h k n
    using ma unfolding memory_available_def by blast
  let ?s = "fe_size F (HOpen True # h)"
  let ?h = "HRegister bar0 ?s True # HAlloc Mapping ?s (Some bar0) # HOpen True # h"
  let ?l = "loader_zero\<lparr>ll_bar0_size := ?s, ll_bar0_fd := True, ll_bar0 := bar0, ll_bar0_gpu := fe_device_pointer F ?h bar0\<rparr>"
  have run: "run_state (gpunvme_layer_loader_init E F (Some l0) (Some bdf) n depth) h = run_state (ll_init_ctrl E n depth ?l) ?h"
    using reg fo mp assms(2,3)
    by (simp add: gpunvme_layer_loader_init_def open_path_def host_alloc_def cuda_host_register_def Let_def)
  have finish: "\<exists>l h'. run_state (ll_init_ctrl E n depth ?l) ?h = ((Some GPUNVME_OK, Some l), h')"
    if c: "run_state (gpunvme_ctrl_init E (Some (ll_ctrl ?l)) bar0 ?s) ?h = ((GPUNVME_OK, Some c), h1)"
      "admin_fresh 2 c" "c_bar0 c = bar0" "d < unat (c_timeout_ms c * 1000)" and sz: "c_block_size c \<noteq> 0" "c_max_transfer_bytes c \<noteq> 0"
    for c h1
  proof -
    let ?c = "c\<lparr>c_bar0_gpu := ll_bar0_gpu ?l\<rparr>"
    obtain l1 where l1: "ll_sizes n depth (?l\<lparr>ll_ctrl := ?c\<rparr>) = Some l1" "ll_ctrl l1 = ?c"
      using sz by (simp add: ll_sizes_def Let_def)
    have "admin_fresh 2 ?c" "admin_answers E (c_bar0 ?c) d" "d < unat (c_timeout_ms ?c * 1000)"
      using c(2-4) ans by (simp_all add: admin_fresh_def)
    then obtain c' q h2 where q:
        "run_state (gpunvme_create_io_queue E (Some ?c) 1 64 4096 GPUNVME_TIER1 (Some (ll_ioq l1))) h1 = ((GPUNVME_OK, Some c', Some q), h2)"
      using create_completes[OF ma reg, of ?c d 2 1 64 4096 GPUNVME_TIER1 "ll_ioq l1" h1] by auto
    have "\<exists>l' h'. run_state (ll_alloc_prp E (l1\<lparr>ll_ctrl := c', ll_ioq := q\<rparr>)) h2 = ((Some GPUNVME_OK, Some l'), h')"
      using mem pm by (rule ll_alloc_prp_works)
    then show ?thesis using c(1) l1 q by (simp add: ll_init_ctrl_def Let_def)
  qed
  from ctrl_init_works[OF ma rdy ans b0 to, of "ll_ctrl ?l" ?s ?h] show ?thesis
    unfolding run
    by (elim exE conjE) (rule finish, assumption+, simp_all only: bs mt not_False_eq_True)
qed

section \<open>Sessions\<close>

type_synonym loader_state = "gpunvme_layer_loader \<times> layer_mem \<times> (u64 \<Rightarrow> u64) \<times> hev list"

text \<open>One call; BAR1 is enabled at most once, and a call that divides by zero is not followed by another.\<close>

inductive loader_step :: "henv \<Rightarrow> file_env \<Rightarrow> bar1_env \<Rightarrow> loader_state \<Rightarrow> loader_state \<Rightarrow> bool" for E F B where
  load: "run_state (gpunvme_load_layer E launch (Some l) lba n dest mem) h = ((Some err, mem'), h')
     \<Longrightarrow> loader_step E F B (l, mem, vram, h) (l, mem', vram, h')"
| load_vram: "run_state (gpunvme_load_layer_vram E launch (Some l) lba n dest mem) h = ((Some err, mem'), h')
     \<Longrightarrow> loader_step E F B (l, mem, vram, h) (l, mem', vram, h')"
| bar1_init: "\<not> ll_bar1_fd l \<Longrightarrow> run_state (gpunvme_bar1_init F B (Some l) (Some bdf) off) h = ((err, Some l'), h')
     \<Longrightarrow> loader_step E F B (l, mem, vram, h) (l', mem, vram, h')"
| bar1_resolve: "run_state (gpunvme_bar1_resolve E B (Some l) p n out vram) h = ((err, out', vram'), h')
     \<Longrightarrow> loader_step E F B (l, mem, vram, h) (l, mem, vram', h')"

inductive_cases loader_stepE: "loader_step E F B (l, mem, vram, h) s"

definition session_inv :: "hev list \<Rightarrow> loader_state \<Rightarrow> bool" where
  "session_inv h0 s = (case s of (l, mem, vram, h) \<Rightarrow> loader_owns h0 l h)"

lemma loader_owns_keeps:
  assumes "resources h2 = resources h1" and "loader_owns h l h1"
  shows "loader_owns h l h2"
  using assms(2) unfolding loader_owns_def owns_resources[OF assms(1)] .

lemma bar1_init_owns:
  assumes "loader_owns h l h1" and "\<not> ll_bar1_fd l"
    and "run_state (gpunvme_bar1_init F B (Some l) (Some bdf) off) h1 = ((err, Some l'), h2)"
  shows "loader_owns h l' h2"
proof -
  let ?l = "\<lambda>p. l\<lparr>ll_bar1_fd := True, ll_gpu_bar1_phys := p, ll_bar1_vram_offset := off, ll_bar1_enabled := True\<rparr>"
  have open1: "loader_owns h (?l p) h3" if "resources h3 = (held h1, registered h1, open_files h1 + 1)" for p h3
  proof -
    have "ll_buffers (?l p) = ll_buffers l" "ll_base_memory (?l p) = ll_base_memory l" "loader_linked (?l p) = loader_linked l"
        "ll_base_registrations (?l p) = ll_base_registrations l" "pool_registration (?l p) = pool_registration l"
      by (auto simp: ll_buffers_def ll_base_memory_def ll_base_registrations_def loader_linked_def pool_registration_def fun_eq_iff)
    then show ?thesis using assms(1,2) that unfolding loader_owns_def by (auto simp: owns_def resources_def)
  qed
  obtain p h3 where p: "run_state (parse_bar1_phys B bdf) h1 = (p, h3)" "resources h3 = resources h1"
    by (cases "be_text B h1 (sysfs_path bdf ''resource'')") (auto simp: parse_bar1_phys_def resources_def)
  have keep: "loader_owns h l h2" if "resources h2 = resources h1" using loader_owns_keeps[OF that assms(1)] .
  show ?thesis
    using assms(3) p keep open1
    by (auto simp: gpunvme_bar1_init_def open_path_def resources_def open_files_open split: if_splits)
qed

lemma session_inv_step: "loader_step E F B s s' \<Longrightarrow> session_inv h0 s \<Longrightarrow> session_inv h0 s'"
proof (induction rule: loader_step.induct)
  case (load launch l lba n dest mem h err mem' h' vram)
  have "resources h' = resources h" using load_layer_keeps[of E launch "Some l" lba n dest mem h] load(1) by simp
  from loader_owns_keeps[OF this] load(2) show ?case by (simp add: session_inv_def)
next
  case (load_vram launch l lba n dest mem h err mem' h' vram)
  have "resources h' = resources h" using load_layer_vram_keeps[of E launch "Some l" lba n dest mem h] load_vram(1) by simp
  from loader_owns_keeps[OF this] load_vram(2) show ?case by (simp add: session_inv_def)
next
  case (bar1_init l bdf off h err l' h' mem vram)
  have "loader_owns h0 l h" using bar1_init(3) by (simp add: session_inv_def)
  from bar1_init_owns[OF this bar1_init(1,2)] show ?case by (simp add: session_inv_def)
next
  case (bar1_resolve l p n out vram h err out' vram' h' mem)
  have "resources h' = resources h" using bar1_resolve_keeps[of E B "Some l" p n out vram h] bar1_resolve(1) by simp
  from loader_owns_keeps[OF this] bar1_resolve(2) show ?case by (simp add: session_inv_def)
qed

lemma session_inv_steps: "(loader_step E F B)\<^sup>*\<^sup>* s s' \<Longrightarrow> session_inv h0 s \<Longrightarrow> session_inv h0 s'"
  by (induction rule: rtranclp_induct) (auto intro: session_inv_step)


section \<open>Properties of a loader's life\<close>

text \<open>Set-up completes on a working machine: when files, mappings, memory and registrations are
  available, the controller follows CC.EN, answers admin commands in time and identifies with a block
  and a transfer size, it returns OK.\<close>

theorem loader_init_completes:
  assumes "loader_machine E F bar0 d" and "max_layer_bytes \<noteq> 0" and "pipeline_depth \<noteq> 0"
  shows "\<exists>l h'. run_state (gpunvme_layer_loader_init E F (Some l0) (Some bdf) max_layer_bytes pipeline_depth) h =
    ((Some GPUNVME_OK, Some l), h')"
  by (rule loader_init_works[OF assms])

definition loader_host :: henv where
  "loader_host = ready_host\<lparr>he_alloc := (\<lambda>h k n. if k = Mapping then Some 0x10000000 else he_alloc ready_host h k n)\<rparr>"

definition example_files :: file_env where
  "example_files = \<lparr>fe_open = (\<lambda>h path. True), fe_size = (\<lambda>h. 0x4000), fe_device_pointer = (\<lambda>h p. p)\<rparr>"

lemma loader_host_translates: "run_state (gpunvme_virt_to_phys loader_host v) h = run_state (gpunvme_virt_to_phys ready_host v) h"
  by (simp add: gpunvme_virt_to_phys_def loader_host_def)

lemma loader_host_facts:
  "nonnull_alloc loader_host" "memory_available loader_host" "\<And>h p. he_register loader_host h p" "fresh_alloc loader_host"
proof -
  have mem: "\<exists>p. he_alloc ready_host h k n = Some p \<and> p \<noteq> 0" for h k n
    using memory_availableE[OF ready_host_memory] by metis
  show "nonnull_alloc loader_host" using ready_host_nonnull by (auto simp: nonnull_alloc_def loader_host_def)
  show "memory_available loader_host"
    using ready_host_memory mem unfolding memory_available_def loader_host_translates by (auto simp: loader_host_def)
  show reg: "he_register loader_host h p" for h p using ready_host_register by (simp add: loader_host_def)
  then show "fresh_alloc loader_host" by (simp add: fresh_alloc_def)
qed

lemma loader_host_machine: "loader_machine loader_host example_files 0x10000000 0"
proof -
  have same: "he_read32 loader_host = he_read32 ready_host" "he_read64 loader_host = he_read64 ready_host"
      "he_cqe loader_host = he_cqe ready_host" "he_bytes loader_host = he_bytes ready_host" "he_pagemap loader_host = he_pagemap ready_host"
    by (simp_all add: loader_host_def)
  have "rdy_follows loader_host 0x10000000 0" using ready_host_rdy[of 0] by (simp add: rdy_follows_def same)
  moreover have "admin_answers loader_host 0x10000000 0" using ready_host_answers[of 0] by (simp add: admin_answers_def same)
  moreover have "he_pagemap loader_host h" for h by (simp add: same ready_host_def example_host_def)
  moreover have "0 < 500 * unat (fld_get cap_to (he_read64 loader_host h (nvme_reg_ptr 0x10000000 NVME_REG_CAP)))" for h
    using ready_host_timeout by (simp add: same)
  moreover have "he_alloc loader_host h Mapping n = Some 0x10000000" for h n by (simp add: loader_host_def)
  moreover have "he_bytes loader_host h b 4096 = (replicate 4096 0)[130 := 9]" for h b by (simp add: same ready_host_def)
  moreover have "bytes_u32 ((replicate 4096 0)[130 := 9]) 128 = push_bit 16 9" by (simp add: bytes_u32_def nth_list_update)
  ultimately show ?thesis
    unfolding loader_machine_def using loader_host_facts
    by (auto simp: example_files_def ctrl_max_transfer_def Let_def nth_list_update)
qed

theorem loader_init_completes_witness:
  "\<exists>l h'. run_state (gpunvme_layer_loader_init loader_host example_files (Some loader_zero) (Some ''0000:0b:00.0'') 0x1000000 32) [] =
    ((Some GPUNVME_OK, Some l), h')"
  by (rule loader_init_completes[OF loader_host_machine]) simp_all



text \<open>C31. A loader gives back everything: after a successful set-up and any sequence of loads into host
  memory or VRAM, of resolved pointers and of at most one enabling of BAR1, successful or not, the
  destructor releases all memory, mappings, registrations and files that the loader took and clears
  the record, whether or not the controller still answers.\<close>

theorem loader_life_balanced:
  assumes "run_state (gpunvme_layer_loader_init E F loader bdf max_layer_bytes pipeline_depth) h = ((Some GPUNVME_OK, Some l), h1)"
    and "nonnull_alloc E" and "fresh_alloc E" and "(loader_step E F B)\<^sup>*\<^sup>* (l, mem, vram, h1) (l2, mem2, vram2, h2)"
  shows "\<exists>h3. run_state (gpunvme_layer_loader_destroy E (Some l2)) h2 = (Some loader_zero, h3)
    \<and> mset (held h3) = mset (held h) \<and> mset (registered h3) = mset (registered h) \<and> open_files h3 = open_files h"
proof -
  have "loader_owns h l h1"
    using loader_init_ended[OF assms(2,3), of h F loader bdf max_layer_bytes pipeline_depth] assms(1) by (auto simp: init_ended_def)
  then have "loader_owns h l2 h2" using session_inv_steps[OF assms(4), of h] by (simp add: session_inv_def)
  from destroy_releases[OF this, of E] show ?thesis by (simp add: owns_def)
qed

theorem loader_life_balanced_witness:
  "\<exists>l h1 h2 h3. run_state (gpunvme_layer_loader_init loader_host example_files (Some loader_zero) (Some ''0000:0b:00.0'') 0x1000000 32) [] =
      ((Some GPUNVME_OK, Some l), h1)
    \<and> loader_step loader_host example_files example_bar1 (l, example_layer_mem, \<lambda>_. 0, h1) (l, example_layer_mem, \<lambda>_. 0, h2)
    \<and> run_state (gpunvme_layer_loader_destroy loader_host (Some l)) h2 = (Some loader_zero, h3) \<and> held h3 = [] \<and> open_files h3 = 0"
proof -
  obtain l h1 where init: "run_state (gpunvme_layer_loader_init loader_host example_files (Some loader_zero) (Some ''0000:0b:00.0'') 0x1000000 32) [] =
      ((Some GPUNVME_OK, Some l), h1)"
    using loader_init_works[OF loader_host_machine, of "0x1000000" 32 loader_zero "''0000:0b:00.0''" "[]"] by auto
  have step: "loader_step loader_host example_files example_bar1 (l, example_layer_mem, \<lambda>_. 0, h1) (l, example_layer_mem, \<lambda>_. 0, h1)"
    by (rule loader_step.load[where n = 0 and err = GPUNVME_ERR_INVALID_PARAM]) (simp add: gpunvme_load_layer_def)
  have "(loader_step loader_host example_files example_bar1)\<^sup>*\<^sup>* (l, example_layer_mem, \<lambda>_. 0, h1) (l, example_layer_mem, \<lambda>_. 0, h1)"
    using step by (rule r_into_rtranclp)
  from loader_life_balanced[OF init loader_host_facts(1,4) this] init step show ?thesis by auto
qed

end
