(* ===== verification/Bench_Kernel.thy ===== *)
theory Bench_Kernel
  imports Pipeline
begin

text \<open>
  The kernel of the GPU-direct benchmark (\<^verbatim>\<open>bench_read_pipelined\<close> in \<^verbatim>\<open>bench/bench_gpu_direct.cu\<close>): like the layer
  loader's it keeps a pipeline of reads in flight, but the blocks come from an array, the buffers are reused
  cyclically and the clock is read around every poll. It is an instance of the loop of \<^verbatim>\<open>Pipeline\<close>.
\<close>

section \<open>The kernel\<close>

record bench_params =
  bp_lba_array :: "u64 list"
  bp_prp1_array :: "u64 list"
  bp_prp2_array :: "u64 list"
  bp_nlb_0based :: u32
  bp_num_ops :: u32
  bp_pipeline_depth :: u32

record bench_result =
  br_completed :: u32
  br_error_code :: u32
  br_cqe_status :: u16
  br_total_cycles :: u64

function bench_submit_loop ::
    "bench_params \<Rightarrow> u32 \<Rightarrow> u32 \<Rightarrow> gpu_nvme_queue \<Rightarrow> 'x qmem_scheme \<Rightarrow> u32 \<times> gpu_nvme_queue \<times> 'x qmem_scheme" where
  "bench_submit_loop p completed submitted q m =
    (if submitted < bp_num_ops p \<and> submitted - completed < bp_pipeline_depth p
     then let idx = submitted;
              buf_slot = idx mod bp_pipeline_depth p;
              (cid, q, m) = sq_submit_read q (bp_lba_array p ! unat idx) (ucast (bp_nlb_0based p))
                (bp_prp1_array p ! unat buf_slot) (bp_prp2_array p ! unat buf_slot) m
          in bench_submit_loop p completed (submitted + 1) q m
     else (submitted, q, m))"
  by pat_completeness auto
termination
proof (relation "measure (\<lambda>(p, completed, submitted, _). unat (bp_num_ops p) - unat submitted)", goal_cases)
  case (2 p completed submitted q m)
  then have "unat (submitted + 1) = Suc (unat submitted)" "unat submitted < unat (bp_num_ops p)"
    using unat_succ_lt[of submitted "unat (bp_num_ops p)"] unat_bound[of "bp_num_ops p"]
    by (auto simp: word_less_nat_alt)
  then show ?case by simp
qed simp

declare bench_submit_loop.simps [simp del]

function bench_read_loop ::
    "nat \<Rightarrow> ('x qmem_scheme) gpu_env \<Rightarrow> bench_params \<Rightarrow> u64 \<Rightarrow> u32 \<Rightarrow> u32 \<Rightarrow> bench_result \<Rightarrow> u64 list \<Rightarrow> gpu_nvme_queue \<Rightarrow>
     'x qmem_scheme \<Rightarrow> nat \<Rightarrow> (bench_result \<times> u64 list \<times> gpu_nvme_queue \<times> 'x qmem_scheme \<times> nat) option" where
  "bench_read_loop fuel E p t_start submitted completed result lat q m t =
    (if completed < bp_num_ops p
     then let (submitted, q, m) = bench_submit_loop p completed submitted q m;
              poll_start = ge_clock E t
          in case cq_poll_completion fuel E q 3400000000 m (Suc t) of
               None \<Rightarrow> None
             | Some (cqr, q, m, t) \<Rightarrow>
                 let poll_end = ge_clock E t; t = Suc t
                 in if r_timed_out cqr
                    then Some (result\<lparr>br_completed := completed, br_error_code := 2,
                           br_total_cycles := ge_clock E t - t_start\<rparr>, lat, q, m, Suc t)
                    else if \<not> r_success cqr
                    then Some (result\<lparr>br_completed := completed, br_error_code := 3, br_cqe_status := r_status cqr,
                           br_total_cycles := ge_clock E t - t_start\<rparr>, lat, q, m, Suc t)
                    else bench_read_loop fuel E p t_start submitted (completed + 1) result
                           (lat[unat completed := poll_end - poll_start]) q m t
     else Some (result\<lparr>br_completed := completed, br_total_cycles := ge_clock E t - t_start\<rparr>, lat, q, m, Suc t))"
  by pat_completeness auto
termination
proof (relation "measure (\<lambda>(fuel, E, p, t_start, submitted, completed, _). unat (bp_num_ops p) - unat completed)",
    goal_cases)
  case (2 fuel E p t_start submitted completed)
  then have "unat (completed + 1) = Suc (unat completed)" "unat completed < unat (bp_num_ops p)"
    using unat_succ_lt[of completed "unat (bp_num_ops p)"] unat_bound[of "bp_num_ops p"]
    by (auto simp: word_less_nat_alt)
  then show ?case by simp
qed simp

declare bench_read_loop.simps [simp del]

definition bench_read_pipelined ::
    "nat \<Rightarrow> ('x qmem_scheme) gpu_env \<Rightarrow> u32 \<Rightarrow> u32 \<Rightarrow> gpu_nvme_queue \<Rightarrow> bench_params \<Rightarrow> bench_result \<Rightarrow> u64 list \<Rightarrow>
     'x qmem_scheme \<Rightarrow> nat \<Rightarrow> (bench_result \<times> u64 list \<times> gpu_nvme_queue \<times> 'x qmem_scheme \<times> nat) option" where
  "bench_read_pipelined fuel E tid bid q p result lat m t =
    (if tid \<noteq> 0 \<or> bid \<noteq> 0 then Some (result, lat, q, m, t)
     else let result = result\<lparr>br_completed := 0, br_error_code := 0, br_cqe_status := 0\<rparr>;
              t_start = ge_clock E t
          in bench_read_loop fuel E p t_start 0 0 result lat q m (Suc t))"

section \<open>The kernel is an instance of the pipelined loop\<close>

definition bench_args :: "bench_params \<Rightarrow> u32 \<Rightarrow> read_args" where
  "bench_args p i = (bp_lba_array p ! unat i, ucast (bp_nlb_0based p),
     bp_prp1_array p ! unat (i mod bp_pipeline_depth p), bp_prp2_array p ! unat (i mod bp_pipeline_depth p))"

lemma bench_submit_loop_pipe:
  "bench_submit_loop p completed submitted q m =
     pipe_submit_loop (bench_args p) (bp_num_ops p) (bp_pipeline_depth p) completed submitted q m"
proof (induction p completed submitted q m rule: bench_submit_loop.induct)
  case (1 p completed submitted q m)
  show ?case
  proof (cases "submitted < bp_num_ops p \<and> submitted - completed < bp_pipeline_depth p")
    case True
    let ?slot = "unat (submitted mod bp_pipeline_depth p)"
    obtain cid q' m' where sub: "sq_submit_read q (bp_lba_array p ! unat submitted) (ucast (bp_nlb_0based p))
        (bp_prp1_array p ! ?slot) (bp_prp2_array p ! ?slot) m = (cid, q', m')" by (metis surj_pair)
    show ?thesis
      using True sub 1[OF True refl refl sub[symmetric] refl]
      by (subst bench_submit_loop.simps, subst pipe_submit_loop.simps) (simp add: bench_args_def[of p submitted] Let_def)
  next
    case False
    then show ?thesis by (subst bench_submit_loop.simps, subst pipe_submit_loop.simps) auto
  qed
qed

text \<open>The report of the kernel at the end of the loop.\<close>

definition bench_report :: "bench_result \<Rightarrow> pipe_end \<Rightarrow> u32 \<Rightarrow> u64 \<Rightarrow> bench_result" where
  "bench_report r e d cycles = (case e of
     PipeDone \<Rightarrow> r\<lparr>br_completed := d, br_total_cycles := cycles\<rparr>
   | PipeTimeout \<Rightarrow> r\<lparr>br_completed := d, br_error_code := 2, br_total_cycles := cycles\<rparr>
   | PipeFailed st \<Rightarrow> r\<lparr>br_completed := d, br_error_code := 3, br_cqe_status := st, br_total_cycles := cycles\<rparr>)"

lemma bench_read_loop_pipe:
  "bench_read_loop fuel E p t_start submitted completed result lat q m t =
     map_option (\<lambda>(e, d, lat, q, m, t). (bench_report result e d (ge_clock E t - t_start), lat, q, m, Suc t))
       (pipe_loop True fuel E (bench_args p) (bp_num_ops p) (bp_pipeline_depth p) submitted completed lat q m t)"
proof (induction fuel E p t_start submitted completed result lat q m t rule: bench_read_loop.induct)
  case (1 fuel E p t_start submitted completed result lat q m t)
  show ?case
  proof (cases "completed < bp_num_ops p")
    case False
    then show ?thesis
      by (subst bench_read_loop.simps, subst pipe_loop.simps) (simp add: bench_report_def)
  next
    case True
    obtain s1 q1 m1 where sub: "bench_submit_loop p completed submitted q m = (s1, q1, m1)" by (metis surj_pair)
    show ?thesis
    proof (cases "cq_poll_completion fuel E q1 3400000000 m1 (Suc t)")
      case None
      then show ?thesis
        using True sub
        by (subst bench_read_loop.simps, subst pipe_loop.simps)
          (simp add: bench_submit_loop_pipe PIPE_POLL_TIMEOUT_def)
    next
      case (Some z)
      obtain r q2 m2 t2 where z: "z = (r, q2, m2, t2)" by (cases z)
      then show ?thesis
        using True sub Some 1[OF True sub[symmetric] refl refl refl Some[unfolded z] refl refl refl refl refl]
        by (subst bench_read_loop.simps, subst pipe_loop.simps)
          (auto simp: bench_submit_loop_pipe PIPE_POLL_TIMEOUT_def bench_report_def Let_def)
    qed
  qed
qed

section \<open>The plan of a run\<close>

definition bench_command :: "bench_params \<Rightarrow> u16 \<Rightarrow> u32 \<Rightarrow> nat \<Rightarrow> nvme_sq_entry" where
  "bench_command p cid nsid i = (let slot = i mod unat (bp_pipeline_depth p) in
     io_command NVME_IO_OPC_READ (cid + of_nat i) nsid (bp_prp1_array p ! slot) (bp_prp2_array p ! slot)
       (bp_lba_array p ! i) (ucast (bp_nlb_0based p)))"

definition bench_plan :: "bench_params \<Rightarrow> u16 \<Rightarrow> u32 \<Rightarrow> nvme_sq_entry list" where
  "bench_plan p cid nsid = map (bench_command p cid nsid) [0..<unat (bp_num_ops p)]"

lemma bench_plan_pipe: "bench_plan p cid nsid = pipe_plan (bench_args p) (bp_num_ops p) cid nsid"
proof -
  have "unat (of_nat i :: u32) = i" if "i < unat (bp_num_ops p)" for i
    using that unat_bound[of "bp_num_ops p"] by (simp add: unat_of_nat)
  then show ?thesis
    by (simp add: bench_plan_def pipe_plan_def bench_command_def pipe_command_def bench_args_def Let_def unat_mod)
qed

text \<open>How a run may end: all operations done and data moved as the plan says in order, or the first failing operation
  reported, with at most a pipeline of operations from it on carried out.\<close>

definition bench_outcome :: "sim_data \<Rightarrow> nvme_sq_entry list \<Rightarrow> nat \<Rightarrow> bench_result \<Rightarrow> sim_data \<Rightarrow> bool" where
  "bench_outcome v plan depth r v' \<longleftrightarrow>
     ((\<forall>e \<in> set plan. view_status v e = 0) \<and> br_error_code r = 0 \<and> unat (br_completed r) = length plan
        \<and> v' = fold view_effect plan v)
   \<or> (let i = unat (br_completed r) in i < length plan \<and> (\<forall>k < i. view_status v (plan ! k) = 0)
        \<and> view_status v (plan ! i) \<noteq> 0 \<and> br_error_code r = 3 \<and> br_cqe_status r = view_status v (plan ! i)
        \<and> (\<exists>j. i < j \<and> j \<le> length plan \<and> j \<le> i + depth \<and> v' = fold view_effect (take j plan) v))"

lemma bench_report_outcome:
  assumes "pipe_outcome view_status view_effect depth plan v e (unat d) v'"
    and "br_error_code r = 0" "br_cqe_status r = 0"
  shows "bench_outcome v plan depth (bench_report r e d c) v'
    \<and> (br_error_code (bench_report r e d c) = 0 \<longrightarrow> e = PipeDone)"
  using assms unfolding pipe_outcome_def bench_outcome_def
  by (auto simp: bench_report_def Let_def in_set_conv_nth)

text \<open>What a run leaves of the queue state.\<close>

definition same_queue :: "gpu_nvme_queue \<Rightarrow> gpu_nvme_queue \<Rightarrow> bool" where
  "same_queue q q' \<longleftrightarrow> q_nsid q' = q_nsid q \<and> q_sq_size q' = q_sq_size q \<and> q_cq_size q' = q_cq_size q"

lemma sim_bench_read:
  assumes dr: "drained q s" and env: "pipe_env fuel E" and fits: "queue_fits (bp_pipeline_depth p) (q_nsid q) q"
    and nw: "list_all cmd_nowrap (bench_plan p (q_cid_counter q) (q_nsid q))"
  shows "\<exists>r lat' q' s' t'. bench_read_pipelined fuel E 0 0 q p r0 lat s t = Some (r, lat', q', s', t')
    \<and> bench_outcome (sim_view s) (bench_plan p (q_cid_counter q) (q_nsid q)) (unat (bp_pipeline_depth p)) r (sim_view s')
    \<and> length lat' = length lat \<and> (\<forall>i. unat (br_completed r) \<le> i \<longrightarrow> lat' ! i = lat ! i)
    \<and> (br_error_code r = 0 \<longrightarrow> drained q' s' \<and> same_queue q q'
        \<and> q_cid_counter q' = q_cid_counter q + of_nat (unat (bp_num_ops p)))"
proof -
  let ?plan = "bench_plan p (q_cid_counter q) (q_nsid q)"
  let ?r = "r0\<lparr>br_completed := 0, br_error_code := 0, br_cqe_status := 0\<rparr>"
  obtain e d lat' q' s' t' where run:
      "pipe_loop True fuel E (bench_args p) (bp_num_ops p) (bp_pipeline_depth p) 0 0 lat q s (Suc t) = Some (e, d, lat', q', s', t')"
      "pipe_outcome view_status view_effect (unat (bp_pipeline_depth p)) ?plan (sim_view s) e (unat d) (sim_view s')"
      "length lat' = length lat" "\<forall>i. unat d \<le> i \<longrightarrow> lat' ! i = lat ! i"
      "e = PipeDone \<longrightarrow> drained q' s' \<and> same_queue q q' \<and> q_cid_counter q' = q_cid_counter q + of_nat (unat (bp_num_ops p))"
    using sim_pipe_loop[OF dr env fits bench_plan_pipe nw, of True lat "Suc t"] unfolding same_queue_def by blast
  let ?z = "bench_report ?r e d (ge_clock E t' - ge_clock E t)"
  have "bench_read_pipelined fuel E 0 0 q p r0 lat s t = Some (?z, lat', q', s', Suc t')"
    using run(1) by (simp add: bench_read_pipelined_def Let_def bench_read_loop_pipe)
  moreover have "br_completed ?z = d" by (simp add: bench_report_def split: pipe_end.splits)
  ultimately show ?thesis using bench_report_outcome[OF run(2), of ?r] run(3-5) by auto
qed

section \<open>Property of the kernel\<close>

text \<open>C24. The benchmark kernel refines the sequential execution of its operations: on a drained queue pair with a pipeline
  depth below the ring sizes and for every fair schedule it returns; either all operations succeed, all are reported
  completed and the data is what they make of it in order, or the first failing one is reported with its status, and it and
  at most a pipeline of operations after it have been carried out. The latencies of operations that did not complete are left
  alone, and after success the queue pair is drained again.\<close>

theorem bench_kernel_refines:
  assumes "drained q s" and "pipe_env fuel E" and "queue_fits (bp_pipeline_depth p) (q_nsid q) q"
    and "list_all cmd_nowrap (bench_plan p (q_cid_counter q) (q_nsid q))"
  shows "\<exists>r lat' q' s' t'. bench_read_pipelined fuel E 0 0 q p r0 lat s t = Some (r, lat', q', s', t')
    \<and> bench_outcome (sim_view s) (bench_plan p (q_cid_counter q) (q_nsid q)) (unat (bp_pipeline_depth p)) r (sim_view s')
    \<and> length lat' = length lat \<and> (\<forall>i. unat (br_completed r) \<le> i \<longrightarrow> lat' ! i = lat ! i)
    \<and> (br_error_code r = 0 \<longrightarrow> drained q' s')"
  using sim_bench_read[OF assms, of r0 lat t] by blast

text \<open>Three reads through two buffers of a device with four blocks; the last one is out of range.\<close>

definition example_bench :: bench_params where
  "example_bench = \<lparr>bp_lba_array = [1, 2, 4], bp_prp1_array = [0x10000, 0x10200], bp_prp2_array = [0, 0],
     bp_nlb_0based = 0, bp_num_ops = 3, bp_pipeline_depth = 2\<rparr>"

definition example_bench_result :: bench_result where
  "example_bench_result = \<lparr>br_completed = 9, br_error_code = 9, br_cqe_status = 9, br_total_cycles = 0\<rparr>"

theorem bench_kernel_refines_witness:
  "\<exists>r lat' q' s' t'. bench_read_pipelined 1 example_env 0 0 example_queue example_bench example_bench_result [7, 7, 7] example_sim 0
      = Some (r, lat', q', s', t') \<and> br_completed r = 2 \<and> br_error_code r = 3 \<and> br_cqe_status r = NVME_SC_INVALID_FIELD
    \<and> lat' ! 2 = 7"
proof -
  let ?plan = "bench_plan example_bench 0 1"
  have q: "q_cid_counter example_queue = 0" "q_nsid example_queue = 1" by (simp_all add: example_queue_def)
  have plan: "?plan = [io_command NVME_IO_OPC_READ 0 1 0x10000 0 1 0, io_command NVME_IO_OPC_READ 1 1 0x10200 0 2 0,
      io_command NVME_IO_OPC_READ 2 1 0x10000 0 4 0]"
  proof -
    have "[0..<unat (bp_num_ops example_bench)] = [0, 1, 2]" by (simp add: example_bench_def upt_rec)
    then show ?thesis by (simp add: bench_plan_def bench_command_def example_bench_def Let_def)
  qed
  have fits: "queue_fits (bp_pipeline_depth example_bench) 1 example_queue"
    by (simp add: queue_fits_def example_bench_def example_queue_def)
  have nw: "list_all cmd_nowrap ?plan" unfolding plan by (simp add: cmd_nowrap_def)
  have st: "view_status (sim_view example_sim) (?plan ! 0) = 0" "view_status (sim_view example_sim) (?plan ! 1) = 0"
      "view_status (sim_view example_sim) (?plan ! 2) = NVME_SC_INVALID_FIELD"
    unfolding plan
    by (simp_all add: view_status_def sim_view_def example_sim_cfg example_cfg_def sim_status_def is_data_cmd_def
        cmd_in_range_def NVME_SC_SUCCESS_def)
  obtain r lat' q' s' t' where run:
      "bench_read_pipelined 1 example_env 0 0 example_queue example_bench example_bench_result [7, 7, 7] example_sim 0 = Some (r, lat', q', s', t')"
      "bench_outcome (sim_view example_sim) ?plan 2 r (sim_view s')"
      "length lat' = 3" "\<forall>i. unat (br_completed r) \<le> i \<longrightarrow> lat' ! i = [7, 7, 7] ! i"
    using bench_kernel_refines[OF example_drained example_pipe_env, of example_bench example_bench_result "[7, 7, 7]" 0] fits nw
    unfolding q by (auto simp: example_bench_def)
  have nz: "NVME_SC_INVALID_FIELD \<noteq> 0" by (simp add: NVME_SC_INVALID_FIELD_def)
  have len: "length ?plan = 3" "?plan ! 2 \<in> set ?plan" by (simp_all add: plan)
  then have "\<not> (\<forall>e \<in> set ?plan. view_status (sim_view example_sim) e = 0)" using st(3) nz by metis
  then have i: "unat (br_completed r) < 3" "view_status (sim_view example_sim) (?plan ! unat (br_completed r)) \<noteq> 0"
      "br_error_code r = 3" "br_cqe_status r = view_status (sim_view example_sim) (?plan ! unat (br_completed r))"
    using run(2) len(1) unfolding bench_outcome_def Let_def by metis+
  then have "unat (br_completed r) = 2" using st(1,2) by (auto simp: less_Suc_eq numeral_3_eq_3 numeral_2_eq_2)
  then show ?thesis using run i st(3) by (auto simp: word_unat_eq_iff)
qed

end
