(* ===== verification/Bench_Config.thy ===== *)
theory Bench_Config
  imports Complex_Main Prelude
begin

text \<open>
  The parts of \<^verbatim>\<open>bench/bench_common.h\<close> that all benchmarks share and that do not measure: the command line, block
  sizes as text, processor time samples, random blocks and the size of a device. What the C library makes of text
  (\<^verbatim>\<open>strtod\<close>, \<^verbatim>\<open>atoi\<close>, \<^verbatim>\<open>strtoull\<close>) is a parameter. Timers and statistics in floating point are not modelled.
\<close>

section \<open>Numbers as text\<close>

text \<open>\<open>ne_strtod\<close> returns the value and the number of characters read; a finite double is a rational number, and
  scaling it by a power of two is exact.\<close>

record num_env =
  ne_strtod :: "string \<Rightarrow> rat \<times> nat"
  ne_atoi :: "string \<Rightarrow> u32"
  ne_strtoull :: "string \<Rightarrow> u64"

text \<open>The result \<open>None\<close> is the exit with an error message.\<close>

definition parse_block_size :: "num_env \<Rightarrow> string \<Rightarrow> u64 option" where
  "parse_block_size N str =
    (let (val, len) = ne_strtod N str; rest = drop len str
     in if len = 0 then None
        else (let val = (case rest of
                  [] \<Rightarrow> val
                | c # _ \<Rightarrow> if c = CHR ''K'' \<or> c = CHR ''k'' then val * 1024
                    else if c = CHR ''M'' \<or> c = CHR ''m'' then val * 1024 * 1024
                    else if c = CHR ''G'' \<or> c = CHR ''g'' then val * 1024 * 1024 * 1024 else val)
              in Some (of_int \<lfloor>val\<rfloor>)))"

text \<open>What \<^verbatim>\<open>%lu\<close> prints.\<close>

fun dec_digits :: "nat \<Rightarrow> string" where
  "dec_digits n = (if n < 10 then [char_of (48 + n)] else dec_digits (n div 10) @ [char_of (48 + n mod 10)])"

declare dec_digits.simps [simp del]

definition format_block_size :: "u64 \<Rightarrow> string" where
  "format_block_size bs =
    (if bs \<ge> 1024 * 1024 \<and> bs mod (1024 * 1024) = 0 then dec_digits (unat (bs div (1024 * 1024))) @ ''M''
     else if bs \<ge> 1024 \<and> bs mod 1024 = 0 then dec_digits (unat (bs div 1024)) @ ''K''
     else dec_digits (unat bs))"

section \<open>Processor time\<close>

record cpu_sample =
  cs_user :: u64
  cs_nice :: u64
  cs_system :: u64
  cs_idle :: u64
  cs_iowait :: u64
  cs_irq :: u64
  cs_softirq :: u64
  cs_steal :: u64
  cs_valid :: bool

definition cpu_sample_init :: cpu_sample where
  "cpu_sample_init = \<lparr>cs_user = 0, cs_nice = 0, cs_system = 0, cs_idle = 0, cs_iowait = 0, cs_irq = 0, cs_softirq = 0,
     cs_steal = 0, cs_valid = False\<rparr>"

definition total_active :: "cpu_sample \<Rightarrow> u64" where
  "total_active s = cs_user s + cs_nice s + cs_system s + cs_irq s + cs_softirq s + cs_steal s"

definition cpu_total :: "cpu_sample \<Rightarrow> u64" where
  "cpu_total s = total_active s + cs_idle s + cs_iowait s"

text \<open>The values that \<^verbatim>\<open>sscanf\<close> stores, in order; the rest keeps its initial value. \<open>None\<close> is an unreadable file.\<close>

definition read_cpu_sample :: "u64 list option \<Rightarrow> cpu_sample" where
  "read_cpu_sample scanned =
    (case scanned of
       None \<Rightarrow> cpu_sample_init
     | Some vs \<Rightarrow>
         (let v = (\<lambda>i. if i < length vs then vs ! i else 0); n = min 8 (length vs)
          in \<lparr>cs_user = v 0, cs_nice = v 1, cs_system = v 2, cs_idle = v 3, cs_iowait = v 4, cs_irq = v 5,
              cs_softirq = v 6, cs_steal = v 7, cs_valid = (4 \<le> n)\<rparr>))"

text \<open>The numerator and the denominator of the utilisation; \<open>None\<close> is the result -1.\<close>

definition cpu_utilization :: "cpu_sample \<Rightarrow> cpu_sample \<Rightarrow> (u64 \<times> u64) option" where
  "cpu_utilization before after =
    (if \<not> cs_valid before \<or> \<not> cs_valid after then None
     else (let d_total = cpu_total after - cpu_total before;
               d_active = total_active after - total_active before
           in if d_total = 0 then Some (0, 1) else Some (d_active, d_total)))"

section \<open>The command line\<close>

record bench_config =
  bc_block_size :: u64
  bc_queue_depth :: u32
  bc_num_ops :: u32
  bc_pattern :: string
  bc_output :: string
  bc_device :: string
  bc_start_lba :: u64
  bc_max_lba :: u64

definition bench_config_init :: bench_config where
  "bench_config_init = \<lparr>bc_block_size = 4096, bc_queue_depth = 1, bc_num_ops = 1000, bc_pattern = ''seq'', bc_output = '''',
     bc_device = ''/dev/nvme0n1'', bc_start_lba = 0, bc_max_lba = 0\<rparr>"

text \<open>\<open>Inl\<close> is the exit code of a process that ends while it reads its arguments.\<close>

fun parse_options :: "num_env \<Rightarrow> bench_config \<Rightarrow> string list \<Rightarrow> nat + bench_config" where
  "parse_options N cfg [] = Inr cfg"
| "parse_options N cfg (arg # rest) =
    (case (arg, rest) of
       (_, val # args) \<Rightarrow>
         if arg = ''--block-size''
         then (case parse_block_size N val of None \<Rightarrow> Inl 1 | Some bs \<Rightarrow> parse_options N (cfg\<lparr>bc_block_size := bs\<rparr>) args)
         else if arg = ''--queue-depth'' then parse_options N (cfg\<lparr>bc_queue_depth := ne_atoi N val\<rparr>) args
         else if arg = ''--num-ops'' then parse_options N (cfg\<lparr>bc_num_ops := ne_atoi N val\<rparr>) args
         else if arg = ''--pattern'' then parse_options N (cfg\<lparr>bc_pattern := val\<rparr>) args
         else if arg = ''--output'' then parse_options N (cfg\<lparr>bc_output := val\<rparr>) args
         else if arg = ''--device'' then parse_options N (cfg\<lparr>bc_device := val\<rparr>) args
         else if arg = ''--start-lba'' then parse_options N (cfg\<lparr>bc_start_lba := ne_strtoull N val\<rparr>) args
         else if arg = ''--max-lba'' then parse_options N (cfg\<lparr>bc_max_lba := ne_strtoull N val\<rparr>) args
         else if arg = ''--help'' then Inl 0 else Inl 1
     | _ \<Rightarrow> if arg = ''--help'' then Inl 0 else Inl 1)"

definition parse_args :: "num_env \<Rightarrow> string list \<Rightarrow> nat + bench_config" where
  "parse_args N args =
    (case parse_options N bench_config_init args of
       Inl code \<Rightarrow> Inl code
     | Inr cfg \<Rightarrow>
         if bc_block_size cfg = 0 then Inl 1
         else if bc_queue_depth cfg = 0 then Inl 1
         else if bc_num_ops cfg = 0 then Inl 1
         else if bc_pattern cfg \<noteq> ''seq'' \<and> bc_pattern cfg \<noteq> ''rand'' then Inl 1
         else Inr cfg)"

section \<open>Devices\<close>

text \<open>\<open>ioctl\<close> and \<open>lseek\<close> answer with the size in bytes, or fail.\<close>

definition get_device_size_blocks :: "u64 option \<Rightarrow> u64 option \<Rightarrow> u64 \<Rightarrow> u64" where
  "get_device_size_blocks ioctl_size seek_end block_size =
    (case ioctl_size of
       Some dev_bytes \<Rightarrow> dev_bytes div block_size
     | None \<Rightarrow> (case seek_end of None \<Rightarrow> 0 | Some end_ \<Rightarrow> end_ div block_size))"

text \<open>Whether the device is open afterwards, and whether for direct I/O.\<close>

definition open_device_direct :: "bool \<Rightarrow> bool \<Rightarrow> (bool \<times> bool)" where
  "open_device_direct direct_ok plain_ok = (if direct_ok then (True, True) else (plain_ok, False))"

section \<open>Blocks to read\<close>

text \<open>The results of successive calls of \<^verbatim>\<open>rand\<close>, which are not negative, are a parameter; the \<open>i\<close>-th random block takes
  two of them.\<close>

definition random_lba :: "(nat \<Rightarrow> u32) \<Rightarrow> nat \<Rightarrow> u64 \<Rightarrow> u64" where
  "random_lba rand i max_lba = (push_bit 32 (ucast (rand (2 * i))) OR ucast (rand (2 * i + 1))) mod max_lba"

section \<open>Properties\<close>

text \<open>Accepted arguments are valid.\<close>

lemma parse_args_valid:
  "parse_args N args = Inr cfg \<Longrightarrow> bc_block_size cfg \<noteq> 0 \<and> bc_queue_depth cfg \<noteq> 0 \<and> bc_num_ops cfg \<noteq> 0
     \<and> (bc_pattern cfg = ''seq'' \<or> bc_pattern cfg = ''rand'')"
  by (auto simp: parse_args_def split: sum.splits if_splits)

lemma dec_digits_ne [simp]: "dec_digits n \<noteq> []"
  by (subst dec_digits.simps) auto

lemma parse_block_size_at:
  assumes "ne_strtod N (ds @ rest) = (v, length ds)" and "ds \<noteq> []"
  shows "parse_block_size N (ds @ rest) = Some (of_int \<lfloor>case rest of [] \<Rightarrow> v
    | c # _ \<Rightarrow> if c = CHR ''K'' \<or> c = CHR ''k'' then v * 1024
        else if c = CHR ''M'' \<or> c = CHR ''m'' then v * 1024 * 1024
        else if c = CHR ''G'' \<or> c = CHR ''g'' then v * 1024 * 1024 * 1024 else v\<rfloor>)"
  using assms by (simp add: parse_block_size_def)

lemma floor_scaled: "(of_int \<lfloor>of_nat n * of_nat k :: rat\<rfloor> :: u64) = of_nat (n * k)"
proof -
  have "\<lfloor>of_nat n * of_nat k :: rat\<rfloor> = int (n * k)" by (simp flip: of_nat_mult)
  then show ?thesis by simp
qed

lemma word_div_mult:
  assumes "(bs :: u64) mod k = 0" and "0 < k"
  shows "unat (bs div k) * unat k = unat bs"
  using assms by (metis add.right_neutral div_mult_mod_eq unat_div unat_eq_0 unat_mod)

text \<open>How the C library reads a decimal number followed by one of the suffixes: exactly, when a double holds it.\<close>

definition strtod_decimal :: "num_env \<Rightarrow> bool" where
  "strtod_decimal N \<longleftrightarrow> (\<forall>n suffix. n < 2 ^ 53 \<and> suffix \<in> {[], ''K'', ''M''} \<longrightarrow>
     ne_strtod N (dec_digits n @ suffix) = (of_nat n, length (dec_digits n)))"

text \<open>C7. A block size that the benchmarks print is read back as the same number of bytes, with the suffix that
  stands for a multiple of a kibibyte or mebibyte, up to the integers that a double holds exactly.\<close>

theorem block_size_roundtrip:
  assumes "strtod_decimal N" and "unat bs < 2 ^ 53"
  shows "parse_block_size N (format_block_size bs) = Some bs"
proof -
  have read: "ne_strtod N (dec_digits n @ sf) = (of_nat n, length (dec_digits n))"
    if "n \<le> unat bs" "sf \<in> {[], ''K'', ''M''}" for n sf
    using assms that unfolding strtod_decimal_def by auto
  have le: "unat (bs div k) \<le> unat bs" for k by (simp add: unat_div)
  have again: "(of_nat (unat (bs div k) * unat k) :: u64) = bs" if "bs mod k = 0" "0 < k" for k
    using word_div_mult[OF that] by simp
  consider (M) "bs \<ge> 1024 * 1024" "bs mod (1024 * 1024) = 0"
    | (K) "\<not> (bs \<ge> 1024 * 1024 \<and> bs mod (1024 * 1024) = 0)" "bs \<ge> 1024" "bs mod 1024 = 0"
    | (B) "\<not> (bs \<ge> 1024 * 1024 \<and> bs mod (1024 * 1024) = 0)" "\<not> (bs \<ge> 1024 \<and> bs mod 1024 = 0)" by blast
  then show ?thesis
  proof cases
    case M
    have "parse_block_size N (dec_digits (unat (bs div 1048576)) @ ''M'')
        = Some (of_int \<lfloor>of_nat (unat (bs div 1048576)) * of_nat 1048576 :: rat\<rfloor>)"
      by (subst parse_block_size_at[OF read[OF le]]) (simp_all add: mult.assoc)
    also have "\<dots> = Some bs" using again[of 1048576] M unfolding floor_scaled by simp
    finally show ?thesis using M by (simp add: format_block_size_def)
  next
    case K
    have "parse_block_size N (dec_digits (unat (bs div 1024)) @ ''K'')
        = Some (of_int \<lfloor>of_nat (unat (bs div 1024)) * of_nat 1024 :: rat\<rfloor>)"
      by (subst parse_block_size_at[OF read[OF le]]) simp_all
    also have "\<dots> = Some bs" using again[of 1024] K unfolding floor_scaled by simp
    finally show ?thesis using K by (auto simp: format_block_size_def)
  next
    case B
    have "parse_block_size N (dec_digits (unat bs) @ []) = Some (of_int \<lfloor>of_nat (unat bs) * of_nat 1 :: rat\<rfloor>)"
      by (subst parse_block_size_at[OF read]) simp_all
    also have "\<dots> = Some bs" unfolding floor_scaled by simp
    finally show ?thesis using B by (auto simp: format_block_size_def)
  qed
qed

text \<open>A C library that reads decimal numbers.\<close>

definition dec_value :: "string \<Rightarrow> nat" where
  "dec_value ds = foldl (\<lambda>a c. 10 * a + (of_char c - 48)) 0 ds"

definition is_digit :: "char \<Rightarrow> bool" where
  "is_digit c \<longleftrightarrow> 48 \<le> (of_char c :: nat) \<and> (of_char c :: nat) < 58"

definition example_num_env :: num_env where
  "example_num_env = \<lparr>ne_strtod = (\<lambda>s. let ds = takeWhile is_digit s in (of_nat (dec_value ds), length ds)),
     ne_atoi = (\<lambda>s. of_nat (dec_value (takeWhile is_digit s))),
     ne_strtoull = (\<lambda>s. of_nat (dec_value (takeWhile is_digit s)))\<rparr>"

lemma digit_char: "k < 10 \<Longrightarrow> (of_char (char_of (48 + k :: nat)) :: nat) = 48 + k"
  by simp

lemma is_digit_char: "k < 10 \<Longrightarrow> is_digit (char_of (48 + k :: nat))"
  by (simp add: is_digit_def)

lemma dec_digits_read: "dec_value (dec_digits n) = n \<and> list_all is_digit (dec_digits n)"
proof (induction n rule: dec_digits.induct)
  case (1 n)
  show ?case
  proof (cases "n < 10")
    case True
    then show ?thesis by (subst (1 2) dec_digits.simps) (simp add: dec_value_def is_digit_char digit_char del: of_char_of)
  next
    case False
    then show ?thesis
      using 1[OF False]
      by (subst (1 2) dec_digits.simps) (simp add: dec_value_def is_digit_char digit_char del: of_char_of)
  qed
qed

lemma example_strtod: "strtod_decimal example_num_env"
proof -
  have "takeWhile is_digit (dec_digits n @ sf) = dec_digits n" if "sf \<in> {[], ''K'', ''M''}" for n sf
    using that dec_digits_read[of n] by (auto simp: list_all_iff is_digit_def takeWhile_append2)
  then show ?thesis using dec_digits_read by (simp add: strtod_decimal_def example_num_env_def Let_def)
qed

theorem block_size_roundtrip_witness:
  "strtod_decimal example_num_env \<and> parse_block_size example_num_env (format_block_size 65536) = Some 65536
   \<and> format_block_size 65536 = ''64K''"
proof -
  have "dec_digits 64 = ''64''" by code_simp
  then show ?thesis
    using block_size_roundtrip[OF example_strtod, of 65536] example_strtod by (simp add: format_block_size_def)
qed

end
