(* ===== verification/Bench_Run.thy ===== *)
theory Bench_Run
  imports Bench_Kernel Bench_Config
begin

text \<open>
  The run of the GPU-direct benchmark (\<^verbatim>\<open>main\<close> in \<^verbatim>\<open>bench/bench_gpu_direct.cu\<close>): the blocks it reads, the warm-up,
  the measured run, and the whole program on the simulator. A parameter \<open>ck\<close> tells, by source line, which of the checked
  CUDA calls succeed; \<^verbatim>\<open>CUDA_CHECK\<close> ends the process when one fails. What is measured is not modelled.
\<close>

section \<open>The blocks to read\<close>

definition bench_blocks_per_op :: "u64 \<Rightarrow> u32 \<Rightarrow> u32" where
  "bench_blocks_per_op block_size nvme_block_size =
    (let blocks_per_op = ucast (block_size div ucast nvme_block_size)
     in if blocks_per_op = 0 then 1 else blocks_per_op)"

definition bench_lba_limit :: "bench_config \<Rightarrow> u64 \<Rightarrow> u64" where
  "bench_lba_limit cfg max_lba = (if bc_max_lba cfg = 0 then max_lba else bc_max_lba cfg)"

definition bench_lba_range :: "u64 \<Rightarrow> u32 \<Rightarrow> u64" where
  "bench_lba_range limit blocks_per_op =
    (let lba_range = limit;
         lba_range = (if lba_range > ucast blocks_per_op then lba_range - ucast blocks_per_op else lba_range)
     in if lba_range = 0 then 1 else lba_range)"

text \<open>\<open>None\<close> is a division by zero, which ends the process.\<close>

definition bench_lba_array :: "(nat \<Rightarrow> u32) \<Rightarrow> u32 \<Rightarrow> u64 \<Rightarrow> bench_config \<Rightarrow> u64 list option" where
  "bench_lba_array rand nvme_block_size max_lba cfg =
    (if nvme_block_size = 0 then None
     else let blocks_per_op = bench_blocks_per_op (bc_block_size cfg) nvme_block_size;
              limit = bench_lba_limit cfg max_lba;
              n = unat (bc_num_ops cfg)
          in if bc_pattern cfg = ''seq''
             then (if limit = 0 then None
                   else Some (map (\<lambda>i. (bc_start_lba cfg + of_nat i * ucast blocks_per_op) mod limit) [0..<n]))
             else Some (map (\<lambda>i. random_lba rand i (bench_lba_range limit blocks_per_op)) [0..<n]))"

section \<open>Warm-up and run\<close>

definition bench_result_zero :: bench_result where
  "bench_result_zero = \<lparr>br_completed = 0, br_error_code = 0, br_cqe_status = 0, br_total_cycles = 0\<rparr>"

definition WARMUP_ITERATIONS :: nat where "WARMUP_ITERATIONS = 10"

text \<open>\<open>w\<close> warm-up runs are left. \<open>False\<close> is a failed run or a failed synchronisation.\<close>

fun bench_warmup ::
    "nat \<Rightarrow> nat \<Rightarrow> ('x qmem_scheme) gpu_env \<Rightarrow> (nat \<Rightarrow> bool) \<Rightarrow> bench_params \<Rightarrow> bench_result \<Rightarrow> u64 list \<Rightarrow> gpu_nvme_queue \<Rightarrow>
     'x qmem_scheme \<Rightarrow> nat \<Rightarrow> (bool \<times> bench_result \<times> u64 list \<times> gpu_nvme_queue \<times> 'x qmem_scheme \<times> nat) option" where
  "bench_warmup 0 fuel E ck p r lat q m t = Some (True, r, lat, q, m, t)"
| "bench_warmup (Suc w) fuel E ck p r lat q m t =
    (case bench_read_pipelined fuel E 0 0 q p bench_result_zero lat m t of
       None \<Rightarrow> None
     | Some (r, lat, q, m, t) \<Rightarrow>
         if \<not> ck 472 \<or> br_error_code r \<noteq> 0 then Some (False, r, lat, q, m, t)
         else bench_warmup w fuel E ck p r lat q m t)"

definition bench_measure ::
    "nat \<Rightarrow> ('x qmem_scheme) gpu_env \<Rightarrow> (nat \<Rightarrow> bool) \<Rightarrow> bench_params \<Rightarrow> gpu_nvme_queue \<Rightarrow> 'x qmem_scheme \<Rightarrow> nat \<Rightarrow>
     (bool \<times> bench_result \<times> u64 list \<times> gpu_nvme_queue \<times> 'x qmem_scheme \<times> nat) option" where
  "bench_measure fuel E ck p q m t =
    (let lat = replicate (unat (bp_num_ops p)) 0;
         warmup = p\<lparr>bp_num_ops := 1, bp_pipeline_depth := 1\<rparr>
     in case bench_warmup WARMUP_ITERATIONS fuel E ck warmup bench_result_zero lat q m t of
          None \<Rightarrow> None
        | Some (warmup_ok, r, lat, q, m, t) \<Rightarrow>
            if \<not> warmup_ok then Some (False, r, lat, q, m, t)
            else (case bench_read_pipelined fuel E 0 0 q p bench_result_zero (replicate (unat (bp_num_ops p)) 0) m t of
                    None \<Rightarrow> None
                  | Some (r, lat, q, m, t) \<Rightarrow> Some (ck 510 \<and> br_error_code r = 0, r, lat, q, m, t)))"

text \<open>The kernel's parameters, for buffers of the given slots.\<close>

definition bench_kernel_params :: "bench_config \<Rightarrow> u32 \<Rightarrow> u64 list \<Rightarrow> u64 list \<Rightarrow> u64 list \<Rightarrow> bench_params" where
  "bench_kernel_params cfg nvme_block_size lbas prp1_arr prp2_arr =
     \<lparr>bp_lba_array = lbas, bp_prp1_array = prp1_arr, bp_prp2_array = prp2_arr,
      bp_nlb_0based = bench_blocks_per_op (bc_block_size cfg) nvme_block_size - 1,
      bp_num_ops = bc_num_ops cfg, bp_pipeline_depth = bc_queue_depth cfg\<rparr>"

section \<open>The program on the simulator\<close>

definition bench_sim_cfg :: nvme_sim_config where
  "bench_sim_cfg = \<lparr>cfg_num_blocks = 1024 * 1024, cfg_block_size = 512, cfg_sq_size = 256, cfg_cq_size = 256,
     cfg_latency_us = 10\<rparr>"

definition bench_sim_queue :: "nvme_sim \<Rightarrow> gpu_nvme_queue" where
  "bench_sim_queue sim = \<lparr>q_data_buf_phys = nvme_sim_get_data_buf_phys sim, q_sq_size = nvme_sim_get_sq_size sim,
     q_cq_size = nvme_sim_get_cq_size sim, q_sq_tail = 0, q_cq_head = 0, q_qid = 1, q_cq_phase = 1, q_cid_counter = 0,
     q_nsid = 1, q_block_size = cfg_block_size bench_sim_cfg, q_pcie_flush = False, q_poll_timeout_cycles = 170000000\<rparr>"

definition bench_sim_prp1 :: "nvme_sim \<Rightarrow> bench_config \<Rightarrow> u64 list" where
  "bench_sim_prp1 sim cfg = map (\<lambda>i. nvme_sim_get_data_buf_phys sim + of_nat i * bc_block_size cfg) [0..<unat (bc_queue_depth cfg)]"

definition bench_sim_clamp :: "bench_config \<Rightarrow> bench_config" where
  "bench_sim_clamp cfg = (if bc_block_size cfg > 4096 then cfg\<lparr>bc_block_size := 4096\<rparr> else cfg)"

text \<open>The exit code as success or failure, with the outcome of the run when it was reached. \<open>None\<close> is a kernel that does not
  return within the fuel.\<close>

definition bench_main_sim ::
    "nat \<Rightarrow> nvme_sim gpu_env \<Rightarrow> (nat \<Rightarrow> bool) \<Rightarrow> sim_alloc_env \<Rightarrow> (nat \<Rightarrow> u32) \<Rightarrow> num_env \<Rightarrow> string list \<Rightarrow>
     (bool \<times> (bench_result \<times> u64 list \<times> gpu_nvme_queue \<times> nvme_sim \<times> nat) option) option" where
  "bench_main_sim fuel E ck A rand N args =
    (case parse_args N args of
       Inl code \<Rightarrow> Some (code = 0, None)
     | Inr cfg \<Rightarrow>
       if \<not> ck 159 \<or> \<not> ck 161 then Some (False, None)
       else (case nvme_sim_create A bench_sim_cfg of
          (None, _) \<Rightarrow> Some (False, None)
        | (Some sim, _) \<Rightarrow>
          let q = bench_sim_queue sim;
              cfg = bench_sim_clamp cfg;
              prp1_arr = bench_sim_prp1 sim cfg;
              prp2_arr = replicate (unat (bc_queue_depth cfg)) 0
          in if \<not> ck 200 \<or> \<not> ck 232 \<or> \<not> ck 233 then Some (False, None)
             else (case bench_lba_array rand (cfg_block_size bench_sim_cfg) (ucast (cfg_num_blocks bench_sim_cfg)) cfg of
                None \<Rightarrow> Some (False, None)
              | Some lbas \<Rightarrow>
                if \<not> list_all ck [426, 443, 444, 455, 463] then Some (False, None)
                else (case bench_measure fuel E ck
                        (bench_kernel_params cfg (cfg_block_size bench_sim_cfg) lbas prp1_arr prp2_arr) q sim 0 of
                   None \<Rightarrow> None
                 | Some (ok, z) \<Rightarrow> Some (ok \<and> list_all ck [570, 571, 572, 573, 574, 579, 580, 583], Some z)))))"

section \<open>The blocks are in range, or not\<close>

lemma blocks_per_op_pos: "0 < unat (bench_blocks_per_op bs nbs)"
  by (simp add: bench_blocks_per_op_def Let_def unat_gt_0)

lemma seq_lba_unat:
  assumes "unat (start :: u64) + i * unat b < 2 ^ 64" and "0 < limit"
  shows "unat ((start + of_nat i * ucast (b :: u32)) mod limit) = (unat start + i * unat b) mod unat limit"
proof -
  have lt: "i * unat b < 2 ^ 64" using assms(1) by simp
  have "unat (of_nat i * ucast b :: u64) = i * unat b"
  proof (cases "unat b = 0")
    case False
    then have "i < 2 ^ 64" using lt by (metis le_less_trans mult_le_mono2 nat_mult_1_right One_nat_def Suc_leI bot_nat_0.not_eq_extremum)
    then show ?thesis using lt by (simp add: unat_word_ariths unat_of_nat)
  qed (simp add: unat_eq_0)
  then show ?thesis using assms(1) by (simp add: unat_mod word_add_le_nat)
qed


definition example_bench_config :: bench_config where
  "example_bench_config = bench_config_init\<lparr>bc_num_ops := 3, bc_queue_depth := 2\<rparr>"


section \<open>A benchmark on the simulator\<close>

text \<open>All blocks of a run in range of the device, by the parameters of the kernel.\<close>

definition ops_in_range :: "nvme_sim_config \<Rightarrow> bench_params \<Rightarrow> bool" where
  "ops_in_range cfg p \<longleftrightarrow> unat (bp_nlb_0based p) < 65536
     \<and> (\<forall>i < unat (bp_num_ops p). unat (bp_lba_array p ! i) + unat (bp_nlb_0based p) + 1 \<le> unat (cfg_num_blocks cfg))"

lemma bench_plan_ok:
  assumes "ops_in_range cfg p" and "e \<in> set (bench_plan p cid nsid)"
  shows "cmd_nowrap e" and "sim_status cfg e = 0"
proof -
  obtain i where i: "i < unat (bp_num_ops p)" "e = bench_command p cid nsid i" using assms(2) by (auto simp: bench_plan_def)
  have nlb: "unat (ucast (bp_nlb_0based p) :: u16) = unat (bp_nlb_0based p)"
    using assms(1) by (simp add: ops_in_range_def unsigned_ucast_eq take_bit_nat_eq_self_iff)
  have r: "unat (bp_lba_array p ! i) + unat (bp_nlb_0based p) + 1 \<le> unat (cfg_num_blocks cfg)"
    using assms(1) i(1) by (simp add: ops_in_range_def)
  then show "cmd_nowrap e" using unat_bound[of "cfg_num_blocks cfg"] nlb
    by (simp add: i(2) bench_command_def Let_def cmd_nowrap_def)
  show "sim_status cfg e = 0"
    using r nlb by (simp add: i(2) bench_command_def Let_def sim_status_def is_data_cmd_def cmd_in_range_def NVME_SC_SUCCESS_def)
qed

lemma bench_read_ok:
  assumes dr: "drained q s" and env: "pipe_env fuel E" and fits: "queue_fits (bp_pipeline_depth p) (q_nsid q) q"
    and ok: "ops_in_range (s_cfg s) p"
  shows "\<exists>r lat' q' s' t'. bench_read_pipelined fuel E 0 0 q p r0 lat s t = Some (r, lat', q', s', t')
    \<and> br_error_code r = 0 \<and> br_completed r = bp_num_ops p \<and> length lat' = length lat \<and> drained q' s' \<and> same_queue q q'
    \<and> q_cid_counter q' = q_cid_counter q + of_nat (unat (bp_num_ops p))
    \<and> sim_view s' = fold view_effect (bench_plan p (q_cid_counter q) (q_nsid q)) (sim_view s)"
proof -
  let ?plan = "bench_plan p (q_cid_counter q) (q_nsid q)"
  have nw: "list_all cmd_nowrap ?plan" using bench_plan_ok(1)[OF ok] by (auto simp: list_all_iff)
  have st: "view_status (sim_view s) e = 0" if "e \<in> set ?plan" for e
    using bench_plan_ok(2)[OF ok that] by (simp add: view_status_def sim_view_def)
  obtain r lat' q' s' t' where run: "bench_read_pipelined fuel E 0 0 q p r0 lat s t = Some (r, lat', q', s', t')"
      "bench_outcome (sim_view s) ?plan (unat (bp_pipeline_depth p)) r (sim_view s')" "length lat' = length lat"
      "br_error_code r = 0 \<longrightarrow> drained q' s' \<and> same_queue q q' \<and> q_cid_counter q' = q_cid_counter q + of_nat (unat (bp_num_ops p))"
    using sim_bench_read[OF dr env fits nw, of r0 lat t] by blast
  have len: "length ?plan = unat (bp_num_ops p)" by (simp add: bench_plan_def)
  have "br_error_code r = 0 \<and> unat (br_completed r) = unat (bp_num_ops p) \<and> sim_view s' = fold view_effect ?plan (sim_view s)"
    using run(2) st len nth_mem unfolding bench_outcome_def Let_def by metis
  then show ?thesis using run by (auto simp: word_unat_eq_iff)
qed

lemma sim_view_cfg: "sim_view s' = fold view_effect es (sim_view s) \<Longrightarrow> s_cfg s' = s_cfg s"
  by (metis fst_conv fst_fold_view_effect sim_view_def)

text \<open>The commands of \<open>w\<close> warm-up runs from identifier \<open>cid\<close> on.\<close>

definition warmup_plan :: "nat \<Rightarrow> bench_params \<Rightarrow> u16 \<Rightarrow> u32 \<Rightarrow> nvme_sq_entry list" where
  "warmup_plan w p cid nsid = concat (map (\<lambda>k. bench_plan p (cid + of_nat k) nsid) [0..<w])"

lemma warmup_plan_Suc:
  "warmup_plan (Suc w) p cid nsid = bench_plan p cid nsid @ warmup_plan w p (cid + 1) nsid"
  unfolding warmup_plan_def upt_conv_Cons[OF zero_less_Suc] by (simp add: map_Suc_upt[symmetric] comp_def ac_simps del: upt_Suc)

lemma bench_warmup_ok:
  assumes env: "pipe_env fuel E" and ck: "\<forall>l. ck l" and one: "bp_num_ops p = 1"
  shows "\<lbrakk>drained q s; queue_fits (bp_pipeline_depth p) (q_nsid q) q; ops_in_range (s_cfg s) p\<rbrakk> \<Longrightarrow>
   \<exists>r' lat' q' s' t'. bench_warmup w fuel E ck p r lat q s t = Some (True, r', lat', q', s', t')
    \<and> drained q' s' \<and> same_queue q q' \<and> q_cid_counter q' = q_cid_counter q + of_nat w
    \<and> sim_view s' = fold view_effect (warmup_plan w p (q_cid_counter q) (q_nsid q)) (sim_view s)"
proof (induction w arbitrary: r lat q s t)
  case 0
  then show ?case by (simp add: same_queue_def warmup_plan_def)
next
  case (Suc w)
  obtain r1 lat1 q1 s1 t1 where run: "bench_read_pipelined fuel E 0 0 q p bench_result_zero lat s t = Some (r1, lat1, q1, s1, t1)"
      "br_error_code r1 = 0" "drained q1 s1" "same_queue q q1" "q_cid_counter q1 = q_cid_counter q + 1"
      "sim_view s1 = fold view_effect (bench_plan p (q_cid_counter q) (q_nsid q)) (sim_view s)"
    using bench_read_ok[OF Suc.prems(1) env Suc.prems(2,3), of bench_result_zero lat t] one by auto
  have cfg: "s_cfg s1 = s_cfg s" using sim_view_cfg[OF run(6)] .
  have nsid: "q_nsid q1 = q_nsid q" using run(4) by (simp add: same_queue_def)
  have fits: "queue_fits (bp_pipeline_depth p) (q_nsid q1) q1" using Suc.prems(2) run(4) by (simp add: queue_fits_def same_queue_def)
  have ok: "ops_in_range (s_cfg s1) p" using Suc.prems(3) cfg by simp
  show ?case
    using Suc.IH[OF run(3) fits ok, of r1 lat1 t1] run(1,2,4,5,6) ck nsid
    by (auto simp: warmup_plan_Suc same_queue_def ac_simps)
qed

lemma bench_sim_fresh:
  assumes "nvme_sim_create A bench_sim_cfg = (Some s, held)"
  shows "drained (bench_sim_queue s) s" and "s_cfg s = bench_sim_cfg"
    and "q_sq_size (bench_sim_queue s) = 256" and "q_cq_size (bench_sim_queue s) = 256"
proof -
  let ?q = "bench_sim_queue s"
  let ?y = "\<lparr>sys_q = ?q, sys_sim = s, sys_submitted = [], sys_consumed = []\<rparr>"
  have "fresh_queue ?q s" by (simp add: fresh_queue_def bench_sim_queue_def)
  then have init: "sys_init bench_sim_cfg ?y"
    by (intro sys_create[OF assms]) (simp_all add: bench_sim_cfg_def)
  then have "proto_inv [] 0 0 ?q s" using sys_init_inv(1)[OF init] by (simp add: sys_inv_def)
  moreover show cfg: "s_cfg s = bench_sim_cfg" using sys_init_inv(2)[OF init] by simp
  moreover show sz: "q_sq_size ?q = 256" "q_cq_size ?q = 256"
    using cfg by (simp_all add: bench_sim_queue_def nvme_sim_get_sq_size_def nvme_sim_get_cq_size_def bench_sim_cfg_def)
  ultimately show "drained ?q s" unfolding drained_def by (intro conjI exI[of _ "[]"]) simp_all
qed

lemma clamped_blocks_per_op: "unat (bench_blocks_per_op (bc_block_size (bench_sim_clamp cfg)) 512) \<le> 8"
proof -
  let ?b = "bc_block_size (bench_sim_clamp cfg)"
  have "unat ?b \<le> 4096" by (auto simp: bench_sim_clamp_def word_le_nat_alt not_less)
  then have "unat ?b div 512 \<le> 8" by linarith
  then have "unat (?b div 512) \<le> 8" by (simp add: unat_div)
  then have "unat (ucast (?b div 512) :: u32) \<le> 8" using order_trans[OF take_bit_nat_less_eq_self] by (simp add: unsigned_ucast_eq)
  then show ?thesis by (simp add: bench_blocks_per_op_def Let_def)
qed

text \<open>C25. The benchmark on the simulator, from its arguments to its exit code: when the arguments are accepted, the
  memory is there, the CUDA calls succeed, the controller gets its turns, the queue depth is below the simulator's 256
  entries and the blocks are in range, then the ten warm-up runs and the measured run return, every operation is reported completed,
  the exit code is success, the queue pair is drained again, and device and memory are what the reads, executed in
  submission order, make of the initial contents.\<close>

theorem bench_sim_completes:
  assumes "parse_args N args = Inr cfg0" and "\<forall>l. ck l" and "nvme_sim_create A bench_sim_cfg = (Some sim, held)"
    and "pipe_env fuel E" and "unat (bc_queue_depth cfg0) < 256"
    and "bench_lba_array rand 512 1048576 (bench_sim_clamp cfg0) = Some lbas"
    and "\<forall>l \<in> set lbas. unat l + unat (bench_blocks_per_op (bc_block_size (bench_sim_clamp cfg0)) 512) \<le> 1048576"
  defines "p \<equiv> bench_kernel_params (bench_sim_clamp cfg0) 512 lbas (bench_sim_prp1 sim (bench_sim_clamp cfg0))
      (replicate (unat (bc_queue_depth cfg0)) 0)"
  shows "\<exists>r lat q' s' t'. bench_main_sim fuel E ck A rand N args = Some (True, Some (r, lat, q', s', t'))
    \<and> br_error_code r = 0 \<and> br_completed r = bc_num_ops cfg0 \<and> length lat = unat (bc_num_ops cfg0) \<and> drained q' s'
    \<and> sim_view s' = fold view_effect
        (warmup_plan 10 (p\<lparr>bp_num_ops := 1, bp_pipeline_depth := 1\<rparr>) 0 1 @ bench_plan p 10 1) (sim_view sim)"
proof -
  let ?cfg = "bench_sim_clamp cfg0" and ?q = "bench_sim_queue sim"
  let ?w = "p\<lparr>bp_num_ops := 1, bp_pipeline_depth := 1\<rparr>" and ?z = "replicate (unat (bp_num_ops p)) (0 :: u64)"
  note fresh = bench_sim_fresh[OF assms(3)]
  have valid: "bc_queue_depth cfg0 \<noteq> 0" "bc_num_ops cfg0 \<noteq> 0" using parse_args_valid[OF assms(1)] by auto
  have keep: "bc_queue_depth ?cfg = bc_queue_depth cfg0" "bc_num_ops ?cfg = bc_num_ops cfg0"
    by (simp_all add: bench_sim_clamp_def)
  have ops: "bp_num_ops p = bc_num_ops cfg0" "bp_pipeline_depth p = bc_queue_depth cfg0" "bp_lba_array p = lbas"
    "bp_nlb_0based p = bench_blocks_per_op (bc_block_size ?cfg) 512 - 1"
    by (simp_all add: p_def bench_kernel_params_def keep)
  have nlb: "unat (bp_nlb_0based p) + 1 = unat (bench_blocks_per_op (bc_block_size ?cfg) 512)"
    using blocks_per_op_pos[of "bc_block_size ?cfg" 512] by (simp add: ops unat_minus_one unat_gt_0)
  have len: "length lbas = unat (bc_num_ops cfg0)" using assms(6) by (auto simp: bench_lba_array_def Let_def keep split: if_splits)
  have small: "unat (bp_nlb_0based p) < 65536" using clamped_blocks_per_op[of cfg0] nlb by simp
  have "unat (lbas ! i) + unat (bp_nlb_0based p) + 1 \<le> 1048576" if "i < unat (bc_num_ops cfg0)" for i
    using assms(7) nlb len that by (metis add.assoc nth_mem)
  then have ok: "ops_in_range (s_cfg sim) p"
    using small ops fresh(2) by (simp add: ops_in_range_def bench_sim_cfg_def)
  have okw: "ops_in_range (s_cfg sim) ?w"
    using ok valid(2) ops(1) by (auto simp: ops_in_range_def unat_gt_0)
  have fits: "queue_fits (bp_pipeline_depth ?w) (q_nsid ?q) ?q" "queue_fits (bp_pipeline_depth p) (q_nsid ?q) ?q"
    using fresh(3,4) assms(5) valid(1) ops by (simp_all add: queue_fits_def unat_gt_0)
  obtain r1 lat1 q1 s1 t1 where w: "bench_warmup 10 fuel E ck ?w bench_result_zero ?z ?q sim 0 = Some (True, r1, lat1, q1, s1, t1)"
      "drained q1 s1" "same_queue ?q q1" "q_cid_counter q1 = q_cid_counter ?q + of_nat 10"
      "sim_view s1 = fold view_effect (warmup_plan 10 ?w (q_cid_counter ?q) (q_nsid ?q)) (sim_view sim)"
    using bench_warmup_ok[OF assms(4,2) _ fresh(1) fits(1) okw, where w = 10 and r = bench_result_zero and lat = ?z and t = 0]
    by auto
  have "queue_fits (bp_pipeline_depth p) (q_nsid q1) q1" using fits(2) w(3) by (simp add: queue_fits_def same_queue_def)
  moreover have "ops_in_range (s_cfg s1) p" using ok sim_view_cfg[OF w(5)] by simp
  ultimately obtain r lat q' s' t' where m: "bench_read_pipelined fuel E 0 0 q1 p bench_result_zero ?z s1 t1 = Some (r, lat, q', s', t')"
      "br_error_code r = 0" "br_completed r = bp_num_ops p" "length lat = length ?z" "drained q' s'"
      "sim_view s' = fold view_effect (bench_plan p (q_cid_counter q1) (q_nsid q1)) (sim_view s1)"
    using bench_read_ok[OF w(2) assms(4), of p bench_result_zero ?z t1] by blast
  have "bench_measure fuel E ck p ?q sim 0 = Some (True, r, lat, q', s', t')"
    using w(1) m(1,2) assms(2) by (simp add: bench_measure_def WARMUP_ITERATIONS_def)
  then have "bench_main_sim fuel E ck A rand N args = Some (True, Some (r, lat, q', s', t'))"
    using assms(1-3,6) by (simp add: bench_main_sim_def p_def Let_def bench_sim_cfg_def keep)
  moreover have "q_cid_counter ?q = 0" "q_nsid ?q = 1" by (simp_all add: bench_sim_queue_def)
  ultimately show ?thesis using m w(3-5) ops by (simp add: same_queue_def)
qed

theorem bench_sim_completes_witness:
  "\<exists>sim r z. nvme_sim_create example_alloc bench_sim_cfg = (Some sim, [RSim, RVdev, RSq, RCq, RDoorbells, RDataBuf, RBar0, RThread])
   \<and> bench_main_sim 1 example_env (\<lambda>_. True) example_alloc (\<lambda>_. 0) example_num_env [''--num-ops'', ''2''] = Some (True, Some (r, z))
   \<and> br_completed r = 2"
proof -
  let ?cfg = "bench_config_init\<lparr>bc_num_ops := 2\<rparr>"
  obtain sim where sim: "nvme_sim_create example_alloc bench_sim_cfg = (Some sim, [RSim, RVdev, RSq, RCq, RDoorbells, RDataBuf, RBar0, RThread])"
    by (simp add: nvme_sim_create_def example_alloc_def Let_def)
  have "ne_atoi example_num_env ''2'' = 2"
    by (simp add: example_num_env_def dec_value_def is_digit_def of_char_def)
  then have args: "parse_args example_num_env [''--num-ops'', ''2''] = Inr ?cfg"
    by (simp add: parse_args_def bench_config_init_def)
  have clamp: "bench_sim_clamp ?cfg = ?cfg" by (simp add: bench_sim_clamp_def bench_config_init_def)
  have bpo: "bench_blocks_per_op 4096 512 = 8" by (simp add: bench_blocks_per_op_def)
  have lbas: "bench_lba_array (\<lambda>_. 0) 512 1048576 (bench_sim_clamp ?cfg) = Some [0, 8]"
    unfolding clamp by (simp add: bench_lba_array_def bench_config_init_def bench_lba_limit_def bpo upt_rec Let_def)
  have qd: "unat (bc_queue_depth ?cfg) < 256" by (simp add: bench_config_init_def)
  have range: "\<forall>l \<in> set [0, 8]. unat (l :: u64) + unat (bench_blocks_per_op (bc_block_size (bench_sim_clamp ?cfg)) 512) \<le> 1048576"
    unfolding clamp by (simp add: bench_config_init_def bpo)
  obtain r lat q' s' t' where "bench_main_sim 1 example_env (\<lambda>_. True) example_alloc (\<lambda>_. 0) example_num_env [''--num-ops'', ''2'']
      = Some (True, Some (r, lat, q', s', t'))" "br_completed r = bc_num_ops ?cfg"
    using bench_sim_completes[OF args _ sim example_pipe_env qd lbas range, of "\<lambda>_. True"] by blast
  then show ?thesis using sim by auto
qed

end
