(* ===== verification/Bench_Hw.thy ===== *)
theory Bench_Hw
  imports Loader_Session Bench_Run
begin

text \<open>
  The GPU-direct benchmark on real hardware (\<^verbatim>\<open>main\<close> in \<^verbatim>\<open>bench/bench_gpu_direct.cu\<close> without the simulator):
  set-up of BAR0, controller, queue pair, data buffer and PRP entries, the runs, and the clean-up with its labels, over
  histories as in the layer loader. A result \<open>None\<close> is a process that ends in the middle: a failed \<^verbatim>\<open>CUDA_CHECK\<close> or
  a division by zero. The kernel launches are a parameter: the result structure that the \<open>k\<close>-th launch leaves, or
  nothing when the synchronisation after it fails; \<open>ck\<close> tells which of the other checked CUDA calls succeed.
\<close>

section \<open>State\<close>

text \<open>The variables of \<^verbatim>\<open>main\<close>; a NULL pointer is 0. The memory behind the PRP pointers is a \<open>layer_mem\<close>.\<close>

record bench_hw =
  bh_cfg :: bench_config
  bh_bar0 :: u64
  bh_bar_size :: u64
  bh_ctrl :: gpunvme_ctrl
  bh_ioq :: gpunvme_io_queue
  bh_data_buf :: u64
  bh_data_buf_size :: u64
  bh_prp_pool :: u64
  bh_prp_pool_bytes :: u64
  bh_prp1_arr :: u64
  bh_prp2_arr :: u64

type_synonym bench_launch = "nat \<Rightarrow> hev list \<Rightarrow> bench_params \<Rightarrow> bench_result option"

section \<open>Clean-up\<close>

definition bench_unmap :: "bench_hw \<Rightarrow> unit host" where
  "bench_unmap b = do { log_ev (HUnregister (bh_bar0 b)); host_free Mapping (bh_bar0 b); log_ev HClose }"

definition bench_stop :: "henv \<Rightarrow> bench_hw \<Rightarrow> unit host" where
  "bench_stop E b = do {
     (_, c, _) \<leftarrow> gpunvme_delete_io_queue E (Some (bh_ctrl b)) (Some (bh_ioq b));
     _ \<leftarrow> gpunvme_ctrl_shutdown E c;
     bench_unmap b
   }"

definition bench_cleanup_hw_done :: "henv \<Rightarrow> bench_hw \<Rightarrow> unit host" where
  "bench_cleanup_hw_done E b = do {
     unpin_buffer (bh_prp_pool b) (bh_prp_pool_bytes b);
     unpin_buffer (bh_data_buf b) (bh_data_buf_size b);
     bench_stop E b
   }"

definition bench_cleanup_hw :: "henv \<Rightarrow> bench_hw \<Rightarrow> bool option host" where
  "bench_cleanup_hw E b = do { bench_cleanup_hw_done E b; State_Monad.return (Some False) }"

section \<open>PRP entries of the buffer slots\<close>

definition bench_pages_per_op :: "bench_hw \<Rightarrow> u32" where
  "bench_pages_per_op b = ucast ((bc_block_size (bh_cfg b) + ucast (c_page_size (bh_ctrl b)) - 1) div ucast (c_page_size (bh_ctrl b)))"

text \<open>The pages of a slot. \<open>False\<close> is an address that cannot be resolved.\<close>

fun bench_pages_loop :: "nat \<Rightarrow> henv \<Rightarrow> u64 \<Rightarrow> u32 \<Rightarrow> u32 \<Rightarrow> u32 \<Rightarrow> u32 \<Rightarrow> layer_mem \<Rightarrow> (bool \<times> layer_mem) host" where
  "bench_pages_loop 0 E chunk page_size pages_per_op slot p mem = State_Monad.return (True, mem)"
| "bench_pages_loop (Suc n) E chunk page_size pages_per_op slot p mem = do {
     phys \<leftarrow> virt_to_phys_pagemap E (chunk + ucast p * ucast page_size);
     if phys = 0 then State_Monad.return (False, mem)
     else bench_pages_loop n E chunk page_size pages_per_op slot (p + 1)
       (if p = 0 then mem\<lparr>lm_prp1 := (lm_prp1 mem)[unat slot := phys]\<rparr>
        else if pages_per_op = 2 then mem\<lparr>lm_prp2 := (lm_prp2 mem)[unat slot := phys]\<rparr>
        else mem\<lparr>lm_pool := (lm_pool mem)(list_base slot + unat (p - 1) := phys)\<rparr>)
   }"

fun bench_slots_loop :: "nat \<Rightarrow> henv \<Rightarrow> bench_hw \<Rightarrow> u32 \<Rightarrow> layer_mem \<Rightarrow> (bool \<times> layer_mem) host" where
  "bench_slots_loop 0 E b slot mem = State_Monad.return (True, mem)"
| "bench_slots_loop (Suc n) E b slot mem = do {
     let pages = bench_pages_per_op b;
     let chunk = bh_data_buf b + ucast slot * bc_block_size (bh_cfg b);
     (ok, mem) \<leftarrow> bench_pages_loop (unat pages) E chunk (c_page_size (bh_ctrl b)) pages slot 0 mem;
     if \<not> ok then State_Monad.return (False, mem)
     else if pages \<le> 1 then bench_slots_loop n E b (slot + 1) (mem\<lparr>lm_prp2 := (lm_prp2 mem)[unat slot := 0]\<rparr>)
     else if pages > 2 then do {
       phys \<leftarrow> virt_to_phys_pagemap E (bh_prp_pool b + ucast slot * 4096);
       let mem = mem\<lparr>lm_prp2 := (lm_prp2 mem)[unat slot := phys]\<rparr>;
       if phys = 0 then State_Monad.return (False, mem)
       else bench_slots_loop n E b (slot + 1) mem
     } else bench_slots_loop n E b (slot + 1) mem
   }"

section \<open>Checked allocations\<close>

text \<open>A sequence of \<^verbatim>\<open>CUDA_CHECK(cudaMallocHost(...))\<close>; \<open>None\<close> when one fails.\<close>

fun cuda_malloc_all :: "henv \<Rightarrow> u64 list \<Rightarrow> u64 list option host" where
  "cuda_malloc_all E [] = State_Monad.return (Some [])"
| "cuda_malloc_all E (n # ns) = do {
     r \<leftarrow> host_alloc E Pinned n;
     case r of
       None \<Rightarrow> State_Monad.return None
     | Some p \<Rightarrow> do {
         r \<leftarrow> cuda_malloc_all E ns;
         State_Monad.return (map_option (\<lambda>ps. p # ps) r)
       }
   }"

text \<open>A sequence of \<^verbatim>\<open>CUDA_CHECK(cudaFreeHost(...))\<close>, by source line.\<close>

fun cuda_free_all :: "(nat \<Rightarrow> bool) \<Rightarrow> (nat \<times> u64) list \<Rightarrow> bool host" where
  "cuda_free_all ck [] = State_Monad.return True"
| "cuda_free_all ck ((line, p) # ps) = do {
     host_free Pinned p;
     if \<not> ck line then State_Monad.return False else cuda_free_all ck ps
   }"

section \<open>The runs\<close>

definition sizeof_bench_params :: u64 where "sizeof_bench_params = 40"
definition sizeof_bench_result :: u64 where "sizeof_bench_result = 24"

fun bench_hw_warmup :: "nat \<Rightarrow> nat \<Rightarrow> bench_launch \<Rightarrow> hev list \<Rightarrow> bench_params \<Rightarrow> bool option" where
  "bench_hw_warmup 0 k launch h p = Some True"
| "bench_hw_warmup (Suc w) k launch h p =
    (case launch k h p of
       None \<Rightarrow> None
     | Some r \<Rightarrow> if br_error_code r \<noteq> 0 then Some False else bench_hw_warmup w (Suc k) launch h p)"

definition bench_hw_measure :: "bench_launch \<Rightarrow> hev list \<Rightarrow> bench_params \<Rightarrow> bool option" where
  "bench_hw_measure launch h p =
    (case bench_hw_warmup WARMUP_ITERATIONS 0 launch h (p\<lparr>bp_num_ops := 1, bp_pipeline_depth := 1\<rparr>) of
       None \<Rightarrow> None
     | Some warmup_ok \<Rightarrow>
         if \<not> warmup_ok then Some False
         else map_option (\<lambda>r. br_error_code r = 0) (launch WARMUP_ITERATIONS h p))"

text \<open>From the block array to the end of \<^verbatim>\<open>main\<close>.\<close>

definition bench_hw_run ::
    "henv \<Rightarrow> (nat \<Rightarrow> bool) \<Rightarrow> bench_launch \<Rightarrow> (nat \<Rightarrow> u32) \<Rightarrow> bench_hw \<Rightarrow> layer_mem \<Rightarrow> bool option host" where
  "bench_hw_run E ck launch rand b mem =
    (let cfg = bh_cfg b; nbs = c_block_size (bh_ctrl b); bytes = ucast (bc_num_ops cfg) * 8
     in case bench_lba_array rand nbs (ucast (c_ns_size_blocks (bh_ctrl b))) cfg of
          None \<Rightarrow> State_Monad.return None
        | Some lbas \<Rightarrow> do {
            r \<leftarrow> cuda_malloc_all E [bytes, sizeof_bench_params, sizeof_bench_result, bytes, sizeof_bench_params];
            h \<leftarrow> State_Monad.get;
            case r of
              Some [lba, params, result, latency, warmup] \<Rightarrow>
                (case bench_hw_measure launch h (bench_kernel_params cfg nbs lbas (lm_prp1 mem) (lm_prp2 mem)) of
                   None \<Rightarrow> State_Monad.return None
                 | Some ok \<Rightarrow> do {
                     freed \<leftarrow> cuda_free_all ck [(570, warmup), (571, lba), (572, params), (573, result), (574, latency),
                       (579, bh_prp1_arr b), (580, bh_prp2_arr b)];
                     if \<not> freed then State_Monad.return None
                     else do { bench_cleanup_hw_done E b; State_Monad.return (Some ok) }
                   })
            | _ \<Rightarrow> State_Monad.return None
          })"

section \<open>Set-up\<close>

text \<open>Page-aligned memory, locked and registered; both results are ignored by the code.\<close>

definition bench_pin_buffer :: "henv \<Rightarrow> u64 \<Rightarrow> u64 option host" where
  "bench_pin_buffer E n = do {
     r \<leftarrow> host_alloc E Aligned n;
     case r of
       None \<Rightarrow> State_Monad.return None
     | Some p \<Rightarrow> do {
         log_ev (HMlock p n);
         _ \<leftarrow> cuda_host_register E p n;
         log_ev (HMemset p n);
         State_Monad.return (Some p)
       }
   }"

definition bench_prp_zero :: "u32 \<Rightarrow> layer_mem" where
  "bench_prp_zero depth = \<lparr>lm_pool = (\<lambda>_. 0), lm_prp1 = replicate (unat depth) 0, lm_prp2 = replicate (unat depth) 0\<rparr>"

definition bench_build_prps :: "henv \<Rightarrow> (nat \<Rightarrow> bool) \<Rightarrow> bench_launch \<Rightarrow> (nat \<Rightarrow> u32) \<Rightarrow> bench_hw \<Rightarrow> bool option host" where
  "bench_build_prps E ck launch rand b = do {
     opened \<leftarrow> ask (he_pagemap E) HOpen;
     if \<not> opened then bench_cleanup_hw E b
     else do {
       let depth = bc_queue_depth (bh_cfg b);
       (ok, mem) \<leftarrow> bench_slots_loop (unat depth) E b 0 (bench_prp_zero depth);
       log_ev HClose;
       if \<not> ok then bench_cleanup_hw E b else bench_hw_run E ck launch rand b mem
     }
   }"

definition bench_hw_prps :: "henv \<Rightarrow> (nat \<Rightarrow> bool) \<Rightarrow> bench_launch \<Rightarrow> (nat \<Rightarrow> u32) \<Rightarrow> bench_hw \<Rightarrow> bool option host" where
  "bench_hw_prps E ck launch rand b = do {
     let depth = bc_queue_depth (bh_cfg b);
     r \<leftarrow> cuda_malloc_all E [ucast depth * 8, ucast depth * 8];
     case r of
       Some [prp1, prp2] \<Rightarrow>
         let b = b\<lparr>bh_prp1_arr := prp1, bh_prp2_arr := prp2\<rparr>
         in if c_page_size (bh_ctrl b) = 0 then State_Monad.return None
            else if bench_pages_per_op b > 2 then do {
              let b = b\<lparr>bh_prp_pool_bytes := ucast depth * 4096\<rparr>;
              r \<leftarrow> bench_pin_buffer E (bh_prp_pool_bytes b);
              case r of
                None \<Rightarrow> bench_cleanup_hw E b
              | Some pool \<Rightarrow> bench_build_prps E ck launch rand (b\<lparr>bh_prp_pool := pool\<rparr>)
            } else bench_build_prps E ck launch rand b
     | _ \<Rightarrow> State_Monad.return None
   }"

definition bench_queue_size :: "u32 \<Rightarrow> u16" where
  "bench_queue_size pipeline_depth = (let queue_size = ucast (pipeline_depth + 4) in if queue_size < 16 then 16 else queue_size)"

definition bench_mdts_clamp :: "u32 \<Rightarrow> bench_config \<Rightarrow> bench_config" where
  "bench_mdts_clamp max_transfer_bytes cfg =
    (if bc_block_size cfg > ucast max_transfer_bytes then cfg\<lparr>bc_block_size := ucast max_transfer_bytes\<rparr> else cfg)"

definition bench_hw_queue :: "henv \<Rightarrow> (nat \<Rightarrow> bool) \<Rightarrow> bench_launch \<Rightarrow> (nat \<Rightarrow> u32) \<Rightarrow> bench_hw \<Rightarrow> bool option host" where
  "bench_hw_queue E ck launch rand b = do {
     (err, c, q) \<leftarrow> gpunvme_create_io_queue E (Some (bh_ctrl b)) 1 (bench_queue_size (bc_queue_depth (bh_cfg b))) 4096
       GPUNVME_TIER1 (Some (bh_ioq b));
     if err \<noteq> GPUNVME_OK then do {
       _ \<leftarrow> gpunvme_ctrl_shutdown E c;
       bench_unmap b;
       State_Monad.return (Some False)
     } else do {
       let b = b\<lparr>bh_ctrl := the c, bh_ioq := the q,
         bh_data_buf_size := ucast (bc_queue_depth (bh_cfg b)) * bc_block_size (bh_cfg b)\<rparr>;
       r \<leftarrow> bench_pin_buffer E (bh_data_buf_size b);
       case r of
         None \<Rightarrow> do { bench_stop E b; State_Monad.return (Some False) }
       | Some data_buf \<Rightarrow> bench_hw_prps E ck launch rand (b\<lparr>bh_data_buf := data_buf\<rparr>)
     }
   }"

text \<open>The controller and queue records are uninitialised variables in the code; the initial zeros are never read.\<close>

definition bench_main_hw ::
    "henv \<Rightarrow> file_env \<Rightarrow> (nat \<Rightarrow> bool) \<Rightarrow> bench_launch \<Rightarrow> (nat \<Rightarrow> u32) \<Rightarrow> num_env \<Rightarrow> string list \<Rightarrow> bool option host" where
  "bench_main_hw E F ck launch rand N args =
    (case parse_args N args of
       Inl code \<Rightarrow> State_Monad.return (Some (code = 0))
     | Inr cfg \<Rightarrow>
       if \<not> ck 159 \<or> \<not> ck 161 then State_Monad.return None
       else do {
         opened \<leftarrow> open_path F (sysfs_path (bc_device cfg) ''resource0'');
         if \<not> opened then State_Monad.return (Some False)
         else do {
           h \<leftarrow> State_Monad.get;
           let bar_size = fe_size F h;
           r \<leftarrow> host_alloc E Mapping bar_size;
           case r of
             None \<Rightarrow> do { log_ev HClose; State_Monad.return (Some False) }
           | Some bar0 \<Rightarrow> do {
               registered \<leftarrow> cuda_host_register E bar0 bar_size;
               if \<not> registered then do {
                 host_free Mapping bar0;
                 log_ev HClose;
                 State_Monad.return (Some False)
               } else do {
                 h \<leftarrow> State_Monad.get;
                 let gpu_bar0 = fe_device_pointer F h bar0;
                 (err, c) \<leftarrow> gpunvme_ctrl_init E (Some ctrl_zero) bar0 bar_size;
                 let b = \<lparr>bh_cfg = cfg, bh_bar0 = bar0, bh_bar_size = bar_size, bh_ctrl = the c, bh_ioq = io_queue_zero,
                   bh_data_buf = 0, bh_data_buf_size = 0, bh_prp_pool = 0, bh_prp_pool_bytes = 0,
                   bh_prp1_arr = 0, bh_prp2_arr = 0\<rparr>;
                 if err \<noteq> GPUNVME_OK then do { bench_unmap b; State_Monad.return (Some False) }
                 else let c = (the c)\<lparr>c_bar0_gpu := gpu_bar0\<rparr>
                      in bench_hw_queue E ck launch rand
                           (b\<lparr>bh_ctrl := c, bh_cfg := bench_mdts_clamp (c_max_transfer_bytes c) cfg\<rparr>)
               }
             }
         }
       })"
section \<open>What the steps keep and give back\<close>

lemma virt_to_phys_keeps: "resources (snd (run_state (virt_to_phys_pagemap E v) h)) = resources h"
  by (simp add: virt_to_phys_pagemap_def Let_def)

lemma bench_pages_loop_keeps:
  "resources (snd (run_state (bench_pages_loop n E chunk ps pages slot p mem) h)) = resources h"
proof (induction n arbitrary: p mem h)
  case (Suc n)
  obtain x h1 where x: "run_state (virt_to_phys_pagemap E (chunk + ucast p * ucast ps)) h = (x, h1)" by (metis surj_pair)
  then have "resources h1 = resources h" using virt_to_phys_keeps by (metis snd_conv)
  then show ?case using x Suc.IH by simp
qed simp

lemma bench_slots_loop_keeps: "resources (snd (run_state (bench_slots_loop n E b slot mem) h)) = resources h"
proof (induction n arbitrary: slot mem h)
  case (Suc n)
  let ?pages = "bench_pages_per_op b"
  obtain ok m1 h1 where 1: "run_state (bench_pages_loop (unat ?pages) E (bh_data_buf b + ucast slot * bc_block_size (bh_cfg b))
      (c_page_size (bh_ctrl b)) ?pages slot 0 mem) h = ((ok, m1), h1)" by (metis surj_pair)
  obtain x h2 where 2: "run_state (virt_to_phys_pagemap E (bh_prp_pool b + ucast slot * 4096)) h1 = (x, h2)" by (metis surj_pair)
  have "resources h1 = resources h" "resources h2 = resources h1"
    using 1 2 bench_pages_loop_keeps virt_to_phys_keeps by (metis snd_conv)+
  then show ?case using 1 2 Suc.IH by (simp add: Let_def)
qed simp

lemma cuda_malloc_all_owns:
  assumes "nonnull_alloc E"
  shows "run_state (cuda_malloc_all E ns) h1 = (Some ps, h2) \<Longrightarrow> owns M R f h h1 \<Longrightarrow>
    length ps = length ns \<and> owns (image_mset (Pair Pinned) (mset ps) + M) R f h h2"
proof (induction ns arbitrary: ps h1 M)
  case Nil
  then show ?case by auto
next
  case (Cons n ns)
  then obtain p qs where p: "he_alloc E h1 Pinned n = Some p" "ps = p # qs"
      "run_state (cuda_malloc_all E ns) (HAlloc Pinned n (Some p) # h1) = (Some qs, h2)"
    by (auto simp: host_alloc_def split: option.splits prod.splits)
  then show ?case
    using Cons.IH[OF p(3) owns_alloc[OF Cons.prems(2)]] by simp
qed

lemma cuda_free_all_owns:
  "run_state (cuda_free_all ck lps) h1 = (True, h2) \<Longrightarrow>
    owns (image_mset (Pair Pinned) (mset (map snd lps)) + M) R f h h1 \<Longrightarrow> owns M R f h h2"
proof (induction lps arbitrary: h1)
  case (Cons lp lps)
  then obtain line p where "lp = (line, p)" "ck line"
      "run_state (cuda_free_all ck lps) (HFree Pinned p # h1) = (True, h2)"
    by (cases lp) (auto simp: host_free_def split: if_splits)
  then show ?case using Cons by (auto intro: owns_free)
qed simp

declare cuda_malloc_all.simps(2) [simp del] cuda_free_all.simps(2) [simp del]

text \<open>What a set-up benchmark owns, besides further memory \<open>M\<close>.\<close>

definition bench_linked :: "bench_hw \<Rightarrow> bool" where
  "bench_linked b \<longleftrightarrow> c_bar0 (bh_ctrl b) \<noteq> 0 \<and> c_admin_sq (bh_ctrl b) \<noteq> 0 \<and> c_admin_cq (bh_ctrl b) \<noteq> 0
     \<and> iq_sq (bh_ioq b) \<noteq> 0 \<and> iq_cq (bh_ioq b) \<noteq> 0 \<and> iq_tier (bh_ioq b) = GPUNVME_TIER1"

definition bench_memory :: "bench_hw \<Rightarrow> (mem_kind \<times> u64) multiset" where
  "bench_memory b = iq_memory (bh_ioq b) + (admin_memory (bh_ctrl b) + {#(Mapping, bh_bar0 b)#})"

definition bench_registrations :: "bench_hw \<Rightarrow> u64 multiset" where
  "bench_registrations b = iq_registrations (bh_ioq b) + {#bh_bar0 b#}"

definition bench_owns :: "hev list \<Rightarrow> bench_hw \<Rightarrow> (mem_kind \<times> u64) multiset \<Rightarrow> hev list \<Rightarrow> bool" where
  "bench_owns h b M h' \<longleftrightarrow> bench_linked b \<and> (\<exists>Rp Rd.
     owns (opt_mem Aligned (bh_prp_pool b) + (opt_mem Aligned (bh_data_buf b) + (bench_memory b + M)))
       (Rp + (Rd + bench_registrations b)) 1 h h'
     \<and> buffer_registration (bh_prp_pool b) Rp (Rd + bench_registrations b + mset (registered h))
     \<and> buffer_registration (bh_data_buf b) Rd (bench_registrations b + mset (registered h)))"

lemma bench_owns_keeps:
  assumes "resources h2 = resources h1" and "bench_owns h b M h1"
  shows "bench_owns h b M h2"
  using assms(2) unfolding bench_owns_def owns_resources[OF assms(1)] .

lemma bench_unmap_owns:
  "owns (add_mset (Mapping, bh_bar0 b) M) (add_mset (bh_bar0 b) R) (f + 1) h h1 \<Longrightarrow> owns M R f h (snd (run_state (bench_unmap b) h1))"
  by (simp add: bench_unmap_def host_free_def owns_def)

lemma bench_stop_owns:
  assumes "owns (bench_memory b + M) (bench_registrations b + R) (f + 1) h h1" and "bench_linked b"
  shows "owns M R f h (snd (run_state (bench_stop E b) h1))"
proof -
  have o: "owns (iq_memory (bh_ioq b) + (admin_memory (bh_ctrl b) + add_mset (Mapping, bh_bar0 b) M))
      (iq_registrations (bh_ioq b) + add_mset (bh_bar0 b) R) (f + 1) h h1"
    using assms(1) by (simp add: bench_memory_def bench_registrations_def ac_simps)
  obtain e c2 h2 where 1: "run_state (gpunvme_delete_io_queue E (Some (bh_ctrl b)) (Some (bh_ioq b))) h1 = ((e, Some c2, Some io_queue_zero), h2)"
      "ctrl_core c2 = ctrl_core (bh_ctrl b)"
      "owns (admin_memory (bh_ctrl b) + add_mset (Mapping, bh_bar0 b) M) (add_mset (bh_bar0 b) R) (f + 1) h h2"
    by (rule delete_queue_owns[OF o, of E "bh_ctrl b"]) (use assms(2) in \<open>simp_all add: bench_linked_def\<close>)
  have c2: "admin_memory c2 = admin_memory (bh_ctrl b)" "c_bar0 c2 \<noteq> 0" "c_admin_sq c2 \<noteq> 0" "c_admin_cq c2 \<noteq> 0"
    using assms(2) ctrl_core_eqD[OF 1(2)] by (simp_all add: bench_linked_def admin_memory_def)
  obtain c3 h3 where 2: "run_state (gpunvme_ctrl_shutdown E (Some c2)) h2 = ((GPUNVME_OK, Some c3), h3)"
      "owns (add_mset (Mapping, bh_bar0 b) M) (add_mset (bh_bar0 b) R) (f + 1) h h3"
    by (rule shutdown_owns[OF 1(3)[folded c2(1)] c2(2-4), of E])
  show ?thesis using 1(1) 2(1) bench_unmap_owns[OF 2(2)] by (simp add: bench_stop_def)
qed

lemma bench_cleanup_owns:
  assumes "bench_owns h b M h1"
  shows "owns M {#} 0 h (snd (run_state (bench_cleanup_hw_done E b) h1))"
proof -
  obtain Rp Rd where lk: "bench_linked b"
    and o: "owns (opt_mem Aligned (bh_prp_pool b) + (opt_mem Aligned (bh_data_buf b) + (bench_memory b + M)))
       (Rp + (Rd + bench_registrations b)) 1 h h1"
    and rp: "buffer_registration (bh_prp_pool b) Rp (Rd + bench_registrations b + mset (registered h))"
    and rd: "buffer_registration (bh_data_buf b) Rd (bench_registrations b + mset (registered h))"
    using assms unfolding bench_owns_def by blast
  obtain h2 where h2: "run_state (unpin_buffer (bh_prp_pool b) (bh_prp_pool_bytes b)) h1 = ((), h2)"
    by (cases "run_state (unpin_buffer (bh_prp_pool b) (bh_prp_pool_bytes b)) h1") auto
  obtain h3 where h3: "run_state (unpin_buffer (bh_data_buf b) (bh_data_buf_size b)) h2 = ((), h3)"
    by (cases "run_state (unpin_buffer (bh_data_buf b) (bh_data_buf_size b)) h2") auto
  have "owns (opt_mem Aligned (bh_data_buf b) + (bench_memory b + M)) (Rd + bench_registrations b) 1 h h2"
    using unpin_buffer_owns[OF o rp, of "bh_prp_pool_bytes b"] h2 by simp
  from unpin_buffer_owns[OF this rd, of "bh_data_buf_size b"] have "owns (bench_memory b + M) (bench_registrations b + {#}) (0 + 1) h h3"
    using h3 by simp
  from bench_stop_owns[OF this lk] show ?thesis using h2 h3 by (simp add: bench_cleanup_hw_done_def)
qed

lemma bench_pin_buffer_owns:
  assumes "run_state (bench_pin_buffer E n) h1 = (r, h2)" and "nonnull_alloc E" and "fresh_alloc E" and "owns M R f h h1"
  shows "case r of None \<Rightarrow> owns M R f h h2
    | Some p \<Rightarrow> p \<noteq> 0 \<and> (\<exists>Rp. buffer_registration p Rp (R + mset (registered h)) \<and> owns (opt_mem Aligned p + M) (Rp + R) f h h2)"
proof (cases "he_alloc E h1 Aligned n")
  case None
  then show ?thesis using assms(1,4) by (auto simp: bench_pin_buffer_def host_alloc_def)
next
  case (Some p)
  let ?b = "he_register E (HMlock p n # HAlloc Aligned n (Some p) # h1) p"
  let ?Rp = "if ?b then {#p#} else {#}"
  have p0: "p \<noteq> 0" using nonnull_allocD[OF assms(2) Some] .
  have r: "r = Some p" "h2 = HMemset p n # HRegister p n ?b # HMlock p n # HAlloc Aligned n (Some p) # h1"
    using assms(1) Some by (auto simp: bench_pin_buffer_def host_alloc_def cuda_host_register_def)
  have "?b \<or> p \<notin># mset (registered h1)" using assms(3) Some by (auto simp: fresh_alloc_def)
  moreover have "mset (registered h1) = R + mset (registered h)" using assms(4) by (simp add: owns_def)
  ultimately have "buffer_registration p ?Rp (R + mset (registered h))" using p0 by (auto simp: buffer_registration_def)
  moreover have "owns (opt_mem Aligned p + M) (?Rp + R) f h h2"
    using assms(4) p0 unfolding r(2) opt_mem_def by (auto intro!: owns_register owns_alloc)
  ultimately show ?thesis using p0 r(1) by auto
qed

section \<open>Every way the program ends\<close>

text \<open>Memory that an unsuccessful run may leave: two pinned blocks.\<close>

definition bench_ended :: "hev list \<Rightarrow> bool option \<times> hev list \<Rightarrow> bool" where
  "bench_ended h z \<longleftrightarrow> (case z of (None, h') \<Rightarrow> True
     | (Some ok, h') \<Rightarrow> \<exists>M. owns M {#} 0 h h' \<and> (M = {#} \<or> \<not> ok \<and> (\<exists>p q. M = {#(Pinned, p), (Pinned, q)#})))"

lemma bench_ended_none [simp]: "bench_ended h (None, h')"
  by (simp add: bench_ended_def)

lemma bench_ended_clean: "owns {#} {#} 0 h h' \<Longrightarrow> bench_ended h (Some ok, h')"
  by (auto simp: bench_ended_def)

text \<open>The two PRP arrays, which the label does not free.\<close>

definition bench_arrays :: "bench_hw \<Rightarrow> (mem_kind \<times> u64) multiset" where
  "bench_arrays b = {#(Pinned, bh_prp1_arr b), (Pinned, bh_prp2_arr b)#}"

lemma bench_cleanup_hw_ended:
  assumes "bench_owns h b (bench_arrays b) h1"
  shows "bench_ended h (run_state (bench_cleanup_hw E b) h1)"
proof -
  obtain h2 where h2: "run_state (bench_cleanup_hw_done E b) h1 = ((), h2)"
    by (cases "run_state (bench_cleanup_hw_done E b) h1") auto
  then have "owns (bench_arrays b) {#} 0 h h2" using bench_cleanup_owns[OF assms, of E] by simp
  then show ?thesis using h2 by (auto simp: bench_cleanup_hw_def bench_ended_def bench_arrays_def)
qed

lemma length_five: "length xs = 5 \<longleftrightarrow> (\<exists>a b c d e. xs = [a, b, c, d, e])"
  by (auto simp: numeral_eq_Suc length_Suc_conv)

lemma length_two: "length xs = 2 \<longleftrightarrow> (\<exists>a b. xs = [a, b])"
  by (auto simp: numeral_eq_Suc length_Suc_conv)

lemma bench_owns_take:
  assumes "bench_owns h b M h1" and "\<And>M' R f. owns M' R f h h1 \<Longrightarrow> owns (X + M') R f h h2"
  shows "bench_owns h b (X + M) h2"
proof -
  obtain Rp Rd where lk: "bench_linked b"
    and o: "owns (opt_mem Aligned (bh_prp_pool b) + (opt_mem Aligned (bh_data_buf b) + (bench_memory b + M)))
       (Rp + (Rd + bench_registrations b)) 1 h h1"
    and reg: "buffer_registration (bh_prp_pool b) Rp (Rd + bench_registrations b + mset (registered h))"
      "buffer_registration (bh_data_buf b) Rd (bench_registrations b + mset (registered h))"
    using assms(1) unfolding bench_owns_def by blast
  have "owns (opt_mem Aligned (bh_prp_pool b) + (opt_mem Aligned (bh_data_buf b) + (bench_memory b + (X + M))))
       (Rp + (Rd + bench_registrations b)) 1 h h2"
    using assms(2)[OF o] by (simp only: ac_simps)
  then show ?thesis using lk reg unfolding bench_owns_def by blast
qed

lemma bench_owns_give:
  assumes "bench_owns h b (X + M) h1" and "\<And>M' R f. owns (X + M') R f h h1 \<Longrightarrow> owns M' R f h h2"
  shows "bench_owns h b M h2"
proof -
  obtain Rp Rd where lk: "bench_linked b"
    and o: "owns (opt_mem Aligned (bh_prp_pool b) + (opt_mem Aligned (bh_data_buf b) + (bench_memory b + (X + M))))
       (Rp + (Rd + bench_registrations b)) 1 h h1"
    and reg: "buffer_registration (bh_prp_pool b) Rp (Rd + bench_registrations b + mset (registered h))"
      "buffer_registration (bh_data_buf b) Rd (bench_registrations b + mset (registered h))"
    using assms(1) unfolding bench_owns_def by blast
  have "owns (X + (opt_mem Aligned (bh_prp_pool b) + (opt_mem Aligned (bh_data_buf b) + (bench_memory b + M))))
       (Rp + (Rd + bench_registrations b)) 1 h h1"
    using o by (simp only: ac_simps)
  from assms(2)[OF this] show ?thesis using lk reg unfolding bench_owns_def by blast
qed

lemma bench_hw_run_ended:
  assumes o: "bench_owns h b (bench_arrays b) h1" and nz: "nonnull_alloc E"
  shows "bench_ended h (run_state (bench_hw_run E ck launch rand b mem) h1)"
proof (cases "bench_lba_array rand (c_block_size (bh_ctrl b)) (ucast (c_ns_size_blocks (bh_ctrl b))) (bh_cfg b)")
  case None
  then show ?thesis by (simp add: bench_hw_run_def Let_def)
next
  case (Some lbas)
  let ?bytes = "ucast (bc_num_ops (bh_cfg b)) * 8 :: u64"
  let ?ns = "[?bytes, sizeof_bench_params, sizeof_bench_result, ?bytes, sizeof_bench_params]"
  obtain r h2 where r: "run_state (cuda_malloc_all E ?ns) h1 = (r, h2)" by (metis surj_pair)
  show ?thesis
  proof (cases r)
    case None
    then show ?thesis using Some r by (simp add: bench_hw_run_def Let_def)
  next
    case ps: (Some ps)
    note own = cuda_malloc_all_owns[OF nz r[unfolded ps]]
    have "length ps = 5" using own o unfolding bench_owns_def by fastforce
    then obtain lba params result latency warmup where five: "ps = [lba, params, result, latency, warmup]"
      by (auto simp: length_five)
    let ?p = "bench_kernel_params (bh_cfg b) (c_block_size (bh_ctrl b)) lbas (lm_prp1 mem) (lm_prp2 mem)"
    let ?free = "[(570, warmup), (571, lba), (572, params), (573, result), (574, latency), (579, bh_prp1_arr b), (580, bh_prp2_arr b)]"
    show ?thesis
    proof (cases "bench_hw_measure launch h2 ?p")
      case None
      then show ?thesis using Some r ps five by (simp add: bench_hw_run_def Let_def)
    next
      case ok: (Some ok)
      obtain freed h3 where f: "run_state (cuda_free_all ck ?free) h2 = (freed, h3)" by (metis surj_pair)
      obtain h4 where h4: "run_state (bench_cleanup_hw_done E b) h3 = ((), h4)"
        by (cases "run_state (bench_cleanup_hw_done E b) h3") auto
      have run: "run_state (bench_hw_run E ck launch rand b mem) h1 = (if freed then (Some ok, h4) else (None, h3))"
        using Some r ps five ok f h4 by (simp add: bench_hw_run_def Let_def)
      show ?thesis
      proof (cases freed)
        case True
        have "bench_owns h b (image_mset (Pair Pinned) (mset ps) + bench_arrays b) h2"
          using o by (rule bench_owns_take) (use own in blast)
        moreover have "image_mset (Pair Pinned) (mset ps) + bench_arrays b = image_mset (Pair Pinned) (mset (map snd ?free)) + {#}"
          by (simp add: five bench_arrays_def)
        ultimately have "bench_owns h b (image_mset (Pair Pinned) (mset (map snd ?free)) + {#}) h2" by simp
        then have "bench_owns h b {#} h3"
          by (rule bench_owns_give) (rule cuda_free_all_owns, use f True in simp)
        from bench_cleanup_owns[OF this, of E] show ?thesis unfolding run using True h4 by (simp add: bench_ended_clean)
      qed (simp add: run)
    qed
  qed
qed

lemma bench_build_prps_ended:
  assumes o: "bench_owns h b (bench_arrays b) h1" and nz: "nonnull_alloc E"
  shows "bench_ended h (run_state (bench_build_prps E ck launch rand b) h1)"
proof (cases "he_pagemap E h1")
  case False
  have "bench_owns h b (bench_arrays b) (HOpen False # h1)"
    using o unfolding bench_owns_def by simp
  from bench_cleanup_hw_ended[OF this] show ?thesis using False by (simp add: bench_build_prps_def)
next
  case True
  let ?m = "bench_prp_zero (bc_queue_depth (bh_cfg b))"
  obtain ok mem h2 where h2: "run_state (bench_slots_loop (unat (bc_queue_depth (bh_cfg b))) E b 0 ?m) (HOpen True # h1) = ((ok, mem), h2)"
    by (metis surj_pair)
  then have "resources h2 = resources (HOpen True # h1)" using bench_slots_loop_keeps by (metis snd_conv)
  then have "resources (HClose # h2) = resources h1" by (simp add: resources_def)
  from bench_owns_keeps[OF this o] have o2: "bench_owns h b (bench_arrays b) (HClose # h2)" .
  have run: "run_state (bench_build_prps E ck launch rand b) h1 =
      (if ok then run_state (bench_hw_run E ck launch rand b mem) (HClose # h2) else run_state (bench_cleanup_hw E b) (HClose # h2))"
    using True h2 by (simp add: bench_build_prps_def Let_def)
  show ?thesis
    unfolding run using bench_hw_run_ended[OF o2 nz] bench_cleanup_hw_ended[OF o2] by simp
qed

text \<open>A buffer that is pinned joins what the benchmark owns.\<close>

lemma bench_hw_prps_ended:
  assumes o: "bench_owns h b {#} h1" and z: "bh_prp_pool b = 0" and nz: "nonnull_alloc E" and fresh: "fresh_alloc E"
  shows "bench_ended h (run_state (bench_hw_prps E ck launch rand b) h1)"
proof -
  let ?n = "ucast (bc_queue_depth (bh_cfg b)) * 8 :: u64"
  obtain r h2 where r: "run_state (cuda_malloc_all E [?n, ?n]) h1 = (r, h2)" by (metis surj_pair)
  show ?thesis
  proof (cases r)
    case None
    then show ?thesis using r by (simp add: bench_hw_prps_def Let_def)
  next
    case (Some ps)
    note own = cuda_malloc_all_owns[OF nz r[unfolded Some]]
    have "length ps = 2" using own o unfolding bench_owns_def by fastforce
    then obtain p1 p2 where two: "ps = [p1, p2]" by (auto simp: length_two)
    let ?b = "b\<lparr>bh_prp1_arr := p1, bh_prp2_arr := p2\<rparr>"
    let ?size = "ucast (bc_queue_depth (bh_cfg b)) * 4096 :: u64"
    have "bench_owns h b (image_mset (Pair Pinned) (mset ps) + {#}) h2"
      using o by (rule bench_owns_take) (use own in blast)
    moreover have "bench_owns h ?b M h2 = bench_owns h b M h2" for M
      by (simp add: bench_owns_def bench_linked_def bench_memory_def bench_registrations_def)
    ultimately have o2: "bench_owns h ?b (bench_arrays ?b) h2" by (simp add: two bench_arrays_def)
    have run: "run_state (bench_hw_prps E ck launch rand b) h1 =
        (if c_page_size (bh_ctrl b) = 0 then (None, h2)
         else if bench_pages_per_op ?b > 2 then run_state (do {
           r \<leftarrow> bench_pin_buffer E ?size;
           case r of
             None \<Rightarrow> bench_cleanup_hw E (?b\<lparr>bh_prp_pool_bytes := ?size\<rparr>)
           | Some pool \<Rightarrow> bench_build_prps E ck launch rand (?b\<lparr>bh_prp_pool_bytes := ?size, bh_prp_pool := pool\<rparr>) }) h2
         else run_state (bench_build_prps E ck launch rand ?b) h2)"
      using r Some two by (simp add: bench_hw_prps_def Let_def)
    have pool: "bench_ended h (run_state (do {
           r \<leftarrow> bench_pin_buffer E ?size;
           case r of
             None \<Rightarrow> bench_cleanup_hw E (?b\<lparr>bh_prp_pool_bytes := ?size\<rparr>)
           | Some pool \<Rightarrow> bench_build_prps E ck launch rand (?b\<lparr>bh_prp_pool_bytes := ?size, bh_prp_pool := pool\<rparr>) }) h2)"
    proof -
      obtain r3 h3 where r3: "run_state (bench_pin_buffer E ?size) h2 = (r3, h3)" by (metis surj_pair)
      obtain Rd where ow: "owns (opt_mem Aligned (bh_data_buf b) + (bench_memory b + bench_arrays ?b)) (Rd + bench_registrations b) 1 h h2"
        and rd: "buffer_registration (bh_data_buf b) Rd (bench_registrations b + mset (registered h))" and lk: "bench_linked b"
        using o2 z by (auto simp: bench_owns_def buffer_registration_def opt_mem_def bench_memory_def bench_registrations_def bench_linked_def)
      have owned: "bench_owns h (?b\<lparr>bh_prp_pool_bytes := n, bh_prp_pool := pool\<rparr>) (bench_arrays ?b) h3"
        if "owns (opt_mem Aligned pool + (opt_mem Aligned (bh_data_buf b) + (bench_memory b + bench_arrays ?b)))
              (Rp + (Rd + bench_registrations b)) 1 h h3"
          "buffer_registration pool Rp (Rd + bench_registrations b + mset (registered h))" for n pool Rp
        unfolding bench_owns_def using that rd lk
        by (intro conjI exI[of _ Rp] exI[of _ Rd]) (simp_all add: bench_linked_def bench_memory_def bench_registrations_def)
      note pin = bench_pin_buffer_owns[OF r3 nz fresh ow]
      show ?thesis
      proof (cases r3)
        case None
        have "bench_owns h (?b\<lparr>bh_prp_pool_bytes := ?size, bh_prp_pool := 0\<rparr>) (bench_arrays ?b) h3"
          by (rule owned[of 0 "{#}"]) (use pin None in \<open>simp_all add: opt_mem_def buffer_registration_def\<close>)
        moreover have "?b\<lparr>bh_prp_pool_bytes := ?size, bh_prp_pool := 0\<rparr> = ?b\<lparr>bh_prp_pool_bytes := ?size\<rparr>"
          using z by (cases b) simp
        ultimately have "bench_owns h (?b\<lparr>bh_prp_pool_bytes := ?size\<rparr>) (bench_arrays (?b\<lparr>bh_prp_pool_bytes := ?size\<rparr>)) h3"
          by (simp add: bench_arrays_def)
        from bench_cleanup_hw_ended[OF this] show ?thesis using r3 None by simp
      next
        case (Some pool)
        then obtain Rp where "buffer_registration pool Rp (Rd + bench_registrations b + mset (registered h))"
            "owns (opt_mem Aligned pool + (opt_mem Aligned (bh_data_buf b) + (bench_memory b + bench_arrays ?b)))
              (Rp + (Rd + bench_registrations b)) 1 h h3"
          using pin by auto
        from owned[OF this(2,1), of ?size]
        have "bench_owns h (?b\<lparr>bh_prp_pool_bytes := ?size, bh_prp_pool := pool\<rparr>)
            (bench_arrays (?b\<lparr>bh_prp_pool_bytes := ?size, bh_prp_pool := pool\<rparr>)) h3" by (simp add: bench_arrays_def)
        from bench_build_prps_ended[OF this nz] show ?thesis using r3 Some by simp
      qed
    qed
    show ?thesis unfolding run using pool bench_build_prps_ended[OF o2 nz] by simp
  qed
qed

lemma bench_queue_size_pos: "bench_queue_size d \<noteq> 0"
  by (auto simp: bench_queue_size_def Let_def)

lemma bench_hw_queue_ended:
  assumes o: "owns (admin_memory (bh_ctrl b) + {#(Mapping, bh_bar0 b)#}) {#bh_bar0 b#} 1 h h1"
    and c0: "c_bar0 (bh_ctrl b) \<noteq> 0" "c_admin_sq (bh_ctrl b) \<noteq> 0" "c_admin_cq (bh_ctrl b) \<noteq> 0"
    and z: "bh_prp_pool b = 0" and nz: "nonnull_alloc E" and fresh: "fresh_alloc E"
  shows "bench_ended h (run_state (bench_hw_queue E ck launch rand b) h1)"
proof -
  let ?qs = "bench_queue_size (bc_queue_depth (bh_cfg b))" and ?n = "ucast (bc_queue_depth (bh_cfg b)) * bc_block_size (bh_cfg b)"
  obtain err c' q' h2 where create:
      "run_state (gpunvme_create_io_queue E (Some (bh_ctrl b)) 1 ?qs 4096 GPUNVME_TIER1 (Some (bh_ioq b))) h1 = ((err, Some c', Some q'), h2)"
    by (cases "run_state (iq_create_body E (bh_ctrl b) 1 ?qs 4096 GPUNVME_TIER1) h1")
      (auto simp: gpunvme_create_io_queue_def bench_queue_size_pos split: prod.splits)
  have core: "ctrl_core c' = ctrl_core (bh_ctrl b)"
    using create_queue_body[OF create _ bench_queue_size_pos] iq_create_core nz by simp
  have adm: "admin_memory c' = admin_memory (bh_ctrl b)" "c_bar0 c' \<noteq> 0" "c_admin_sq c' \<noteq> 0" "c_admin_cq c' \<noteq> 0"
    using ctrl_core_eqD[OF core] c0 by (simp_all add: admin_memory_def)
  let ?b = "b\<lparr>bh_ctrl := c', bh_ioq := q', bh_data_buf_size := ?n\<rparr>"
  have run: "run_state (bench_hw_queue E ck launch rand b) h1 = run_state (
      if err \<noteq> GPUNVME_OK then do { _ \<leftarrow> gpunvme_ctrl_shutdown E (Some c'); bench_unmap b; State_Monad.return (Some False) }
      else do {
        r \<leftarrow> bench_pin_buffer E ?n;
        case r of
          None \<Rightarrow> do { bench_stop E ?b; State_Monad.return (Some False) }
        | Some data_buf \<Rightarrow> bench_hw_prps E ck launch rand (?b\<lparr>bh_data_buf := data_buf\<rparr>)
      }) h2"
    using create by (simp add: bench_hw_queue_def Let_def)
  show ?thesis
  proof (cases "err = GPUNVME_OK")
    case False
    have "resources h2 = resources h1" using create_fails[OF create False nz] by blast
    then have "owns (admin_memory c' + {#(Mapping, bh_bar0 b)#}) {#bh_bar0 b#} 1 h h2"
      using o unfolding adm(1) by (rule releases_core)
    then obtain c3 h3 where h3: "run_state (gpunvme_ctrl_shutdown E (Some c')) h2 = ((GPUNVME_OK, Some c3), h3)"
        "owns {#(Mapping, bh_bar0 b)#} {#bh_bar0 b#} 1 h h3"
      by (rule shutdown_owns[where E = E]) (use adm in simp_all)
    obtain h4 where h4: "run_state (bench_unmap b) h3 = ((), h4)" by (cases "run_state (bench_unmap b) h3") auto
    have "owns {#} {#} 0 h h4" using bench_unmap_owns[of b "{#}" "{#}" 0 h h3] h3(2) h4 by simp
    then show ?thesis unfolding run using False h3(1) h4 by (simp add: bench_ended_clean)
  next
    case True
    note iq = iq_created[OF create[unfolded True] nz]
    have ow: "owns (bench_memory ?b) (bench_registrations ?b) 1 h h2"
      using iq_resources_owns[of h2 q' h1, OF _ o] iq adm(1) by (simp add: bench_memory_def bench_registrations_def)
    have lk: "bench_linked ?b" using iq adm by (auto simp: bench_linked_def)
    obtain r h3 where r: "run_state (bench_pin_buffer E ?n) h2 = (r, h3)" by (metis surj_pair)
    note pin = bench_pin_buffer_owns[OF r nz fresh ow]
    show ?thesis
    proof (cases r)
      case None
      obtain h4 where h4: "run_state (bench_stop E ?b) h3 = ((), h4)" by (cases "run_state (bench_stop E ?b) h3") auto
      have "owns {#} {#} 0 h h4" using bench_stop_owns[of ?b "{#}" "{#}" 0 h h3 E] pin None lk h4 by simp
      then show ?thesis unfolding run using True r None h4 by (simp add: bench_ended_clean)
    next
      case (Some d)
      then obtain Rd where "owns (opt_mem Aligned d + bench_memory ?b) (Rd + bench_registrations ?b) 1 h h3"
          "buffer_registration d Rd (bench_registrations ?b + mset (registered h))" using pin by auto
      then have "bench_owns h (?b\<lparr>bh_data_buf := d\<rparr>) {#} h3"
        unfolding bench_owns_def using lk z
        by (intro conjI exI[of _ "{#}"] exI[of _ Rd])
          (simp_all add: bench_linked_def bench_memory_def bench_registrations_def opt_mem_def buffer_registration_def)
      from bench_hw_prps_ended[OF this _ nz fresh] show ?thesis unfolding run using True r Some z by simp
    qed
  qed
qed

lemma bench_main_hw_ended:
  assumes nz: "nonnull_alloc E" and fresh: "fresh_alloc E"
  shows "bench_ended h (run_state (bench_main_hw E F ck launch rand N args) h)"
proof (cases "parse_args N args")
  case (Inl code)
  then show ?thesis by (simp add: bench_main_hw_def bench_ended_clean owns_refl)
next
  case (Inr cfg)
  let ?path = "sysfs_path (bc_device cfg) ''resource0''" and ?n = "fe_size F (HOpen True # h)"
  show ?thesis
  proof (cases "ck 159 \<and> ck 161 \<and> fe_open F h ?path")
    case False
    then show ?thesis using Inr
      by (auto simp: bench_main_hw_def open_path_def bench_ended_clean owns_refl)
  next
    case True
    show ?thesis
    proof (cases "he_alloc E (HOpen True # h) Mapping ?n")
      case None
      then show ?thesis using Inr True
        by (simp add: bench_main_hw_def open_path_def host_alloc_def bench_ended_clean owns_def Let_def)
    next
      case (Some bar0)
      have b0: "bar0 \<noteq> 0" using nonnull_allocD[OF nz Some] .
      let ?h1 = "HAlloc Mapping ?n (Some bar0) # HOpen True # h"
      show ?thesis
      proof (cases "he_register E ?h1 bar0")
        case False
        then show ?thesis using Inr True Some
          by (simp add: bench_main_hw_def open_path_def host_alloc_def cuda_host_register_def host_free_def bench_ended_clean owns_def Let_def)
      next
        case reg: True
        let ?h2 = "HRegister bar0 ?n True # ?h1"
        have o: "owns {#(Mapping, bar0)#} {#bar0#} 1 h ?h2" by (simp add: owns_def)
        obtain err c h3 where init: "run_state (gpunvme_ctrl_init E (Some ctrl_zero) bar0 ?n) ?h2 = ((err, c), h3)" by (metis surj_pair)
        let ?b = "\<lparr>bh_cfg = cfg, bh_bar0 = bar0, bh_bar_size = ?n, bh_ctrl = the c, bh_ioq = io_queue_zero,
                   bh_data_buf = 0, bh_data_buf_size = 0, bh_prp_pool = 0, bh_prp_pool_bytes = 0,
                   bh_prp1_arr = 0, bh_prp2_arr = 0\<rparr>"
        let ?c = "(the c)\<lparr>c_bar0_gpu := fe_device_pointer F ?h2 bar0\<rparr>"
        let ?b2 = "?b\<lparr>bh_ctrl := ?c, bh_cfg := bench_mdts_clamp (c_max_transfer_bytes ?c) cfg\<rparr>"
        have run: "run_state (bench_main_hw E F ck launch rand N args) h = run_state (
            if err \<noteq> GPUNVME_OK then do { bench_unmap ?b; State_Monad.return (Some False) }
            else bench_hw_queue E ck launch rand ?b2) h3"
          using Inr True Some reg init
          by (simp add: bench_main_hw_def open_path_def host_alloc_def cuda_host_register_def Let_def)
        show ?thesis
        proof (cases "err = GPUNVME_OK")
          case False
          have "\<exists>M. owns (add_mset (Mapping, bar0) M) {#bar0#} 1 h h3 \<and> (M = {#} \<or> (\<exists>p q. M = {#(Pinned, p), (Pinned, q)#}))"
            using ctrl_init_resources[OF init b0]
          proof (elim disjE conjE exE)
            assume "resources h3 = resources ?h2"
            from releases_core[OF this o] show ?thesis by (intro exI[of _ "{#}"]) simp
          next
            fix c' assume "holds_admin ?h2 c' h3"
            from holds_admin_owns[OF this o] show ?thesis
              by (intro exI[of _ "admin_memory c'"]) (auto simp: admin_memory_def)
          qed
          then obtain M where M: "owns (add_mset (Mapping, bar0) M) {#bar0#} 1 h h3"
              "M = {#} \<or> (\<exists>p q. M = {#(Pinned, p), (Pinned, q)#})" by blast
          obtain h4 where h4: "run_state (bench_unmap ?b) h3 = ((), h4)" by (cases "run_state (bench_unmap ?b) h3") auto
          have "owns M {#} 0 h h4" using bench_unmap_owns[of ?b M "{#}" 0 h h3] M(1) h4 by simp
          then show ?thesis unfolding run using False h4 M(2) by (auto simp: bench_ended_def)
        next
          case ok: True
          note init' = init[unfolded ok]
          obtain c' where c': "c = Some c'" "c_bar0 c' = bar0" "holds_admin ?h2 c' h3"
            using ctrl_init_ok[OF init' b0] ctrl_init_resources[OF init' b0] by auto
          have "c_admin_sq c' \<noteq> 0" "c_admin_cq c' \<noteq> 0" using ctrl_init_nonnull[OF _ b0 nz] init' c'(1) by auto
          then have "bench_ended h (run_state (bench_hw_queue E ck launch rand ?b2) h3)"
            using holds_admin_owns[OF c'(3) o] c' b0
            by (intro bench_hw_queue_ended nz fresh) (simp_all add: admin_memory_def)
          then show ?thesis unfolding run using ok by simp
        qed
      qed
    qed
  qed
qed

end
