(* ===== verification/Bench_Session.thy ===== *)
theory Bench_Session
  imports Bench_Hw
begin

text \<open>
  What the benchmark on real hardware does: it runs to a successful end on a working machine, gives back what it took
  however it returns, and hands the controller the pages of the data buffer.
\<close>

section \<open>A run on a working machine\<close>

lemma memory_nonnull: "memory_available E \<Longrightarrow> nonnull_alloc E"
  unfolding memory_available_def nonnull_alloc_def by (metis option.inject)

lemma cuda_malloc_all_works:
  assumes "\<And>h k n. \<exists>p. he_alloc E h k n = Some p"
  shows "\<exists>ps h'. run_state (cuda_malloc_all E ns) h = (Some ps, h') \<and> length ps = length ns"
proof (induction ns arbitrary: h)
  case (Cons n ns)
  obtain p where p: "he_alloc E h Pinned n = Some p" using assms by blast
  obtain ps h' where "run_state (cuda_malloc_all E ns) (HAlloc Pinned n (Some p) # h) = (Some ps, h')" "length ps = length ns"
    using Cons.IH by blast
  then show ?case using p by (simp add: cuda_malloc_all.simps(2) host_alloc_def)
qed simp

lemma cuda_free_all_works: "\<forall>l. ck l \<Longrightarrow> \<exists>h'. run_state (cuda_free_all ck lps) h = (True, h')"
proof (induction lps arbitrary: h)
  case (Cons lp lps)
  then show ?case by (cases lp) (simp add: cuda_free_all.simps(2) host_free_def)
qed simp

lemma bench_pin_buffer_works:
  assumes "\<And>h k n. \<exists>p. he_alloc E h k n = Some p"
  shows "\<exists>p h'. run_state (bench_pin_buffer E n) h = (Some p, h')"
proof -
  obtain p where "he_alloc E h Aligned n = Some p" using assms by blast
  then show ?thesis by (simp add: bench_pin_buffer_def host_alloc_def cuda_host_register_def)
qed

lemma bench_measure_works:
  assumes "\<forall>k h p. \<exists>r. launch k h p = Some r \<and> br_error_code r = 0"
  shows "bench_hw_measure launch h p = Some True"
proof -
  have one: "\<exists>r. launch k h p' = Some r \<and> br_error_code r = 0" for k p' using assms by blast
  have "bench_hw_warmup w k launch h p' = Some True" for w k p'
  proof (induction w arbitrary: k)
    case (Suc w)
    obtain r where "launch k h p' = Some r" "br_error_code r = 0" using one by blast
    then show ?case using Suc by simp
  qed simp
  moreover obtain r where "launch WARMUP_ITERATIONS h p = Some r" "br_error_code r = 0" using one by blast
  ultimately show ?thesis by (simp add: bench_hw_measure_def)
qed

lemma bench_pages_loop_works:
  assumes "\<And>v h. fst (run_state (virt_to_phys_pagemap E v) h) \<noteq> 0"
  shows "\<exists>mem' h'. run_state (bench_pages_loop n E chunk ps pages slot p mem) h = ((True, mem'), h')"
proof (induction n arbitrary: p mem h)
  case (Suc n)
  obtain x h1 where "run_state (virt_to_phys_pagemap E (chunk + ucast p * ucast ps)) h = (x, h1)" by (metis surj_pair)
  moreover from this have "x \<noteq> 0" using assms by (metis fst_conv)
  ultimately show ?case using Suc.IH by simp
qed simp

lemma bench_slots_loop_works:
  assumes "\<And>v h. fst (run_state (virt_to_phys_pagemap E v) h) \<noteq> 0"
  shows "\<exists>mem' h'. run_state (bench_slots_loop n E b slot mem) h = ((True, mem'), h')"
proof (induction n arbitrary: slot mem h)
  case (Suc n)
  let ?pages = "bench_pages_per_op b"
  obtain m1 h1 where 1: "run_state (bench_pages_loop (unat ?pages) E (bh_data_buf b + ucast slot * bc_block_size (bh_cfg b))
      (c_page_size (bh_ctrl b)) ?pages slot 0 mem) h = ((True, m1), h1)"
    using bench_pages_loop_works[OF assms] by blast
  obtain x h2 where 2: "run_state (virt_to_phys_pagemap E (bh_prp_pool b + ucast slot * 4096)) h1 = (x, h2)" by (metis surj_pair)
  then have "x \<noteq> 0" using assms by (metis fst_conv)
  then show ?case using 1 2 Suc.IH by (simp add: Let_def)
qed simp

lemma bench_build_prps_works:
  assumes mem: "\<And>h k n. \<exists>p. he_alloc E h k n = Some p" and pm: "\<And>h. he_pagemap E h"
    and phys: "\<And>v h. fst (run_state (virt_to_phys_pagemap E v) h) \<noteq> 0" and ck: "\<forall>l. ck l"
    and la: "\<forall>k h p. \<exists>r. launch k h p = Some r \<and> br_error_code r = 0"
    and lim: "bc_max_lba (bh_cfg b) \<noteq> 0" "c_block_size (bh_ctrl b) \<noteq> 0"
  shows "\<exists>h'. run_state (bench_build_prps E ck launch rand b) h = (Some True, h')"
proof -
  obtain m h1 where 1: "run_state (bench_slots_loop (unat (bc_queue_depth (bh_cfg b))) E b 0 (bench_prp_zero (bc_queue_depth (bh_cfg b))))
      (HOpen True # h) = ((True, m), h1)"
    using bench_slots_loop_works[OF phys] by blast
  have "bench_lba_array rand (c_block_size (bh_ctrl b)) (ucast (c_ns_size_blocks (bh_ctrl b))) (bh_cfg b) \<noteq> None"
    using lim by (simp add: bench_lba_array_def bench_lba_limit_def Let_def)
  then obtain lbas where lbas: "bench_lba_array rand (c_block_size (bh_ctrl b)) (ucast (c_ns_size_blocks (bh_ctrl b))) (bh_cfg b) = Some lbas"
    by blast
  let ?bytes = "ucast (bc_num_ops (bh_cfg b)) * 8 :: u64"
  let ?ns = "[?bytes, sizeof_bench_params, sizeof_bench_result, ?bytes, sizeof_bench_params]"
  obtain ps h2 where "run_state (cuda_malloc_all E ?ns) (HClose # h1) = (Some ps, h2)" "length ps = length ?ns"
    using cuda_malloc_all_works[OF mem] by blast
  then obtain lba params result latency warmup where
      2: "run_state (cuda_malloc_all E ?ns) (HClose # h1) = (Some [lba, params, result, latency, warmup], h2)"
    using length_five[of ps] by auto
  let ?free = "[(570, warmup), (571, lba), (572, params), (573, result), (574, latency), (579, bh_prp1_arr b), (580, bh_prp2_arr b)]"
  obtain h3 where 3: "run_state (cuda_free_all ck ?free) h2 = (True, h3)" using cuda_free_all_works[OF ck] by blast
  obtain h4 where 4: "run_state (bench_cleanup_hw_done E b) h3 = ((), h4)"
    by (cases "run_state (bench_cleanup_hw_done E b) h3") auto
  have "run_state (bench_hw_run E ck launch rand b m) (HClose # h1) = (Some True, h4)"
    using lbas 2 3 4 bench_measure_works[OF la] by (simp add: bench_hw_run_def Let_def)
  then show ?thesis using 1 pm by (simp add: bench_build_prps_def Let_def)
qed

lemma bench_hw_prps_works:
  assumes mem: "\<And>h k n. \<exists>p. he_alloc E h k n = Some p" and pm: "\<And>h. he_pagemap E h"
    and phys: "\<And>v h. fst (run_state (virt_to_phys_pagemap E v) h) \<noteq> 0" and ck: "\<forall>l. ck l"
    and la: "\<forall>k h p. \<exists>r. launch k h p = Some r \<and> br_error_code r = 0"
    and lim: "bc_max_lba (bh_cfg b) \<noteq> 0" "c_block_size (bh_ctrl b) \<noteq> 0" "c_page_size (bh_ctrl b) \<noteq> 0"
  shows "\<exists>h'. run_state (bench_hw_prps E ck launch rand b) h = (Some True, h')"
proof -
  let ?n = "ucast (bc_queue_depth (bh_cfg b)) * 8 :: u64"
  obtain ps h1 where "run_state (cuda_malloc_all E [?n, ?n]) h = (Some ps, h1)" "length ps = length [?n, ?n]"
    using cuda_malloc_all_works[OF mem] by blast
  then obtain p1 p2 where 1: "run_state (cuda_malloc_all E [?n, ?n]) h = (Some [p1, p2], h1)" using length_two[of ps] by auto
  obtain pool h2 where 2: "run_state (bench_pin_buffer E (ucast (bc_queue_depth (bh_cfg b)) * 4096)) h1 = (Some pool, h2)"
    using bench_pin_buffer_works[OF mem] by blast
  have build: "\<exists>h'. run_state (bench_build_prps E ck launch rand b') h'' = (Some True, h')"
    if "bh_cfg b' = bh_cfg b" "bh_ctrl b' = bh_ctrl b" for b' h''
    by (rule bench_build_prps_works[OF mem pm phys ck la]) (use lim that in simp_all)
  show ?thesis using 1 2 lim(3) build by (simp add: bench_hw_prps_def Let_def)
qed

lemma bench_hw_works:
  assumes "loader_machine E F bar0 d" and "parse_args N args = Inr cfg" and "bc_max_lba cfg \<noteq> 0" and "\<forall>l. ck l"
    and "\<And>v h. fst (run_state (virt_to_phys_pagemap E v) h) \<noteq> 0"
    and "\<forall>k h p. \<exists>r. launch k h p = Some r \<and> br_error_code r = 0"
  shows "\<exists>h'. run_state (bench_main_hw E F ck launch rand N args) h = (Some True, h')"
proof -
  have ma: "memory_available E" and reg: "\<And>h p. he_register E h p" and pm: "\<And>h. he_pagemap E h"
    and fo: "\<And>h path. fe_open F h path" and mp: "\<And>h n. he_alloc E h Mapping n = Some bar0" and b0: "bar0 \<noteq> 0"
    and rdy: "rdy_follows E bar0 d" and ans: "admin_answers E bar0 d"
    and to: "\<And>h. d < 500 * unat (fld_get cap_to (he_read64 E h (nvme_reg_ptr bar0 NVME_REG_CAP)))"
    using assms(1) unfolding loader_machine_def by blast+
  have bs: "(let ns = he_bytes E h b 4096
          in (push_bit (unat (drop_bit 16 (bytes_u32 ns (128 + unat (ns ! 26 AND 0x0F) * 4)) AND 0xFF)) 1 :: u32)) \<noteq> 0" for h b
    using assms(1) unfolding loader_machine_def Let_def by blast
  have mem: "\<exists>p. he_alloc E h k n = Some p" for h k n
    using ma unfolding memory_available_def by blast
  let ?n = "fe_size F (HOpen True # h)"
  let ?h = "HRegister bar0 ?n True # HAlloc Mapping ?n (Some bar0) # HOpen True # h"
  obtain c h1 where c: "run_state (gpunvme_ctrl_init E (Some ctrl_zero) bar0 ?n) ?h = ((GPUNVME_OK, Some c), h1)"
      "admin_fresh 2 c" "c_bar0 c = bar0" "d < unat (c_timeout_ms c * 1000)" and sz: "c_block_size c \<noteq> 0"
    using ctrl_init_works[OF ma rdy ans b0 to, of ctrl_zero ?n ?h] bs by metis
  have ps: "c_page_size c \<noteq> 0" using ctrl_init_page_size[OF c(1) b0] .
  let ?c = "c\<lparr>c_bar0_gpu := fe_device_pointer F ?h bar0\<rparr>"
  let ?b = "\<lparr>bh_cfg = bench_mdts_clamp (c_max_transfer_bytes ?c) cfg, bh_bar0 = bar0, bh_bar_size = ?n, bh_ctrl = ?c, bh_ioq = io_queue_zero,
       bh_data_buf = 0, bh_data_buf_size = 0, bh_prp_pool = 0, bh_prp_pool_bytes = 0, bh_prp1_arr = 0, bh_prp2_arr = 0\<rparr>"
  have run: "run_state (bench_main_hw E F ck launch rand N args) h = run_state (bench_hw_queue E ck launch rand ?b) h1"
    using assms(2,4) fo mp reg c(1)
    by (simp add: bench_main_hw_def open_path_def host_alloc_def cuda_host_register_def Let_def)
  let ?qs = "bench_queue_size (bc_queue_depth (bh_cfg ?b))"
  have "admin_fresh 2 ?c" "admin_answers E (c_bar0 ?c) d" "d < unat (c_timeout_ms ?c * 1000)"
    using c(2-4) ans by (simp_all add: admin_fresh_def)
  then obtain c' q h2 where q: "run_state (gpunvme_create_io_queue E (Some ?c) 1 ?qs 4096 GPUNVME_TIER1 (Some io_queue_zero)) h1
      = ((GPUNVME_OK, Some c', Some q), h2)"
    using create_completes[OF ma reg, of ?c d 2 1 ?qs 4096 GPUNVME_TIER1 io_queue_zero h1] bench_queue_size_pos by auto
  note body = create_queue_body[OF q _ bench_queue_size_pos, simplified]
  have "nonnull_alloc E" using ma by (rule memory_nonnull)
  then have "ctrl_core c' = ctrl_core ?c" "c_block_size c' = c_block_size ?c" using iq_create_core[OF body] by simp_all
  then have keep: "c_block_size c' = c_block_size c" "c_page_size c' = c_page_size c" by (simp_all add: ctrl_core_def)
  let ?n2 = "ucast (bc_queue_depth (bh_cfg ?b)) * bc_block_size (bh_cfg ?b) :: u64"
  obtain p h3 where p: "run_state (bench_pin_buffer E ?n2) h2 = (Some p, h3)"
    using bench_pin_buffer_works[OF mem] by blast
  have "bc_max_lba (bh_cfg ?b) \<noteq> 0" using assms(3) by (simp add: bench_mdts_clamp_def)
  then have "\<exists>h'. run_state (bench_hw_prps E ck launch rand (?b\<lparr>bh_ctrl := c', bh_ioq := q, bh_data_buf_size := ?n2, bh_data_buf := p\<rparr>)) h3
      = (Some True, h')"
    using keep sz ps by (intro bench_hw_prps_works[OF mem pm assms(5,4,6)]) simp_all
  then show ?thesis unfolding run using q p by (simp add: bench_hw_queue_def Let_def)
qed

section \<open>The PRP entries of the slots\<close>

text \<open>What the loop over the pages of a slot stores for page \<open>k\<close>, and all pages together.\<close>

definition page_stored :: "u32 \<Rightarrow> u32 \<Rightarrow> (nat \<Rightarrow> u64) \<Rightarrow> nat \<Rightarrow> layer_mem \<Rightarrow> layer_mem" where
  "page_stored pages slot ph k mem =
    (if k = 0 then mem\<lparr>lm_prp1 := (lm_prp1 mem)[unat slot := ph 0]\<rparr>
     else if pages = 2 then mem\<lparr>lm_prp2 := (lm_prp2 mem)[unat slot := ph k]\<rparr>
     else mem\<lparr>lm_pool := (lm_pool mem)(list_base slot + (k - 1) := ph k)\<rparr>)"

lemma bench_pages_loop_stores:
  assumes pt: "pagemap_of E pt"
  shows "\<lbrakk>unat p + n < 2 ^ 32; \<And>k. unat p \<le> k \<Longrightarrow> k < unat p + n \<Longrightarrow> phys_of E pt (page_addr chunk ps k) = Some (ph k) \<and> ph k \<noteq> 0\<rbrakk>
    \<Longrightarrow> \<exists>h'. run_state (bench_pages_loop n E chunk ps pages slot p mem) h =
      ((True, fold (page_stored pages slot ph) [unat p..<unat p + n] mem), h')"
proof (induction n arbitrary: p mem h)
  case (Suc n)
  let ?v = "page_addr chunk ps (unat p)"
  have v: "chunk + ucast p * ucast ps = ?v" by (simp add: page_addr_def)
  have ph: "phys_of E pt ?v = Some (ph (unat p))" "ph (unat p) \<noteq> 0" using Suc.prems(2)[of "unat p"] by simp_all
  obtain h1 where h1: "run_state (virt_to_phys_pagemap E ?v) h = (ph (unat p), h1)"
    using run_virt_to_phys_pagemap[OF pt, of ?v h] ph(1) by auto
  have sp: "unat (p + 1) = Suc (unat p)" using Suc.prems(1) ucast_u32_succ[of p] by simp
  have p0: "p \<noteq> 0 \<Longrightarrow> unat (p - 1) = unat p - 1" by (simp add: unat_minus_one)
  have stored: "(if p = 0 then mem\<lparr>lm_prp1 := (lm_prp1 mem)[unat slot := ph (unat p)]\<rparr>
        else if pages = 2 then mem\<lparr>lm_prp2 := (lm_prp2 mem)[unat slot := ph (unat p)]\<rparr>
        else mem\<lparr>lm_pool := (lm_pool mem)(list_base slot + unat (p - 1) := ph (unat p))\<rparr>)
      = page_stored pages slot ph (unat p) mem"
    using p0 by (auto simp: page_stored_def unat_eq_0)
  obtain h' where "run_state (bench_pages_loop n E chunk ps pages slot (p + 1) (page_stored pages slot ph (unat p) mem)) h1 =
      ((True, fold (page_stored pages slot ph) [unat (p + 1)..<unat (p + 1) + n] (page_stored pages slot ph (unat p) mem)), h')"
    using Suc.IH[of "p + 1" "page_stored pages slot ph (unat p) mem" h1] Suc.prems sp by auto
  moreover have "[unat p..<unat p + Suc n] = unat p # [Suc (unat p)..<unat p + Suc n]" by (simp add: upt_conv_Cons)
  ultimately show ?case using h1 ph(2) v stored sp by simp
qed simp

lemma pages_stored_list:
  assumes "pages \<noteq> 2"
  shows "fold (page_stored pages slot ph) [0..<Suc n] mem = mem\<lparr>lm_prp1 := (lm_prp1 mem)[unat slot := ph 0],
    lm_pool := (\<lambda>a. if list_base slot \<le> a \<and> a < list_base slot + n then ph (a - list_base slot + 1) else lm_pool mem a)\<rparr>"
proof (induction n)
  case (Suc n)
  let ?m = "fold (page_stored pages slot ph) [0..<Suc n] mem"
  have "fold (page_stored pages slot ph) [0..<Suc (Suc n)] mem = page_stored pages slot ph (Suc n) ?m"
    by simp
  also have "\<dots> = ?m\<lparr>lm_pool := (lm_pool ?m)(list_base slot + n := ph (Suc n))\<rparr>"
    using assms by (simp add: page_stored_def del: upt_Suc fold_simps)
  finally show ?case unfolding Suc.IH by (simp add: fun_upd_def less_Suc_eq_le le_less cong: if_cong) (auto simp: fun_eq_iff)
next
  case 0
  have "(\<lambda>a. if list_base slot \<le> a \<and> a < list_base slot + 0 then ph (a - list_base slot + 1) else lm_pool mem a) = lm_pool mem"
    by (auto simp: fun_eq_iff)
  then show ?case by (cases mem) (simp add: page_stored_def)
qed

text \<open>The memory when the slots below \<open>n\<close> are described.\<close>

definition slots_described :: "u32 \<Rightarrow> nat \<Rightarrow> (nat \<Rightarrow> nat \<Rightarrow> u64) \<Rightarrow> (nat \<Rightarrow> u64) \<Rightarrow> nat \<Rightarrow> layer_mem \<Rightarrow> bool" where
  "slots_described pages depth ph lp n mem \<longleftrightarrow> length (lm_prp1 mem) = depth \<and> length (lm_prp2 mem) = depth
     \<and> (\<forall>i < n. lm_prp1 mem ! i = ph i 0
          \<and> lm_prp2 mem ! i = (if unat pages \<le> 1 then 0 else if unat pages = 2 then ph i 1 else lp i)
          \<and> (2 < unat pages \<longrightarrow> (\<forall>j < unat pages - 1. lm_pool mem (512 * i + j) = ph i (Suc j))))"

lemma slot_page_addr:
  assumes "unat pages \<le> 513" and "0 < unat pages"
  shows "slots_described pages depth ph lp n mem \<Longrightarrow> n < depth \<Longrightarrow> unat slot = n \<Longrightarrow>
    slots_described pages depth ph lp (Suc n)
      (let mem = fold (page_stored pages slot (ph n)) [0..<unat pages] mem
       in if pages \<le> 1 then mem\<lparr>lm_prp2 := (lm_prp2 mem)[unat slot := 0]\<rparr>
          else if pages > 2 then mem\<lparr>lm_prp2 := (lm_prp2 mem)[unat slot := lp n]\<rparr> else mem)"
proof -
  assume s: "slots_described pages depth ph lp n mem" "n < depth" "unat slot = n"
  consider (two) "pages = 2" | (one) "unat pages = 1" | (more) "2 < unat pages"
    using assms(2) word_unat_eq_iff[of pages 2] by fastforce
  then show ?thesis
  proof cases
    case two
    then have "[0..<unat pages] = [0, 1]" by (simp add: upt_rec)
    moreover have "\<not> pages \<le> 1" using two by (simp add: word_le_nat_alt)
    ultimately show ?thesis using s two by (auto simp: slots_described_def page_stored_def less_Suc_eq nth_list_update Let_def)
  next
    case one
    then have p1: "pages = 1" by (metis unat_1 word_unat_eq_iff)
    then show ?thesis using s by (auto simp: slots_described_def page_stored_def less_Suc_eq nth_list_update Let_def)
  next
    case more
    then have p: "pages \<noteq> 2" "\<not> pages \<le> 1" "2 < pages" "unat pages = Suc (unat pages - 1)"
      by (auto simp: word_le_nat_alt word_less_nat_alt)
    let ?m = "mem\<lparr>lm_prp1 := (lm_prp1 mem)[n := ph n 0],
      lm_pool := (\<lambda>a. if 512 * n \<le> a \<and> a < 512 * n + (unat pages - 1) then ph n (a - 512 * n + 1) else lm_pool mem a)\<rparr>"
    have m: "fold (page_stored pages slot (ph n)) [0..<unat pages] mem = ?m"
      using pages_stored_list[OF p(1), of slot "ph n" "unat pages - 1" mem] p(4) s(3) by (simp add: list_base_def cong: if_cong)
    have other: "lm_pool ?m (512 * i + j) = lm_pool mem (512 * i + j)" if "i < n" "j < unat pages - 1" for i j
    proof -
      have "512 * i + 512 \<le> 512 * n" using that(1) by simp
      then have "\<not> 512 * n \<le> 512 * i + j" using that(2) assms(1) by linarith
      then show ?thesis by simp
    qed
    show ?thesis
      unfolding m Let_def using s p more other by (auto simp: slots_described_def less_Suc_eq nth_list_update)
  qed
qed

text \<open>The list page of a slot.\<close>

definition slot_list_phys :: "henv \<Rightarrow> (u64 \<Rightarrow> u64 option) \<Rightarrow> bench_hw \<Rightarrow> nat \<Rightarrow> u64" where
  "slot_list_phys E pt b i = (case phys_of E pt (bh_prp_pool b + of_nat i * 4096) of None \<Rightarrow> 0 | Some a \<Rightarrow> a)"

lemma bench_slots_loop_describes:
  assumes pt: "pagemap_of E pt" and pages: "0 < unat (bench_pages_per_op b)" "unat (bench_pages_per_op b) \<le> 513"
    and ph: "\<And>i k. i < depth \<Longrightarrow> k < unat (bench_pages_per_op b) \<Longrightarrow>
      phys_of E pt (page_addr (bh_data_buf b + of_nat i * bc_block_size (bh_cfg b)) (c_page_size (bh_ctrl b)) k) = Some (ph i k) \<and> ph i k \<noteq> 0"
    and lp: "\<And>i. i < depth \<Longrightarrow> 2 < unat (bench_pages_per_op b) \<Longrightarrow> slot_list_phys E pt b i \<noteq> 0"
  shows "\<lbrakk>unat slot + n = depth; depth < 2 ^ 32; slots_described (bench_pages_per_op b) depth ph (slot_list_phys E pt b) (unat slot) mem\<rbrakk> \<Longrightarrow>
    \<exists>mem' h'. run_state (bench_slots_loop n E b slot mem) h = ((True, mem'), h')
      \<and> slots_described (bench_pages_per_op b) depth ph (slot_list_phys E pt b) depth mem'"
proof (induction n arbitrary: slot mem h)
  case (Suc n)
  let ?pages = "bench_pages_per_op b" and ?i = "unat slot" and ?lp = "slot_list_phys E pt b"
  have i: "?i < depth" using Suc.prems(1) by simp
  have si: "unat (slot + 1) = Suc ?i" using Suc.prems ucast_u32_succ[of slot] by simp
  let ?chunk = "bh_data_buf b + ucast slot * bc_block_size (bh_cfg b)"
  let ?m = "fold (page_stored ?pages slot (ph ?i)) [0..<unat ?pages] mem"
  obtain h1 where h1: "run_state (bench_pages_loop (unat ?pages) E ?chunk (c_page_size (bh_ctrl b)) ?pages slot 0 mem) h = ((True, ?m), h1)"
    using bench_pages_loop_stores[OF pt, of 0 "unat ?pages" ?chunk "c_page_size (bh_ctrl b)" "ph ?i" ?pages slot mem h] ph[OF i]
      unat_bound[of ?pages] by auto
  obtain r where r: "run_state (virt_to_phys_pagemap E (bh_prp_pool b + ucast slot * 4096)) h1 = (?lp ?i, r # h1)"
    using run_virt_to_phys_pagemap[OF pt, of "bh_prp_pool b + ucast slot * 4096" h1]
    by (auto simp: slot_list_phys_def)
  let ?m2 = "let mem = ?m in if ?pages \<le> 1 then mem\<lparr>lm_prp2 := (lm_prp2 mem)[unat slot := 0]\<rparr>
          else if ?pages > 2 then mem\<lparr>lm_prp2 := (lm_prp2 mem)[unat slot := ?lp ?i]\<rparr> else mem"
  have next_slot: "slots_described ?pages depth ph ?lp (unat (slot + 1)) ?m2"
    using slot_page_addr[OF pages(2,1) Suc.prems(3) i refl] unfolding si .
  have rest: "unat (slot + 1) + n = depth" using Suc.prems(1) si by simp
  have "?pages > 2 \<Longrightarrow> ?lp ?i \<noteq> 0" using lp[OF i] by (simp add: word_less_nat_alt)
  then have "\<exists>h2. run_state (bench_slots_loop (Suc n) E b slot mem) h = run_state (bench_slots_loop n E b (slot + 1) ?m2) h2"
    using h1 r by (auto simp: Let_def)
  then show ?case using Suc.IH[OF rest Suc.prems(2) next_slot] by auto
qed auto

section \<open>Properties of the benchmark on hardware\<close>

definition bench_host :: henv where
  "bench_host = loader_host\<lparr>he_pread := (\<lambda>h off. Some (push_bit 63 1 OR 1))\<rparr>"

lemma bench_host_pagemap: "pagemap_present (push_bit 63 1 OR 1)" "pagemap_phys (push_bit 63 1 OR 1) 4096 v \<noteq> 0"
proof -
  show "pagemap_present (push_bit 63 1 OR 1)" by (simp add: pagemap_present_def)
  have "unat (v mod 4096) < 4096" by (simp add: unat_mod)
  then have "unat (4096 + v mod 4096) = 4096 + unat (v mod 4096)" by (simp add: unat_word_ariths)
  then have "4096 + v mod 4096 \<noteq> 0" by (metis add_is_0 unat_0 zero_neq_numeral)
  then show "pagemap_phys (push_bit 63 1 OR 1) 4096 v \<noteq> 0" by (simp add: pagemap_phys_def)
qed

lemma bench_host_fields:
  "he_read32 bench_host = he_read32 loader_host" "he_read64 bench_host = he_read64 loader_host" "he_alloc bench_host = he_alloc loader_host"
  "he_register bench_host = he_register loader_host" "he_cqe bench_host = he_cqe loader_host" "he_bytes bench_host = he_bytes loader_host"
  "he_pagemap bench_host h = True" "he_page_size bench_host = 4096" "he_pread bench_host h off = Some (push_bit 63 1 OR 1)"
  by (simp_all add: bench_host_def loader_host_def ready_host_def example_host_def)

lemma bench_host_machine:
  "loader_machine bench_host example_files 0x10000000 0" "nonnull_alloc bench_host" "fresh_alloc bench_host"
  "fst (run_state (virt_to_phys_pagemap bench_host v) h) \<noteq> 0"
proof -
  have "\<exists>p h'. run_state (gpunvme_virt_to_phys bench_host v) h = (Inr p, h')" if "v \<noteq> 0" for v h
    using that bench_host_pagemap(1) by (simp add: gpunvme_virt_to_phys_def bench_host_fields Let_def)
  then have ma: "memory_available bench_host"
    using loader_host_facts(2) by (simp add: memory_available_def bench_host_fields)
  then show "loader_machine bench_host example_files 0x10000000 0"
    using loader_host_machine by (simp add: loader_machine_def rdy_follows_def admin_answers_def bench_host_fields)
  show "nonnull_alloc bench_host" using memory_nonnull[OF ma] .
  show "fresh_alloc bench_host" using loader_host_facts(4) by (simp add: fresh_alloc_def bench_host_fields)
  show "fst (run_state (virt_to_phys_pagemap bench_host v) h) \<noteq> 0"
    using bench_host_pagemap by (simp add: virt_to_phys_pagemap_def bench_host_fields Let_def)
qed

definition bench_ok_launch :: bench_launch where
  "bench_ok_launch k h p = Some bench_result_zero"

lemma bench_ok_launches: "\<forall>k h p. \<exists>r. bench_ok_launch k h p = Some r \<and> br_error_code r = 0"
  by (simp add: bench_ok_launch_def bench_result_zero_def)

lemma bench_hw_args: "parse_args example_num_env [''--max-lba'', ''4096''] = Inr (bench_config_init\<lparr>bc_max_lba := 4096\<rparr>)"
proof -
  have "ne_strtoull example_num_env ''4096'' = 4096"
    by (simp add: example_num_env_def dec_value_def is_digit_def of_char_def)
  then show ?thesis by (simp add: parse_args_def bench_config_init_def)
qed





text \<open>Physical memory as far as the list pages of the slots go.\<close>

definition slot_reader :: "henv \<Rightarrow> (u64 \<Rightarrow> u64 option) \<Rightarrow> bench_hw \<Rightarrow> layer_mem \<Rightarrow> nat \<Rightarrow> u64 \<Rightarrow> nat \<Rightarrow> u64" where
  "slot_reader E pt b mem n a j =
    (case List.find (\<lambda>i. slot_list_phys E pt b i = a) [0..<n] of None \<Rightarrow> 0 | Some i \<Rightarrow> lm_pool mem (512 * i + j))"

lemma slot_reader_at:
  assumes "distinct (map (slot_list_phys E pt b) [0..<n])" and "i < n"
  shows "slot_reader E pt b mem n (slot_list_phys E pt b i) j = lm_pool mem (512 * i + j)"
proof -
  let ?f = "List.find (\<lambda>k. slot_list_phys E pt b k = slot_list_phys E pt b i) [0..<n]"
  show ?thesis
  proof (cases ?f)
    case None
    then show ?thesis using assms(2) by (auto simp: find_None_iff)
  next
    case (Some k)
    then have "k < n" "slot_list_phys E pt b k = slot_list_phys E pt b i" by (auto simp: find_Some_iff)
    then have "k = i" using assms by (auto simp: distinct_map inj_on_def)
    then show ?thesis using Some by (simp add: slot_reader_def)
  qed
qed


definition example_bench_hw :: bench_hw where
  "example_bench_hw = \<lparr>bh_cfg = bench_config_init\<lparr>bc_block_size := 12288, bc_queue_depth := 2\<rparr>, bh_bar0 = 0, bh_bar_size = 0,
     bh_ctrl = ctrl_zero\<lparr>c_page_size := 4096\<rparr>, bh_ioq = io_queue_zero, bh_data_buf = 0x300000, bh_data_buf_size = 24576,
     bh_prp_pool = 0x400000, bh_prp_pool_bytes = 8192, bh_prp1_arr = 0, bh_prp2_arr = 0\<rparr>"


end
