(* ===== verification/Pci_Util.thy ===== *)
theory Pci_Util
  imports Bar1
begin

text \<open>
  Discovery of NVMe devices through sysfs (\<^verbatim>\<open>src/host/pci_util.c\<close>): reading numbers and strings from
  sysfs files, the resource line of BAR0, the scan of the device directory, and bus mastering.
  C character arrays are lists of their full length, with the terminating NUL in them.
\<close>

section \<open>The environment\<close>

text \<open>The contents of a text file (\<open>None\<close>: it cannot be opened), the entries of the device directory,
  the target of a symbolic link, and the command register in a device's configuration space.\<close>

record pci_env =
  pe_text :: "hev list \<Rightarrow> string \<Rightarrow> string option"
  pe_dir :: "hev list \<Rightarrow> string list option"
  pe_readlink :: "hev list \<Rightarrow> string \<Rightarrow> string option"
  pe_open :: "hev list \<Rightarrow> string \<Rightarrow> bool"
  pe_pread16 :: "hev list \<Rightarrow> u64 \<Rightarrow> u16 option"
  pe_pwrite16 :: "hev list \<Rightarrow> u64 \<Rightarrow> u16 \<Rightarrow> bool"

section \<open>C strings\<close>

definition NUL :: char where "NUL = CHR 0x00"

definition c_string :: "string \<Rightarrow> string" where
  "c_string buf = takeWhile (\<lambda>c. c \<noteq> NUL) buf"

text \<open>\<^verbatim>\<open>strncpy\<close> writes exactly \<open>n\<close> characters and pads with NUL; \<^verbatim>\<open>strcpy\<close> writes the string and
  one NUL.\<close>

definition strncpy :: "string \<Rightarrow> string \<Rightarrow> nat \<Rightarrow> string" where
  "strncpy dst src n = take n (c_string src @ replicate n NUL) @ drop n dst"

definition strcpy :: "string \<Rightarrow> string \<Rightarrow> string" where
  "strcpy dst src = c_string src @ NUL # drop (Suc (length (c_string src))) dst"

text \<open>\<^verbatim>\<open>strtoull\<close> with base 16: white space, a sign, a prefix, digits; no digit gives 0, a value out of
  range the largest one.\<close>

definition strtoull16 :: "string \<Rightarrow> u64" where
  "strtoull16 s = (case scan_llx s of None \<Rightarrow> 0 | Some (v, rest) \<Rightarrow> v)"

text \<open>What follows the last slash.\<close>

definition base_name :: "string \<Rightarrow> string" where
  "base_name link = rev (takeWhile (\<lambda>c. c \<noteq> CHR ''/'') (rev link))"

section \<open>Reading sysfs files\<close>

definition PCI_CLASS_NVME :: u64 where "PCI_CLASS_NVME = 0x010802"

record gpunvme_pci_dev =
  pd_bdf :: string
  pd_bar0_phys :: u64
  pd_bar0_size :: u64
  pd_vendor_id :: u16
  pd_device_id :: u16
  pd_driver :: string

definition open_text :: "pci_env \<Rightarrow> string \<Rightarrow> string option host" where
  "open_text P path = ask (\<lambda>h. pe_text P h path) (\<lambda>r. HOpen (r \<noteq> None))"

text \<open>The first line of a file that can be opened, in a buffer of \<open>n\<close> characters; \<open>None\<close> when it is
  empty.\<close>

definition first_line :: "nat \<Rightarrow> string \<Rightarrow> string option" where
  "first_line n text = (if text = [] then None else Some (fst (fgets (n - 1) text)))"

definition read_sysfs_hex :: "pci_env \<Rightarrow> string \<Rightarrow> u64 \<Rightarrow> (int \<times> u64) host" where
  "read_sysfs_hex P path val = do {
     f \<leftarrow> open_text P path;
     case f of
       None \<Rightarrow> State_Monad.return (- 1, val)
     | Some text \<Rightarrow> do {
         log_ev HClose;
         State_Monad.return (case first_line 64 text of
           None \<Rightarrow> (- 1, val)
         | Some buf \<Rightarrow> (0, strtoull16 buf))
       }
   }"

text \<open>The buffer as a C string; the trailing newline is removed.\<close>

definition read_sysfs_str :: "pci_env \<Rightarrow> string \<Rightarrow> nat \<Rightarrow> (int \<times> string) host" where
  "read_sysfs_str P path bufsz = do {
     f \<leftarrow> open_text P path;
     case f of
       None \<Rightarrow> State_Monad.return (- 1, [])
     | Some text \<Rightarrow> do {
         log_ev HClose;
         State_Monad.return (case first_line bufsz text of
           None \<Rightarrow> (- 1, [])
         | Some buf \<Rightarrow> let s = c_string buf
             in (0, if s \<noteq> [] \<and> last s = CHR 0x0A then butlast s else s))
       }
   }"

text \<open>\<^verbatim>\<open>sscanf\<close> with three conversions \<^verbatim>\<open>%llx\<close>; all three must succeed.\<close>

definition scan_resource :: "string \<Rightarrow> (u64 \<times> u64 \<times> u64) option" where
  "scan_resource line =
    (case scan_llx line of None \<Rightarrow> None
     | Some (start, s) \<Rightarrow> (case scan_llx s of None \<Rightarrow> None
        | Some (stop, s) \<Rightarrow> map_option (\<lambda>(flags, _). (start, stop, flags)) (scan_llx s)))"

definition parse_bar0_resource :: "pci_env \<Rightarrow> string \<Rightarrow> u64 \<Rightarrow> u64 \<Rightarrow> (int \<times> u64 \<times> u64) host" where
  "parse_bar0_resource P bdf phys sz = do {
     f \<leftarrow> open_text P (sysfs_path bdf ''resource'');
     case f of
       None \<Rightarrow> State_Monad.return (- 1, phys, sz)
     | Some text \<Rightarrow> do {
         log_ev HClose;
         State_Monad.return (case first_line 256 text of
           None \<Rightarrow> (- 1, phys, sz)
         | Some line \<Rightarrow> (case scan_resource line of
             None \<Rightarrow> (- 1, phys, sz)
           | Some (start, stop, flags) \<Rightarrow>
               (0, start, if start \<noteq> 0 \<and> stop \<noteq> 0 then stop - start + 1 else 0)))
       }
   }"

section \<open>Scanning for NVMe controllers\<close>

text \<open>The fields of one device, filled into the array element \<open>dev\<close>.\<close>

definition pci_fill_dev :: "pci_env \<Rightarrow> string \<Rightarrow> gpunvme_pci_dev \<Rightarrow> gpunvme_pci_dev host" where
  "pci_fill_dev P name dev = do {
     let dev = dev\<lparr>pd_bdf := (strncpy (pd_bdf dev) name 15)[15 := NUL]\<rparr>;
     (_, vid) \<leftarrow> read_sysfs_hex P (sysfs_path name ''vendor'') 0;
     (_, did) \<leftarrow> read_sysfs_hex P (sysfs_path name ''device'') 0;
     let dev = dev\<lparr>pd_vendor_id := ucast vid, pd_device_id := ucast did\<rparr>;
     (_, phys, sz) \<leftarrow> parse_bar0_resource P name (pd_bar0_phys dev) (pd_bar0_size dev);
     let dev = dev\<lparr>pd_bar0_phys := phys, pd_bar0_size := sz\<rparr>;
     h \<leftarrow> State_Monad.get;
     State_Monad.return (case pe_readlink P h (sysfs_path name ''driver'') of
       Some (c # l) \<Rightarrow> dev\<lparr>pd_driver := strncpy (pd_driver dev) (base_name (c_string (take 255 (c # l)))) 63\<rparr>
     | _ \<Rightarrow> dev\<lparr>pd_driver := strcpy (pd_driver dev) ''none''\<rparr>)
   }"

fun find_loop ::
    "pci_env \<Rightarrow> nat \<Rightarrow> string list \<Rightarrow> nat \<Rightarrow> gpunvme_pci_dev list \<Rightarrow> (nat \<times> gpunvme_pci_dev list) host" where
  "find_loop P max_devs [] found devs = State_Monad.return (found, devs)"
| "find_loop P max_devs (name # names) found devs =
    (if \<not> found < max_devs then State_Monad.return (found, devs)
     else if name \<noteq> [] \<and> hd name = CHR ''.'' then find_loop P max_devs names found devs
     else do {
       (err, class_code) \<leftarrow> read_sysfs_hex P (sysfs_path name ''class'') 0;
       if err \<noteq> 0 then find_loop P max_devs names found devs
       else if drop_bit 8 class_code \<noteq> PCI_CLASS_NVME then find_loop P max_devs names found devs
       else do {
         dev \<leftarrow> pci_fill_dev P name (devs ! found);
         find_loop P max_devs names (found + 1) (devs[found := dev])
       }
     })"

definition gpunvme_find_nvme_devices ::
    "pci_env \<Rightarrow> gpunvme_pci_dev list \<Rightarrow> nat \<Rightarrow> (nat \<times> gpunvme_pci_dev list) host" where
  "gpunvme_find_nvme_devices P devs max_devs = do {
     dir \<leftarrow> ask (pe_dir P) (\<lambda>r. HOpen (r \<noteq> None));
     case dir of
       None \<Rightarrow> State_Monad.return (0, devs)
     | Some names \<Rightarrow> do {
         r \<leftarrow> find_loop P max_devs names 0 devs;
         log_ev HClose;
         State_Monad.return r
       }
   }"

section \<open>BAR information and bus mastering\<close>

definition gpunvme_get_bar_info ::
    "pci_env \<Rightarrow> string option \<Rightarrow> u64 option \<Rightarrow> u64 option \<Rightarrow> (gpunvme_err \<times> u64 option \<times> u64 option) host" where
  "gpunvme_get_bar_info P bdf phys sz =
    (case (bdf, phys, sz) of
       (Some bdf, Some p, Some s) \<Rightarrow> do {
         (err, p, s) \<leftarrow> parse_bar0_resource P bdf p s;
         State_Monad.return
           (if err \<noteq> 0 then GPUNVME_ERR_PCI else if s = 0 then GPUNVME_ERR_PCI else GPUNVME_OK, Some p, Some s)
       }
     | _ \<Rightarrow> State_Monad.return (GPUNVME_ERR_INVALID_PARAM, phys, sz))"

definition gpunvme_enable_bus_master :: "pci_env \<Rightarrow> string \<Rightarrow> gpunvme_err host" where
  "gpunvme_enable_bus_master P bdf = do {
     opened \<leftarrow> ask (\<lambda>h. pe_open P h (sysfs_path bdf ''config'')) HOpen;
     if \<not> opened then State_Monad.return GPUNVME_ERR_PCI
     else do {
       r \<leftarrow> ask (\<lambda>h. pe_pread16 P h 0x04) (\<lambda>r. HPread 0x04 (map_option ucast r));
       case r of
         None \<Rightarrow> do { log_ev HClose; State_Monad.return GPUNVME_ERR_PCI }
       | Some cmd \<Rightarrow> do {
           let cmd = cmd OR 0x06;
           ok \<leftarrow> ask (\<lambda>h. pe_pwrite16 P h 0x04 cmd) (HPwrite 0x04 (ucast cmd));
           log_ev HClose;
           State_Monad.return (if ok then GPUNVME_OK else GPUNVME_ERR_PCI)
         }
     }
   }"

section \<open>What the functions promise\<close>

text \<open>Reading a file opens and closes it, and changes nothing else.\<close>

lemma read_sysfs_hex_resources: "resources (snd (run_state (read_sysfs_hex P path v) h)) = resources h"
  by (cases "pe_text P h path") (simp_all add: read_sysfs_hex_def open_text_def resources_def)

lemma parse_bar0_resources: "resources (snd (run_state (parse_bar0_resource P bdf p s) h)) = resources h"
  by (cases "pe_text P h (sysfs_path bdf ''resource'')") (simp_all add: parse_bar0_resource_def open_text_def resources_def)

text \<open>Linux prints the class of a device as \<^verbatim>\<open>0x%06x\<close> and a newline; it has 24 bits.\<close>

definition print_class :: "nat \<Rightarrow> string" where
  "print_class c = ''0x'' @ map hex_char (hex_digits 6 c) @ [CHR 0x0A]"

lemma scan_llx_prefixed:
  assumes lt: "\<forall>d \<in> set ds. d < 16" and ds: "ds \<noteq> []" and v: "foldl (\<lambda>a d. 16 * a + d) 0 ds < 2 ^ 64"
    and c: "hex_value c = None"
  shows "scan_llx (''0x'' @ map hex_char ds @ c # rest) = Some (of_nat (foldl (\<lambda>a d. 16 * a + d) 0 ds), c # rest)"
proof -
  have "dropWhile isspace (''0x'' @ map hex_char ds @ c # rest) = ''0x'' @ map hex_char ds @ c # rest"
    by (simp add: isspace_def)
  then show ?thesis
    using scan_digits_print[OF lt c, of 0 0 rest] ds v by (simp add: scan_llx_def Let_def not_le)
qed

lemma scan_llx_print_hex16:
  assumes "hex_value c = None"
  shows "scan_llx (print_hex16 w @ c # rest) = Some (w, c # rest)"
proof -
  have v: "foldl (\<lambda>a d. 16 * a + d) 0 (hex_digits 16 (unat w)) = unat w"
    using foldl_hex_digits[of 0 16 "unat w"] unat_bound[of w] by simp
  have "hex_digits 16 (unat w) \<noteq> []" using length_hex_digits[of 16 "unat w"] by force
  from scan_llx_prefixed[OF _ this _ assms, of rest] hex_digits_below show ?thesis
    unfolding print_hex16_def v using unat_bound[of w] by auto
qed

lemma read_class:
  assumes "c < 2 ^ 24"
  shows "first_line 64 (print_class c) = Some (print_class c)" "strtoull16 (print_class c) = of_nat c"
proof -
  have v: "foldl (\<lambda>a d. 16 * a + d) 0 (hex_digits 6 c) = c" using foldl_hex_digits[of 0 6 c] assms by simp
  have n: "hex_digits 6 c \<noteq> []" using length_hex_digits[of 6 c] by force
  have "CHR 0x0A \<notin> set (''0x'' @ map hex_char (hex_digits 6 c))"
    using hex_char_facts(3) hex_digits_below by fastforce
  from fgets_line[OF this, of 63 "[]"] show "first_line 64 (print_class c) = Some (print_class c)"
    by (simp add: first_line_def print_class_def)
  have "hex_value CHR 0x0A = None" by (simp add: hex_value_def)
  from scan_llx_prefixed[OF _ n _ this, of "[]"] hex_digits_below assms show "strtoull16 (print_class c) = of_nat c"
    unfolding print_class_def v by (simp add: strtoull16_def)
qed

text \<open>A class of 24 bits, shifted by eight, is never the 24-bit code that the scan looks for.\<close>

lemma class_never_matches:
  assumes "c < 2 ^ 24"
  shows "drop_bit 8 (of_nat c :: u64) \<noteq> PCI_CLASS_NVME"
proof
  assume "drop_bit 8 (of_nat c :: u64) = PCI_CLASS_NVME"
  then have "unat (drop_bit 8 (of_nat c :: u64)) = 0x010802" by (simp add: PCI_CLASS_NVME_def)
  moreover have "unat (of_nat c :: u64) = c" using assms by (simp add: unat_of_nat)
  ultimately show False using assms by (simp add: unat_drop_bit_eq drop_bit_eq_div unat_div)
qed

text \<open>What sysfs shows of the classes of the devices: each class file is missing or holds a printed
  class.\<close>

definition linux_classes :: "pci_env \<Rightarrow> bool" where
  "linux_classes P \<longleftrightarrow> (\<forall>h name. case pe_text P h (sysfs_path name ''class'') of
     None \<Rightarrow> True | Some text \<Rightarrow> \<exists>c < 2 ^ 24. text = print_class c)"

lemma find_loop_none:
  assumes "linux_classes P"
  shows "fst (run_state (find_loop P max_devs names found devs) h) = (found, devs) \<and>
         resources (snd (run_state (find_loop P max_devs names found devs) h)) = resources h"
proof (induction names arbitrary: h)
  case (Cons name names)
  obtain err cc h' where r: "run_state (read_sysfs_hex P (sysfs_path name ''class'') 0) h = ((err, cc), h')"
    by (metis surj_pair)
  have res: "resources h' = resources h" using read_sysfs_hex_resources[of P "sysfs_path name ''class''" 0 h] r by simp
  have "err \<noteq> 0 \<or> drop_bit 8 cc \<noteq> PCI_CLASS_NVME"
  proof (cases "pe_text P h (sysfs_path name ''class'')")
    case None
    then show ?thesis using r by (simp add: read_sysfs_hex_def open_text_def)
  next
    case (Some body)
    then obtain c where "c < 2 ^ 24" "body = print_class c"
      using spec[OF spec[OF assms[unfolded linux_classes_def], of h], of name] by auto
    then show ?thesis using r Some class_never_matches[of c] by (simp add: read_sysfs_hex_def open_text_def read_class)
  qed
  then show ?case using Cons.IH r res by auto
qed simp

text \<open>C40. The scan for NVMe controllers finds nothing on Linux: whatever devices there are, as long as
  their class files hold what Linux prints, it returns 0, leaves the array as it was and holds no
  file or directory. The shift by eight bits expects a class code of 32 bits, but sysfs shows 24.\<close>

theorem find_nvme_devices_none:
  assumes "linux_classes P"
  shows "fst (run_state (gpunvme_find_nvme_devices P devs max_devs) h) = (0, devs) \<and>
         resources (snd (run_state (gpunvme_find_nvme_devices P devs max_devs) h)) = resources h"
proof (cases "pe_dir P h")
  case None
  then show ?thesis by (simp add: gpunvme_find_nvme_devices_def resources_def)
next
  case (Some names)
  show ?thesis using find_loop_none[OF assms, of max_devs names 0 devs "HOpen True # h"] Some
    by (auto simp: gpunvme_find_nvme_devices_def resources_def split: prod.splits)
qed

definition example_sysfs :: pci_env where
  "example_sysfs = \<lparr>
     pe_text = (\<lambda>h path. if path = sysfs_path ''0000:03:00.0'' ''class'' then Some (print_class 0x010802)
       else if path = sysfs_path ''0000:03:00.0'' ''resource'' then Some (print_resource_line 0xFE800000 0xFE803FFF 0x140204)
       else None),
     pe_dir = (\<lambda>h. Some [''.'', ''..'', ''0000:03:00.0'']), pe_readlink = (\<lambda>h path. Some ''../../../bus/pci/drivers/nvme''),
     pe_open = (\<lambda>h path. True), pe_pread16 = (\<lambda>h off. Some 0x0400), pe_pwrite16 = (\<lambda>h off v. True)\<rparr>"

lemma sysfs_path_leaf: "length bdf + length leaf < 200 \<Longrightarrow> sysfs_path bdf leaf = ''/sys/bus/pci/devices/'' @ bdf @ ''/'' @ leaf"
  by (simp add: sysfs_path_def)

lemma example_sysfs_classes: "linux_classes example_sysfs"
proof -
  have neq: "sysfs_path name ''class'' \<noteq> sysfs_path ''0000:03:00.0'' ''resource''" for name
  proof
    assume eq: "sysfs_path name ''class'' = sysfs_path ''0000:03:00.0'' ''resource''"
    then have len: "length (sysfs_path name ''class'') = 42" by (simp add: sysfs_path_leaf)
    then have "length name = 15" by (simp add: sysfs_path_def min_def split: if_splits)
    then show False using arg_cong[OF eq, of last] by (simp add: sysfs_path_leaf)
  qed
  show ?thesis
    using neq by (auto simp: linux_classes_def example_sysfs_def intro!: exI[of _ "0x010802 :: nat"] split: option.splits if_splits)
qed

theorem find_nvme_devices_none_witness:
  "pe_text example_sysfs [] (sysfs_path ''0000:03:00.0'' ''class'') = Some (print_class 0x010802) \<and>
   fst (run_state (gpunvme_find_nvme_devices example_sysfs [] 8) []) = (0, [])"
  using find_nvme_devices_none[OF example_sysfs_classes, of "[]" 8 "[]"] by (simp add: example_sysfs_def)

text \<open>The address and size of BAR0 that \<^verbatim>\<open>gpunvme_get_bar_info\<close> reports are those of the first
  line that Linux printed; an unassigned BAR is an error.\<close>

lemma scan_resource_print: "scan_resource (print_resource_line a b c) = Some (a, b, c)"
proof -
  have ns: "hex_value CHR '' '' = None" "hex_value CHR 0x0A = None" by (simp_all add: hex_value_def)
  have skip: "scan_llx (CHR '' '' # s) = scan_llx s" for s by (simp add: scan_llx_def isspace_def)
  show ?thesis
    using scan_llx_print_hex16[OF ns(1), of a "print_hex16 b @ '' '' @ print_hex16 c @ [CHR 0x0A]"]
      scan_llx_print_hex16[OF ns(1), of b "print_hex16 c @ [CHR 0x0A]"] scan_llx_print_hex16[OF ns(2), of c "[]"]
    by (simp add: scan_resource_def print_resource_line_def skip)
qed

theorem get_bar_info_roundtrip:
  assumes "pe_text P h (sysfs_path bdf ''resource'') = Some (print_resource_line start stop flags @ rest)"
  shows "run_state (gpunvme_get_bar_info P (Some bdf) (Some p) (Some s)) h =
    (let n = (if start \<noteq> 0 \<and> stop \<noteq> 0 then stop - start + 1 else 0)
     in (if n = 0 then GPUNVME_ERR_PCI else GPUNVME_OK, Some start, Some n), HClose # HOpen True # h)"
  using assms
  by (simp add: gpunvme_get_bar_info_def parse_bar0_resource_def open_text_def first_line_def
      fgets_resource_line scan_resource_print Let_def del: fgets.simps)

text \<open>Bus mastering sets bits 1 and 2 of the command register and keeps the others.\<close>

theorem enable_bus_master_spec:
  "case run_state (gpunvme_enable_bus_master P bdf) h of (err, h') \<Rightarrow>
     resources h' = resources h \<and>
     (err = GPUNVME_OK \<longrightarrow> (\<exists>cmd. h' = HClose # HPwrite 0x04 (ucast (cmd OR 0x06)) True # HPread 0x04 (Some (ucast (cmd :: u16))) # HOpen True # h))"
  by (auto simp: gpunvme_enable_bus_master_def resources_def open_files_open Let_def split: option.splits)

end
