(* ===== verification/Bar_Map.thy ===== *)
theory Bar_Map
  imports Pci_Util
begin

text \<open>
  Mapping of BAR0 into the address spaces of the CPU and the GPU (\<^verbatim>\<open>src/host/bar_map.c\<close>). The descriptor
  is modelled by whether it is non-negative, which is what \<^verbatim>\<open>gpunvme_unmap_bar0\<close> looks at: it is true
  of the 0 that \<^verbatim>\<open>memset\<close> writes and of a descriptor that was closed in the meantime.
\<close>

section \<open>Operations\<close>

record gpunvme_bar_map =
  bm_cpu_addr :: u64
  bm_gpu_addr :: u64
  bm_size :: u64
  bm_fd :: bool
  bm_bdf :: string

text \<open>What the operating system and CUDA answer: opening a path, seeking to the end of the file
  (negative: an error), and the device pointer of a registered range (\<open>None\<close>: an error).\<close>

record bar_env =
  ba_open :: "hev list \<Rightarrow> string \<Rightarrow> bool"
  ba_lseek :: "hev list \<Rightarrow> int"
  ba_device_pointer :: "hev list \<Rightarrow> u64 \<Rightarrow> u64 option"

definition MAP_FAILED :: u64 where "MAP_FAILED = - 1"

definition bar_map_zero :: gpunvme_bar_map where
  "bar_map_zero = \<lparr>bm_cpu_addr = 0, bm_gpu_addr = 0, bm_size = 0, bm_fd = True, bm_bdf = replicate 16 NUL\<rparr>"

definition gpunvme_mmap_bar0 ::
    "henv \<Rightarrow> bar_env \<Rightarrow> string option \<Rightarrow> gpunvme_bar_map option \<Rightarrow> (gpunvme_err \<times> gpunvme_bar_map option) host" where
  "gpunvme_mmap_bar0 E B bdf bmap =
    (case (bdf, bmap) of
       (Some bdf, Some _) \<Rightarrow> do {
         let bmap = bar_map_zero\<lparr>bm_bdf := strncpy (bm_bdf bar_map_zero) bdf 15\<rparr>;
         opened \<leftarrow> ask (\<lambda>h. ba_open B h (sysfs_path bdf ''resource0'')) HOpen;
         let bmap = bmap\<lparr>bm_fd := opened\<rparr>;
         if \<not> bm_fd bmap then State_Monad.return (GPUNVME_ERR_BAR_MAP, Some bmap)
         else do {
           h \<leftarrow> State_Monad.get;
           let file_end = ba_lseek B h;
           if file_end \<le> 0 then do { log_ev HClose; State_Monad.return (GPUNVME_ERR_BAR_MAP, Some bmap) }
           else do {
             let bmap = bmap\<lparr>bm_size := of_int file_end\<rparr>;
             r \<leftarrow> host_alloc E Mapping (bm_size bmap);
             case r of
               None \<Rightarrow> do {
                 log_ev HClose;
                 State_Monad.return (GPUNVME_ERR_BAR_MAP, Some (bmap\<lparr>bm_cpu_addr := MAP_FAILED\<rparr>))
               }
             | Some p \<Rightarrow> State_Monad.return (GPUNVME_OK, Some (bmap\<lparr>bm_cpu_addr := p\<rparr>))
           }
         }
       }
     | _ \<Rightarrow> State_Monad.return (GPUNVME_ERR_INVALID_PARAM, bmap))"

definition gpunvme_map_bar0_to_gpu ::
    "henv \<Rightarrow> bar_env \<Rightarrow> gpunvme_bar_map option \<Rightarrow> (gpunvme_err \<times> gpunvme_bar_map option) host" where
  "gpunvme_map_bar0_to_gpu E B bmap =
    (case bmap of
       None \<Rightarrow> State_Monad.return (GPUNVME_ERR_INVALID_PARAM, bmap)
     | Some m \<Rightarrow>
        if bm_cpu_addr m = 0 then State_Monad.return (GPUNVME_ERR_INVALID_PARAM, bmap)
        else do {
          ok \<leftarrow> cuda_host_register E (bm_cpu_addr m) (bm_size m);
          if \<not> ok then State_Monad.return (GPUNVME_ERR_P2P, bmap)
          else do {
            h \<leftarrow> State_Monad.get;
            case ba_device_pointer B h (bm_cpu_addr m) of
              None \<Rightarrow> do { log_ev (HUnregister (bm_cpu_addr m)); State_Monad.return (GPUNVME_ERR_CUDA, bmap) }
            | Some d \<Rightarrow> State_Monad.return (GPUNVME_OK, Some (m\<lparr>bm_gpu_addr := d\<rparr>))
          }
        })"

text \<open>Pointers to registers; NULL is 0.\<close>

definition gpunvme_bar0_gpu_ptr :: "gpunvme_bar_map option \<Rightarrow> u32 \<Rightarrow> u64" where
  "gpunvme_bar0_gpu_ptr bmap off =
    (case bmap of None \<Rightarrow> 0
     | Some m \<Rightarrow> if bm_gpu_addr m = 0 then 0 else if ucast off \<ge> bm_size m then 0 else bm_gpu_addr m + ucast off)"

definition gpunvme_bar0_cpu_ptr :: "gpunvme_bar_map option \<Rightarrow> u32 \<Rightarrow> u64" where
  "gpunvme_bar0_cpu_ptr bmap off =
    (case bmap of None \<Rightarrow> 0
     | Some m \<Rightarrow> if bm_cpu_addr m = 0 then 0 else if ucast off \<ge> bm_size m then 0 else bm_cpu_addr m + ucast off)"

definition gpunvme_unmap_bar0 :: "gpunvme_bar_map option \<Rightarrow> gpunvme_bar_map option host" where
  "gpunvme_unmap_bar0 bmap =
    (case bmap of
       None \<Rightarrow> State_Monad.return None
     | Some m \<Rightarrow> do {
         m \<leftarrow> (if bm_gpu_addr m \<noteq> 0 then do {
                 log_ev (HUnregister (bm_cpu_addr m));
                 State_Monad.return (m\<lparr>bm_gpu_addr := 0\<rparr>)
               } else State_Monad.return m);
         m \<leftarrow> (if bm_cpu_addr m \<noteq> 0 \<and> bm_cpu_addr m \<noteq> MAP_FAILED then do {
                 host_free Mapping (bm_cpu_addr m);
                 State_Monad.return (m\<lparr>bm_cpu_addr := 0\<rparr>)
               } else State_Monad.return m);
         m \<leftarrow> (if bm_fd m then do {
                 log_ev HClose;
                 State_Monad.return (m\<lparr>bm_fd := False\<rparr>)
               } else State_Monad.return m);
         State_Monad.return (Some m)
       })"

section \<open>Register pointers\<close>

lemma bar0_ptr_bounds:
  assumes "unat (bm_cpu_addr m) + unat (bm_size m) < 2 ^ 64" "gpunvme_bar0_cpu_ptr (Some m) off = p" "p \<noteq> 0"
  shows "unat p = unat (bm_cpu_addr m) + unat off \<and> unat p < unat (bm_cpu_addr m) + unat (bm_size m)"
proof -
  have "unat (ucast off :: u64) = unat off" by simp
  moreover have off: "(ucast off :: u64) < bm_size m" and p: "p = bm_cpu_addr m + ucast off"
    using assms(2,3) by (auto simp: gpunvme_bar0_cpu_ptr_def not_le split: if_splits)
  moreover have "unat (ucast off :: u64) < unat (bm_size m)" using off by (simp add: word_less_nat_alt)
  ultimately show ?thesis using assms(1) by (simp add: unat_word_ariths(1))
qed

section \<open>The life of a mapping\<close>

text \<open>A map call, an optional registration with the GPU, and the unmap call.\<close>

definition bar0_session :: "henv \<Rightarrow> bar_env \<Rightarrow> string \<Rightarrow> bool \<Rightarrow> (gpunvme_err \<times> gpunvme_err \<times> gpunvme_bar_map option) host" where
  "bar0_session E B bdf use_gpu = do {
     (err, bmap) \<leftarrow> gpunvme_mmap_bar0 E B (Some bdf) (Some bar_map_zero);
     (gerr, bmap) \<leftarrow> (if use_gpu \<and> err = GPUNVME_OK then gpunvme_map_bar0_to_gpu E B bmap else State_Monad.return (GPUNVME_OK, bmap));
     bmap \<leftarrow> gpunvme_unmap_bar0 bmap;
     State_Monad.return (err, gerr, bmap)
   }"

text \<open>What \<^verbatim>\<open>mmap\<close> and \<^verbatim>\<open>cudaHostGetDevicePointer\<close> return when they succeed: neither NULL nor
  \<^verbatim>\<open>MAP_FAILED\<close>.\<close>

definition sane_mappings :: "henv \<Rightarrow> bar_env \<Rightarrow> bool" where
  "sane_mappings E B \<longleftrightarrow>
    (\<forall>h n p. he_alloc E h Mapping n = Some p \<longrightarrow> p \<noteq> 0 \<and> p \<noteq> MAP_FAILED) \<and>
    (\<forall>h p d. ba_device_pointer B h p = Some d \<longrightarrow> d \<noteq> 0)"

lemma mmap_bar0_cases:
  obtains (closed) m where "run_state (gpunvme_mmap_bar0 E B (Some bdf) (Some m0)) h = ((GPUNVME_ERR_BAR_MAP, Some m), HOpen False # h)"
      "\<not> bm_fd m" "bm_gpu_addr m = 0" "bm_cpu_addr m = 0"
  | (failed) m h' where "run_state (gpunvme_mmap_bar0 E B (Some bdf) (Some m0)) h = ((GPUNVME_ERR_BAR_MAP, Some m), h')"
      "resources h' = resources h" "bm_fd m" "bm_gpu_addr m = 0" "bm_cpu_addr m \<in> {0, MAP_FAILED}"
  | (mapped) m p n where "run_state (gpunvme_mmap_bar0 E B (Some bdf) (Some m0)) h =
        ((GPUNVME_OK, Some m), HAlloc Mapping n (Some p) # HOpen True # h)"
      "bm_fd m" "bm_gpu_addr m = 0" "bm_cpu_addr m = p" "bm_size m = n" "he_alloc E (HOpen True # h) Mapping n = Some p"
proof (cases "ba_open B h (sysfs_path bdf ''resource0'')")
  case False
  then show thesis
    by (intro closed[of "bar_map_zero\<lparr>bm_bdf := strncpy (bm_bdf bar_map_zero) bdf 15, bm_fd := False\<rparr>"])
      (simp_all add: gpunvme_mmap_bar0_def bar_map_zero_def Let_def)
next
  case opened: True
  let ?h = "HOpen True # h"
  note def = gpunvme_mmap_bar0_def bar_map_zero_def host_alloc_def resources_def Let_def
  show thesis
  proof (cases "ba_lseek B ?h \<le> 0")
    case True
    then show thesis using opened by - (rule failed, simp add: def, simp_all add: def)
  next
    case pos: False
    show thesis
    proof (cases "he_alloc E ?h Mapping (of_int (ba_lseek B ?h))")
      case None
      then show thesis using opened pos by - (rule failed, simp add: def, simp_all add: def)
    next
      case (Some p)
      then show thesis using opened pos by - (rule mapped, simp add: def, simp_all add: def)
    qed
  qed
qed

text \<open>A BAR0 that was mapped is released completely: mapping, registration with the GPU (also when
  the registration fails half way) and descriptor, and the map returns to its empty state. After a
  map call that failed behind the opening of the file, however, the unmap call closes the descriptor
  a second time: the map keeps the number of the closed descriptor.\<close>

theorem bar0_session_balanced:
  assumes "sane_mappings E B"
  shows "case run_state (bar0_session E B bdf use_gpu) h of ((err, gerr, bmap), h') \<Rightarrow>
    held h' = held h \<and> registered h' = registered h \<and>
    (err = GPUNVME_OK \<longrightarrow> open_files h' = open_files h \<and>
       (\<exists>m. bmap = Some m \<and> bm_cpu_addr m = 0 \<and> bm_gpu_addr m = 0 \<and> \<not> bm_fd m)) \<and>
    (err \<noteq> GPUNVME_OK \<longrightarrow> err = GPUNVME_ERR_BAR_MAP \<and>
       open_files h' = open_files h - (if ba_open B h (sysfs_path bdf ''resource0'') then 1 else 0))"
proof (cases rule: mmap_bar0_cases[of E B bdf bar_map_zero h])
  case (closed m)
  then have "\<not> ba_open B h (sysfs_path bdf ''resource0'')"
    by (auto simp: gpunvme_mmap_bar0_def host_alloc_def Let_def split: if_splits option.splits)
  then show ?thesis using closed by (simp add: bar0_session_def gpunvme_unmap_bar0_def)
next
  case (failed m h1)
  then have "ba_open B h (sysfs_path bdf ''resource0'')"
    by (cases "ba_open B h (sysfs_path bdf ''resource0'')") (auto simp: gpunvme_mmap_bar0_def bar_map_zero_def Let_def)
  then show ?thesis using failed by (auto simp: bar0_session_def gpunvme_unmap_bar0_def resources_def MAP_FAILED_def)
next
  case (mapped m p n)
  let ?h = "HAlloc Mapping n (Some p) # HOpen True # h"
  have p: "p \<noteq> 0" "p \<noteq> MAP_FAILED" using assms mapped(6) unfolding sane_mappings_def by blast+
  show ?thesis
  proof (cases "use_gpu \<and> he_register E ?h p")
    case False
    then show ?thesis using mapped p
      by (auto simp: bar0_session_def gpunvme_unmap_bar0_def gpunvme_map_bar0_to_gpu_def cuda_host_register_def host_free_def)
  next
    case reg: True
    show ?thesis
    proof (cases "ba_device_pointer B (HRegister p n True # ?h) p")
      case None
      then show ?thesis using mapped p reg
        by (simp add: bar0_session_def gpunvme_unmap_bar0_def gpunvme_map_bar0_to_gpu_def cuda_host_register_def host_free_def)
    next
      case (Some d)
      then have "d \<noteq> 0" using assms unfolding sane_mappings_def by blast
      then show ?thesis using mapped p reg Some
        by (simp add: bar0_session_def gpunvme_unmap_bar0_def gpunvme_map_bar0_to_gpu_def cuda_host_register_def host_free_def)
    qed
  qed
qed

text \<open>A host whose device file has 16 KiB, with and without a device pointer.\<close>

definition example_bar_host :: henv where
  "example_bar_host = ready_host\<lparr>he_alloc := (\<lambda>h k n. Some 0x10000000), he_register := (\<lambda>h p. True)\<rparr>"

definition example_bar_env :: bar_env where
  "example_bar_env = \<lparr>ba_open = (\<lambda>h path. True), ba_lseek = (\<lambda>h. 0x4000), ba_device_pointer = (\<lambda>h p. Some 0x20000000)\<rparr>"

theorem bar0_session_balanced_witness:
  "case run_state (bar0_session example_bar_host example_bar_env ''0000:03:00.0'' True) [] of ((err, gerr, bmap), h') \<Rightarrow>
     err = GPUNVME_OK \<and> held h' = [] \<and> registered h' = [] \<and> open_files h' = 0"
proof -
  have "sane_mappings example_bar_host example_bar_env"
    by (simp add: sane_mappings_def example_bar_host_def example_bar_env_def MAP_FAILED_def)
  from bar0_session_balanced[OF this, where bdf = "''0000:03:00.0''" and use_gpu = True and h = "[]"]
  have *: "case run_state (bar0_session example_bar_host example_bar_env ''0000:03:00.0'' True) [] of ((err, gerr, bmap), h') \<Rightarrow>
      held h' = [] \<and> registered h' = [] \<and> (err = GPUNVME_OK \<longrightarrow> open_files h' = 0)"
    by (auto split: prod.splits)
  have "fst (fst (run_state (bar0_session example_bar_host example_bar_env ''0000:03:00.0'' True) [])) = GPUNVME_OK"
    by (simp add: bar0_session_def gpunvme_mmap_bar0_def bar_map_zero_def example_bar_env_def example_bar_host_def
        host_alloc_def gpunvme_map_bar0_to_gpu_def cuda_host_register_def gpunvme_unmap_bar0_def Let_def split: prod.splits)
  with * show ?thesis by (auto split: prod.splits)
qed

end
