(* ===== verification/Monitor.thy ===== *)
theory Monitor
  imports Controller
begin

text \<open>
  The error monitor (\<^verbatim>\<open>src/host/monitor.c\<close>): a thread that polls CSTS for the fatal status and reports
  it once. The thread and the thread that started it are interleaved step by step, a step being one
  access to the shared structure or one call.
\<close>

section \<open>The structure\<close>

record gpunvme_monitor =
  mo_ctrl :: "gpunvme_ctrl option"
  mo_running :: bool
  mo_fatal_detected :: bool
  mo_poll_interval_ms :: u32
  mo_error_callback :: bool     \<comment> \<open>whether there is one\<close>
  mo_callback_userdata :: u64

definition monitor_zero :: gpunvme_monitor where
  "monitor_zero = \<lparr>mo_ctrl = None, mo_running = False, mo_fatal_detected = False, mo_poll_interval_ms = 0,
     mo_error_callback = False, mo_callback_userdata = 0\<rparr>"

section \<open>The thread\<close>

text \<open>Where the thread is: at the loop condition, before the register read, before the exchange with
  the value read, before the callback, in \<^verbatim>\<open>nanosleep\<close>, or returned.\<close>

datatype thread_pc = AtTest | AtRead | AtCheck u32 | AtCallback | AtSleep | Exited

datatype main_pc = Working | Joining | Stopped

record monitor_state =
  ms_mon :: gpunvme_monitor
  ms_thread :: thread_pc
  ms_main :: main_pc
  ms_log :: "hev list"
  ms_calls :: "(gpunvme_ctrl option \<times> u64) list"   \<comment> \<open>arguments of the callback, newest first\<close>

text \<open>The interval as \<^verbatim>\<open>struct timespec\<close>: seconds and nanoseconds.\<close>

definition monitor_timespec :: "u32 \<Rightarrow> u64 \<times> u64" where
  "monitor_timespec ms = (ucast (ms div 1000), ucast (ms mod 1000) * 1000000)"

definition csts_addr :: "gpunvme_monitor \<Rightarrow> u64" where
  "csts_addr mon = nvme_reg_ptr (case mo_ctrl mon of None \<Rightarrow> 0 | Some c \<Rightarrow> c_bar0 c) NVME_REG_CSTS"

definition monitor_thread_func :: "henv \<Rightarrow> monitor_state \<Rightarrow> monitor_state" where
  "monitor_thread_func E s =
    (let mon = ms_mon s
     in case ms_thread s of
          AtTest \<Rightarrow> s\<lparr>ms_thread := if mo_running mon then AtRead else Exited\<rparr>
        | AtRead \<Rightarrow>
            (case run_state (host_mmio_read32 E (csts_addr mon)) (ms_log s) of
               (csts, h) \<Rightarrow> s\<lparr>ms_log := h, ms_thread := AtCheck csts\<rparr>)
        | AtCheck csts \<Rightarrow>
            (if fld_get csts_cfs csts = 0 then s\<lparr>ms_thread := AtSleep\<rparr>
             else if mo_fatal_detected mon then s\<lparr>ms_thread := AtSleep\<rparr>
             else s\<lparr>ms_mon := mon\<lparr>mo_fatal_detected := True\<rparr>,
                    ms_thread := if mo_error_callback mon then AtCallback else AtSleep\<rparr>)
        | AtCallback \<Rightarrow> s\<lparr>ms_calls := (mo_ctrl mon, mo_callback_userdata mon) # ms_calls s, ms_thread := AtSleep\<rparr>
        | AtSleep \<Rightarrow> s\<lparr>ms_log := HSleep # ms_log s, ms_thread := AtTest\<rparr>
        | Exited \<Rightarrow> s)"

section \<open>Starting and stopping\<close>

text \<open>\<open>created\<close> is what \<^verbatim>\<open>pthread_create\<close> answers; without a thread, nothing runs.\<close>

definition gpunvme_monitor_start ::
    "bool \<Rightarrow> bool \<Rightarrow> gpunvme_ctrl option \<Rightarrow> u32 \<Rightarrow> bool \<Rightarrow> u64 \<Rightarrow> gpunvme_err \<times> monitor_state option" where
  "gpunvme_monitor_start created mon ctrl poll_interval_ms error_cb userdata =
    (if \<not> mon \<or> ctrl = None then (GPUNVME_ERR_INVALID_PARAM, None)
     else let m = monitor_zero\<lparr>mo_ctrl := ctrl, mo_poll_interval_ms := (if poll_interval_ms > 0 then poll_interval_ms else 1),
                mo_error_callback := error_cb, mo_callback_userdata := userdata, mo_running := True, mo_fatal_detected := False\<rparr>
          in (if created then GPUNVME_OK else GPUNVME_ERR_IO,
              Some \<lparr>ms_mon = m, ms_thread = (if created then AtTest else Exited), ms_main = Working, ms_log = [], ms_calls = []\<rparr>))"

definition gpunvme_monitor_is_fatal :: "gpunvme_monitor option \<Rightarrow> bool" where
  "gpunvme_monitor_is_fatal mon = (case mon of None \<Rightarrow> False | Some m \<Rightarrow> mo_fatal_detected m)"

text \<open>\<^verbatim>\<open>gpunvme_monitor_stop\<close>: the store to \<open>running\<close>, and the return of \<^verbatim>\<open>pthread_join\<close>.\<close>

definition monitor_stop_store :: "monitor_state \<Rightarrow> monitor_state" where
  "monitor_stop_store s = s\<lparr>ms_mon := (ms_mon s)\<lparr>mo_running := False\<rparr>, ms_main := Joining\<rparr>"

definition monitor_stop_join :: "monitor_state \<Rightarrow> monitor_state option" where
  "monitor_stop_join s = (if ms_thread s = Exited then Some (s\<lparr>ms_main := Stopped\<rparr>) else None)"

inductive monitor_step :: "henv \<Rightarrow> monitor_state \<Rightarrow> monitor_state \<Rightarrow> bool" for E where
  thread: "ms_thread s \<noteq> Exited \<Longrightarrow> monitor_step E s (monitor_thread_func E s)"
| stop: "ms_main s = Working \<Longrightarrow> monitor_step E s (monitor_stop_store s)"
| join: "ms_main s = Joining \<Longrightarrow> monitor_stop_join s = Some t \<Longrightarrow> monitor_step E s t"

inductive_cases monitor_stepE: "monitor_step E s t"

section \<open>Invariant\<close>

definition fatal_read :: "monitor_state \<Rightarrow> bool" where
  "fatal_read s \<longleftrightarrow> (\<exists>v. HRead32 (csts_addr (ms_mon s)) v \<in> set (ms_log s) \<and> fld_get csts_cfs v \<noteq> 0)"

text \<open>The callback has been called exactly when the fatal status was detected and the call is not still
  due; a fatal status that was read is detected or about to be checked.\<close>

definition monitor_inv :: "monitor_state \<Rightarrow> bool" where
  "monitor_inv s \<longleftrightarrow>
    (let m = ms_mon s
     in ms_calls s = (if mo_fatal_detected m \<and> mo_error_callback m \<and> ms_thread s \<noteq> AtCallback
                      then [(mo_ctrl m, mo_callback_userdata m)] else [])
      \<and> (ms_thread s = AtCallback \<longrightarrow> mo_fatal_detected m \<and> mo_error_callback m)
      \<and> (case ms_thread s of
           AtCheck v \<Rightarrow> HRead32 (csts_addr m) v \<in> set (ms_log s) \<and>
             (fatal_read s \<longleftrightarrow> mo_fatal_detected m \<or> fld_get csts_cfs v \<noteq> 0)
         | _ \<Rightarrow> fatal_read s \<longleftrightarrow> mo_fatal_detected m)
      \<and> (ms_main s \<noteq> Working \<longrightarrow> \<not> mo_running m)
      \<and> (ms_thread s = Exited \<longrightarrow> \<not> mo_running m)
      \<and> (ms_main s = Stopped \<longrightarrow> ms_thread s = Exited))"

lemma monitor_start_inv:
  "gpunvme_monitor_start True mon ctrl ms cb ud = (GPUNVME_OK, Some s) \<Longrightarrow> monitor_inv s"
  by (auto simp: gpunvme_monitor_start_def monitor_zero_def monitor_inv_def fatal_read_def Let_def split: if_splits)

lemma monitor_thread_inv: "monitor_inv s \<Longrightarrow> monitor_inv (monitor_thread_func E s)"
  by (cases "ms_thread s")
     (auto simp: monitor_inv_def monitor_thread_func_def fatal_read_def csts_addr_def host_mmio_read32_def Let_def)

lemma monitor_step_inv: "monitor_step E s t \<Longrightarrow> monitor_inv s \<Longrightarrow> monitor_inv t"
proof (erule monitor_stepE)
  assume "t = monitor_thread_func E s" "monitor_inv s"
  then show "monitor_inv t" by (simp add: monitor_thread_inv)
next
  assume "t = monitor_stop_store s" "monitor_inv s" "ms_main s = Working"
  then show "monitor_inv t"
    by (auto simp: monitor_inv_def monitor_stop_store_def fatal_read_def csts_addr_def Let_def split: thread_pc.splits)
next
  assume "monitor_stop_join s = Some t" "monitor_inv s" "ms_main s = Joining"
  then show "monitor_inv t"
    by (auto simp: monitor_inv_def monitor_stop_join_def fatal_read_def csts_addr_def Let_def split: if_splits)
qed

lemma monitor_reachable_inv: "(monitor_step E)\<^sup>*\<^sup>* s t \<Longrightarrow> monitor_inv s \<Longrightarrow> monitor_inv t"
  by (induction rule: rtranclp_induct) (auto intro: monitor_step_inv)

text \<open>How many steps the thread needs to return once it is told to stop.\<close>

fun steps_to_exit :: "thread_pc \<Rightarrow> nat" where
  "steps_to_exit AtRead = 5"
| "steps_to_exit (AtCheck _) = 4"
| "steps_to_exit AtCallback = 3"
| "steps_to_exit AtSleep = 2"
| "steps_to_exit AtTest = 1"
| "steps_to_exit Exited = 0"

lemma steps_to_exit_decreases:
  "\<not> mo_running (ms_mon s) \<Longrightarrow> ms_thread s \<noteq> Exited \<Longrightarrow>
    steps_to_exit (ms_thread (monitor_thread_func E s)) < steps_to_exit (ms_thread s)
    \<and> \<not> mo_running (ms_mon (monitor_thread_func E s)) \<and> ms_main (monitor_thread_func E s) = ms_main s"
  by (cases "ms_thread s") (auto simp: monitor_thread_func_def Let_def split: prod.splits)

lemma thread_exits:
  "\<not> mo_running (ms_mon s) \<Longrightarrow> steps_to_exit (ms_thread s) \<le> n \<Longrightarrow>
    ms_thread ((monitor_thread_func E ^^ n) s) = Exited \<and> ms_main ((monitor_thread_func E ^^ n) s) = ms_main s"
proof (induction n arbitrary: s)
  case 0
  then show ?case by (cases "ms_thread s") auto
next
  case (Suc n)
  show ?case
  proof (cases "ms_thread s = Exited")
    case True
    then have "monitor_thread_func E s = s" by (simp add: monitor_thread_func_def Let_def)
    then show ?thesis using Suc.IH[of s] Suc.prems True by (simp add: funpow_Suc_right del: funpow.simps)
  next
    case False
    then show ?thesis
      using steps_to_exit_decreases[OF Suc.prems(1) False, of E] Suc.prems(2) Suc.IH[of "monitor_thread_func E s"]
      by (simp add: funpow_Suc_right del: funpow.simps)
  qed
qed

text \<open>C39. In every interleaving of the monitor thread with the thread that started it: the callback is
  called at most once, with the controller and the user data of the start, and only after a read of
  CSTS showed the fatal status; once the stop call has returned, the thread has exited, the fatal flag
  tells whether any read showed the fatal status, and the callback was called exactly then (if there
  is one). A stop call returns: after the store the thread exits within five steps of its own.\<close>

theorem monitor_reports_once:
  assumes "gpunvme_monitor_start True True (Some ctrl) interval cb ud = (GPUNVME_OK, Some s)"
    and "(monitor_step E)\<^sup>*\<^sup>* s t"
  shows "length (ms_calls t) \<le> 1 \<and> set (ms_calls t) \<subseteq> {(Some ctrl, ud)} \<and>
    (ms_calls t \<noteq> [] \<longrightarrow> cb \<and> fatal_read t \<and> gpunvme_monitor_is_fatal (Some (ms_mon t))) \<and>
    (ms_main t = Stopped \<longrightarrow> ms_thread t = Exited \<and> gpunvme_monitor_is_fatal (Some (ms_mon t)) = fatal_read t
       \<and> (ms_calls t \<noteq> [] \<longleftrightarrow> cb \<and> fatal_read t)) \<and>
    (ms_main t = Joining \<longrightarrow> monitor_stop_join ((monitor_thread_func E ^^ 5) t) \<noteq> None)"
proof -
  let ?fixed = "\<lambda>x. mo_ctrl (ms_mon x) = Some ctrl \<and> mo_callback_userdata (ms_mon x) = ud \<and> mo_error_callback (ms_mon x) = cb"
  have "?fixed s" using assms(1) by (auto simp: gpunvme_monitor_start_def Let_def)
  with assms(2) have fixed: "?fixed t"
  proof (induction rule: rtranclp_induct)
    case (step x y)
    from step(2) step(3)[OF step(4)] show ?case
      by (cases rule: monitor_step.cases)
        (auto simp: monitor_thread_func_def monitor_stop_store_def monitor_stop_join_def Let_def
          split: thread_pc.splits prod.splits if_splits)
  qed simp
  have inv: "monitor_inv t" using monitor_reachable_inv[OF assms(2)] monitor_start_inv[OF assms(1)] .
  have "steps_to_exit (ms_thread t) \<le> 5" by (cases "ms_thread t") auto
  then have "ms_main t = Joining \<Longrightarrow> ms_thread ((monitor_thread_func E ^^ 5) t) = Exited"
    using thread_exits[of t 5 E] inv by (simp add: monitor_inv_def Let_def)
  then have join: "ms_main t = Joining \<Longrightarrow> monitor_stop_join ((monitor_thread_func E ^^ 5) t) \<noteq> None"
    by (simp add: monitor_stop_join_def)
  let ?d = "mo_fatal_detected (ms_mon t)"
  have calls: "ms_calls t = (if ?d \<and> cb \<and> ms_thread t \<noteq> AtCallback then [(Some ctrl, ud)] else [])"
    using inv fixed by (simp add: monitor_inv_def Let_def)
  have read: "?d \<Longrightarrow> fatal_read t" using inv by (cases "ms_thread t") (simp_all add: monitor_inv_def Let_def)
  have stopped: "ms_main t = Stopped \<Longrightarrow> ms_thread t = Exited \<and> ?d = fatal_read t"
    using inv by (cases "ms_thread t") (simp_all add: monitor_inv_def Let_def)
  have flag: "gpunvme_monitor_is_fatal (Some (ms_mon t)) = ?d" by (simp add: gpunvme_monitor_is_fatal_def)
  show ?thesis unfolding calls flag using join read stopped by (auto split: if_splits)
qed

text \<open>A run: the first read shows the fatal status, the callback is called, and the monitor stops.\<close>

definition fatal_host :: henv where
  "fatal_host = example_host\<lparr>he_read32 := (\<lambda>h a. 2)\<rparr>"

lemma thread_runs: "(monitor_step E)\<^sup>*\<^sup>* s ((monitor_thread_func E ^^ n) s)"
proof (induction n)
  case (Suc n)
  let ?t = "(monitor_thread_func E ^^ n) s"
  show ?case
  proof (cases "ms_thread ?t = Exited")
    case True
    then have "monitor_thread_func E ?t = ?t" by (simp add: monitor_thread_func_def Let_def)
    then show ?thesis using Suc by simp
  next
    case False
    from rtranclp.rtrancl_into_rtrancl[OF Suc monitor_step.thread[OF this, of E]] show ?thesis by simp
  qed
qed simp

theorem monitor_reports_once_witness:
  "\<exists>s t. gpunvme_monitor_start True True (Some ctrl_zero) 0 True 7 = (GPUNVME_OK, Some s) \<and>
     (monitor_step fatal_host)\<^sup>*\<^sup>* s t \<and> ms_main t = Stopped \<and> ms_thread t = Exited \<and> ms_calls t = [(Some ctrl_zero, 7)]"
proof -
  define s where "s = the (snd (gpunvme_monitor_start True True (Some ctrl_zero) 0 True 7))"
  have start: "gpunvme_monitor_start True True (Some ctrl_zero) 0 True 7 = (GPUNVME_OK, Some s)"
    by (simp add: s_def gpunvme_monitor_start_def Let_def)
  let ?f = "monitor_thread_func fatal_host"
  define a where "a = (?f ^^ 4) s"
  define b where "b = (?f ^^ 5) (monitor_stop_store a)"
  have cfs: "fld_get csts_cfs (2 :: u32) \<noteq> 0" by (simp add: fld_get_def csts_cfs_def)
  have a: "ms_main a = Working" "ms_calls a = [(Some ctrl_zero, 7)]" "ms_thread a = AtSleep"
    using cfs by (simp_all add: a_def s_def numeral_eq_Suc gpunvme_monitor_start_def monitor_zero_def monitor_thread_func_def
        fatal_host_def host_mmio_read32_def Let_def)
  have b: "ms_main b = Joining" "ms_calls b = [(Some ctrl_zero, 7)]" "ms_thread b = Exited"
    using a by (simp_all add: b_def numeral_eq_Suc monitor_stop_store_def monitor_thread_func_def Let_def)
  have "(monitor_step fatal_host)\<^sup>*\<^sup>* s (b\<lparr>ms_main := Stopped\<rparr>)"
    using thread_runs[of fatal_host s 4] monitor_step.stop[OF a(1), of fatal_host] thread_runs[of fatal_host "monitor_stop_store a" 5]
      monitor_step.join[OF b(1), of "b\<lparr>ms_main := Stopped\<rparr>" fatal_host] b(3)
    unfolding a_def[symmetric] b_def[symmetric] monitor_stop_join_def by (meson rtranclp.rtrancl_into_rtrancl rtranclp_trans)
  moreover from monitor_reports_once[OF start this] b(2) have "ms_thread (b\<lparr>ms_main := Stopped\<rparr>) = Exited" by simp
  ultimately show ?thesis using start b(2) by (intro exI[of _ s] exI[of _ "b\<lparr>ms_main := Stopped\<rparr>"]) simp
qed

end
