(* ===== verification/Kmod_Env.thy ===== *)
theory Kmod_Env
  imports Prelude
begin

text \<open>
  The world of the kernel module (\<^verbatim>\<open>kmod/\<close>): its structures (\<^verbatim>\<open>gpunvme_internal.h\<close>, \<^verbatim>\<open>gpunvme_ioctl.h\<close>),
  its global variables and a log of what it acquires from the kernel and the NVIDIA driver and gives
  back, newest first. The answers of both are the parameter \<open>kenv\<close>, functions of the log. A return value is
  an \<open>int\<close>, 0 or a negative error number as in the kernel.
\<close>

section \<open>Resources and the log\<close>

datatype kres =
    KMem                 \<comment> \<open>the context, from \<^verbatim>\<open>kzalloc\<close>\<close>
  | PciEnabled           \<comment> \<open>\<^verbatim>\<open>pci_enable_device\<close>\<close>
  | BarRegion            \<comment> \<open>\<^verbatim>\<open>pci_request_region\<close>\<close>
  | BarMap u64           \<comment> \<open>\<^verbatim>\<open>pci_iomap\<close>\<close>
  | BusMaster            \<comment> \<open>\<^verbatim>\<open>pci_set_master\<close>\<close>
  | CharDev "u32 \<times> u32"  \<comment> \<open>\<^verbatim>\<open>cdev_add\<close>\<close>
  | DevNode "u32 \<times> u32"  \<comment> \<open>\<^verbatim>\<open>device_create\<close>\<close>
  | ChrdevRegion u32     \<comment> \<open>\<^verbatim>\<open>alloc_chrdev_region\<close>\<close>
  | DevClass u64         \<comment> \<open>\<^verbatim>\<open>class_create\<close>\<close>
  | PciDriver            \<comment> \<open>\<^verbatim>\<open>pci_register_driver\<close>\<close>
  | UserPage u64         \<comment> \<open>\<^verbatim>\<open>pin_user_pages_fast\<close>\<close>
  | PageTable u64        \<comment> \<open>\<^verbatim>\<open>nvidia_p2p_get_pages\<close>\<close>
  | DmaMapping u64       \<comment> \<open>\<^verbatim>\<open>nvidia_p2p_dma_map_pages\<close>\<close>

datatype kev = KGet kres | KPut kres | KRefused int

fun kheld :: "kev list \<Rightarrow> kres list" where
  "kheld [] = []"
| "kheld (KGet r # h) = r # kheld h"
| "kheld (KPut r # h) = remove1 r (kheld h)"
| "kheld (KRefused e # h) = kheld h"

section \<open>Error numbers\<close>

definition ENOENT :: int where "ENOENT = 2"
definition EAGAIN :: int where "EAGAIN = 11"
definition ENOMEM :: int where "ENOMEM = 12"
definition EFAULT :: int where "EFAULT = 14"
definition ENODEV :: int where "ENODEV = 19"
definition EINVAL :: int where "EINVAL = 22"
definition ENOTTY :: int where "ENOTTY = 25"
definition ENOSPC :: int where "ENOSPC = 28"
definition EOPNOTSUPP :: int where "EOPNOTSUPP = 95"

lemmas errno_defs = ENOENT_def EAGAIN_def ENOMEM_def EFAULT_def ENODEV_def EINVAL_def ENOTTY_def ENOSPC_def EOPNOTSUPP_def

section \<open>Structures\<close>

record gpunvme_gpu_mapping =
  gm_gpu_vaddr :: u64
  gm_size :: u64
  gm_page_table :: u64
  gm_dma_mapping :: u64
  gm_bus_addr :: u64
  gm_in_use :: bool

definition GPUNVME_MAX_DEVICES :: int where "GPUNVME_MAX_DEVICES = 4"
definition GPUNVME_MAX_GPU_MAPPINGS :: nat where "GPUNVME_MAX_GPU_MAPPINGS = 16"

text \<open>The context of a device; a device number is the pair of major and minor.\<close>

record gpunvme_dev =
  gd_bar0 :: u64
  gd_bar0_phys :: u64
  gd_bar0_size :: u64
  gd_dev :: u64
  gd_dev_num :: "u32 \<times> u32"
  gd_index :: u32
  gd_gpu_maps :: "gpunvme_gpu_mapping list"

definition gpu_mapping_zero :: gpunvme_gpu_mapping where
  "gpu_mapping_zero = \<lparr>gm_gpu_vaddr = 0, gm_size = 0, gm_page_table = 0, gm_dma_mapping = 0, gm_bus_addr = 0, gm_in_use = False\<rparr>"

definition gdev_zero :: gpunvme_dev where
  "gdev_zero = \<lparr>gd_bar0 = 0, gd_bar0_phys = 0, gd_bar0_size = 0, gd_dev = 0, gd_dev_num = (0, 0), gd_index = 0,
     gd_gpu_maps = replicate GPUNVME_MAX_GPU_MAPPINGS gpu_mapping_zero\<rparr>"

record gpunvme_bar_info =
  bi_phys_addr :: u64
  bi_size :: u64

record gpunvme_gpu_mem_map_req =
  mr_gpu_vaddr :: u64
  mr_size :: u64
  mr_bus_addr :: u64
  mr_handle :: u64

record gpunvme_gpu_mem_unmap_req =
  ur_handle :: u64

record gpunvme_phys_addr_req =
  pr_vaddr :: u64
  pr_phys_addr :: u64

section \<open>The environment\<close>

text \<open>Calls that return an error number give \<open>Inl\<close> of it, or \<open>Inr\<close> of their result. \<open>ke_pin\<close> gives
  the physical address of the pinned page, if one was pinned. \<open>ke_copy_to\<close> tells whether the caller's memory
  can be written, \<open>ke_p2p\<close> whether the module was built with the NVIDIA headers.\<close>

record kenv =
  ke_target_bdf :: "string option"
  ke_dev_name :: string
  ke_kzalloc :: "kev list \<Rightarrow> bool"
  ke_enable :: "kev list \<Rightarrow> int + unit"
  ke_request :: "kev list \<Rightarrow> int + unit"
  ke_bar_start :: u64
  ke_bar_len :: u64
  ke_iomap :: "kev list \<Rightarrow> u64 option"
  ke_dma_mask :: "kev list \<Rightarrow> nat \<Rightarrow> int + unit"
  ke_cdev_add :: "kev list \<Rightarrow> int + unit"
  ke_device_create :: "kev list \<Rightarrow> int + u64"
  ke_chrdev_region :: "kev list \<Rightarrow> int + u32"
  ke_class_create :: "kev list \<Rightarrow> int + u64"
  ke_pci_register :: "kev list \<Rightarrow> int + unit"
  ke_remap :: "kev list \<Rightarrow> u64 \<Rightarrow> u64 \<Rightarrow> bool"
  ke_copy_to :: "kev list \<Rightarrow> bool"
  ke_pin :: "kev list \<Rightarrow> u64 \<Rightarrow> int + u64 option"
  ke_get_pages :: "kev list \<Rightarrow> u64 \<Rightarrow> u64 \<Rightarrow> int + u64"
  ke_dma_map :: "kev list \<Rightarrow> u64 \<Rightarrow> int + u64 \<times> u64"
  ke_p2p :: bool

definition PAGE_SHIFT :: nat where "PAGE_SHIFT = 12"

text \<open>Global variables of the module, and the log.\<close>

record kstate =
  ks_dev_count :: u32
  ks_major :: u32
  ks_class :: u64
  ks_log :: "kev list"

type_synonym 'a kern = "(kstate, 'a) state"

definition klog :: "kev \<Rightarrow> unit kern" where
  "klog e = State_Monad.update (\<lambda>s. s\<lparr>ks_log := e # ks_log s\<rparr>)"

text \<open>Giving a resource back, and a call that acquires one or fails.\<close>

definition kput :: "kres \<Rightarrow> unit kern" where
  "kput r = klog (KPut r)"

definition kacquire :: "(kev list \<Rightarrow> int + 'a) \<Rightarrow> ('a \<Rightarrow> kres) \<Rightarrow> (int + 'a) kern" where
  "kacquire f r = do {
     s \<leftarrow> State_Monad.get;
     case f (ks_log s) of
       Inl e \<Rightarrow> do { klog (KRefused e); State_Monad.return (Inl e) }
     | Inr x \<Rightarrow> do { klog (KGet (r x)); State_Monad.return (Inr x) }
   }"

lemma run_klog [simp]: "run_state (klog e) s = ((), s\<lparr>ks_log := e # ks_log s\<rparr>)"
  by (simp add: klog_def State_Monad.update_def State_Monad.bind_def State_Monad.get_def State_Monad.set_def)

lemma run_kput [simp]: "run_state (kput r) s = ((), s\<lparr>ks_log := KPut r # ks_log s\<rparr>)"
  by (simp add: kput_def)

lemma run_kacquire [simp]:
  "run_state (kacquire f r) s =
    (case f (ks_log s) of
       Inl e \<Rightarrow> (Inl e, s\<lparr>ks_log := KRefused e # ks_log s\<rparr>)
     | Inr x \<Rightarrow> (Inr x, s\<lparr>ks_log := KGet (r x) # ks_log s\<rparr>))"
  by (simp add: kacquire_def split: sum.split)

abbreviation kheld_in :: "kstate \<Rightarrow> kres list" where
  "kheld_in s \<equiv> kheld (ks_log s)"

end
