(* ===== verification/Kmod_Dma.thy ===== *)
theory Kmod_Dma
  imports Kmod_Env "HOL-Library.Multiset"
begin

text \<open>
  GPU memory mappings of the kernel module (\<^verbatim>\<open>kmod/gpunvme_dma.c\<close>): a table of sixteen slots, each
  holding the page table and the DMA mapping that the NVIDIA driver gave out. \<^verbatim>\<open>gpunvme_gpu_mem_map\<close> holds the
  lock only while it claims a slot; it is therefore written as two parts, between which other
  operations may run.
\<close>

section \<open>Operations\<close>

definition GPUNVME_GPU_PAGE_SIZE :: u64 where "GPUNVME_GPU_PAGE_SIZE = push_bit 16 1"

text \<open>The callback of the NVIDIA driver, which has freed the pages and their DMA mapping.\<close>

definition gpunvme_p2p_free_callback :: "nat \<Rightarrow> gpunvme_dev \<Rightarrow> gpunvme_dev" where
  "gpunvme_p2p_free_callback slot gdev =
    (let mapping = gd_gpu_maps gdev ! slot
     in gdev\<lparr>gd_gpu_maps := (gd_gpu_maps gdev)[slot := mapping\<lparr>gm_page_table := 0, gm_dma_mapping := 0, gm_in_use := False\<rparr>]\<rparr>)"

text \<open>The first free slot.\<close>

fun free_slot :: "nat \<Rightarrow> gpunvme_gpu_mapping list \<Rightarrow> nat option" where
  "free_slot i [] = None"
| "free_slot i (m # ms) = (if \<not> gm_in_use m then Some i else free_slot (Suc i) ms)"

text \<open>First part: the checks of the request and the slot, which is marked under the lock.\<close>

definition gpu_mem_map_claim :: "gpunvme_dev \<Rightarrow> gpunvme_gpu_mem_map_req \<Rightarrow> (int + nat) \<times> gpunvme_dev" where
  "gpu_mem_map_claim gdev req =
    (if mr_gpu_vaddr req = 0 \<or> mr_size req = 0 then (Inl (- EINVAL), gdev)
     else if mr_size req AND (GPUNVME_GPU_PAGE_SIZE - 1) \<noteq> 0 then (Inl (- EINVAL), gdev)
     else case free_slot 0 (gd_gpu_maps gdev) of
            None \<Rightarrow> (Inl (- ENOSPC), gdev)
          | Some slot \<Rightarrow>
              (Inr slot, gdev\<lparr>gd_gpu_maps := (gd_gpu_maps gdev)[slot := (gd_gpu_maps gdev ! slot)\<lparr>gm_in_use := True\<rparr>]\<rparr>))"

definition set_slot :: "nat \<Rightarrow> (gpunvme_gpu_mapping \<Rightarrow> gpunvme_gpu_mapping) \<Rightarrow> gpunvme_dev \<Rightarrow> gpunvme_dev" where
  "set_slot slot f gdev = gdev\<lparr>gd_gpu_maps := (gd_gpu_maps gdev)[slot := f (gd_gpu_maps gdev ! slot)]\<rparr>"

text \<open>Second part: pinning and mapping the pages, with the two error labels.\<close>

definition gpu_mem_map_fill ::
    "kenv \<Rightarrow> nat \<Rightarrow> gpunvme_dev \<Rightarrow> gpunvme_gpu_mem_map_req \<Rightarrow> (int \<times> gpunvme_dev \<times> gpunvme_gpu_mem_map_req) kern" where
  "gpu_mem_map_fill E slot gdev req = do {
     let gdev = set_slot slot (\<lambda>m. m\<lparr>gm_gpu_vaddr := mr_gpu_vaddr req, gm_size := mr_size req\<rparr>) gdev;
     r \<leftarrow> kacquire (\<lambda>h. ke_get_pages E h (mr_gpu_vaddr req) (mr_size req)) PageTable;
     case r of
       Inl ret \<Rightarrow> State_Monad.return (ret, set_slot slot (\<lambda>m. m\<lparr>gm_in_use := False\<rparr>) gdev, req)
     | Inr page_table \<Rightarrow> do {
         let gdev = set_slot slot (\<lambda>m. m\<lparr>gm_page_table := page_table\<rparr>) gdev;
         r \<leftarrow> kacquire (\<lambda>h. ke_dma_map E h page_table) (\<lambda>(d, _). DmaMapping d);
         case r of
           Inl ret \<Rightarrow> do {
             kput (PageTable (gm_page_table (gd_gpu_maps gdev ! slot)));
             let gdev = set_slot slot (\<lambda>m. m\<lparr>gm_page_table := 0\<rparr>) gdev;
             State_Monad.return (ret, set_slot slot (\<lambda>m. m\<lparr>gm_in_use := False\<rparr>) gdev, req)
           }
         | Inr (dma_mapping, dma_address) \<Rightarrow> do {
             let gdev = set_slot slot (\<lambda>m. m\<lparr>gm_dma_mapping := dma_mapping, gm_bus_addr := dma_address\<rparr>) gdev;
             State_Monad.return (0, gdev, req\<lparr>mr_bus_addr := gm_bus_addr (gd_gpu_maps gdev ! slot), mr_handle := of_nat slot\<rparr>)
           }
       }
   }"

text \<open>Without the NVIDIA headers the operations are stubs.\<close>

definition gpunvme_gpu_mem_map ::
    "kenv \<Rightarrow> gpunvme_dev \<Rightarrow> gpunvme_gpu_mem_map_req \<Rightarrow> (int \<times> gpunvme_dev \<times> gpunvme_gpu_mem_map_req) kern" where
  "gpunvme_gpu_mem_map E gdev req =
    (if \<not> ke_p2p E then State_Monad.return (- EOPNOTSUPP, gdev, req)
     else case gpu_mem_map_claim gdev req of
            (Inl ret, gdev) \<Rightarrow> State_Monad.return (ret, gdev, req)
          | (Inr slot, gdev) \<Rightarrow> gpu_mem_map_fill E slot gdev req)"

text \<open>The handle is narrowed to an \<^verbatim>\<open>int\<close>; the rest runs under the lock.\<close>

definition gpunvme_gpu_mem_unmap ::
    "kenv \<Rightarrow> gpunvme_dev \<Rightarrow> gpunvme_gpu_mem_unmap_req \<Rightarrow> (int \<times> gpunvme_dev) kern" where
  "gpunvme_gpu_mem_unmap E gdev req =
    (if \<not> ke_p2p E then State_Monad.return (- EOPNOTSUPP, gdev)
     else let slot = sint (ucast (ur_handle req) :: u32)
          in if slot < 0 \<or> slot \<ge> int GPUNVME_MAX_GPU_MAPPINGS then State_Monad.return (- EINVAL, gdev)
             else let i = nat slot; mapping = gd_gpu_maps gdev ! i
                  in if \<not> gm_in_use mapping then State_Monad.return (- ENOENT, gdev)
                     else do {
                       gdev \<leftarrow> (if gm_dma_mapping mapping \<noteq> 0 then do {
                                  kput (DmaMapping (gm_dma_mapping mapping));
                                  State_Monad.return (set_slot i (\<lambda>m. m\<lparr>gm_dma_mapping := 0\<rparr>) gdev)
                                } else State_Monad.return gdev);
                       gdev \<leftarrow> (if gm_page_table mapping \<noteq> 0 then do {
                                  kput (PageTable (gm_page_table mapping));
                                  State_Monad.return (set_slot i (\<lambda>m. m\<lparr>gm_page_table := 0\<rparr>) gdev)
                                } else State_Monad.return gdev);
                       State_Monad.return (0, set_slot i (\<lambda>m. m\<lparr>gm_in_use := False\<rparr>) gdev)
                     })"

text \<open>The loop over the slots from \<open>i\<close> on, \<open>n\<close> of them left.\<close>

fun unmap_all_loop :: "kenv \<Rightarrow> nat \<Rightarrow> nat \<Rightarrow> gpunvme_dev \<Rightarrow> gpunvme_dev kern" where
  "unmap_all_loop E 0 i gdev = State_Monad.return gdev"
| "unmap_all_loop E (Suc n) i gdev = do {
     gdev \<leftarrow> (if gm_in_use (gd_gpu_maps gdev ! i) then do {
                (_, gdev) \<leftarrow> gpunvme_gpu_mem_unmap E gdev \<lparr>ur_handle = of_nat i\<rparr>;
                State_Monad.return gdev
              } else State_Monad.return gdev);
     unmap_all_loop E n (Suc i) gdev
   }"

definition gpunvme_gpu_mem_unmap_all :: "kenv \<Rightarrow> gpunvme_dev \<Rightarrow> gpunvme_dev kern" where
  "gpunvme_gpu_mem_unmap_all E gdev =
    (if \<not> ke_p2p E then State_Monad.return gdev else unmap_all_loop E GPUNVME_MAX_GPU_MAPPINGS 0 gdev)"

section \<open>What the slots hold\<close>

definition gpu_res :: "gpunvme_gpu_mapping \<Rightarrow> kres multiset" where
  "gpu_res m = (if gm_in_use m
     then (if gm_dma_mapping m \<noteq> 0 then {#DmaMapping (gm_dma_mapping m)#} else {#}) +
          (if gm_page_table m \<noteq> 0 then {#PageTable (gm_page_table m)#} else {#})
     else {#})"

definition maps_res :: "gpunvme_dev \<Rightarrow> kres multiset" where
  "maps_res gdev = sum_list (map gpu_res (gd_gpu_maps gdev))"

text \<open>Free slots hold no pointers.\<close>

definition maps_wf :: "gpunvme_dev \<Rightarrow> bool" where
  "maps_wf gdev \<longleftrightarrow> length (gd_gpu_maps gdev) = GPUNVME_MAX_GPU_MAPPINGS \<and>
     list_all (\<lambda>m. \<not> gm_in_use m \<longrightarrow> gm_page_table m = 0 \<and> gm_dma_mapping m = 0) (gd_gpu_maps gdev)"

text \<open>What the documentation of the NVIDIA interface promises: a call that succeeds gives out pointers
  that are not NULL.\<close>

definition p2p_contract :: "kenv \<Rightarrow> bool" where
  "p2p_contract E \<longleftrightarrow> (\<forall>h v n pt. ke_get_pages E h v n = Inr pt \<longrightarrow> pt \<noteq> 0) \<and>
     (\<forall>h pt d a. ke_dma_map E h pt = Inr (d, a) \<longrightarrow> d \<noteq> 0) \<and>
     (\<forall>h v n. ke_get_pages E h v n \<noteq> Inl 0) \<and> (\<forall>h pt. ke_dma_map E h pt \<noteq> Inl 0)"

lemma sum_list_update:
  fixes f :: "'a \<Rightarrow> 'b :: comm_monoid_add"
  shows "i < length xs \<Longrightarrow> sum_list (map f (xs[i := x])) + f (xs ! i) = sum_list (map f xs) + f x"
proof (induction xs arbitrary: i)
  case (Cons y ys)
  then show ?case by (cases i) (auto simp: ac_simps dest: Cons.IH)
qed simp

lemma set_slot_simps [simp]:
  "length (gd_gpu_maps (set_slot i f gdev)) = length (gd_gpu_maps gdev)"
  "i < length (gd_gpu_maps gdev) \<Longrightarrow> gd_gpu_maps (set_slot i f gdev) ! i = f (gd_gpu_maps gdev ! i)"
  "j \<noteq> i \<Longrightarrow> gd_gpu_maps (set_slot i f gdev) ! j = gd_gpu_maps gdev ! j"
  by (simp_all add: set_slot_def)

lemma set_slot_set_slot [simp]: "set_slot i f (set_slot i g gdev) = set_slot i (f \<circ> g) gdev"
  by (cases "i < length (gd_gpu_maps gdev)") (simp_all add: set_slot_def list_update_beyond)

lemma maps_res_set_slot:
  "i < length (gd_gpu_maps gdev) \<Longrightarrow>
    maps_res (set_slot i f gdev) + gpu_res (gd_gpu_maps gdev ! i) = maps_res gdev + gpu_res (f (gd_gpu_maps gdev ! i))"
  by (simp add: maps_res_def set_slot_def sum_list_update)

lemma maps_wf_set_slot:
  "maps_wf gdev \<Longrightarrow> (let m = f (gd_gpu_maps gdev ! i) in \<not> gm_in_use m \<longrightarrow> gm_page_table m = 0 \<and> gm_dma_mapping m = 0) \<Longrightarrow>
    maps_wf (set_slot i f gdev)"
  using set_update_subset_insert[of "gd_gpu_maps gdev" i "f (gd_gpu_maps gdev ! i)"]
  by (auto simp: maps_wf_def set_slot_def list_all_iff Let_def)

lemma maps_res_free:
  assumes "\<forall>m \<in> set (gd_gpu_maps gdev). \<not> gm_in_use m"
  shows "maps_res gdev = {#}"
proof -
  have "(\<forall>m \<in> set ms. \<not> gm_in_use m) \<Longrightarrow> sum_list (map gpu_res ms) = {#}" for ms
    by (induction ms) (auto simp: gpu_res_def)
  then show ?thesis using assms by (simp add: maps_res_def)
qed

lemma free_slot_Some:
  "free_slot k ms = Some i \<Longrightarrow> k \<le> i \<and> i - k < length ms \<and> \<not> gm_in_use (ms ! (i - k)) \<and> (\<forall>j < i - k. gm_in_use (ms ! j))"
proof (induction k ms rule: free_slot.induct)
  case (2 k m ms)
  show ?case
  proof (cases "gm_in_use m")
    case True
    then have "Suc k \<le> i" "i - Suc k < length ms" "\<not> gm_in_use (ms ! (i - Suc k))" "\<forall>j < i - Suc k. gm_in_use (ms ! j)"
      using 2 by auto
    moreover from this have "i - k = Suc (i - Suc k)" by simp
    ultimately show ?thesis using True by (auto simp: less_Suc_eq_0_disj)
  qed (use 2 in auto)
qed simp

lemma free_slot_None: "free_slot k ms = None \<longleftrightarrow> (\<forall>m \<in> set ms. gm_in_use m)"
  by (induction k ms rule: free_slot.induct) auto

section \<open>Effects of the operations\<close>

definition clear_slot :: "gpunvme_gpu_mapping \<Rightarrow> gpunvme_gpu_mapping" where
  "clear_slot m = m\<lparr>gm_page_table := 0, gm_dma_mapping := 0, gm_in_use := False\<rparr>"

lemma gpu_res_clear [simp]: "gpu_res (clear_slot m) = {#}"
  by (simp add: gpu_res_def clear_slot_def)

lemma slot_of_handle: "i < GPUNVME_MAX_GPU_MAPPINGS \<Longrightarrow> sint (ucast (of_nat i :: u64) :: u32) = int i"
proof -
  assume "i < GPUNVME_MAX_GPU_MAPPINGS"
  then have "i \<in> set [0..<16]" by (simp add: GPUNVME_MAX_GPU_MAPPINGS_def)
  then show ?thesis by (simp add: upt_rec) (elim disjE; simp)
qed

lemma unmap_slot:
  assumes "ke_p2p E" "i < GPUNVME_MAX_GPU_MAPPINGS" "length (gd_gpu_maps gdev) = GPUNVME_MAX_GPU_MAPPINGS"
    "gm_in_use (gd_gpu_maps gdev ! i)"
  obtains s' where "run_state (gpunvme_gpu_mem_unmap E gdev \<lparr>ur_handle = of_nat i\<rparr>) s = ((0, set_slot i clear_slot gdev), s')"
    "mset (kheld_in s') = mset (kheld_in s) - gpu_res (gd_gpu_maps gdev ! i)"
proof -
  let ?m = "gd_gpu_maps gdev ! i"
  have e: "set_slot i f gdev = set_slot i g gdev" if "f ?m = g ?m" for f g
    using that by (simp add: set_slot_def)
  show thesis
    using assms slot_of_handle[OF assms(2)]
    by (intro that[of "snd (run_state (gpunvme_gpu_mem_unmap E gdev \<lparr>ur_handle = of_nat i\<rparr>) s)"])
      (auto simp: gpunvme_gpu_mem_unmap_def gpu_res_def clear_slot_def Let_def diff_diff_add intro!: e)
qed

lemma unmap_all_loop_releases:
  assumes "ke_p2p E"
  shows "length (gd_gpu_maps gdev) = GPUNVME_MAX_GPU_MAPPINGS \<Longrightarrow> i + n = GPUNVME_MAX_GPU_MAPPINGS \<Longrightarrow>
    (\<forall>j < i. \<not> gm_in_use (gd_gpu_maps gdev ! j)) \<Longrightarrow>
    (case run_state (unmap_all_loop E n i gdev) s of (gdev', s') \<Rightarrow>
       mset (kheld_in s') = mset (kheld_in s) - maps_res gdev \<and> length (gd_gpu_maps gdev') = GPUNVME_MAX_GPU_MAPPINGS \<and>
       (\<forall>m \<in> set (gd_gpu_maps gdev'). \<not> gm_in_use m))"
proof (induction n arbitrary: i gdev s)
  case 0
  then have free: "\<forall>m \<in> set (gd_gpu_maps gdev). \<not> gm_in_use m" by (auto simp: in_set_conv_nth)
  then show ?case using 0 maps_res_free[of gdev] by simp
next
  case (Suc n)
  have i: "i < GPUNVME_MAX_GPU_MAPPINGS" using Suc.prems(2) by simp
  show ?case
  proof (cases "gm_in_use (gd_gpu_maps gdev ! i)")
    case True
    from unmap_slot[OF assms i Suc.prems(1) True, of s] obtain s1 where
      run: "run_state (gpunvme_gpu_mem_unmap E gdev \<lparr>ur_handle = of_nat i\<rparr>) s = ((0, set_slot i clear_slot gdev), s1)"
      and held: "mset (kheld_in s1) = mset (kheld_in s) - gpu_res (gd_gpu_maps gdev ! i)" .
    let ?g = "set_slot i clear_slot gdev"
    have len: "length (gd_gpu_maps ?g) = GPUNVME_MAX_GPU_MAPPINGS" using Suc.prems(1) by simp
    have less: "\<forall>j < Suc i. \<not> gm_in_use (gd_gpu_maps ?g ! j)"
      using Suc.prems(1,3) i by (auto simp: less_Suc_eq clear_slot_def)
    have "maps_res ?g + gpu_res (gd_gpu_maps gdev ! i) = maps_res gdev"
      using maps_res_set_slot[of i gdev clear_slot] Suc.prems(1) i by simp
    then have "mset (kheld_in s1) - maps_res ?g = mset (kheld_in s) - maps_res gdev"
      unfolding held by (metis diff_diff_add add.commute)
    then show ?thesis using Suc.IH[OF len _ less, of s1] Suc.prems(2) True run by simp
  next
    case False
    then have "\<forall>j < Suc i. \<not> gm_in_use (gd_gpu_maps gdev ! j)" using Suc.prems(3) by (auto simp: less_Suc_eq)
    from Suc.IH[OF Suc.prems(1) _ this, of s] show ?thesis using Suc.prems(2) False by simp
  qed
qed

lemma unmap_all_releases:
  assumes "ke_p2p E" "length (gd_gpu_maps gdev) = GPUNVME_MAX_GPU_MAPPINGS"
  shows "case run_state (gpunvme_gpu_mem_unmap_all E gdev) s of (gdev', s') \<Rightarrow>
    mset (kheld_in s') = mset (kheld_in s) - maps_res gdev \<and> (\<forall>m \<in> set (gd_gpu_maps gdev'). \<not> gm_in_use m)"
  using unmap_all_loop_releases[OF assms, of 0 GPUNVME_MAX_GPU_MAPPINGS s] assms(1)
  by (auto simp: gpunvme_gpu_mem_unmap_all_def split: prod.splits)

text \<open>The slot after a successful mapping.\<close>

definition filled :: "gpunvme_gpu_mem_map_req \<Rightarrow> u64 \<Rightarrow> u64 \<Rightarrow> u64 \<Rightarrow> gpunvme_gpu_mapping \<Rightarrow> gpunvme_gpu_mapping" where
  "filled req pt d a m = m\<lparr>gm_gpu_vaddr := mr_gpu_vaddr req, gm_size := mr_size req, gm_page_table := pt,
     gm_dma_mapping := d, gm_bus_addr := a\<rparr>"

lemma fill_cases:
  assumes "p2p_contract E" "i < length (gd_gpu_maps gdev)"
    "gm_page_table (gd_gpu_maps gdev ! i) = 0" "gm_dma_mapping (gd_gpu_maps gdev ! i) = 0"
  obtains (failed) ret f s' where "run_state (gpu_mem_map_fill E i gdev req) s = ((ret, set_slot i f gdev, req), s')"
      "ret \<noteq> 0" "mset (kheld_in s') = mset (kheld_in s)"
      "\<not> gm_in_use (f (gd_gpu_maps gdev ! i))" "gm_page_table (f (gd_gpu_maps gdev ! i)) = 0" "gm_dma_mapping (f (gd_gpu_maps gdev ! i)) = 0"
  | (mapped) pt d a s' where "run_state (gpu_mem_map_fill E i gdev req) s =
        ((0, set_slot i (filled req pt d a) gdev, req\<lparr>mr_bus_addr := a, mr_handle := of_nat i\<rparr>), s')"
      "mset (kheld_in s') = mset (kheld_in s) + {#DmaMapping d, PageTable pt#}" "pt \<noteq> 0" "d \<noteq> 0"
proof (cases "ke_get_pages E (ks_log s) (mr_gpu_vaddr req) (mr_size req)")
  case (Inl ret)
  then have "ret \<noteq> 0" using assms(1) unfolding p2p_contract_def by blast
  then show thesis using Inl assms(2-4)
    by (intro failed[of ret "\<lambda>m. m\<lparr>gm_gpu_vaddr := mr_gpu_vaddr req, gm_size := mr_size req, gm_in_use := False\<rparr>"
        "s\<lparr>ks_log := KRefused ret # ks_log s\<rparr>"])
      (auto simp: gpu_mem_map_fill_def comp_def)
next
  case (Inr pt)
  then have pt: "pt \<noteq> 0" using assms(1) unfolding p2p_contract_def by blast
  let ?h = "KGet (PageTable pt) # ks_log s"
  show thesis
  proof (cases "ke_dma_map E ?h pt")
    case (Inl ret)
    then have "ret \<noteq> 0" using assms(1) unfolding p2p_contract_def by blast
    then show thesis using Inl Inr assms(2-4)
      by (intro failed[of ret "\<lambda>m. m\<lparr>gm_gpu_vaddr := mr_gpu_vaddr req, gm_size := mr_size req, gm_page_table := 0, gm_in_use := False\<rparr>"
          "s\<lparr>ks_log := KPut (PageTable pt) # KRefused ret # ?h\<rparr>"])
        (auto simp: gpu_mem_map_fill_def comp_def)
  next
    case dma: (Inr da)
    obtain d a where da: "da = (d, a)" by (cases da)
    then have "d \<noteq> 0" using dma assms(1) unfolding p2p_contract_def by blast
    then show thesis using Inr dma da pt assms(2)
      by (intro mapped[of pt d a "s\<lparr>ks_log := KGet (DmaMapping d) # ?h\<rparr>"]) (auto simp: gpu_mem_map_fill_def filled_def[abs_def] comp_def Let_def)
  qed
qed

section \<open>Sequences of operations\<close>

text \<open>The operations of user programs on the table, and the driver taking the pages of a slot back.\<close>

inductive gpu_step :: "kenv \<Rightarrow> gpunvme_dev \<times> kstate \<Rightarrow> gpunvme_dev \<times> kstate \<Rightarrow> bool" for E where
  map: "run_state (gpunvme_gpu_mem_map E gdev req) s = ((ret, gdev', req'), s') \<Longrightarrow> gpu_step E (gdev, s) (gdev', s')"
| unmap: "run_state (gpunvme_gpu_mem_unmap E gdev ureq) s = ((ret, gdev'), s') \<Longrightarrow> gpu_step E (gdev, s) (gdev', s')"
| revoke: "i < GPUNVME_MAX_GPU_MAPPINGS \<Longrightarrow> m = gd_gpu_maps gdev ! i \<Longrightarrow> gm_in_use m \<Longrightarrow> gm_page_table m \<noteq> 0 \<Longrightarrow> gm_dma_mapping m \<noteq> 0 \<Longrightarrow>
    gpu_step E (gdev, s) (gpunvme_p2p_free_callback i gdev,
      s\<lparr>ks_log := KPut (PageTable (gm_page_table m)) # KPut (DmaMapping (gm_dma_mapping m)) # ks_log s\<rparr>)"

inductive_cases gpu_stepE: "gpu_step E x y"

text \<open>The table is well formed and what is held, beyond \<open>M\<close>, is what its slots name.\<close>

definition gpu_inv :: "kres multiset \<Rightarrow> gpunvme_dev \<Rightarrow> kstate \<Rightarrow> bool" where
  "gpu_inv M gdev s \<longleftrightarrow> maps_wf gdev \<and> mset (kheld_in s) = M + maps_res gdev"

lemma claim_cases:
  assumes "maps_wf gdev"
  obtains (refused) ret where "gpu_mem_map_claim gdev req = (Inl ret, gdev)" "ret \<in> {- EINVAL, - ENOSPC}"
  | (claimed) i where "gpu_mem_map_claim gdev req = (Inr i, set_slot i (\<lambda>m. m\<lparr>gm_in_use := True\<rparr>) gdev)"
      "i < length (gd_gpu_maps gdev)" "\<not> gm_in_use (gd_gpu_maps gdev ! i)"
      "gm_page_table (gd_gpu_maps gdev ! i) = 0" "gm_dma_mapping (gd_gpu_maps gdev ! i) = 0"
proof (cases "mr_gpu_vaddr req = 0 \<or> mr_size req = 0 \<or> mr_size req AND (GPUNVME_GPU_PAGE_SIZE - 1) \<noteq> 0 \<or>
    free_slot 0 (gd_gpu_maps gdev) = None")
  case True
  then have "gpu_mem_map_claim gdev req = (Inl (- EINVAL), gdev) \<or> gpu_mem_map_claim gdev req = (Inl (- ENOSPC), gdev)"
    by (auto simp: gpu_mem_map_claim_def)
  then show thesis using refused by auto
next
  case False
  then obtain i where i: "free_slot 0 (gd_gpu_maps gdev) = Some i" by auto
  then have "i < length (gd_gpu_maps gdev)" "\<not> gm_in_use (gd_gpu_maps gdev ! i)" using free_slot_Some[OF i] by auto
  then show thesis using False i assms
    by (intro claimed) (auto simp: gpu_mem_map_claim_def set_slot_def maps_wf_def list_all_length)
qed

lemma gpu_mem_map_inv:
  assumes "p2p_contract E" "ke_p2p E" "gpu_inv M gdev s" "run_state (gpunvme_gpu_mem_map E gdev req) s = ((ret, gdev', req'), s')"
  shows "gpu_inv M gdev' s'"
proof -
  have wf: "maps_wf gdev" using assms(3) by (simp add: gpu_inv_def)
  from wf show ?thesis
  proof (cases rule: claim_cases[of gdev req])
    case (refused ret')
    then show ?thesis using assms by (simp add: gpunvme_gpu_mem_map_def)
  next
    case (claimed i)
    let ?c = "\<lambda>m. m\<lparr>gm_in_use := True\<rparr>"
    let ?g = "set_slot i ?c gdev"
    have i: "i < length (gd_gpu_maps ?g)" "gm_page_table (gd_gpu_maps ?g ! i) = 0" "gm_dma_mapping (gd_gpu_maps ?g ! i) = 0"
      using claimed by auto
    have res: "maps_res (set_slot i f gdev) = maps_res gdev + gpu_res (f (gd_gpu_maps gdev ! i))" for f
      using claimed(2,3) maps_res_set_slot[of i gdev f] by (simp add: gpu_res_def)
    from assms(1) i show ?thesis
    proof (cases rule: fill_cases[where req = req and s = s])
      case (failed ret1 f s1)
      then have "gdev' = set_slot i (f \<circ> ?c) gdev" "s' = s1" using assms(2,4) claimed(1) by (simp_all add: gpunvme_gpu_mem_map_def)
      moreover have "gpu_res ((f \<circ> ?c) (gd_gpu_maps gdev ! i)) = {#}" using failed(4) claimed(2) by (simp add: gpu_res_def)
      ultimately show ?thesis using assms(3) failed claimed(2) by (auto simp: gpu_inv_def res intro!: maps_wf_set_slot)
    next
      case (mapped pt d a s1)
      then have "gdev' = set_slot i (filled req pt d a \<circ> ?c) gdev" "s' = s1"
        using assms(2,4) claimed(1) by (simp_all add: gpunvme_gpu_mem_map_def)
      moreover have "gpu_res ((filled req pt d a \<circ> ?c) (gd_gpu_maps gdev ! i)) = {#DmaMapping d, PageTable pt#}"
        using mapped(3,4) by (simp add: gpu_res_def filled_def)
      ultimately show ?thesis using assms(3) mapped(2)
        by (auto simp: gpu_inv_def res filled_def intro!: maps_wf_set_slot)
    qed
  qed
qed

lemma clear_slot_inv:
  assumes "gpu_inv M gdev s" "i < GPUNVME_MAX_GPU_MAPPINGS" "mset (kheld_in s') = mset (kheld_in s) - gpu_res (gd_gpu_maps gdev ! i)"
  shows "gpu_inv M (set_slot i clear_slot gdev) s'"
proof -
  have "maps_res (set_slot i clear_slot gdev) + gpu_res (gd_gpu_maps gdev ! i) = maps_res gdev"
    using assms(1,2) maps_res_set_slot[of i gdev clear_slot] by (simp add: gpu_inv_def maps_wf_def)
  then have "M + maps_res gdev - gpu_res (gd_gpu_maps gdev ! i) = M + maps_res (set_slot i clear_slot gdev)"
    by (metis add_diff_cancel_right' add.assoc)
  then show ?thesis using assms by (auto simp: gpu_inv_def clear_slot_def intro!: maps_wf_set_slot)
qed

lemma gpu_mem_unmap_inv:
  assumes "ke_p2p E" "gpu_inv M gdev s" "run_state (gpunvme_gpu_mem_unmap E gdev ureq) s = ((ret, gdev'), s')"
  shows "gpu_inv M gdev' s'"
proof (cases "gdev' = gdev \<and> s' = s")
  case False
  define i where "i = nat (sint (ucast (ur_handle ureq) :: u32))"
  have i: "i < GPUNVME_MAX_GPU_MAPPINGS" "gm_in_use (gd_gpu_maps gdev ! i)"
    using assms(1,3) False by (auto simp: gpunvme_gpu_mem_unmap_def i_def Let_def split: if_splits)
  have "gpunvme_gpu_mem_unmap E gdev ureq = gpunvme_gpu_mem_unmap E gdev \<lparr>ur_handle = of_nat i\<rparr>"
    using assms(3) False slot_of_handle[OF i(1)]
    by (auto simp: gpunvme_gpu_mem_unmap_def i_def Let_def split: if_splits)
  moreover have "length (gd_gpu_maps gdev) = GPUNVME_MAX_GPU_MAPPINGS" using assms(2) by (simp add: gpu_inv_def maps_wf_def)
  ultimately show ?thesis
    using unmap_slot[OF assms(1) i(1) _ i(2), of s] clear_slot_inv[OF assms(2) i(1)] assms(3) by (metis Pair_inject)
qed (use assms(2) in simp)

lemma gpu_step_inv:
  assumes "p2p_contract E" "ke_p2p E" "gpu_step E x y" "gpu_inv M (fst x) (snd x)"
  shows "gpu_inv M (fst y) (snd y)"
  using assms(3)
proof (cases rule: gpu_step.cases)
  case (map gdev req s ret gdev' req' s')
  then show ?thesis using gpu_mem_map_inv[OF assms(1,2)] assms(4) by simp
next
  case (unmap gdev ureq s ret gdev' s')
  then show ?thesis using gpu_mem_unmap_inv[OF assms(2)] assms(4) by simp
next
  case (revoke i m gdev s)
  have "gpunvme_p2p_free_callback i gdev = set_slot i clear_slot gdev"
    by (simp add: gpunvme_p2p_free_callback_def set_slot_def clear_slot_def Let_def)
  then show ?thesis using revoke assms(4) clear_slot_inv[of M gdev s i] by (simp add: gpu_res_def diff_diff_add)
qed

lemma gpu_reachable_inv:
  assumes "p2p_contract E" "ke_p2p E"
  shows "(gpu_step E)\<^sup>*\<^sup>* x y \<Longrightarrow> gpu_inv M (fst x) (snd x) \<Longrightarrow> gpu_inv M (fst y) (snd y)"
  by (induction rule: rtranclp_induct) (auto intro: gpu_step_inv[OF assms])

text \<open>C34. GPU mappings never leak or are released twice as long as operations do not overlap: after any
  sequence of map and unmap calls (with any arguments and any answers of the driver) and of pages
  taken back by the driver, the module holds, beyond what it held at first, exactly the page tables
  and DMA mappings that the slots in use name, and removing the device releases all of them and
  leaves every slot free.\<close>

theorem gpu_maps_balanced:
  assumes "p2p_contract E" "ke_p2p E"
    and "maps_wf gdev0" "\<forall>m \<in> set (gd_gpu_maps gdev0). \<not> gm_in_use m"
    and "(gpu_step E)\<^sup>*\<^sup>* (gdev0, s0) (gdev, s)"
  shows "mset (kheld_in s) = mset (kheld_in s0) + maps_res gdev \<and>
    (case run_state (gpunvme_gpu_mem_unmap_all E gdev) s of (gdev', s') \<Rightarrow>
       mset (kheld_in s') = mset (kheld_in s0) \<and> (\<forall>m \<in> set (gd_gpu_maps gdev'). \<not> gm_in_use m))"
proof -
  have "gpu_inv (mset (kheld_in s0)) gdev0 s0" using assms(3) maps_res_free[OF assms(4)] by (simp add: gpu_inv_def)
  then have "gpu_inv (mset (kheld_in s0)) gdev s" using gpu_reachable_inv[OF assms(1,2,5)] by simp
  then show ?thesis using unmap_all_releases[OF assms(2), of gdev s]
    by (auto simp: gpu_inv_def maps_wf_def split: prod.splits)
qed

text \<open>A concrete driver: page tables and DMA mappings at fixed addresses.\<close>

definition example_kernel :: kenv where
  "example_kernel = \<lparr>ke_target_bdf = None, ke_dev_name = ''0000:03:00.0'', ke_kzalloc = (\<lambda>h. True), ke_enable = (\<lambda>h. Inr ()),
     ke_request = (\<lambda>h. Inr ()), ke_bar_start = 0xFE800000, ke_bar_len = 0x4000, ke_iomap = (\<lambda>h. Some 0xC0000000),
     ke_dma_mask = (\<lambda>h n. Inr ()), ke_cdev_add = (\<lambda>h. Inr ()), ke_device_create = (\<lambda>h. Inr 0x7000),
     ke_chrdev_region = (\<lambda>h. Inr 240), ke_class_create = (\<lambda>h. Inr 0x6000), ke_pci_register = (\<lambda>h. Inr ()),
     ke_remap = (\<lambda>h pfn n. True), ke_copy_to = (\<lambda>h. True), ke_pin = (\<lambda>h v. Inr (Some 0x5000)),
     ke_get_pages = (\<lambda>h v n. Inr 0x8000), ke_dma_map = (\<lambda>h pt. Inr (0x9000, 0xA0000)), ke_p2p = True\<rparr>"

definition kstate_zero :: kstate where
  "kstate_zero = \<lparr>ks_dev_count = 0, ks_major = 0, ks_class = 0, ks_log = []\<rparr>"

definition example_map_req :: gpunvme_gpu_mem_map_req where
  "example_map_req = \<lparr>mr_gpu_vaddr = 0x7F0000000000, mr_size = 0x20000, mr_bus_addr = 0, mr_handle = 0\<rparr>"

lemma example_kernel_p2p: "p2p_contract example_kernel" "ke_p2p example_kernel"
  by (simp_all add: p2p_contract_def example_kernel_def)

lemma gdev_zero_maps: "maps_wf gdev_zero" "\<forall>m \<in> set (gd_gpu_maps gdev_zero). \<not> gm_in_use m"
  by (simp_all add: maps_wf_def gdev_zero_def gpu_mapping_zero_def list_all_iff)

lemma example_claim: "gpu_mem_map_claim gdev_zero example_map_req = (Inr 0, set_slot 0 (\<lambda>m. m\<lparr>gm_in_use := True\<rparr>) gdev_zero)"
proof -
  have "replicate 16 x = x # replicate 15 x" for x :: gpunvme_gpu_mapping by (simp add: numeral_eq_Suc)
  then show ?thesis
    by (simp add: gpu_mem_map_claim_def example_map_req_def GPUNVME_GPU_PAGE_SIZE_def set_slot_def gdev_zero_def
        GPUNVME_MAX_GPU_MAPPINGS_def gpu_mapping_zero_def)
qed

theorem gpu_maps_balanced_witness:
  "\<exists>gdev s. (gpu_step example_kernel)\<^sup>*\<^sup>* (gdev_zero, kstate_zero) (gdev, s) \<and>
     mset (kheld_in s) = {#DmaMapping 0x9000, PageTable 0x8000#} \<and>
     mset (kheld_in (snd (run_state (gpunvme_gpu_mem_unmap_all example_kernel gdev) s))) = {#}"
proof -
  define r where "r = run_state (gpunvme_gpu_mem_map example_kernel gdev_zero example_map_req) kstate_zero"
  have held: "mset (kheld_in (snd r)) = {#DmaMapping 0x9000, PageTable 0x8000#}"
    unfolding r_def gpunvme_gpu_mem_map_def example_claim
    by (simp add: example_kernel_def gpu_mem_map_fill_def kstate_zero_def Let_def)
  obtain ret g req' s where r: "r = ((ret, g, req'), s)" by (metis surj_pair)
  have "(gpu_step example_kernel)\<^sup>*\<^sup>* (gdev_zero, kstate_zero) (g, s)"
    using gpu_step.map[of example_kernel gdev_zero example_map_req kstate_zero] r unfolding r_def by blast
  from gpu_maps_balanced[OF example_kernel_p2p gdev_zero_maps this] this held r show ?thesis
    by (intro exI[of _ g] exI[of _ s]) (auto simp: kstate_zero_def split: prod.splits)
qed

text \<open>C36. The lock does not protect a mapping that is being made: when an unmap call for the slot comes
  between the claim of the slot and the rest of the map call, both report success, the user's handle is
  then refused as not in use, and the pages pinned by the map call stay pinned for good, even after the
  removal of the device has released everything it finds.\<close>

theorem gpu_map_race_leaks:
  assumes "p2p_contract E" "ke_p2p E" "gpu_inv M gdev s1"
    and "gpu_mem_map_claim gdev req = (Inr slot, gdev1)"
    and "run_state (gpunvme_gpu_mem_unmap E gdev1 \<lparr>ur_handle = of_nat slot\<rparr>) s1 = ((ret2, gdev2), s2)"
    and "run_state (gpu_mem_map_fill E slot gdev2 req) s2 = ((0, gdev3, req3), s3)"
    and "run_state (gpunvme_gpu_mem_unmap_all E gdev3) s3 = (gdev4, s4)"
  shows "ret2 = 0 \<and> mr_handle req3 = of_nat slot \<and>
    fst (fst (run_state (gpunvme_gpu_mem_unmap E gdev3 \<lparr>ur_handle = mr_handle req3\<rparr>) s3)) = - ENOENT \<and>
    (\<exists>pt d. mset (kheld_in s4) = M + {#DmaMapping d, PageTable pt#})"
proof -
  have wf: "maps_wf gdev" and held: "mset (kheld_in s1) = M + maps_res gdev" using assms(3) by (simp_all add: gpu_inv_def)
  have len: "length (gd_gpu_maps gdev) = GPUNVME_MAX_GPU_MAPPINGS" using wf by (simp add: maps_wf_def)
  let ?c = "\<lambda>m. m\<lparr>gm_in_use := True\<rparr>"
  obtain gdev1: "gdev1 = set_slot slot ?c gdev" and i: "slot < length (gd_gpu_maps gdev)"
    and free: "\<not> gm_in_use (gd_gpu_maps gdev ! slot)" "gm_page_table (gd_gpu_maps gdev ! slot) = 0" "gm_dma_mapping (gd_gpu_maps gdev ! slot) = 0"
    using claim_cases[OF wf, of req] assms(4) by (metis Inl_Inr_False Pair_inject Inr_inject)
  have res: "maps_res (set_slot slot f gdev) = maps_res gdev + gpu_res (f (gd_gpu_maps gdev ! slot))" for f
    using i free maps_res_set_slot[of slot gdev f] by (simp add: gpu_res_def)
  have s16: "slot < GPUNVME_MAX_GPU_MAPPINGS" using i len by simp
  have u: "ret2 = 0" "gdev2 = set_slot slot (clear_slot \<circ> ?c) gdev" "mset (kheld_in s2) = mset (kheld_in s1)"
    using unmap_slot[OF assms(2) s16, of gdev1 s1] assms(5) i free len unfolding gdev1
    by (fastforce simp: gpu_res_def)+
  have i2: "slot < length (gd_gpu_maps gdev2)" "gm_page_table (gd_gpu_maps gdev2 ! slot) = 0" "gm_dma_mapping (gd_gpu_maps gdev2 ! slot) = 0"
    using i unfolding u(2) by (simp_all add: clear_slot_def)
  from assms(1) i2 obtain pt d a where f: "gdev3 = set_slot slot (filled req pt d a) gdev2" "req3 = req\<lparr>mr_bus_addr := a, mr_handle := of_nat slot\<rparr>"
      "mset (kheld_in s3) = mset (kheld_in s2) + {#DmaMapping d, PageTable pt#}"
  proof (cases rule: fill_cases[where req = req and s = s2])
    case (mapped pt d a s')
    then show thesis using that[of pt d a] assms(6) by simp
  qed (use assms(6) in simp)
  have nu: "\<not> gm_in_use (gd_gpu_maps gdev3 ! slot)" using i unfolding f(1) u(2) by (simp add: clear_slot_def filled_def)
  have "maps_res gdev3 = maps_res gdev" unfolding f(1) u(2) by (simp add: res gpu_res_def filled_def clear_slot_def)
  moreover have "length (gd_gpu_maps gdev3) = GPUNVME_MAX_GPU_MAPPINGS" unfolding f(1) u(2) using len by simp
  ultimately have "mset (kheld_in s4) = M + {#DmaMapping d, PageTable pt#}"
    using unmap_all_releases[OF assms(2), of gdev3 s3] assms(7) f(3) u(3) held by (simp add: union_commute)
  moreover have "fst (fst (run_state (gpunvme_gpu_mem_unmap E gdev3 \<lparr>ur_handle = mr_handle req3\<rparr>) s3)) = - ENOENT"
    using nu slot_of_handle[OF s16] s16 assms(2) f(2) by (simp add: gpunvme_gpu_mem_unmap_def)
  ultimately show ?thesis using u(1) f(2) by auto
qed

theorem gpu_map_race_leaks_witness:
  "\<exists>gdev1 gdev2 s2 gdev3 req3 s3 gdev4 s4.
     gpu_mem_map_claim gdev_zero example_map_req = (Inr 0, gdev1) \<and>
     run_state (gpunvme_gpu_mem_unmap example_kernel gdev1 \<lparr>ur_handle = of_nat 0\<rparr>) kstate_zero = ((0, gdev2), s2) \<and>
     run_state (gpu_mem_map_fill example_kernel 0 gdev2 example_map_req) s2 = ((0, gdev3, req3), s3) \<and>
     run_state (gpunvme_gpu_mem_unmap_all example_kernel gdev3) s3 = (gdev4, s4) \<and>
     (\<exists>pt d. mset (kheld_in s4) = {#} + {#DmaMapping d, PageTable pt#})"
proof -
  let ?g1 = "set_slot 0 (\<lambda>m. m\<lparr>gm_in_use := True\<rparr>) gdev_zero"
  have inv: "gpu_inv {#} gdev_zero kstate_zero"
    using gdev_zero_maps maps_res_free[OF gdev_zero_maps(2)] by (simp add: gpu_inv_def kstate_zero_def)
  obtain ret2 gdev2 s2 where u: "run_state (gpunvme_gpu_mem_unmap example_kernel ?g1 \<lparr>ur_handle = of_nat 0\<rparr>) kstate_zero = ((ret2, gdev2), s2)"
    by (metis surj_pair)
  obtain ret3 gdev3 req3 s3 where f: "run_state (gpu_mem_map_fill example_kernel 0 gdev2 example_map_req) s2 = ((ret3, gdev3, req3), s3)"
    by (metis surj_pair)
  have "ret3 = 0" using f by (simp add: gpu_mem_map_fill_def example_kernel_def Let_def)
  moreover obtain gdev4 s4 where a: "run_state (gpunvme_gpu_mem_unmap_all example_kernel gdev3) s3 = (gdev4, s4)"
    by (metis surj_pair)
  ultimately show ?thesis
    using gpu_map_race_leaks[OF example_kernel_p2p inv example_claim u _ a, of req3] example_claim u f a by blast
qed

end
