(* ===== verification/Kmod_Chrdev.thy ===== *)
theory Kmod_Chrdev
  imports Kmod_Dma
begin

text \<open>
  The character device of the kernel module (\<^verbatim>\<open>kmod/gpunvme_chrdev.c\<close>): mapping BAR0 into a process, the
  four ioctls and their dispatch, creation and destruction of the device. The memory of the caller at
  the argument of an ioctl is the list of the 64-bit words that can be read there; all structures of
  the interface are made of such words. What a copy that fails leaves there is not modelled.
\<close>

section \<open>Opening and closing\<close>

text \<open>The return value and the private data of the file.\<close>

definition gpunvme_open :: "gpunvme_dev \<Rightarrow> int \<times> gpunvme_dev" where
  "gpunvme_open gdev = (0, gdev)"

definition gpunvme_release :: "gpunvme_dev \<Rightarrow> int" where
  "gpunvme_release gdev = 0"

section \<open>Mapping BAR0\<close>

text \<open>A memory area of a process, and what it was mapped to: page frame and length.\<close>

record vm_area =
  vm_start :: u64
  vm_end :: u64
  vm_pgoff :: u64
  vm_noncached :: bool
  vm_io :: bool    \<comment> \<open>the flags VM_IO, VM_DONTEXPAND and VM_DONTDUMP\<close>
  vm_mapped :: "(u64 \<times> u64) option"

definition gpunvme_mmap :: "kenv \<Rightarrow> gpunvme_dev \<Rightarrow> vm_area \<Rightarrow> (int \<times> vm_area) kern" where
  "gpunvme_mmap E gdev vma = do {
     let offset = push_bit PAGE_SHIFT (vm_pgoff vma);
     let requested_size = vm_end vma - vm_start vma;
     if offset + requested_size > gd_bar0_size gdev then State_Monad.return (- EINVAL, vma)
     else do {
       let vma = vma\<lparr>vm_noncached := True, vm_io := True\<rparr>;
       let pfn = drop_bit PAGE_SHIFT (gd_bar0_phys gdev + offset);
       s \<leftarrow> State_Monad.get;
       if \<not> ke_remap E (ks_log s) pfn requested_size then State_Monad.return (- EAGAIN, vma)
       else State_Monad.return (0, vma\<lparr>vm_mapped := Some (pfn, requested_size)\<rparr>)
     }
   }"

section \<open>The ioctls\<close>

text \<open>Command numbers: direction (1 to the kernel, 2 from it, 3 both), size of the structure, the
  magic letter and the number.\<close>

definition ioc :: "u32 \<Rightarrow> u32 \<Rightarrow> u32 \<Rightarrow> u32" where
  "ioc dir nr n = push_bit 30 dir OR push_bit 16 n OR push_bit 8 (of_char CHR ''G'') OR nr"

definition GPUNVME_IOCTL_GET_BAR_INFO :: u32 where "GPUNVME_IOCTL_GET_BAR_INFO = ioc 2 0x01 16"
definition GPUNVME_IOCTL_MAP_GPU_MEM :: u32 where "GPUNVME_IOCTL_MAP_GPU_MEM = ioc 3 0x02 32"
definition GPUNVME_IOCTL_UNMAP_GPU_MEM :: u32 where "GPUNVME_IOCTL_UNMAP_GPU_MEM = ioc 1 0x03 8"
definition GPUNVME_IOCTL_GET_PHYS_ADDR :: u32 where "GPUNVME_IOCTL_GET_PHYS_ADDR = ioc 3 0x04 16"

lemmas ioctl_numbers = GPUNVME_IOCTL_GET_BAR_INFO_def GPUNVME_IOCTL_MAP_GPU_MEM_def
  GPUNVME_IOCTL_UNMAP_GPU_MEM_def GPUNVME_IOCTL_GET_PHYS_ADDR_def

definition copy_from_user :: "nat \<Rightarrow> u64 list \<Rightarrow> u64 list option" where
  "copy_from_user n arg = (if n \<le> length arg then Some (take n arg) else None)"

definition copy_to_user :: "kenv \<Rightarrow> u64 list \<Rightarrow> u64 list \<Rightarrow> (bool \<times> u64 list) kern" where
  "copy_to_user E ws arg = do {
     s \<leftarrow> State_Monad.get;
     State_Monad.return (if ke_copy_to E (ks_log s) \<and> length ws \<le> length arg
       then (True, ws @ drop (length ws) arg) else (False, arg))
   }"

definition gpunvme_ioctl_get_bar_info :: "kenv \<Rightarrow> gpunvme_dev \<Rightarrow> u64 list \<Rightarrow> (int \<times> u64 list) kern" where
  "gpunvme_ioctl_get_bar_info E gdev arg = do {
     let info = \<lparr>bi_phys_addr = gd_bar0_phys gdev, bi_size = gd_bar0_size gdev\<rparr>;
     (ok, arg) \<leftarrow> copy_to_user E [bi_phys_addr info, bi_size info] arg;
     State_Monad.return (if ok then 0 else - EFAULT, arg)
   }"

definition map_req_of_words :: "u64 list \<Rightarrow> gpunvme_gpu_mem_map_req" where
  "map_req_of_words ws = \<lparr>mr_gpu_vaddr = ws ! 0, mr_size = ws ! 1, mr_bus_addr = ws ! 2, mr_handle = ws ! 3\<rparr>"

definition words_of_map_req :: "gpunvme_gpu_mem_map_req \<Rightarrow> u64 list" where
  "words_of_map_req r = [mr_gpu_vaddr r, mr_size r, mr_bus_addr r, mr_handle r]"

definition gpunvme_ioctl_map_gpu_mem :: "kenv \<Rightarrow> gpunvme_dev \<Rightarrow> u64 list \<Rightarrow> (int \<times> gpunvme_dev \<times> u64 list) kern" where
  "gpunvme_ioctl_map_gpu_mem E gdev arg =
    (case copy_from_user 4 arg of
       None \<Rightarrow> State_Monad.return (- EFAULT, gdev, arg)
     | Some ws \<Rightarrow> do {
         (ret, gdev, req) \<leftarrow> gpunvme_gpu_mem_map E gdev (map_req_of_words ws);
         if ret \<noteq> 0 then State_Monad.return (ret, gdev, arg)
         else do {
           (ok, arg) \<leftarrow> copy_to_user E (words_of_map_req req) arg;
           State_Monad.return (if ok then 0 else - EFAULT, gdev, arg)
         }
       })"

definition gpunvme_ioctl_unmap_gpu_mem :: "kenv \<Rightarrow> gpunvme_dev \<Rightarrow> u64 list \<Rightarrow> (int \<times> gpunvme_dev) kern" where
  "gpunvme_ioctl_unmap_gpu_mem E gdev arg =
    (case copy_from_user 1 arg of
       None \<Rightarrow> State_Monad.return (- EFAULT, gdev)
     | Some ws \<Rightarrow> gpunvme_gpu_mem_unmap E gdev \<lparr>ur_handle = ws ! 0\<rparr>)"

definition gpunvme_ioctl_get_phys_addr :: "kenv \<Rightarrow> gpunvme_dev \<Rightarrow> u64 list \<Rightarrow> (int \<times> u64 list) kern" where
  "gpunvme_ioctl_get_phys_addr E gdev arg =
    (case copy_from_user 2 arg of
       None \<Rightarrow> State_Monad.return (- EFAULT, arg)
     | Some ws \<Rightarrow> do {
         let req = \<lparr>pr_vaddr = ws ! 0, pr_phys_addr = ws ! 1\<rparr>;
         s \<leftarrow> State_Monad.get;
         case ke_pin E (ks_log s) (pr_vaddr req) of
           Inl ret \<Rightarrow> State_Monad.return (ret, arg)
         | Inr None \<Rightarrow> State_Monad.return (- EFAULT, arg)
         | Inr (Some page) \<Rightarrow> do {
             klog (KGet (UserPage page));
             let req = req\<lparr>pr_phys_addr := page + (pr_vaddr req AND mask PAGE_SHIFT)\<rparr>;
             kput (UserPage page);
             (ok, arg) \<leftarrow> copy_to_user E [pr_vaddr req, pr_phys_addr req] arg;
             State_Monad.return (if ok then 0 else - EFAULT, arg)
           }
       })"

definition gpunvme_ioctl :: "kenv \<Rightarrow> u32 \<Rightarrow> gpunvme_dev \<Rightarrow> u64 list \<Rightarrow> (int \<times> gpunvme_dev \<times> u64 list) kern" where
  "gpunvme_ioctl E cmd gdev arg =
    (if cmd = GPUNVME_IOCTL_GET_BAR_INFO then do {
       (ret, arg) \<leftarrow> gpunvme_ioctl_get_bar_info E gdev arg;
       State_Monad.return (ret, gdev, arg)
     }
     else if cmd = GPUNVME_IOCTL_MAP_GPU_MEM then gpunvme_ioctl_map_gpu_mem E gdev arg
     else if cmd = GPUNVME_IOCTL_UNMAP_GPU_MEM then do {
       (ret, gdev) \<leftarrow> gpunvme_ioctl_unmap_gpu_mem E gdev arg;
       State_Monad.return (ret, gdev, arg)
     }
     else if cmd = GPUNVME_IOCTL_GET_PHYS_ADDR then do {
       (ret, arg) \<leftarrow> gpunvme_ioctl_get_phys_addr E gdev arg;
       State_Monad.return (ret, gdev, arg)
     }
     else State_Monad.return (- ENOTTY, gdev, arg))"

section \<open>The device\<close>

definition gpunvme_chrdev_create :: "kenv \<Rightarrow> gpunvme_dev \<Rightarrow> (int \<times> gpunvme_dev) kern" where
  "gpunvme_chrdev_create E gdev = do {
     s \<leftarrow> State_Monad.get;
     let gdev = gdev\<lparr>gd_dev_num := (ks_major s, gd_index gdev)\<rparr>;
     r \<leftarrow> kacquire (ke_cdev_add E) (\<lambda>_. CharDev (gd_dev_num gdev));
     case r of
       Inl ret \<Rightarrow> State_Monad.return (ret, gdev)
     | Inr _ \<Rightarrow> do {
         r \<leftarrow> kacquire (ke_device_create E) (\<lambda>_. DevNode (gd_dev_num gdev));
         case r of
           Inl ret \<Rightarrow> do {
             kput (CharDev (gd_dev_num gdev));
             State_Monad.return (ret, gdev\<lparr>gd_dev := word_of_int ret\<rparr>)
           }
         | Inr d \<Rightarrow> State_Monad.return (0, gdev\<lparr>gd_dev := d\<rparr>)
       }
   }"

definition gpunvme_chrdev_destroy :: "gpunvme_dev \<Rightarrow> gpunvme_dev kern" where
  "gpunvme_chrdev_destroy gdev = do {
     gdev \<leftarrow> (if gd_dev gdev \<noteq> 0 then do {
                kput (DevNode (gd_dev_num gdev));
                State_Monad.return (gdev\<lparr>gd_dev := 0\<rparr>)
              } else State_Monad.return gdev);
     kput (CharDev (gd_dev_num gdev));
     State_Monad.return gdev
   }"

section \<open>Mappings stay within BAR0\<close>

text \<open>C37. A process sees BAR0 and nothing else: every byte of a mapping that \<^verbatim>\<open>gpunvme_mmap\<close> accepts has a
  physical address within BAR0, uncached, at the place that the offset asks for. Requests that reach
  beyond BAR0 are refused. The kernel guarantees that offset and length of a mapping do not exceed the
  64-bit range, and BAR0 is aligned to pages.\<close>

theorem mmap_within_bar0:
  assumes "unat (gd_bar0_phys gdev) mod 4096 = 0" "unat (gd_bar0_phys gdev) + unat (gd_bar0_size gdev) \<le> 2 ^ 64"
    and "vm_start vma \<le> vm_end vma" "unat (vm_pgoff vma) * 4096 + (unat (vm_end vma) - unat (vm_start vma)) < 2 ^ 64"
    and "run_state (gpunvme_mmap E gdev vma) s = ((ret, vma'), s')"
  shows "s' = s \<and>
    (ret = 0 \<longrightarrow> vm_noncached vma' \<and> (\<exists>pfn n. vm_mapped vma' = Some (pfn, n) \<and> unat n = unat (vm_end vma) - unat (vm_start vma) \<and>
       (\<forall>i < unat n. unat pfn * 4096 = unat (gd_bar0_phys gdev) + unat (vm_pgoff vma) * 4096 \<and>
          unat pfn * 4096 + i < unat (gd_bar0_phys gdev) + unat (gd_bar0_size gdev)))) \<and>
    (unat (vm_pgoff vma) * 4096 + (unat (vm_end vma) - unat (vm_start vma)) > unat (gd_bar0_size gdev) \<longrightarrow> ret = - EINVAL \<and> vma' = vma)"
proof -
  define off where "off = push_bit PAGE_SHIFT (vm_pgoff vma)"
  define n where "n = vm_end vma - vm_start vma"
  have n: "unat n = unat (vm_end vma) - unat (vm_start vma)" using assms(3) by (simp add: n_def unat_sub word_le_nat_alt)
  have off: "unat off = unat (vm_pgoff vma) * 4096"
    using assms(4) by (simp add: off_def PAGE_SHIFT_def push_bit_eq_mult unat_word_ariths(2))
  have sum: "unat (off + n) = unat off + unat n" using assms(4) n off by (simp add: unat_word_ariths(1))
  show ?thesis
  proof (cases "off + n > gd_bar0_size gdev")
    case True
    then show ?thesis using assms(5) by (auto simp: gpunvme_mmap_def Let_def off_def n_def EINVAL_def)
  next
    case False
    then have le: "unat off + unat n \<le> unat (gd_bar0_size gdev)" using sum by (simp add: not_less word_le_nat_alt)
    define pfn where "pfn = drop_bit PAGE_SHIFT (gd_bar0_phys gdev + off)"
    have run: "ret = (if ke_remap E (ks_log s) pfn n then 0 else - EAGAIN)" "s' = s"
      "ret = 0 \<Longrightarrow> vma' = vma\<lparr>vm_noncached := True, vm_io := True, vm_mapped := Some (pfn, n)\<rparr>"
      using assms(5) False by (auto simp: gpunvme_mmap_def Let_def off_def n_def pfn_def EAGAIN_def split: if_splits)
    have bytes: "unat pfn * 4096 = unat (gd_bar0_phys gdev) + unat off" if "0 < unat n"
    proof -
      have "unat (gd_bar0_phys gdev + off) = unat (gd_bar0_phys gdev) + unat off"
        using le assms(2) that by (simp add: unat_word_ariths(1))
      moreover have "(unat (gd_bar0_phys gdev) + unat off) mod 4096 = 0" using assms(1) off by simp
      moreover have "unat pfn = unat (gd_bar0_phys gdev + off) div 4096"
        by (simp add: pfn_def PAGE_SHIFT_def unat_drop_bit_eq drop_bit_eq_div unat_div)
      ultimately show ?thesis using div_mult_mod_eq[of "unat (gd_bar0_phys gdev) + unat off" 4096] by simp
    qed
    show ?thesis using run le n off bytes by auto
  qed
qed

definition example_gdev :: gpunvme_dev where
  "example_gdev = gdev_zero\<lparr>gd_bar0_phys := 0xFE800000, gd_bar0_size := 0x4000\<rparr>"

definition example_vma :: vm_area where
  "example_vma = \<lparr>vm_start = 0x70000000, vm_end = 0x70002000, vm_pgoff = 1, vm_noncached = False, vm_io = False, vm_mapped = None\<rparr>"

theorem mmap_within_bar0_witness:
  "\<exists>vma'. run_state (gpunvme_mmap example_kernel example_gdev example_vma) kstate_zero = ((0, vma'), kstate_zero) \<and>
     vm_noncached vma' \<and> vm_mapped vma' = Some (0xFE801, 0x2000)"
proof -
  obtain ret vma' s' where r: "run_state (gpunvme_mmap example_kernel example_gdev example_vma) kstate_zero = ((ret, vma'), s')"
    by (metis surj_pair)
  have v: "ret = 0" "vm_mapped vma' = Some (0xFE801, 0x2000)"
    using r by (auto simp: gpunvme_mmap_def example_gdev_def example_vma_def example_kernel_def PAGE_SHIFT_def
        drop_bit_eq_div Let_def split: if_splits)
  have "s' = kstate_zero \<and> (ret = 0 \<longrightarrow> vm_noncached vma')"
    using mmap_within_bar0[OF _ _ _ _ r] by (simp add: example_gdev_def example_vma_def)
  then show ?thesis using r v by auto
qed

section \<open>What the ioctls do\<close>

text \<open>The four command numbers are different.\<close>

lemma ioctl_numbers_distinct:
  "distinct [GPUNVME_IOCTL_GET_BAR_INFO, GPUNVME_IOCTL_MAP_GPU_MEM, GPUNVME_IOCTL_UNMAP_GPU_MEM, GPUNVME_IOCTL_GET_PHYS_ADDR]"
  by (simp add: ioctl_numbers ioc_def)

lemma ioctl_cases:
  obtains (bar) "cmd = GPUNVME_IOCTL_GET_BAR_INFO" | (map) "cmd = GPUNVME_IOCTL_MAP_GPU_MEM" | (unmap) "cmd = GPUNVME_IOCTL_UNMAP_GPU_MEM"
    | (phys) "cmd = GPUNVME_IOCTL_GET_PHYS_ADDR"
    | (other) "cmd \<notin> {GPUNVME_IOCTL_GET_BAR_INFO, GPUNVME_IOCTL_MAP_GPU_MEM, GPUNVME_IOCTL_UNMAP_GPU_MEM, GPUNVME_IOCTL_GET_PHYS_ADDR}"
  by blast

text \<open>The ioctls keep the table in order and the resources in balance; without the NVIDIA interface they
  change neither.\<close>

lemma ioctl_inv:
  assumes "p2p_contract E" "gpu_inv M gdev s" "run_state (gpunvme_ioctl E cmd gdev arg) s = ((ret, gdev', arg'), s')"
  shows "gpu_inv M gdev' s' \<and> length arg' = length arg \<and> (\<not> ke_p2p E \<longrightarrow> gdev' = gdev)"
proof (cases cmd rule: ioctl_cases)
  note nums = ioctl_numbers_distinct[simplified]
  case bar
  then show ?thesis using assms(2,3) nums
    by (auto simp: gpunvme_ioctl_def gpunvme_ioctl_get_bar_info_def copy_to_user_def Let_def split: if_splits)
next
  note nums = ioctl_numbers_distinct[simplified]
  case map
  obtain r g q s1 where run: "run_state (gpunvme_gpu_mem_map E gdev (map_req_of_words (take 4 arg))) s = ((r, g, q), s1)"
    by (metis surj_pair)
  then have "gpu_inv M g s1 \<and> (\<not> ke_p2p E \<longrightarrow> g = gdev)"
    using gpu_mem_map_inv[OF assms(1) _ assms(2) run] assms(2) by (cases "ke_p2p E") (auto simp: gpunvme_gpu_mem_map_def)
  then show ?thesis using assms(2,3) map nums run
    by (auto simp: gpunvme_ioctl_def gpunvme_ioctl_map_gpu_mem_def copy_from_user_def copy_to_user_def words_of_map_req_def split: if_splits)
next
  note nums = ioctl_numbers_distinct[simplified]
  case unmap
  obtain r g s1 where run: "run_state (gpunvme_gpu_mem_unmap E gdev \<lparr>ur_handle = take 1 arg ! 0\<rparr>) s = ((r, g), s1)"
    by (metis surj_pair)
  then have "gpu_inv M g s1 \<and> (\<not> ke_p2p E \<longrightarrow> g = gdev)"
    using gpu_mem_unmap_inv[OF _ assms(2) run] assms(2) by (cases "ke_p2p E") (auto simp: gpunvme_gpu_mem_unmap_def)
  then show ?thesis using assms(2,3) unmap nums run
    by (auto simp: gpunvme_ioctl_def gpunvme_ioctl_unmap_gpu_mem_def copy_from_user_def split: if_splits)
next
  note nums = ioctl_numbers_distinct[simplified]
  case phys
  then show ?thesis using assms(2,3) nums
    by (auto simp: gpunvme_ioctl_def gpunvme_ioctl_get_phys_addr_def copy_from_user_def copy_to_user_def gpu_inv_def
        Let_def split: if_splits sum.splits option.splits)
next
  case other
  then show ?thesis using assms(2,3) by (auto simp: gpunvme_ioctl_def)
qed

text \<open>The ioctls keep the resources of the device in balance, whatever the command, the argument and
  the memory of the caller: what is held beyond \<open>M\<close> stays what the slots name, so a failing copy loses
  no page; an address request that succeeds leaves the virtual address and stores the physical one,
  the address of the pinned page plus the offset in it, with the page unpinned again; the request for
  BAR information stores address and size of BAR0; an unknown command is refused with -ENOTTY.\<close>

theorem ioctl_balanced:
  assumes "p2p_contract E" "gpu_inv M gdev s" "\<forall>h v r. ke_pin E h v = Inl r \<longrightarrow> r < 0"
    and "run_state (gpunvme_ioctl E cmd gdev arg) s = ((ret, gdev', arg'), s')"
  shows "gpu_inv M gdev' s' \<and> length arg' = length arg \<and>
    (cmd = GPUNVME_IOCTL_GET_PHYS_ADDR \<and> ret = 0 \<longrightarrow>
       (\<exists>page. ke_pin E (ks_log s) (arg ! 0) = Inr (Some page) \<and>
          arg' = [arg ! 0, page + (arg ! 0 AND mask PAGE_SHIFT)] @ drop 2 arg)) \<and>
    (cmd = GPUNVME_IOCTL_GET_BAR_INFO \<and> ret = 0 \<longrightarrow> arg' = [gd_bar0_phys gdev, gd_bar0_size gdev] @ drop 2 arg) \<and>
    (cmd \<notin> {GPUNVME_IOCTL_GET_BAR_INFO, GPUNVME_IOCTL_MAP_GPU_MEM, GPUNVME_IOCTL_UNMAP_GPU_MEM, GPUNVME_IOCTL_GET_PHYS_ADDR} \<longrightarrow>
       ret = - ENOTTY \<and> gdev' = gdev \<and> arg' = arg)"
proof -
  note nums = ioctl_numbers_distinct[simplified]
  have inv: "gpu_inv M gdev' s'" "length arg' = length arg" using ioctl_inv[OF assms(1,2,4)] by blast+
  have pin: "ke_pin E h v \<noteq> Inl 0" for h v using assms(3) by fastforce
  show ?thesis
  proof (cases cmd rule: ioctl_cases)
    case bar
    then show ?thesis using assms(4) inv nums
      by (auto simp: gpunvme_ioctl_def gpunvme_ioctl_get_bar_info_def copy_to_user_def EFAULT_def numeral_2_eq_2 Let_def split: if_splits)
  next
    case phys
    then show ?thesis using assms(4) inv nums pin
      by (auto simp: gpunvme_ioctl_def gpunvme_ioctl_get_phys_addr_def copy_from_user_def copy_to_user_def EFAULT_def
          numeral_2_eq_2 Let_def split: if_splits sum.splits option.splits)
  next
    case other
    then show ?thesis using assms(4) inv by (auto simp: gpunvme_ioctl_def)
  qed (use inv nums in auto)
qed

theorem ioctl_balanced_witness:
  "\<exists>s'. run_state (gpunvme_ioctl example_kernel GPUNVME_IOCTL_GET_PHYS_ADDR gdev_zero [0x70000123, 0]) kstate_zero
       = ((0, gdev_zero, [0x70000123, 0x5123]), s') \<and> gpu_inv {#} gdev_zero s'"
proof -
  have inv: "gpu_inv {#} gdev_zero kstate_zero"
    using gdev_zero_maps maps_res_free[OF gdev_zero_maps(2)] by (simp add: gpu_inv_def kstate_zero_def)
  obtain ret g arg' s' where r: "run_state (gpunvme_ioctl example_kernel GPUNVME_IOCTL_GET_PHYS_ADDR gdev_zero [0x70000123, 0]) kstate_zero
       = ((ret, g, arg'), s')" by (metis surj_pair)
  have v: "ret = 0" "g = gdev_zero"
    using r ioctl_numbers_distinct[simplified]
    by (auto simp: gpunvme_ioctl_def gpunvme_ioctl_get_phys_addr_def copy_from_user_def copy_to_user_def example_kernel_def Let_def)
  have "\<forall>h v r. ke_pin example_kernel h v = Inl r \<longrightarrow> r < 0" by (simp add: example_kernel_def)
  from ioctl_balanced[OF example_kernel_p2p(1) inv this r] v r show ?thesis
    by (auto simp: example_kernel_def PAGE_SHIFT_def mask_eq_exp_minus_1)
qed

end
