(* ===== verification/Kmod_Pci.thy ===== *)
theory Kmod_Pci
  imports Kmod_Chrdev
begin

text \<open>
  Binding the kernel module to a device (\<^verbatim>\<open>kmod/gpunvme_pci.c\<close>: probe with its error labels, and removal)
  and loading the module (\<^verbatim>\<open>kmod/gpunvme_main.c\<close>).
\<close>

section \<open>Loading and unloading the module\<close>

definition gpunvme_get_target_bdf :: "kenv \<Rightarrow> string option" where
  "gpunvme_get_target_bdf E = (case ke_target_bdf E of Some (c # s) \<Rightarrow> Some (c # s) | _ \<Rightarrow> None)"

definition gpunvme_pci_register :: "kenv \<Rightarrow> (int + unit) kern" where
  "gpunvme_pci_register E = kacquire (ke_pci_register E) (\<lambda>_. PciDriver)"

definition gpunvme_pci_unregister :: "unit kern" where
  "gpunvme_pci_unregister = kput PciDriver"

definition gpunvme_init :: "kenv \<Rightarrow> int kern" where
  "gpunvme_init E = do {
     r \<leftarrow> kacquire (ke_chrdev_region E) ChrdevRegion;
     case r of
       Inl ret \<Rightarrow> State_Monad.return ret
     | Inr major \<Rightarrow> do {
         State_Monad.update (\<lambda>s. s\<lparr>ks_major := major\<rparr>);
         r \<leftarrow> kacquire (ke_class_create E) DevClass;
         case r of
           Inl ret \<Rightarrow> do { kput (ChrdevRegion major); State_Monad.return ret }
         | Inr cls \<Rightarrow> do {
             State_Monad.update (\<lambda>s. s\<lparr>ks_class := cls\<rparr>);
             r \<leftarrow> gpunvme_pci_register E;
             case r of
               Inl ret \<Rightarrow> do { kput (DevClass cls); kput (ChrdevRegion major); State_Monad.return ret }
             | Inr _ \<Rightarrow> State_Monad.return 0
           }
       }
   }"

definition gpunvme_exit :: "unit kern" where
  "gpunvme_exit = do {
     gpunvme_pci_unregister;
     s \<leftarrow> State_Monad.get;
     kput (DevClass (ks_class s));
     kput (ChrdevRegion (ks_major s))
   }"

section \<open>Probe and removal\<close>

text \<open>The labels, each falling through to the next.\<close>

definition err_free :: "int \<Rightarrow> (int \<times> gpunvme_dev option) kern" where
  "err_free ret = do { kput KMem; State_Monad.return (ret, None) }"

definition err_disable :: "int \<Rightarrow> (int \<times> gpunvme_dev option) kern" where
  "err_disable ret = do { kput PciEnabled; err_free ret }"

definition err_release :: "int \<Rightarrow> (int \<times> gpunvme_dev option) kern" where
  "err_release ret = do { kput BarRegion; err_disable ret }"

definition err_unmap :: "gpunvme_dev \<Rightarrow> int \<Rightarrow> (int \<times> gpunvme_dev option) kern" where
  "err_unmap gdev ret = do { kput BusMaster; kput (BarMap (gd_bar0 gdev)); err_release ret }"

text \<open>The DMA mask, with the fall-back to 32 bits.\<close>

definition probe_dma_mask :: "kenv \<Rightarrow> (int + unit) kern" where
  "probe_dma_mask E = do {
     s \<leftarrow> State_Monad.get;
     case ke_dma_mask E (ks_log s) 64 of
       Inr _ \<Rightarrow> State_Monad.return (Inr ())
     | Inl ret \<Rightarrow> do {
         klog (KRefused ret);
         s \<leftarrow> State_Monad.get;
         State_Monad.return (ke_dma_mask E (ks_log s) 32)
       }
   }"

text \<open>The result is the return value and the driver data of the device after it.\<close>

definition probe_map :: "kenv \<Rightarrow> gpunvme_dev \<Rightarrow> (int \<times> gpunvme_dev option) kern" where
  "probe_map E gdev = do {
     let gdev = gdev\<lparr>gd_bar0_phys := ke_bar_start E, gd_bar0_size := ke_bar_len E\<rparr>;
     if gd_bar0_size gdev = 0 then err_release (- ENODEV)
     else do {
       r \<leftarrow> kacquire (\<lambda>h. case ke_iomap E h of None \<Rightarrow> Inl (- ENOMEM) | Some p \<Rightarrow> Inr p) BarMap;
       case r of
         Inl ret \<Rightarrow> err_release ret
       | Inr bar0 \<Rightarrow> do {
           let gdev = gdev\<lparr>gd_bar0 := bar0\<rparr>;
           klog (KGet BusMaster);
           r \<leftarrow> probe_dma_mask E;
           case r of
             Inl ret \<Rightarrow> err_unmap gdev ret
           | Inr _ \<Rightarrow> do {
               (ret, gdev) \<leftarrow> gpunvme_chrdev_create E gdev;
               if ret \<noteq> 0 then err_unmap gdev ret else State_Monad.return (0, Some gdev)
             }
         }
     }
   }"

definition gpunvme_pci_probe :: "kenv \<Rightarrow> (int \<times> gpunvme_dev option) kern" where
  "gpunvme_pci_probe E =
    (if (case gpunvme_get_target_bdf E of None \<Rightarrow> False | Some bdf \<Rightarrow> bdf \<noteq> ke_dev_name E)
     then State_Monad.return (- ENODEV, None)
     else do {
       r \<leftarrow> kacquire (\<lambda>h. if ke_kzalloc E h then Inr () else Inl (- ENOMEM)) (\<lambda>_. KMem);
       case r of
         Inl ret \<Rightarrow> State_Monad.return (ret, None)
       | Inr _ \<Rightarrow> do {
           s \<leftarrow> State_Monad.get;
           State_Monad.set (s\<lparr>ks_dev_count := ks_dev_count s + 1\<rparr>);
           let gdev = gdev_zero\<lparr>gd_index := ks_dev_count s\<rparr>;
           if sint (gd_index gdev) \<ge> GPUNVME_MAX_DEVICES then err_free (- ENOSPC)
           else do {
             r \<leftarrow> kacquire (ke_enable E) (\<lambda>_. PciEnabled);
             case r of
               Inl ret \<Rightarrow> err_free ret
             | Inr _ \<Rightarrow> do {
                 r \<leftarrow> kacquire (ke_request E) (\<lambda>_. BarRegion);
                 case r of
                   Inl ret \<Rightarrow> err_disable ret
                 | Inr _ \<Rightarrow> probe_map E gdev
               }
           }
         }
     })"

definition gpunvme_pci_remove :: "kenv \<Rightarrow> gpunvme_dev option \<Rightarrow> gpunvme_dev option kern" where
  "gpunvme_pci_remove E drvdata =
    (case drvdata of
       None \<Rightarrow> State_Monad.return None
     | Some gdev \<Rightarrow> do {
         gdev \<leftarrow> gpunvme_gpu_mem_unmap_all E gdev;
         gdev \<leftarrow> gpunvme_chrdev_destroy gdev;
         kput BusMaster;
         (if gd_bar0 gdev \<noteq> 0 then kput (BarMap (gd_bar0 gdev)) else State_Monad.return ());
         kput BarRegion;
         kput PciEnabled;
         kput KMem;
         State_Monad.return None
       })"

section \<open>Resources\<close>

lemma mset_kheld [simp]:
  "mset (kheld (KGet r # h)) = mset (kheld h) + {#r#}"
  "mset (kheld (KPut r # h)) = mset (kheld h) - {#r#}"
  "mset (kheld (KRefused e # h)) = mset (kheld h)"
  by simp_all

text \<open>Loading the module fails without a trace, or unloading gives everything back.\<close>

lemma module_balanced:
  "case run_state (gpunvme_init E) s of (ret, s') \<Rightarrow>
     mset (kheld_in s') = mset (kheld_in s) \<or>
     ret = 0 \<and> mset (kheld_in (snd (run_state gpunvme_exit s'))) = mset (kheld_in s)"
proof -
  have upd: "run_state (State_Monad.update f) s = ((), f s)" for f :: "kstate \<Rightarrow> kstate" and s
    by (simp add: State_Monad.update_def State_Monad.bind_def State_Monad.get_def State_Monad.set_def)
  show ?thesis
    by (auto simp: gpunvme_init_def gpunvme_exit_def gpunvme_pci_register_def gpunvme_pci_unregister_def upd split: sum.splits)
qed

text \<open>What a bound device holds.\<close>

definition device_res :: "gpunvme_dev \<Rightarrow> kres multiset" where
  "device_res gdev = {#KMem, PciEnabled, BarRegion, BarMap (gd_bar0 gdev), BusMaster, CharDev (gd_dev_num gdev), DevNode (gd_dev_num gdev)#}"

text \<open>What the kernel promises: \<^verbatim>\<open>pci_iomap\<close> and \<^verbatim>\<open>device_create\<close> give pointers that are not NULL, and an
  error number is not 0.\<close>

definition kernel_contract :: "kenv \<Rightarrow> bool" where
  "kernel_contract E \<longleftrightarrow> (\<forall>h p. ke_iomap E h = Some p \<longrightarrow> p \<noteq> 0) \<and> (\<forall>h d. ke_device_create E h = Inr d \<longrightarrow> d \<noteq> 0) \<and>
     (\<forall>h. ke_enable E h \<noteq> Inl 0 \<and> ke_request E h \<noteq> Inl 0 \<and> ke_cdev_add E h \<noteq> Inl 0 \<and> ke_device_create E h \<noteq> Inl 0) \<and>
     (\<forall>h n. ke_dma_mask E h n \<noteq> Inl 0)"

lemma err_unmap_run:
  "run_state (err_unmap gdev ret) s =
    ((ret, None), s\<lparr>ks_log := KPut KMem # KPut PciEnabled # KPut BarRegion # KPut (BarMap (gd_bar0 gdev)) # KPut BusMaster # ks_log s\<rparr>)"
  by (simp add: err_unmap_def err_release_def err_disable_def err_free_def)

text \<open>A device that the probe returned.\<close>

definition bound_device :: "gpunvme_dev \<Rightarrow> bool" where
  "bound_device gdev \<longleftrightarrow> gd_gpu_maps gdev = gd_gpu_maps gdev_zero \<and> gd_bar0 gdev \<noteq> 0 \<and> gd_dev gdev \<noteq> 0"

lemma chrdev_create_cases:
  assumes "kernel_contract E"
  obtains (failed) ret g s' where "run_state (gpunvme_chrdev_create E gdev) s = ((ret, g), s')" "ret \<noteq> 0"
      "mset (kheld_in s') = mset (kheld_in s)" "gd_bar0 g = gd_bar0 gdev" "ks_dev_count s' = ks_dev_count s"
  | (created) g s' where "run_state (gpunvme_chrdev_create E gdev) s = ((0, g), s')"
      "mset (kheld_in s') = mset (kheld_in s) + {#CharDev (gd_dev_num g), DevNode (gd_dev_num g)#}"
      "gd_bar0 g = gd_bar0 gdev" "gd_dev g \<noteq> 0" "gd_gpu_maps g = gd_gpu_maps gdev" "ks_dev_count s' = ks_dev_count s"
proof (cases "ke_cdev_add E (ks_log s)")
  let ?g = "gdev\<lparr>gd_dev_num := (ks_major s, gd_index gdev)\<rparr>"
  case (Inl ret)
  then have "ret \<noteq> 0" using assms unfolding kernel_contract_def by blast
  then show thesis using Inl
    by (intro failed[of ret ?g "s\<lparr>ks_log := KRefused ret # ks_log s\<rparr>"]) (simp_all add: gpunvme_chrdev_create_def Let_def)
next
  let ?g = "gdev\<lparr>gd_dev_num := (ks_major s, gd_index gdev)\<rparr>"
  case (Inr u)
  let ?h = "KGet (CharDev (ks_major s, gd_index gdev)) # ks_log s"
  show thesis
  proof (cases "ke_device_create E ?h")
    case (Inl ret)
    then have "ret \<noteq> 0" using assms unfolding kernel_contract_def by blast
    then show thesis using Inl Inr
      by (intro failed[of ret "?g\<lparr>gd_dev := word_of_int ret\<rparr>" "s\<lparr>ks_log := KPut (CharDev (gd_dev_num ?g)) # KRefused ret # ?h\<rparr>"])
        (simp_all add: gpunvme_chrdev_create_def Let_def)
  next
    case d: (Inr d)
    then have "d \<noteq> 0" using assms unfolding kernel_contract_def by blast
    then show thesis using d Inr
      by (intro created[of "?g\<lparr>gd_dev := d\<rparr>" "s\<lparr>ks_log := KGet (DevNode (gd_dev_num ?g)) # ?h\<rparr>"])
        (simp_all add: gpunvme_chrdev_create_def Let_def)
  qed
qed

lemma put_held: "mset (kheld_in s) = add_mset r M \<Longrightarrow> mset (kheld (KPut r # ks_log s)) = M"
  by simp

lemma err_release_cases:
  assumes "mset (kheld_in s) = M + {#KMem, PciEnabled, BarRegion#}"
  obtains s' where "run_state (err_release ret) s = ((ret, None), s')" "mset (kheld_in s') = M" "ks_dev_count s' = ks_dev_count s"
  by (rule that, simp add: err_release_def err_disable_def err_free_def, simp_all add: assms add_mset_commute)

lemma err_unmap_cases:
  assumes "mset (kheld_in s) = M + {#KMem, PciEnabled, BarRegion, BarMap (gd_bar0 gdev), BusMaster#}"
  obtains s' where "run_state (err_unmap gdev ret) s = ((ret, None), s')" "mset (kheld_in s') = M" "ks_dev_count s' = ks_dev_count s"
  by (rule that, rule err_unmap_run, simp_all add: assms add_mset_commute)

lemma probe_dma_mask_cases:
  assumes "kernel_contract E"
  obtains r s' where "run_state (probe_dma_mask E) s = (r, s')" "r \<noteq> Inl 0" "kheld_in s' = kheld_in s" "ks_dev_count s' = ks_dev_count s"
proof (cases "ke_dma_mask E (ks_log s) 64")
  case (Inl ret)
  have "ke_dma_mask E (KRefused ret # ks_log s) 32 \<noteq> Inl 0" using assms unfolding kernel_contract_def by blast
  then show thesis using Inl
    by (intro that[of "ke_dma_mask E (KRefused ret # ks_log s) 32" "s\<lparr>ks_log := KRefused ret # ks_log s\<rparr>"])
      (simp_all add: probe_dma_mask_def)
next
  case (Inr u)
  then show thesis by (intro that[of "Inr ()" s]) (simp_all add: probe_dma_mask_def)
qed

lemma probe_map_cases:
  assumes "kernel_contract E" "mset (kheld_in s) = M + {#KMem, PciEnabled, BarRegion#}" "gd_gpu_maps gdev = gd_gpu_maps gdev_zero"
  obtains (failed) ret s' where "run_state (probe_map E gdev) s = ((ret, None), s')" "ret \<noteq> 0" "mset (kheld_in s') = M"
      "ks_dev_count s' = ks_dev_count s"
  | (bound) g s' where "run_state (probe_map E gdev) s = ((0, Some g), s')" "bound_device g" "mset (kheld_in s') = M + device_res g"
      "ks_dev_count s' = ks_dev_count s"
proof (cases "ke_bar_len E = 0")
  case True
  obtain s' where "run_state (err_release (- ENODEV)) s = ((- ENODEV, None), s')" "mset (kheld_in s') = M" "ks_dev_count s' = ks_dev_count s"
    using err_release_cases[OF assms(2)] .
  then show thesis using True by (intro failed[of "- ENODEV" s']) (simp_all add: probe_map_def ENODEV_def Let_def)
next
  case len: False
  show thesis
  proof (cases "ke_iomap E (ks_log s)")
    case None
    let ?s = "s\<lparr>ks_log := KRefused (- ENOMEM) # ks_log s\<rparr>"
    have "mset (kheld_in ?s) = M + {#KMem, PciEnabled, BarRegion#}" using assms(2) by simp
    then obtain s' where "run_state (err_release (- ENOMEM)) ?s = ((- ENOMEM, None), s')" "mset (kheld_in s') = M" "ks_dev_count s' = ks_dev_count ?s"
      using err_release_cases by blast
    then show thesis using None len by (intro failed[of "- ENOMEM" s']) (simp_all add: probe_map_def ENOMEM_def Let_def)
  next
    case (Some p)
    then have p: "p \<noteq> 0" using assms(1) unfolding kernel_contract_def by blast
    let ?s = "s\<lparr>ks_log := KGet BusMaster # KGet (BarMap p) # ks_log s\<rparr>"
    let ?g = "gdev\<lparr>gd_bar0_phys := ke_bar_start E, gd_bar0_size := ke_bar_len E, gd_bar0 := p\<rparr>"
    obtain r s1 where dma: "run_state (probe_dma_mask E) ?s = (r, s1)" "r \<noteq> Inl 0" "kheld_in s1 = kheld_in ?s" "ks_dev_count s1 = ks_dev_count ?s"
      using probe_dma_mask_cases[OF assms(1)] .
    have held: "mset (kheld_in s1) = M + {#KMem, PciEnabled, BarRegion, BarMap (gd_bar0 ?g), BusMaster#}"
      using dma(3) assms(2) by (simp add: add_mset_commute)
    show thesis
    proof (cases r)
      case (Inl ret)
      obtain s' where "run_state (err_unmap ?g ret) s1 = ((ret, None), s')" "mset (kheld_in s') = M" "ks_dev_count s' = ks_dev_count s1"
        using err_unmap_cases[OF held] .
      then show thesis using len Some dma Inl by (intro failed[of ret s']) (simp_all add: probe_map_def Let_def)
    next
      case (Inr u)
      from assms(1) show thesis
      proof (cases rule: chrdev_create_cases[where gdev = ?g and s = s1])
        case (failed ret g s2)
        have "mset (kheld_in s2) = M + {#KMem, PciEnabled, BarRegion, BarMap (gd_bar0 g), BusMaster#}"
          using failed(3,4) held by simp
        then obtain s' where "run_state (err_unmap g ret) s2 = ((ret, None), s')" "mset (kheld_in s') = M" "ks_dev_count s' = ks_dev_count s2"
          using err_unmap_cases by blast
        then show thesis using len Some dma Inr failed
          by (intro that(1)[of ret s']) (simp_all add: probe_map_def Let_def)
      next
        case (created g s2)
        then show thesis using len Some dma Inr p held assms(3)
          by (intro that(2)[of g s2]) (simp_all add: probe_map_def device_res_def bound_device_def add_mset_commute Let_def)
      qed
    qed
  qed
qed

section \<open>The device in use\<close>

text \<open>What user programs do with a bound device, and the NVIDIA driver taking pages back.\<close>

inductive kmod_step :: "kenv \<Rightarrow> gpunvme_dev \<times> kstate \<Rightarrow> gpunvme_dev \<times> kstate \<Rightarrow> bool" for E where
  ioctl: "run_state (gpunvme_ioctl E cmd gdev arg) s = ((ret, gdev', arg'), s') \<Longrightarrow> kmod_step E (gdev, s) (gdev', s')"
| mmap: "run_state (gpunvme_mmap E gdev vma) s = ((ret, vma'), s') \<Longrightarrow> kmod_step E (gdev, s) (gdev, s')"
| revoke: "i < GPUNVME_MAX_GPU_MAPPINGS \<Longrightarrow> m = gd_gpu_maps gdev ! i \<Longrightarrow> gm_in_use m \<Longrightarrow> gm_page_table m \<noteq> 0 \<Longrightarrow> gm_dma_mapping m \<noteq> 0 \<Longrightarrow>
    kmod_step E (gdev, s) (gpunvme_p2p_free_callback i gdev,
      s\<lparr>ks_log := KPut (PageTable (gm_page_table m)) # KPut (DmaMapping (gm_dma_mapping m)) # ks_log s\<rparr>)"

text \<open>All of the context but the table.\<close>

definition dev_core :: "gpunvme_dev \<Rightarrow> gpunvme_dev" where
  "dev_core gdev = gdev\<lparr>gd_gpu_maps := []\<rparr>"

lemma dev_core_set_slot [simp]: "dev_core (set_slot i f gdev) = dev_core gdev"
  by (simp add: dev_core_def set_slot_def)

lemma dev_core_fields:
  "dev_core g = dev_core g' \<Longrightarrow> gd_bar0 g = gd_bar0 g' \<and> gd_dev g = gd_dev g' \<and> gd_dev_num g = gd_dev_num g'"
  by (metis (no_types, lifting) dev_core_def gpunvme_dev.select_convs gpunvme_dev.surjective gpunvme_dev.update_convs(7))

lemma unmap_core:
  "run_state (gpunvme_gpu_mem_unmap E gdev req) s = ((ret, gdev'), s') \<Longrightarrow>
    dev_core gdev' = dev_core gdev \<and> ks_dev_count s' = ks_dev_count s"
  by (auto simp: gpunvme_gpu_mem_unmap_def Let_def split: if_splits)

lemma fill_core:
  "run_state (gpu_mem_map_fill E i gdev req) s = ((ret, gdev', req'), s') \<Longrightarrow> dev_core gdev' = dev_core gdev"
  by (auto simp: gpu_mem_map_fill_def Let_def split: sum.splits)

lemma map_core:
  "run_state (gpunvme_gpu_mem_map E gdev req) s = ((ret, gdev', req'), s') \<Longrightarrow> dev_core gdev' = dev_core gdev"
  by (auto simp: gpunvme_gpu_mem_map_def gpu_mem_map_claim_def split: if_splits option.splits dest!: fill_core)
     (simp_all add: dev_core_def)

lemma ioctl_core:
  "run_state (gpunvme_ioctl E cmd gdev arg) s = ((ret, gdev', arg'), s') \<Longrightarrow> dev_core gdev' = dev_core gdev"
  by (auto simp: gpunvme_ioctl_def gpunvme_ioctl_map_gpu_mem_def gpunvme_ioctl_unmap_gpu_mem_def
      split: if_splits option.splits prod.splits dest: map_core unmap_core)

lemma unmap_all_loop_core:
  "run_state (unmap_all_loop E n i gdev) s = (gdev', s') \<Longrightarrow> dev_core gdev' = dev_core gdev \<and> ks_dev_count s' = ks_dev_count s"
  by (induction n arbitrary: i gdev s) (fastforce split: if_splits prod.splits dest: unmap_core)+

text \<open>The invariant of a bound device: the table is in order, without the NVIDIA interface it is empty,
  and the rest of the context is as the probe left it.\<close>

definition bound_inv :: "kenv \<Rightarrow> gpunvme_dev \<Rightarrow> kres multiset \<Rightarrow> gpunvme_dev \<times> kstate \<Rightarrow> bool" where
  "bound_inv E g0 M x \<longleftrightarrow> gpu_inv M (fst x) (snd x) \<and> dev_core (fst x) = dev_core g0 \<and>
     (ke_p2p E \<or> (\<forall>m \<in> set (gd_gpu_maps (fst x)). \<not> gm_in_use m))"

lemma kmod_step_inv:
  assumes "p2p_contract E" "kmod_step E x y" "bound_inv E g0 M x"
  shows "bound_inv E g0 M y"
  using assms(2)
proof (cases rule: kmod_step.cases)
  case (ioctl cmd gdev arg s ret gdev' arg' s')
  then show ?thesis using ioctl_inv[OF assms(1), of M gdev s cmd arg ret gdev' arg' s'] ioctl_core[of E cmd gdev arg s ret gdev' arg' s'] assms(3)
    by (auto simp: bound_inv_def)
next
  case (mmap gdev vma s ret vma' s')
  then have "s' = s" by (auto simp: gpunvme_mmap_def Let_def split: if_splits)
  then show ?thesis using mmap assms(3) by simp
next
  case (revoke i m gdev s)
  let ?s = "s\<lparr>ks_log := KPut (PageTable (gm_page_table m)) # KPut (DmaMapping (gm_dma_mapping m)) # ks_log s\<rparr>"
  have inv: "gpu_inv M gdev s" "dev_core gdev = dev_core g0" "ke_p2p E \<or> (\<forall>m \<in> set (gd_gpu_maps gdev). \<not> gm_in_use m)"
    using assms(3) revoke(1) by (simp_all add: bound_inv_def)
  moreover have "gd_gpu_maps gdev ! i \<in> set (gd_gpu_maps gdev)" using revoke(3) inv(1) by (simp add: gpu_inv_def maps_wf_def)
  ultimately have p2p: "ke_p2p E" using revoke(4,5) by blast
  have "gpu_step E (gdev, s) (gpunvme_p2p_free_callback i gdev, ?s)" using gpu_step.revoke revoke by blast
  from gpu_step_inv[OF assms(1) p2p this, of M] inv(1) have "gpu_inv M (gpunvme_p2p_free_callback i gdev) ?s" by simp
  moreover have "dev_core (gpunvme_p2p_free_callback i gdev) = dev_core gdev"
    by (simp add: gpunvme_p2p_free_callback_def dev_core_def Let_def)
  ultimately show ?thesis using revoke(2) inv(2) p2p by (simp add: bound_inv_def)
qed

lemma kmod_reachable_inv:
  assumes "p2p_contract E"
  shows "(kmod_step E)\<^sup>*\<^sup>* x y \<Longrightarrow> bound_inv E g0 M x \<Longrightarrow> bound_inv E g0 M y"
  by (induction rule: rtranclp_induct) (auto intro: kmod_step_inv[OF assms])

section \<open>The life of a device\<close>

lemma probe_cases:
  assumes "kernel_contract E"
  obtains (failed) ret s' where "run_state (gpunvme_pci_probe E) s = ((ret, None), s')" "ret \<noteq> 0"
      "mset (kheld_in s') = mset (kheld_in s)"
  | (bound) g s' where "run_state (gpunvme_pci_probe E) s = ((0, Some g), s')" "bound_device g"
      "mset (kheld_in s') = mset (kheld_in s) + device_res g"
proof -
  define r where "r = run_state (gpunvme_pci_probe E) s"
  let ?skip = "case gpunvme_get_target_bdf E of None \<Rightarrow> False | Some bdf \<Rightarrow> bdf \<noteq> ke_dev_name E"
  let ?s0 = "s\<lparr>ks_log := KGet KMem # ks_log s, ks_dev_count := ks_dev_count s + 1\<rparr>"
  let ?s1 = "?s0\<lparr>ks_log := KGet PciEnabled # ks_log ?s0\<rparr>"
  let ?s2 = "?s1\<lparr>ks_log := KGet BarRegion # ks_log ?s1\<rparr>"
  let ?g = "gdev_zero\<lparr>gd_index := ks_dev_count s\<rparr>"
  show thesis
  proof (cases "?skip \<or> \<not> ke_kzalloc E (ks_log s) \<or> sint (ks_dev_count s) \<ge> GPUNVME_MAX_DEVICES \<or>
      (\<exists>e. ke_enable E (ks_log ?s0) = Inl e) \<or> (\<exists>e. ke_request E (ks_log ?s1) = Inl e)")
    case True
    have "ke_enable E h \<noteq> Inl 0" "ke_request E h \<noteq> Inl 0" for h using assms unfolding kernel_contract_def by blast+
    with True have "snd (fst r) = None \<and> fst (fst r) \<noteq> 0 \<and> mset (kheld_in (snd r)) = mset (kheld_in s)"
      by (auto simp: r_def gpunvme_pci_probe_def err_free_def err_disable_def ENODEV_def ENOMEM_def ENOSPC_def Let_def
          split: sum.splits if_splits)
    then show thesis using failed[of "fst (fst r)" "snd r"] by (metis r_def prod.collapse)
  next
    case False
    then obtain u1 u2 where ok: "\<not> ?skip" "ke_kzalloc E (ks_log s)" "\<not> sint (ks_dev_count s) \<ge> GPUNVME_MAX_DEVICES"
        "ke_enable E (ks_log ?s0) = Inr u1" "ke_request E (ks_log ?s1) = Inr u2"
      by (metis sum.exhaust)
    have run: "run_state (gpunvme_pci_probe E) s = run_state (probe_map E ?g) ?s2"
      using ok by (simp add: gpunvme_pci_probe_def Let_def)
    have "mset (kheld_in ?s2) = mset (kheld_in s) + {#KMem, PciEnabled, BarRegion#}" by (simp add: add_mset_commute)
    note held = this
    have maps: "gd_gpu_maps ?g = gd_gpu_maps gdev_zero" by simp
    from assms held maps show thesis
    proof (cases rule: probe_map_cases)
      case (failed ret s')
      then show thesis using that(1) run by simp
    next
      case (bound g s')
      then show thesis using that(2) run by simp
    qed
  qed
qed

lemma remove_releases:
  assumes "bound_inv E g0 (M + device_res g0) (g, s)" "gd_bar0 g0 \<noteq> 0" "gd_dev g0 \<noteq> 0"
  shows "mset (kheld_in (snd (run_state (gpunvme_pci_remove E (Some g)) s))) = M"
proof -
  have inv: "mset (kheld_in s) = M + device_res g0 + maps_res g" "length (gd_gpu_maps g) = GPUNVME_MAX_GPU_MAPPINGS"
    "ke_p2p E \<or> (\<forall>m \<in> set (gd_gpu_maps g). \<not> gm_in_use m)"
    using assms(1) by (simp_all add: bound_inv_def gpu_inv_def maps_wf_def)
  obtain g1 s1 where u: "run_state (gpunvme_gpu_mem_unmap_all E g) s = (g1, s1)" by (metis surj_pair)
  have held: "mset (kheld_in s1) = M + device_res g0"
  proof (cases "ke_p2p E")
    case True
    then show ?thesis using unmap_all_releases[OF True inv(2), of s] u inv(1) by simp
  next
    case False
    then have "maps_res g = {#}" using inv(3) maps_res_free by blast
    then show ?thesis using u inv(1) False by (simp add: gpunvme_gpu_mem_unmap_all_def)
  qed
  have "dev_core g1 = dev_core g0"
    using u unmap_all_loop_core[of E GPUNVME_MAX_GPU_MAPPINGS 0 g s g1 s1] assms(1)
    by (auto simp: gpunvme_gpu_mem_unmap_all_def bound_inv_def split: if_splits)
  from dev_core_fields[OF this] show ?thesis using u held assms(2,3)
    by (simp add: gpunvme_pci_remove_def gpunvme_chrdev_destroy_def device_res_def add_mset_commute)
qed

text \<open>C35. Binding and unbinding a device are balanced. A probe that fails, at whatever step, returns an
  error and leaves nothing behind; a probe that succeeds holds the context, the enabled device, the
  BAR0 region and its mapping, bus mastering and the character device with its node, and after any
  sequence of ioctls, mappings and revoked pages the removal gives all of it back.\<close>

theorem probe_remove_balanced:
  assumes "kernel_contract E" "p2p_contract E"
    and "run_state (gpunvme_pci_probe E) s = ((ret, d), s1)"
  shows "(ret \<noteq> 0 \<longrightarrow> d = None \<and> mset (kheld_in s1) = mset (kheld_in s)) \<and>
    (ret = 0 \<longrightarrow> (\<exists>g. d = Some g \<and> mset (kheld_in s1) = mset (kheld_in s) + device_res g \<and>
       (\<forall>g2 s2. (kmod_step E)\<^sup>*\<^sup>* (g, s1) (g2, s2) \<longrightarrow>
          mset (kheld_in (snd (run_state (gpunvme_pci_remove E (Some g2)) s2))) = mset (kheld_in s))))"
  using assms(1)
proof (cases rule: probe_cases[where s = s])
  case (failed ret' s')
  then show ?thesis using assms(3) by simp
next
  case (bound g s')
  have fresh: "maps_wf g" "\<forall>m \<in> set (gd_gpu_maps g). \<not> gm_in_use m"
    using gdev_zero_maps bound(2) by (simp_all add: bound_device_def maps_wf_def)
  have nz: "gd_bar0 g \<noteq> 0" "gd_dev g \<noteq> 0" using bound(2) by (simp_all add: bound_device_def)
  have "bound_inv E g (mset (kheld_in s) + device_res g) (g, s')"
    using bound(3) fresh maps_res_free[OF fresh(2)] by (simp add: bound_inv_def gpu_inv_def)
  then have "mset (kheld_in (snd (run_state (gpunvme_pci_remove E (Some g2)) s2))) = mset (kheld_in s)"
    if "(kmod_step E)\<^sup>*\<^sup>* (g, s') (g2, s2)" for g2 s2
    using remove_releases[OF kmod_reachable_inv[OF assms(2) that] nz] by blast
  then show ?thesis using assms(3) bound by (intro conjI impI exI[of _ g]) auto
qed

theorem probe_remove_balanced_witness:
  "\<exists>g s1 g2 s2. run_state (gpunvme_pci_probe example_kernel) kstate_zero = ((0, Some g), s1) \<and>
     mset (kheld_in s1) = device_res g \<and>
     run_state (gpunvme_ioctl example_kernel GPUNVME_IOCTL_MAP_GPU_MEM g [0x7F0000000000, 0x20000, 0, 0]) s1 =
       ((0, g2, [0x7F0000000000, 0x20000, 0xA0000, 0]), s2) \<and>
     mset (kheld_in (snd (run_state (gpunvme_pci_remove example_kernel (Some g2)) s2))) = {#}"
proof -
  have c: "kernel_contract example_kernel" by (simp add: kernel_contract_def example_kernel_def)
  obtain ret d s1 where r: "run_state (gpunvme_pci_probe example_kernel) kstate_zero = ((ret, d), s1)" by (metis surj_pair)
  have z: "ret = 0" "map_option gd_gpu_maps d = Some (gd_gpu_maps gdev_zero)"
    using r by (auto simp: gpunvme_pci_probe_def gpunvme_get_target_bdf_def probe_map_def probe_dma_mask_def gpunvme_chrdev_create_def
        example_kernel_def kstate_zero_def GPUNVME_MAX_DEVICES_def Let_def)
  from probe_remove_balanced[OF c example_kernel_p2p(1) r] z(1) obtain g where g: "d = Some g"
      "mset (kheld_in s1) = mset (kheld_in kstate_zero) + device_res g"
      "\<And>g2 s2. (kmod_step example_kernel)\<^sup>*\<^sup>* (g, s1) (g2, s2) \<Longrightarrow>
         mset (kheld_in (snd (run_state (gpunvme_pci_remove example_kernel (Some g2)) s2))) = mset (kheld_in kstate_zero)"
    by blast
  define a :: "u64 list" where "a = [0x7F0000000000, 0x20000, 0, 0]"
  obtain r2 g2 a2 s2 where m: "run_state (gpunvme_ioctl example_kernel GPUNVME_IOCTL_MAP_GPU_MEM g a) s1 = ((r2, g2, a2), s2)"
    by (metis surj_pair)
  have req: "map_req_of_words a = example_map_req" by (simp add: a_def map_req_of_words_def example_map_req_def)
  have maps: "gd_gpu_maps g = gd_gpu_maps gdev_zero" using z(2) g(1) by simp
  then have claim: "gpu_mem_map_claim g example_map_req = (Inr 0, set_slot 0 (\<lambda>m. m\<lparr>gm_in_use := True\<rparr>) g)"
    using example_claim by (auto simp: gpu_mem_map_claim_def set_slot_def split: if_splits option.splits)
  have "length (gd_gpu_maps g) = 16" using maps by (simp add: gdev_zero_def GPUNVME_MAX_GPU_MAPPINGS_def)
  then have v: "r2 = 0" "a2 = [0x7F0000000000, 0x20000, 0xA0000, 0]"
    using m ioctl_numbers_distinct[simplified] req claim
    by (auto simp: gpunvme_ioctl_def gpunvme_ioctl_map_gpu_mem_def copy_from_user_def copy_to_user_def a_def gpunvme_gpu_mem_map_def
        gpu_mem_map_fill_def example_kernel_def example_map_req_def words_of_map_req_def Let_def)
  have "(kmod_step example_kernel)\<^sup>*\<^sup>* (g, s1) (g2, s2)" using kmod_step.ioctl[OF m] by blast
  from g(3)[OF this] show ?thesis using r z(1) g(1,2) m v unfolding a_def by (auto simp: kstate_zero_def)
qed

section \<open>The device count\<close>

lemma probe_map_count: "ks_dev_count (snd (run_state (probe_map E gdev) s)) = ks_dev_count s"
  by (simp add: probe_map_def err_unmap_def err_release_def err_disable_def err_free_def probe_dma_mask_def gpunvme_chrdev_create_def Let_def
      split: sum.split option.split)

lemma probe_count:
  assumes "\<forall>h. ke_kzalloc E h" "gpunvme_get_target_bdf E = None \<or> gpunvme_get_target_bdf E = Some (ke_dev_name E)"
  shows "ks_dev_count (snd (run_state (gpunvme_pci_probe E) s)) = ks_dev_count s + 1"
  using assms
  by (auto simp: gpunvme_pci_probe_def err_free_def err_disable_def probe_map_count Let_def split: sum.split)

lemma remove_count: "ks_dev_count (snd (run_state (gpunvme_pci_remove E d) s)) = ks_dev_count s"
proof (cases d)
  case (Some g)
  obtain g1 s1 where u: "run_state (gpunvme_gpu_mem_unmap_all E g) s = (g1, s1)" by (metis surj_pair)
  then have "ks_dev_count s1 = ks_dev_count s"
    using unmap_all_loop_core[of E GPUNVME_MAX_GPU_MAPPINGS 0 g s g1 s1]
    by (auto simp: gpunvme_gpu_mem_unmap_all_def split: if_splits)
  then show ?thesis using Some u by (simp add: gpunvme_pci_remove_def gpunvme_chrdev_destroy_def)
qed (simp add: gpunvme_pci_remove_def)

text \<open>A device that comes and goes.\<close>

definition plug_cycle :: "kenv \<Rightarrow> unit kern" where
  "plug_cycle E = do {
     (_, d) \<leftarrow> gpunvme_pci_probe E;
     _ \<leftarrow> gpunvme_pci_remove E d;
     State_Monad.return ()
   }"

lemma plug_cycle_count:
  assumes "\<forall>h. ke_kzalloc E h" "gpunvme_get_target_bdf E = None \<or> gpunvme_get_target_bdf E = Some (ke_dev_name E)"
  shows "ks_dev_count (((\<lambda>s. snd (run_state (plug_cycle E) s)) ^^ n) s) = ks_dev_count s + of_nat n"
proof (induction n)
  case (Suc n)
  have "ks_dev_count (snd (run_state (plug_cycle E) t)) = ks_dev_count t + 1" for t
  proof -
    obtain ret d s1 where p: "run_state (gpunvme_pci_probe E) t = ((ret, d), s1)" by (metis surj_pair)
    obtain d' s2 where "run_state (gpunvme_pci_remove E d) s1 = (d', s2)" by (metis surj_pair)
    then show ?thesis using probe_count[OF assms, of t] remove_count[of E d s1] p by (simp add: plug_cycle_def)
  qed
  then show ?case using Suc by (simp add: ac_simps)
qed simp

lemma plug_cycle_held:
  assumes "kernel_contract E" "p2p_contract E"
  shows "mset (kheld_in (((\<lambda>s. snd (run_state (plug_cycle E) s)) ^^ n) s)) = mset (kheld_in s)"
proof (induction n)
  case (Suc n)
  have "mset (kheld_in (snd (run_state (plug_cycle E) t))) = mset (kheld_in t)" for t
    using assms(1)
  proof (cases rule: probe_cases[where s = t])
    case (failed ret s')
    then show ?thesis by (simp add: plug_cycle_def gpunvme_pci_remove_def)
  next
    case (bound g s')
    have fresh: "maps_wf g" "\<forall>m \<in> set (gd_gpu_maps g). \<not> gm_in_use m"
      using gdev_zero_maps bound(2) by (simp_all add: bound_device_def maps_wf_def)
    then have "bound_inv E g (mset (kheld_in t) + device_res g) (g, s')"
      using bound(3) maps_res_free[OF fresh(2)] by (simp add: bound_inv_def gpu_inv_def)
    moreover obtain d s2 where "run_state (gpunvme_pci_remove E (Some g)) s' = (d, s2)" by (metis surj_pair)
    ultimately show ?thesis using remove_releases[of E g "mset (kheld_in t)" g s'] bound(1,2)
      by (simp add: plug_cycle_def bound_device_def)
  qed
  then show ?case using Suc by simp
qed simp

text \<open>The module serves at most four bindings in its life, not four devices at a time: the counter of
  devices is never decreased, so after four times binding and unbinding (even the same device, and
  although nothing is left allocated) every further probe is refused with -ENOSPC and no device.\<close>

theorem probe_limit:
  assumes "\<forall>h. ke_kzalloc E h" "gpunvme_get_target_bdf E = None \<or> gpunvme_get_target_bdf E = Some (ke_dev_name E)"
    and "kernel_contract E" "p2p_contract E" "ks_dev_count s = 0" "4 \<le> n" "n < 2 ^ 31"
  shows "let t = ((\<lambda>s. snd (run_state (plug_cycle E) s)) ^^ n) s
    in mset (kheld_in t) = mset (kheld_in s) \<and> fst (run_state (gpunvme_pci_probe E) t) = (- ENOSPC, None)"
proof -
  let ?t = "((\<lambda>s. snd (run_state (plug_cycle E) s)) ^^ n) s"
  have "ks_dev_count ?t = of_nat n" using plug_cycle_count[OF assms(1,2), of n s] assms(5) by simp
  moreover have "sint (of_nat n :: u32) = int n"
    using assms(7) by (simp add: sint_uint uint_nat unat_of_nat signed_take_bit_int_eq_self)
  ultimately have "sint (ks_dev_count ?t) \<ge> GPUNVME_MAX_DEVICES" using assms(6) by (simp add: GPUNVME_MAX_DEVICES_def)
  then have "fst (run_state (gpunvme_pci_probe E) ?t) = (- ENOSPC, None)"
    using assms(1,2) by (auto simp: gpunvme_pci_probe_def err_free_def Let_def)
  then show ?thesis using plug_cycle_held[OF assms(3,4)] by simp
qed

theorem probe_limit_witness:
  "fst (run_state (gpunvme_pci_probe example_kernel)
     (((\<lambda>s. snd (run_state (plug_cycle example_kernel) s)) ^^ 4) kstate_zero)) = (- ENOSPC, None)"
proof -
  have "\<forall>h. ke_kzalloc example_kernel h" "gpunvme_get_target_bdf example_kernel = None" "kernel_contract example_kernel"
    by (simp_all add: example_kernel_def gpunvme_get_target_bdf_def kernel_contract_def)
  from probe_limit[OF this(1) disjI1[OF this(2)] this(3) example_kernel_p2p(1), of kstate_zero 4] show ?thesis
    by (simp add: kstate_zero_def Let_def)
qed

end
