(* ===== verification/Spec2Isabelle.thy ===== *)
theory Spec2Isabelle
  imports Queue_Steps Bench_Session Bar_Map Monitor Kmod_Pci
begin

text \<open>
  A verification development for gpu-nvme-direct: GPU kernels that drive an NVMe controller
  through submission and completion queues in memory, without the CPU in the I/O path.

  \<^bold>\<open>The program.\<close> The host side (\<^verbatim>\<open>src/host\<close>) finds a controller, maps its registers (BAR0), resets and
  enables it with an admin queue, and creates I/O queue pairs whose rings lie in pinned host memory and whose
  doorbells the GPU can write. A GPU kernel (\<^verbatim>\<open>src/device\<close>) then puts 64-byte commands into the submission ring,
  rings the doorbell behind a system fence, and polls the completion ring by its phase bit. The layer loader
  (\<^verbatim>\<open>src/host/layer_loader.cu\<close>) reads the weights of a neural network this way, many commands in flight, into host
  memory or through BAR1 into GPU memory. A simulator (\<^verbatim>\<open>src/sim\<close>) plays the controller in tests, and a kernel module
  (\<^verbatim>\<open>kmod\<close>) offers BAR0 and pinned GPU pages to processes.

  \<^bold>\<open>Theories and sources.\<close>
  \<^item> \<^verbatim>\<open>Prelude\<close>: fixed-width integers, bit fields, bytes, shared lemmas.
  \<^item> \<^verbatim>\<open>Nvme_Regs\<close> (\<^verbatim>\<open>nvme_regs.h\<close>, \<^verbatim>\<open>error.h\<close>): offsets, register unions as lists of bit fields (locale
    \<^verbatim>\<open>reg_layout\<close>, interpreted for all six), queue entries, status macros, doorbell offsets, error codes.
  \<^item> \<^verbatim>\<open>Nvme_Cmds\<close> (\<^verbatim>\<open>nvme_cmds.h\<close>): the command builders and their round trips.
  \<^item> \<^verbatim>\<open>Gpu_Queue\<close> (\<^verbatim>\<open>queue_state.cuh\<close>, \<^verbatim>\<open>mmio_ops.cuh\<close>, \<^verbatim>\<open>doorbell.cuh\<close>, \<^verbatim>\<open>sq_submit.cuh\<close>, \<^verbatim>\<open>cq_poll.cuh\<close>): the queue record, submission
    store by store with its fences, polling with clock and timeout; locale \<^verbatim>\<open>phase_ring\<close> for an index with a phase bit.
  \<^item> \<^verbatim>\<open>Nvme_Sim\<close> (\<^verbatim>\<open>src/sim\<close>): the simulated controller, its creation and destruction.
  \<^item> \<^verbatim>\<open>Controller_Contract\<close>: the locale \<^verbatim>\<open>nvme_controller\<close>, what kernels rely on of a controller.
    \<^verbatim>\<open>Queue_Protocol\<close> proves it of the simulator (interpretation \<^verbatim>\<open>sim_ctl\<close>); \<^verbatim>\<open>Queue_System\<close> is the transition system of
    kernel and simulator in any interleaving, with FIFO delivery, visibility of completions and distinct identifiers.
  \<^item> \<^verbatim>\<open>Block_Io\<close> (\<^verbatim>\<open>block_io.cu\<close>) and \<^verbatim>\<open>Layer_Read\<close> (\<^verbatim>\<open>gpu_layer_read\<close>): the kernels, proved within the contract to
    refine the sequential execution of their command plan, then instantiated with the simulator.
  \<^item> \<^verbatim>\<open>Host_Env\<close> (\<^verbatim>\<open>mmio.h\<close> and the calls of the operating system and CUDA), \<^verbatim>\<open>Dma_Alloc\<close> (\<^verbatim>\<open>dma_alloc.c\<close>), \<^verbatim>\<open>Controller\<close>
    (\<^verbatim>\<open>controller.c\<close>), \<^verbatim>\<open>Admin\<close> (\<^verbatim>\<open>admin.c\<close>), \<^verbatim>\<open>Io_Queue\<close> (\<^verbatim>\<open>io_queue.c\<close>): the host library.
  \<^item> \<^verbatim>\<open>Layer_Loader\<close>, \<^verbatim>\<open>Layer_Transfer\<close>, \<^verbatim>\<open>Loader_Setup\<close>, \<^verbatim>\<open>Bar1\<close>, \<^verbatim>\<open>Loader_Session\<close> (\<^verbatim>\<open>layer_loader.cu\<close>): the PRP entries and commands
    of a load, the load end to end, set-up and tear-down with all labels, finding GPU memory in BAR1, and the life of a
    loader as a step relation.
  \<^item> \<^verbatim>\<open>Pci_Util\<close> (\<^verbatim>\<open>pci_util.c\<close>), \<^verbatim>\<open>Bar_Map\<close> (\<^verbatim>\<open>bar_map.c\<close>), \<^verbatim>\<open>Monitor\<close> (\<^verbatim>\<open>monitor.c\<close>): device discovery, mapping of BAR0, the
    fatal-status monitor as two interleaved threads.
  \<^item> \<^verbatim>\<open>Kmod_Env\<close>, \<^verbatim>\<open>Kmod_Dma\<close>, \<^verbatim>\<open>Kmod_Chrdev\<close>, \<^verbatim>\<open>Kmod_Pci\<close> (\<^verbatim>\<open>kmod\<close>): the kernel module: GPU mappings, mmap and ioctls,
    probe and removal, loading.

  \<^bold>\<open>State and effects.\<close> Queue and loader structures are records with the fields of the C structures; integers have the
  width of the source and wrap. Memory shared by kernel and controller is the record \<^verbatim>\<open>qmem\<close>; device functions pass it along.
  Host code runs in the state monad over a history of the calls that leave the program; their answers are the parameter
  \<^verbatim>\<open>henv\<close> (\<^verbatim>\<open>file_env\<close>, \<^verbatim>\<open>bar1_env\<close>, \<^verbatim>\<open>pci_env\<close>, \<^verbatim>\<open>bar_env\<close>), functions of the history, so they may differ from call to call. What is
  held (memory, registrations, files) is computed from the history. The kernel module does the same over \<^verbatim>\<open>kenv\<close> and a log of
  acquired and returned resources. Errors are values: the error enumeration, \<^verbatim>\<open>option\<close> for NULL, negative numbers in the module.

  \<^bold>\<open>What the lemmas show.\<close> For every component: the effect of each operation on every branch, errors included; the resources
  before and after (set-up and tear-down balanced, failure paths exact); for loops, termination. Across components: commands and
  completions neither lost nor duplicated, data moved exactly, kernels refining their sequential specification, identifiers and
  doorbells disjoint, loads programming exactly the requested blocks and pages. Theorems about defects say what the code does
  instead: the wrapping range check of the simulator, the poll that spins at an exact timeout, discovery that finds nothing, the
  race between mapping and unmapping, the device counter that only grows.

  \<^bold>\<open>Bounds and fuel.\<close> Polling loops take the number of passes as fuel; with a timeout and an advancing clock timeout + 1 passes are
  enough (proved), otherwise the result \<open>None\<close> means that the loop has not returned. The waiting loops of the host count the milliseconds or
  microseconds of the source. The BAR1 scan visits at most 97 windows (24 GiB in steps of 256 MiB, plus one) of at most 129 probes,
  which is the bound of the code's own loops; submission loops terminate by measures on the words.

  \<^bold>\<open>Assumptions.\<close> The stores of one submission and one completion entry are single steps against the controller, which the
  fence and the phase bit justify: \<^verbatim>\<open>submission_order\<close> proves the order of the stores themselves. The controller
  is any function of the history on the host side, and any instance of the contract on the device side. Answers of CUDA, Linux
  and the NVIDIA driver are parameters with named hypotheses on what their documentation promises.

  \<^bold>\<open>Not modelled.\<close> Benchmarks, tools, tests and scripts: command lines, timing, printing and experiments around the modelled
  components. Messages. The 64-bit MMIO variants of the device, which have no caller. The PCI match table of the module, which the
  kernel evaluates. Memory ordering beyond the fences that the code issues.
\<close>

end
